(* ===== verification/Prelude.thy ===== *)
theory Prelude
  imports Complex_Main "HOL-Library.AList" "HOL-Library.List_Lexorder" "HOL-Library.Char_ord"
begin

text \<open>
  Shared vocabulary of the development: the Go types the components are written over
  (\<open>time.Time\<close>, \<open>time.Duration\<close>, strings, maps, results with an error), the collections
  of rewrite rules the component proofs use, and the generic lemmas on lists and
  association lists that several components need.

  Conventions. A Go \<open>int\<close> is an \<open>int\<close>; identifiers of type \<open>uint64\<close> are \<open>nat\<close>. A Go map is
  an association list with distinct keys, whose order stands for the unspecified iteration
  order of Go: \<open>map_of\<close> reads, \<open>AList.update\<close> stores, \<open>AList.delete\<close> deletes and \<open>length\<close> is
  \<open>len\<close>. A function with result type \<open>(T, error)\<close> returns a sum, with \<open>Inl\<close> for the error.
\<close>

named_theorems guards \<open>unfolding rules of the boolean guards of the code\<close>
named_theorems frames \<open>fields an operation does not write\<close>
named_theorems inv_intros \<open>an operation keeps an invariant\<close>

subsection \<open>Results with an error\<close>

type_synonym ('e, 'a) result = "'e + 'a"

text \<open>
  A statement that a database or another service fails is a branch chosen by a fault oracle,
  indexed by the message the code wraps the error in.
\<close>

type_synonym fault = "string \<Rightarrow> bool"

definition is_ok :: "('e, 'a) result \<Rightarrow> bool" where
  "is_ok r = (case r of Inl _ \<Rightarrow> False | Inr _ \<Rightarrow> True)"

lemma is_ok_simps [simp]: "is_ok (Inr x)" "\<not> is_ok (Inl e)"
  by (simp_all add: is_ok_def)

lemma is_ok_iff: "is_ok r \<longleftrightarrow> (\<exists>x. r = Inr x)"
  by (cases r) auto

lemma is_okE: "is_ok (fst p) \<Longrightarrow> (\<And>x y. p = (Inr x, y) \<Longrightarrow> thesis) \<Longrightarrow> thesis"
  by (cases p) (auto simp: is_ok_iff)

subsection \<open>Time\<close>

text \<open>
  A \<open>time.Time\<close> counts nanoseconds since the zero time of Go, so that \<open>IsZero\<close> is equality
  with 0; \<open>UTC\<close> does not change the instant. A \<open>time.Duration\<close> is a count of nanoseconds;
  \<open>Time.Sub\<close> saturates at the bounds of a signed 64-bit integer.
\<close>

type_synonym gotime = int
type_synonym duration = int

definition IsZero :: "gotime \<Rightarrow> bool" where
  "IsZero t = (t = 0)"

definition Sub :: "gotime \<Rightarrow> gotime \<Rightarrow> duration" where
  "Sub t u = max (- (2 ^ 63)) (min (2 ^ 63 - 1) (t - u))"

definition Truncate :: "gotime \<Rightarrow> duration \<Rightarrow> gotime" where
  "Truncate t d = (if d \<le> 0 then t else t - t mod d)"

abbreviation Microsecond :: duration where "Microsecond \<equiv> 1000"
abbreviation Millisecond :: duration where "Millisecond \<equiv> 1000000"
abbreviation Second :: duration where "Second \<equiv> 1000000000"
abbreviation Minute :: duration where "Minute \<equiv> 60000000000"

lemma Sub_nonneg: "u \<le> t \<Longrightarrow> 0 \<le> Sub t u"
  by (simp add: Sub_def)

lemma Sub_pos: "u < t \<Longrightarrow> 0 < Sub t u"
  by (simp add: Sub_def)

lemma Sub_mono: "t \<le> t' \<Longrightarrow> Sub t u \<le> Sub t' u"
  by (simp add: Sub_def)

lemma Sub_self [simp]: "Sub t t = 0"
  by (simp add: Sub_def)

lemma Sub_ge_iff: "0 < d \<Longrightarrow> d < 2 ^ 63 \<Longrightarrow> d \<le> Sub t u \<longleftrightarrow> u + d \<le> t"
  by (auto simp: Sub_def)

lemma Truncate_le: "Truncate t d \<le> t"
  by (simp add: Truncate_def)

subsection \<open>Strings\<close>

definition is_lower :: "char \<Rightarrow> bool" where
  "is_lower c = (CHR ''a'' \<le> c \<and> c \<le> CHR ''z'')"

definition is_upper :: "char \<Rightarrow> bool" where
  "is_upper c = (CHR ''A'' \<le> c \<and> c \<le> CHR ''Z'')"

definition is_digit :: "char \<Rightarrow> bool" where
  "is_digit c = (CHR ''0'' \<le> c \<and> c \<le> CHR ''9'')"

text \<open>\<open>strings.TrimSpace\<close> on the ASCII white space characters.\<close>

definition is_space :: "char \<Rightarrow> bool" where
  "is_space c = (c \<in> {CHR '' '', CHR 0x09, CHR 0x0A, CHR 0x0B, CHR 0x0C, CHR 0x0D})"

definition TrimSpace :: "string \<Rightarrow> string" where
  "TrimSpace s = rev (dropWhile is_space (rev (dropWhile is_space s)))"

text \<open>\<open>strconv.Itoa\<close> and \<open>strconv.FormatUint(_, 10)\<close>.\<close>

fun digits :: "nat \<Rightarrow> string" where
  "digits n = (if n < 10 then [char_of (48 + n)]
     else digits (n div 10) @ [char_of (48 + n mod 10)])"

declare digits.simps [simp del]

definition Itoa :: "int \<Rightarrow> string" where
  "Itoa i = (if i < 0 then CHR ''-'' # digits (nat (- i)) else digits (nat i))"

text \<open>Reading the digits back; the left inverse of \<open>digits\<close>.\<close>

definition undigits :: "string \<Rightarrow> nat" where
  "undigits s = foldl (\<lambda>a c. 10 * a + (of_char c - 48)) 0 s"

lemma undigits_snoc: "undigits (s @ [c]) = 10 * undigits s + (of_char c - 48)"
  by (simp add: undigits_def)

lemma undigits_digits [simp]: "undigits (digits n) = n"
proof (induction n rule: digits.induct)
  case (1 n)
  show ?case
  proof (cases "n < 10")
    case True
    then show ?thesis by (subst digits.simps) (simp add: undigits_def)
  next
    case False
    then have "undigits (digits n) = 10 * undigits (digits (n div 10)) + n mod 10"
      by (subst digits.simps) (simp add: undigits_snoc)
    with False 1 show ?thesis by simp
  qed
qed

lemma digits_inj [simp]: "digits m = digits n \<longleftrightarrow> m = n"
  by (metis undigits_digits)

lemma digits_nonempty [simp]: "digits n \<noteq> []"
  by (subst digits.simps) simp

lemma is_digit_char_of: "n < 10 \<Longrightarrow> is_digit (char_of (48 + n :: nat))"
  by (simp add: is_digit_def less_eq_char_def)

lemma digits_are_digits: "c \<in> set (digits n) \<Longrightarrow> is_digit c"
proof (induction n rule: digits.induct)
  case (1 n)
  then show ?case
    by (cases "n < 10") (auto simp: digits.simps [of n] is_digit_char_of)
qed

lemma minus_not_digit [simp]: "\<not> is_digit (CHR ''-'')"
  by (simp add: is_digit_def less_eq_char_def)

lemma Itoa_inj [simp]: "Itoa i = Itoa j \<longleftrightarrow> i = j"
proof -
  have "hd (digits n) \<noteq> CHR ''-''" for n
    using digits_are_digits [of "hd (digits n)" n] hd_in_set [of "digits n"]
    by (metis digits_nonempty minus_not_digit)
  then have "CHR ''-'' # s \<noteq> digits n" for s n
    by (metis list.sel(1))
  then show ?thesis
    by (auto simp: Itoa_def dest: sym)
qed

subsection \<open>Association lists as Go maps\<close>

definition keys :: "('k \<times> 'v) list \<Rightarrow> 'k list" where
  "keys m = map fst m"

definition wf_map :: "('k \<times> 'v) list \<Rightarrow> bool" where
  "wf_map m = distinct (keys m)"

lemma keys_update: "set (keys (AList.update k v m)) = insert k (set (keys m))"
  by (simp add: keys_def dom_update)

lemma wf_map_empty [simp]: "wf_map []"
  by (simp add: wf_map_def keys_def)

lemma wf_map_update [simp]: "wf_map m \<Longrightarrow> wf_map (AList.update k v m)"
  by (simp add: wf_map_def keys_def distinct_update)

lemma wf_map_delete [simp]: "wf_map m \<Longrightarrow> wf_map (AList.delete k m)"
  by (simp add: wf_map_def keys_def distinct_delete)

lemma wf_map_filter [simp]: "wf_map m \<Longrightarrow> wf_map (filter P m)"
  by (simp add: wf_map_def keys_def distinct_map_filter)

lemma map_of_update [simp]: "map_of (AList.update k v m) = (map_of m)(k \<mapsto> v)"
  by (simp add: update_conv')

lemma map_of_delete [simp]: "map_of (AList.delete k m) = (map_of m)(k := None)"
  by (simp add: delete_conv')

lemma delete_filter: "AList.delete k m = filter (\<lambda>p. fst p \<noteq> k) m"
  by (induction m) auto

lemma set_delete: "set (AList.delete k m) = {p \<in> set m. fst p \<noteq> k}"
  by (auto simp: delete_filter)

lemma update_absent: "k \<notin> fst ` set m \<Longrightarrow> AList.update k v m = m @ [(k, v)]"
  by (induction m) auto

lemma length_update: "length (AList.update k v m) =
    (if k \<in> set (keys m) then length m else Suc (length m))"
  by (induction m) (auto simp: keys_def)

lemma length_delete: "wf_map m \<Longrightarrow> length (AList.delete k m) =
    (if k \<in> set (keys m) then length m - 1 else length m)"
proof (induction m)
  case (Cons p m)
  have idem: "k \<notin> set (keys m) \<Longrightarrow> AList.delete k m = m"
    by (simp add: keys_def delete_idem)
  have ne: "k \<in> set (keys m) \<Longrightarrow> Suc (length m - Suc 0) = length m"
    by (cases m) (simp_all add: keys_def)
  obtain a b where p: "p = (a, b)" by fastforce
  show ?case
    using Cons idem ne by (cases "a = k") (simp_all add: wf_map_def keys_def p)
qed (simp add: keys_def)

lemma map_of_None_keys: "map_of m k = None \<longleftrightarrow> k \<notin> set (keys m)"
  by (simp add: keys_def map_of_eq_None_iff)

lemma map_of_filter_wf: "wf_map m \<Longrightarrow>
    map_of (filter P m) k = (case map_of m k of None \<Rightarrow> None
      | Some v \<Rightarrow> if P (k, v) then Some v else None)"
  by (induction m) (auto simp: wf_map_def keys_def map_of_eq_None_iff image_iff
      split: option.splits)

lemma map_of_in_set: "wf_map m \<Longrightarrow> (k, v) \<in> set m \<Longrightarrow> map_of m k = Some v"
  by (simp add: wf_map_def keys_def)

subsection \<open>Lists of rows\<close>

lemma sort_key_hd_least:
  assumes "sort_key f xs = x # ys" "y \<in> set xs"
  shows "f x \<le> f y"
proof -
  have "sorted (map f (x # ys))" using assms(1) by (metis sorted_sort_key)
  moreover have "y \<in> set (x # ys)" using assms by (metis set_sort)
  ultimately show ?thesis by auto
qed

lemma sort_key_Nil: "sort_key f xs = [] \<longleftrightarrow> xs = []"
  by (metis length_0_conv length_sort)

lemma distinct_key_filter: "distinct (map k xs) \<Longrightarrow> x \<in> set xs \<Longrightarrow> filter (\<lambda>y. k y = k x) xs = [x]"
proof (induction xs)
  case (Cons z xs)
  show ?case
  proof (cases "x = z")
    case True
    then have "filter (\<lambda>y. k y = k x) xs = []" using Cons.prems(1) by (force simp: filter_empty_conv image_iff)
    then show ?thesis using True by simp
  next
    case False
    then show ?thesis using Cons by auto
  qed
qed simp

lemma find_append: "find P (xs @ ys) = (case find P xs of None \<Rightarrow> find P ys | Some x \<Rightarrow> Some x)"
  by (induction xs) auto

lemma map_sum_Inr: "map_sum f g s = Inr y \<longleftrightarrow> (\<exists>x. s = Inr x \<and> y = g x)"
  by (cases s) auto

lemma map_insort_key: "map f (insort_key f x xs) = insort (f x) (map f xs)"
  by (induction xs) auto

lemma map_sort_key: "map f (sort_key f xs) = sort (map f xs)"
  by (induction xs) (simp_all add: map_insort_key)

lemma foldl_max_ge: "a \<le> foldl max a xs" for a :: "'a :: linorder"
proof (induction xs arbitrary: a)
  case (Cons x xs)
  have "a \<le> max a x" by simp
  also have "... \<le> foldl max (max a x) xs" by (rule Cons.IH)
  finally show ?case by simp
qed simp

end
