(* ===== verification/Float64.thy ===== *)
theory Float64
  imports Prelude "HOL-Library.Log_Nat"
begin

text \<open>
  The \<open>float64\<close> arithmetic of Go. A finite value is the rational number it denotes, and an
  operation is the exact rational operation followed by \<open>fl\<close>, the rounding of IEEE 754
  binary64: to nearest, ties to even, with a 53-bit significand and gradual underflow down
  to \<open>2 powi -1074\<close>. Overflow to infinity and NaN are outside the model: every value the
  modelled code computes is bounded by the loads, weights and durations it starts from.
  Operations are not fused, as on amd64.

  The locale \<open>rounding\<close> is the contract the components rely on (the rounding is monotone,
  odd and exact on integers of at most 53 bits); \<open>f64\<close> interprets it on \<open>fl\<close>.
\<close>

subsection \<open>Rounding to binary64\<close>

definition round_half_even :: "rat \<Rightarrow> int" where
  "round_half_even r = (let n = \<lfloor>r\<rfloor>; d = r - of_int n in
     if d < 1 / 2 then n else if d > 1 / 2 then n + 1 else if even n then n else n + 1)"

definition magnitude :: "rat \<Rightarrow> int" where
  "magnitude x = (let (p, q) = quotient_of \<bar>x\<bar>; k = bitlen p - bitlen q in
     if 2 powi k \<le> \<bar>x\<bar> then k else k - 1)"

definition qexp :: "rat \<Rightarrow> int" where
  "qexp x = max (- 1074) (magnitude x - 52)"

definition fl :: "rat \<Rightarrow> rat" where
  "fl x = (if x = 0 then 0
     else of_int (round_half_even (x / 2 powi qexp x)) * 2 powi qexp x)"

subsection \<open>Conversions and functions of package math\<close>

definition float64 :: "int \<Rightarrow> rat" where
  "float64 n = fl (of_int n)"

text \<open>\<open>math.Round\<close> rounds half away from zero; \<open>math.Floor\<close> and \<open>math.Ceil\<close> are exact.\<close>

definition Round :: "rat \<Rightarrow> int" where
  "Round x = (if 0 \<le> x then \<lfloor>x + 1 / 2\<rfloor> else - \<lfloor>1 / 2 - x\<rfloor>)"

text \<open>Go divides integers towards zero.\<close>

definition gquot :: "int \<Rightarrow> int \<Rightarrow> int" where
  "gquot a b = sgn a * sgn b * (\<bar>a\<bar> div \<bar>b\<bar>)"

definition grem :: "int \<Rightarrow> int \<Rightarrow> int" where
  "grem a b = a - b * gquot a b"

text \<open>\<open>Duration.Seconds\<close>: whole seconds and the rest are converted apart and added.\<close>

definition Seconds :: "duration \<Rightarrow> rat" where
  "Seconds d = fl (float64 (gquot d Second) + fl (float64 (grem d Second) / 1000000000))"

subsection \<open>Rounding to an integer\<close>

lemma round_half_even_of_int [simp]: "round_half_even (of_int n) = n"
  by (simp add: round_half_even_def)

lemma round_half_even_mono: "x \<le> y \<Longrightarrow> round_half_even x \<le> round_half_even y"
proof (cases "\<lfloor>x\<rfloor> = \<lfloor>y\<rfloor>")
  case True
  moreover assume "x \<le> y"
  ultimately show ?thesis by (auto simp: round_half_even_def Let_def)
next
  case False
  moreover assume "x \<le> y"
  ultimately have "\<lfloor>x\<rfloor> + 1 \<le> \<lfloor>y\<rfloor>"
    using floor_mono [of x y] by linarith
  then show ?thesis by (auto simp: round_half_even_def Let_def)
qed

lemma round_half_even_minus: "round_half_even (- x) = - round_half_even x"
proof (cases "x \<in> \<int>")
  case True
  then obtain n where "x = of_int n" by (elim Ints_cases)
  then have "- x = of_int (- n)" "x = of_int n" by simp_all
  then show ?thesis by (metis round_half_even_of_int)
next
  case False
  then have fl: "\<lfloor>- x\<rfloor> = - \<lfloor>x\<rfloor> - 1"
    by (simp add: floor_minus ceiling_altdef) (metis Ints_of_int)
  have d: "- x - of_int \<lfloor>- x\<rfloor> = 1 - (x - of_int \<lfloor>x\<rfloor>)"
    by (simp add: fl)
  show ?thesis
    unfolding round_half_even_def Let_def d fl by (auto simp: field_simps)
qed

lemma Round_of_int [simp]: "Round (of_int n) = n"
proof -
  have "\<lfloor>of_int n + 1 / 2 :: rat\<rfloor> = n" by linarith
  moreover have "\<lfloor>1 / 2 - of_int n :: rat\<rfloor> = - n" by linarith
  ultimately show ?thesis by (simp add: Round_def)
qed

lemma Round_mono: "x \<le> y \<Longrightarrow> Round x \<le> Round y"
proof (cases "0 \<le> x")
  case True
  moreover assume "x \<le> y"
  ultimately show ?thesis by (simp add: Round_def floor_mono)
next
  case False
  assume "x \<le> y"
  show ?thesis
  proof (cases "0 \<le> y")
    case True
    have "0 \<le> \<lfloor>1 / 2 - x\<rfloor>" "0 \<le> \<lfloor>y + 1 / 2\<rfloor>"
      using False True by simp_all
    then have "- \<lfloor>1 / 2 - x\<rfloor> \<le> \<lfloor>y + 1 / 2\<rfloor>" by linarith
    then show ?thesis using False True by (simp only: Round_def if_True if_False)
  next
    case neg: False
    have "\<lfloor>1 / 2 - y\<rfloor> \<le> \<lfloor>1 / 2 - x\<rfloor>"
      using \<open>x \<le> y\<close> by (intro floor_mono) simp
    then show ?thesis using False neg by (simp add: Round_def)
  qed
qed

lemma Round_bounds: "of_int a \<le> x \<Longrightarrow> x \<le> of_int b \<Longrightarrow> a \<le> Round x \<and> Round x \<le> b"
  using Round_mono [of "of_int a" x] Round_mono [of x "of_int b"] by simp

lemma Round_error: "\<bar>of_int (Round x) - x\<bar> \<le> 1 / 2"
proof (cases "0 \<le> x")
  case True
  have "of_int \<lfloor>x + 1 / 2\<rfloor> \<le> x + 1 / 2" "x + 1 / 2 < of_int \<lfloor>x + 1 / 2\<rfloor> + 1"
    by linarith+
  then show ?thesis unfolding Round_def if_P [OF True] by linarith
next
  case False
  have "of_int \<lfloor>1 / 2 - x\<rfloor> \<le> 1 / 2 - x" "1 / 2 - x < of_int \<lfloor>1 / 2 - x\<rfloor> + 1"
    by linarith+
  then show ?thesis unfolding Round_def if_not_P [OF False] of_int_minus by linarith
qed

subsection \<open>The exponent of a rational\<close>

lemma powi_2_pos [simp]: "0 < (2 :: rat) powi k"
  by (simp add: zero_less_power_int)

lemma powi_2_add: "(2 :: rat) powi (a + b) = 2 powi a * 2 powi b"
  by (simp add: power_int_add)

lemma powi_2_less: "(2 :: rat) powi a < 2 powi b \<longleftrightarrow> a < b"
  using power_int_strict_increasing [of a b "2 :: rat"] power_int_increasing [of b a "2 :: rat"]
  by (cases "a < b") auto

lemma powi_2_le: "(2 :: rat) powi a \<le> 2 powi b \<longleftrightarrow> a \<le> b"
  by (meson linorder_not_less powi_2_less)

lemma powi_2_nat: "0 \<le> k \<Longrightarrow> (2 :: rat) powi k = of_int (2 ^ nat k)"
  by (simp add: power_int_def)

lemma bitlen_powi:
  assumes "0 < p"
  shows "2 powi (bitlen p - 1) \<le> (of_int p :: rat)" "(of_int p :: rat) < 2 powi bitlen p"
proof -
  have b: "0 \<le> bitlen p - 1" "0 \<le> bitlen p"
    using assms bitlen_nonneg [of p] bitlen_eq_zero_iff [of p] by linarith+
  have "2 ^ nat (bitlen p - 1) \<le> p" "p < 2 ^ nat (bitlen p)"
    using bitlen_bounds [of p] assms by auto
  then show "2 powi (bitlen p - 1) \<le> (of_int p :: rat)" "(of_int p :: rat) < 2 powi bitlen p"
    unfolding powi_2_nat [OF b(1)] powi_2_nat [OF b(2)] by linarith+
qed

lemma magnitude_bounds:
  assumes "x \<noteq> 0"
  shows "2 powi magnitude x \<le> \<bar>x\<bar>" "\<bar>x\<bar> < 2 powi (magnitude x + 1)"
proof -
  obtain p q where pq: "quotient_of \<bar>x\<bar> = (p, q)" by fastforce
  then have q: "0 < q" and x: "\<bar>x\<bar> = of_int p / of_int q"
    by (simp_all add: quotient_of_denom_pos quotient_of_div)
  have p: "0 < p"
  proof -
    have "0 < (of_int p / of_int q :: rat)" using assms x by (metis zero_less_abs_iff)
    then show ?thesis using q by (simp add: zero_less_divide_iff)
  qed
  let ?k = "bitlen p - bitlen q"
  have "\<bar>x\<bar> < 2 powi bitlen p / 2 powi (bitlen q - 1)"
    unfolding x using p q bitlen_powi by (intro frac_less) auto
  also have "\<dots> = 2 powi (?k + 1)"
    using powi_2_add [of "?k + 1" "bitlen q - 1"] by (simp add: divide_eq_eq)
  finally have ub: "\<bar>x\<bar> < 2 powi (?k + 1)" .
  have "2 powi (?k - 1) = 2 powi (bitlen p - 1) / (2 powi bitlen q :: rat)"
    using powi_2_add [of "?k - 1" "bitlen q"] by (simp add: eq_divide_eq)
  also have "\<dots> \<le> \<bar>x\<bar>"
    unfolding x using p q bitlen_powi by (intro frac_le) (auto intro: less_imp_le)
  finally have lb: "2 powi (?k - 1) \<le> \<bar>x\<bar>" .
  show "2 powi magnitude x \<le> \<bar>x\<bar>" "\<bar>x\<bar> < 2 powi (magnitude x + 1)"
    using ub lb by (auto simp: magnitude_def pq Let_def)
qed

lemma magnitude_minus [simp]: "magnitude (- x) = magnitude x"
  by (simp add: magnitude_def)

lemma qexp_minus [simp]: "qexp (- x) = qexp x"
  by (simp add: qexp_def)

lemma magnitude_mono:
  assumes "0 < x" "x \<le> y"
  shows "magnitude x \<le> magnitude y"
proof -
  have "2 powi magnitude x \<le> \<bar>x\<bar>" "\<bar>y\<bar> < 2 powi (magnitude y + 1)"
    using magnitude_bounds(1) [of x] magnitude_bounds(2) [of y] assms by simp_all
  then have "2 powi magnitude x < (2 powi (magnitude y + 1) :: rat)"
    using assms by linarith
  then show ?thesis by (simp add: powi_2_less)
qed

subsection \<open>The laws of the rounding\<close>

lemma fl_0 [simp]: "fl 0 = 0"
  by (simp add: fl_def)

lemma fl_minus: "fl (- x) = - fl x"
  by (simp add: fl_def round_half_even_minus)

lemma fl_le_multiple:
  assumes "x \<noteq> 0" "x \<le> of_int n * 2 powi qexp x"
  shows "fl x \<le> of_int n * 2 powi qexp x"
proof -
  have "x / 2 powi qexp x \<le> of_int n"
    using assms by (simp add: pos_divide_le_eq)
  then have "round_half_even (x / 2 powi qexp x) \<le> n"
    using round_half_even_mono by fastforce
  then show ?thesis using assms by (simp add: fl_def)
qed

lemma fl_ge_multiple:
  assumes "x \<noteq> 0" "of_int n * 2 powi qexp x \<le> x"
  shows "of_int n * 2 powi qexp x \<le> fl x"
  using fl_le_multiple [of "- x" "- n"] assms by (simp add: fl_minus)

lemma powi_multiple: "k \<le> m \<Longrightarrow> (2 :: rat) powi m = of_int (2 ^ nat (m - k)) * 2 powi k"
  using powi_2_add [of "m - k" k] powi_2_nat [of "m - k"] by simp

lemma fl_pos_mono:
  assumes "0 < x" "x \<le> y"
  shows "fl x \<le> fl y"
proof (cases "qexp x = qexp y")
  case True
  have "x / 2 powi qexp x \<le> y / 2 powi qexp x"
    using assms by (intro divide_right_mono) auto
  then have "round_half_even (x / 2 powi qexp x) \<le> round_half_even (y / 2 powi qexp x)"
    by (rule round_half_even_mono)
  then show ?thesis using assms True by (simp add: fl_def)
next
  case False
  have "magnitude x \<le> magnitude y" by (rule magnitude_mono) fact+
  with False have m: "magnitude x < magnitude y" "qexp x \<le> magnitude y" "qexp y \<le> magnitude y"
    by (auto simp: qexp_def)
  have "\<bar>x\<bar> < 2 powi (magnitude x + 1)" "2 powi magnitude y \<le> \<bar>y\<bar>"
    using magnitude_bounds(2) [of x] magnitude_bounds(1) [of y] assms by simp_all
  moreover have "(2 :: rat) powi (magnitude x + 1) \<le> 2 powi magnitude y"
    using m by (simp add: powi_2_le)
  ultimately have "x \<le> 2 powi magnitude y" "2 powi magnitude y \<le> y"
    using assms by auto
  then have "fl x \<le> 2 powi magnitude y"
    using fl_le_multiple [of x "2 ^ nat (magnitude y - qexp x)"] assms
    unfolding powi_multiple [OF m(2)] by simp
  also have "\<dots> \<le> fl y"
    using fl_ge_multiple [of y "2 ^ nat (magnitude y - qexp y)"] assms
      \<open>2 powi magnitude y \<le> y\<close>
    unfolding powi_multiple [OF m(3)] by simp
  finally show ?thesis .
qed

lemma fl_nonneg: "0 \<le> x \<Longrightarrow> 0 \<le> fl x"
proof (cases "x = 0")
  case False
  moreover assume "0 \<le> x"
  ultimately show ?thesis using fl_ge_multiple [of x 0] by simp
qed simp

lemma fl_mono: "x \<le> y \<Longrightarrow> fl x \<le> fl y"
proof -
  assume le: "x \<le> y"
  consider "0 < x" | "x \<le> 0" "0 \<le> y" | "y < 0" using le by linarith
  then show ?thesis
  proof cases
    case 1
    then show ?thesis using le by (rule fl_pos_mono)
  next
    case 2
    then have "0 \<le> fl (- x)" "0 \<le> fl y" by (simp_all add: fl_nonneg)
    then show ?thesis by (simp add: fl_minus)
  next
    case 3
    then have "fl (- y) \<le> fl (- x)" using le by (intro fl_pos_mono) simp_all
    then show ?thesis by (simp add: fl_minus)
  qed
qed

lemma fl_dyadic:
  assumes "\<bar>n\<bar> < 2 ^ 53" "- 1074 \<le> k"
  shows "fl (of_int n * 2 powi k) = of_int n * 2 powi k"
proof (cases "n = 0")
  case False
  let ?x = "of_int n * 2 powi k :: rat"
  have nz: "?x \<noteq> 0" using False by simp
  have "2 powi magnitude ?x \<le> \<bar>?x\<bar>"
    using nz by (rule magnitude_bounds)
  also have "\<dots> < 2 ^ 53 * 2 powi k"
  proof -
    have "(of_int \<bar>n\<bar> :: rat) < 2 ^ 53"
      using assms(1) by (metis of_int_less_iff of_int_numeral of_int_power)
    then show ?thesis by (simp add: abs_mult)
  qed
  also have "\<dots> = 2 powi (53 + k)"
    using powi_2_nat [of 53] by (simp add: powi_2_add)
  finally have "magnitude ?x < 53 + k" by (simp add: powi_2_less)
  then have q: "qexp ?x \<le> k" using assms(2) by (simp add: qexp_def)
  have "?x / 2 powi qexp ?x = of_int (n * 2 ^ nat (k - qexp ?x))"
    using powi_multiple [OF q] by (simp add: divide_eq_eq)
  then have "round_half_even (?x / 2 powi qexp ?x) = n * 2 ^ nat (k - qexp ?x)"
    by (simp only: round_half_even_of_int)
  then show ?thesis
    using nz powi_multiple [OF q] by (simp only: fl_def if_False of_int_mult mult.assoc)
qed simp

lemma fl_of_int: "\<bar>n\<bar> \<le> 2 ^ 53 \<Longrightarrow> fl (of_int n) = of_int n"
proof -
  assume n: "\<bar>n\<bar> \<le> 2 ^ 53"
  have top: "fl (2 ^ 53) = 2 ^ 53"
    using fl_dyadic [of 1 53] by (simp add: power_int_def)
  consider "\<bar>n\<bar> < 2 ^ 53" | "n = 2 ^ 53" | "n = - (2 ^ 53)" using n by linarith
  then show ?thesis
  proof cases
    case 1
    then show ?thesis using fl_dyadic [of n 0] by simp
  next
    case 2
    then show ?thesis using top by simp
  next
    case 3
    then show ?thesis using top fl_minus [of "2 ^ 53"] by simp
  qed
qed

lemma round_half_even_error: "\<bar>of_int (round_half_even x) - x\<bar> \<le> 1 / 2"
proof -
  have "of_int \<lfloor>x\<rfloor> \<le> x" "x < of_int \<lfloor>x\<rfloor> + 1" by linarith+
  then show ?thesis by (auto simp: round_half_even_def Let_def)
qed

lemma fl_idem: "fl (fl x) = fl x"
proof (cases "x = 0")
  case False
  let ?q = "qexp x" and ?n = "round_half_even (x / 2 powi qexp x)"
  have f: "fl x = of_int ?n * 2 powi ?q" using False by (simp add: fl_def)
  have "\<bar>x\<bar> < 2 powi (magnitude x + 1)" by (rule magnitude_bounds(2) [OF False])
  also have "... \<le> 2 powi (53 + ?q)" unfolding powi_2_le by (simp add: qexp_def)
  finally have "\<bar>x\<bar> < of_int (2 ^ 53) * 2 powi ?q" by (simp add: powi_2_add)
  then have b: "\<bar>x / 2 powi ?q\<bar> \<le> of_int (2 ^ 53)" by (simp add: divide_le_eq)
  then have "?n \<le> round_half_even (of_int (2 ^ 53))" "round_half_even (of_int (- (2 ^ 53))) \<le> ?n"
    by (intro round_half_even_mono; linarith)+
  then have n: "\<bar>?n\<bar> \<le> 2 ^ 53" by (simp only: round_half_even_of_int)
  have q: "- 1074 \<le> ?q" by (simp add: qexp_def)
  have top: "fl (2 ^ 53 * 2 powi ?q) = 2 ^ 53 * 2 powi ?q"
    using fl_dyadic [of 1 "?q + 53"] q by (simp add: powi_2_add mult.commute)
  consider "\<bar>?n\<bar> < 2 ^ 53" | "?n = 2 ^ 53" | "?n = - (2 ^ 53)" using n by linarith
  then show ?thesis
  proof cases
    case 1
    then show ?thesis unfolding f by (rule fl_dyadic) (rule q)
  next
    case 2
    then show ?thesis unfolding f using top by simp
  next
    case 3
    then show ?thesis unfolding f using top fl_minus [of "2 ^ 53 * 2 powi ?q"] by simp
  qed
qed simp

lemma fl_error_below:
  assumes "0 \<le> y" "y < 2 ^ k"
  shows "fl y \<le> y + 2 ^ k / 2 ^ 54"
proof (cases "y = 0")
  case False
  have "(2 :: rat) powi magnitude y < 2 powi int k"
    using magnitude_bounds(1) [OF False] assms by (simp add: power_int_of_nat)
  then have "magnitude y < int k" by (simp only: powi_2_less)
  then have "qexp y \<le> int k - 53" by (simp add: qexp_def)
  then have u: "(2 :: rat) powi qexp y \<le> 2 powi (int k - 53)" by (simp only: powi_2_le)
  let ?u = "(2 :: rat) powi qexp y"
  have "of_int (round_half_even (y / ?u)) \<le> y / ?u + 1 / 2"
    using round_half_even_error [of "y / ?u"] by linarith
  then have "of_int (round_half_even (y / ?u)) * ?u \<le> (y / ?u + 1 / 2) * ?u"
    by (intro mult_right_mono) simp_all
  then have "fl y \<le> y + ?u / 2" using False by (simp add: fl_def distrib_right)
  also have "... \<le> y + 2 powi (int k - 53) / 2" using u by simp
  also have "... = y + 2 ^ k / 2 ^ 54"
    by (simp add: power_int_diff power_int_of_nat)
  finally show ?thesis .
qed simp

lemma fl_error_unit: "0 \<le> y \<Longrightarrow> y < 1 \<Longrightarrow> fl y \<le> y + 1 / 2 ^ 54"
  using fl_error_below [of y 0] by simp

lemma fl_error_upto:
  assumes "0 \<le> y" "y \<le> 2 ^ k" "k \<le> 53"
  shows "fl y \<le> y + 2 ^ k / 2 ^ 54"
proof (cases "y = 2 ^ k")
  case True
  have "\<bar>2 ^ k :: int\<bar> \<le> 2 ^ 53" using power_increasing [OF assms(3), of "2 :: int"] by simp
  then show ?thesis using fl_of_int [of "2 ^ k"] by (simp add: True)
qed (use assms fl_error_below [of y k] in auto)

lemma fl_above_one: "fl (1 + 1 / 2 ^ 53) = 1"
  by code_simp

subsection \<open>The contract of a rounding\<close>

locale rounding =
  fixes rnd :: "rat \<Rightarrow> rat"
  assumes rnd_mono: "x \<le> y \<Longrightarrow> rnd x \<le> rnd y"
    and rnd_int: "\<bar>n\<bar> \<le> 2 ^ 53 \<Longrightarrow> rnd (of_int n) = of_int n"
    and rnd_minus: "rnd (- x) = - rnd x"
begin

lemma rnd_0 [simp]: "rnd 0 = 0"
  using rnd_int [of 0] by simp

lemma rnd_1 [simp]: "rnd 1 = 1"
  using rnd_int [of 1] by simp

lemma rnd_nonneg: "0 \<le> x \<Longrightarrow> 0 \<le> rnd x"
  using rnd_mono [of 0 x] by simp

lemma rnd_le_int: "x \<le> of_int n \<Longrightarrow> \<bar>n\<bar> \<le> 2 ^ 53 \<Longrightarrow> rnd x \<le> of_int n"
  using rnd_mono [of x "of_int n"] by (simp add: rnd_int)

lemma rnd_ge_int: "of_int n \<le> x \<Longrightarrow> \<bar>n\<bar> \<le> 2 ^ 53 \<Longrightarrow> of_int n \<le> rnd x"
  using rnd_mono [of "of_int n" x] by (simp add: rnd_int)

lemma rnd_unit: "0 \<le> x \<Longrightarrow> x \<le> 1 \<Longrightarrow> 0 \<le> rnd x \<and> rnd x \<le> 1"
  using rnd_mono [of 0 x] rnd_mono [of x 1] by simp

text \<open>
  Scaling a value in \<open>{0..m}\<close> by 1000, rounding it to an integer and scaling it back, with
  a rounding after each operation, stays in \<open>{0..m}\<close>.
\<close>

lemma rnd_thousandths:
  assumes "0 \<le> x" "x \<le> of_int m" "1000 * m \<le> 2 ^ 53"
  shows "0 \<le> rnd (of_int (Round (rnd (x * 1000))) / 1000)"
    and "rnd (of_int (Round (rnd (x * 1000))) / 1000) \<le> of_int m"
proof -
  have m: "0 \<le> m" using assms(1,2) by linarith
  have "0 \<le> rnd (x * 1000)"
    using assms by (intro rnd_nonneg) simp
  moreover have "rnd (x * 1000) \<le> of_int (1000 * m)"
    using assms m by (intro rnd_le_int) simp_all
  ultimately have "0 \<le> Round (rnd (x * 1000)) \<and> Round (rnd (x * 1000)) \<le> 1000 * m"
    by (intro Round_bounds) simp_all
  then have "0 \<le> Round (rnd (x * 1000))" "of_int (Round (rnd (x * 1000))) \<le> (of_int (1000 * m) :: rat)"
    by (simp_all only: of_int_le_iff)
  then have "0 \<le> (of_int (Round (rnd (x * 1000))) / 1000 :: rat)"
    "of_int (Round (rnd (x * 1000))) / 1000 \<le> (of_int m :: rat)"
    by (simp_all add: pos_divide_le_eq)
  then show "0 \<le> rnd (of_int (Round (rnd (x * 1000))) / 1000)"
    "rnd (of_int (Round (rnd (x * 1000))) / 1000) \<le> of_int m"
    using assms m by (auto intro: rnd_nonneg rnd_le_int)
qed

end

interpretation f64: rounding fl
  by unfold_locales (auto simp: fl_mono fl_of_int fl_minus)

lemma float64_int: "\<bar>n\<bar> \<le> 2 ^ 53 \<Longrightarrow> float64 n = of_int n"
  by (simp add: float64_def fl_of_int)

lemma Seconds_nonneg: "0 \<le> d \<Longrightarrow> 0 \<le> Seconds d"
proof -
  assume d: "0 \<le> d"
  then have q: "gquot d Second = d div Second"
    by (cases "d = 0") (simp_all add: gquot_def)
  have "0 \<le> d div Second" "0 \<le> d - Second * (d div Second)"
    using d by (simp_all add: minus_mult_div_eq_mod)
  then have "0 \<le> gquot d Second" "0 \<le> grem d Second"
    by (simp_all only: grem_def q)
  then show ?thesis
    unfolding Seconds_def float64_def
    by (intro f64.rnd_nonneg add_nonneg_nonneg divide_nonneg_nonneg) simp_all
qed


lemma gquot_nonneg: "0 \<le> a \<Longrightarrow> 0 < b \<Longrightarrow> gquot a b = a div b"
  by (cases "a = 0") (simp_all add: gquot_def)

end
