(* ===== verification/Protocol.thy ===== *)
theory Protocol
  imports Float64
begin

text \<open>
  The messages exchanged between the platform and a lab application, from
  \<^verbatim>\<open>internal/protocol/traffic.go\<close>. Each struct is a record with one field per Go field, in the
  same order; a pointer is an option. Field names carry a prefix per struct, since the
  selectors of all records share one name space.
\<close>

record TrafficBatchRequest =
  rq_BatchID :: string
  rq_ProductID :: nat
  rq_RequestUnits :: int

record InstanceState =
  is_ProcessingSpeed :: int
  is_MaxLoad :: int
  is_CurrentLoad :: rat
  is_LoadRatio :: rat
  is_LoadState :: string
  is_ObservedAt :: gotime

record CacheProduct =
  cp_ID :: nat
  cp_Name :: string
  cp_Category :: string
  cp_Version :: int

record CacheTraceStep =
  ct_Layer :: string
  ct_Result :: string

record CacheDelta =
  cd_Scope :: string
  cd_InstanceID :: string
  cd_Operation :: string
  cd_ProductID :: nat
  cd_Reason :: string
  cd_Product :: "CacheProduct option"
  cd_ExpiresAt :: "gotime option"

record CacheResult =
  cr_ActualLookupCount :: int
  cr_Outcome :: string
  cr_ResolvedBy :: string
  cr_Trace :: "CacheTraceStep list"
  cr_Product :: "CacheProduct option"
  cr_SimulatedLatencyMS :: int
  cr_ObservedAt :: gotime
  cr_Deltas :: "CacheDelta list"

record TrafficBatchResult =
  tr_BatchID :: string
  tr_LabID :: string
  tr_Status :: string
  tr_OccurredAt :: gotime
  tr_Path :: "string list"
  tr_TargetInstanceID :: string
  tr_ReceivedUnits :: int
  tr_AcceptedUnits :: int
  tr_DroppedUnits :: int
  tr_InstanceState :: InstanceState
  tr_Cache :: "CacheResult option"

record CacheEntry =
  ce_Product :: CacheProduct
  ce_ExpiresAt :: gotime
  ce_LastAccessedAt :: "gotime option"
  ce_TTLMS :: int

record CacheInstanceState =
  ci_InstanceID :: string
  ci_Status :: string
  ci_ObservedAt :: gotime
  ci_Entries :: "CacheEntry list"

record CacheRedisState =
  rs_Status :: string
  rs_ObservedAt :: gotime
  rs_Entries :: "CacheEntry list"

record CacheState =
  cs_Catalog :: "CacheProduct list"
  cs_Instances :: "CacheInstanceState list"
  cs_Redis :: CacheRedisState

end
