(* ===== verification/LoadModel.thy ===== *)
theory LoadModel
  imports Protocol
begin

text \<open>
  The contract of the aggregate load model that both lab processors implement: a batch is
  split into accepted and dropped units against a load that drains at a fixed speed. The
  locale \<open>load_allocator\<close> states what one batch does; the lemmas proved inside it lift the
  contract to a sequence of batches. The order processor and the cache processor each
  interpret it on their own \<open>allocate\<close>.
\<close>

record load_config =
  lc_LabID :: string
  lc_InstanceID :: string
  lc_ProcessingSpeed :: int
  lc_MaxLoad :: int

text \<open>
  The bound \<open>2 ^ 43\<close> keeps \<open>1000 * MaxLoad\<close> an exact binary64 integer. The templates of the
  repository configure loads of at most a few thousand.
\<close>

definition load_config_ok :: "load_config \<Rightarrow> bool" where
  "load_config_ok c = (0 < lc_ProcessingSpeed c \<and> 0 < lc_MaxLoad c \<and> lc_MaxLoad c \<le> 2 ^ 43)"

definition load_ok :: "load_config \<Rightarrow> rat \<Rightarrow> bool" where
  "load_ok c l = (0 \<le> l \<and> l \<le> of_int (lc_MaxLoad c))"

text \<open>
  Accepted units, dropped units and the load after the batch, from the configuration, the
  load and the instant of the last update, the units of the batch and the present instant.
\<close>

locale load_allocator =
  fixes alloc :: "load_config \<Rightarrow> rat \<Rightarrow> gotime \<Rightarrow> int \<Rightarrow> gotime \<Rightarrow> int \<times> int \<times> rat"
  assumes alloc_split:
      "alloc c l t u now = (a, d, l') \<Longrightarrow> load_config_ok c \<Longrightarrow> load_ok c l \<Longrightarrow> 0 < u \<Longrightarrow>
       0 \<le> a \<and> 0 \<le> d \<and> a + d = u"
    and alloc_load_ok:
      "alloc c l t u now = (a, d, l') \<Longrightarrow> load_config_ok c \<Longrightarrow> load_ok c l \<Longrightarrow> 0 < u \<Longrightarrow>
       load_ok c l'"
    and alloc_saturates:
      "alloc c l t u now = (a, d, l') \<Longrightarrow> load_config_ok c \<Longrightarrow> load_ok c l \<Longrightarrow> 0 < u \<Longrightarrow>
       0 < d \<Longrightarrow> of_int (lc_MaxLoad c) - 1 \<le> l'"
begin

fun run_batches :: "load_config \<Rightarrow> rat \<Rightarrow> gotime \<Rightarrow> (int \<times> gotime) list \<Rightarrow> int \<times> int \<times> rat" where
  "run_batches c l t [] = (0, 0, l)"
| "run_batches c l t ((u, now) # bs) =
     (let (a, d, l') = alloc c l t u now; (a', d', l'') = run_batches c l' now bs
      in (a + a', d + d', l''))"

lemma run_batches_ok:
  assumes "load_config_ok c" "load_ok c l" "\<forall>(u, now) \<in> set bs. 0 < u"
    and "run_batches c l t bs = (a, d, l')"
  shows "0 \<le> a \<and> 0 \<le> d \<and> a + d = sum_list (map fst bs) \<and> load_ok c l'"
  using assms
proof (induction bs arbitrary: l t a d l')
  case (Cons b bs)
  obtain u now where b: "b = (u, now)" by fastforce
  obtain a1 d1 l1 where s: "alloc c l t u now = (a1, d1, l1)" by (metis prod_cases3)
  obtain a2 d2 l2 where r: "run_batches c l1 now bs = (a2, d2, l2)" by (metis prod_cases3)
  have u: "0 < u" using Cons.prems b by simp
  have h: "0 \<le> a1 \<and> 0 \<le> d1 \<and> a1 + d1 = u" "load_ok c l1"
    using alloc_split [OF s] alloc_load_ok [OF s] Cons.prems u by blast+
  have "0 \<le> a2 \<and> 0 \<le> d2 \<and> a2 + d2 = sum_list (map fst bs) \<and> load_ok c l2"
    using Cons.IH [OF _ h(2) _ r] Cons.prems by simp
  then show ?case using h Cons.prems(4) b s r by auto
qed simp

end

end
