(* ===== verification/OrderProcessor.thy ===== *)
theory OrderProcessor
  imports LoadModel
begin

text \<open>
  The order processor of a lab application: \<^verbatim>\<open>services/lab-app/internal/order\<close> and the product
  catalogue \<^verbatim>\<open>services/lab-app/internal/product\<close>. The catalogue and the statistics table of
  the lab database are the record \<open>labdb\<close>; a statement that the database fails is a branch
  chosen by the fault oracle \<open>db_fault\<close>, indexed by the message the code wraps the error in.
\<close>

datatype app_error = ErrInvalidBatch | ErrProductNotFound | ErrDatabase string


subsection \<open>The lab database\<close>

record Aggregate =
  ag_ProductID :: nat
  ag_InstanceID :: string
  ag_TimeBucket :: gotime
  ag_ReceivedUnits :: int
  ag_AcceptedUnits :: int
  ag_DroppedUnits :: int

type_synonym stat_key = "nat \<times> string \<times> gotime"

record labdb =
  products :: "CacheProduct list"
  order_stats :: "(stat_key \<times> int \<times> int \<times> int) list"

definition find_product :: "labdb \<Rightarrow> nat \<Rightarrow> CacheProduct option" where
  "find_product db pid = find (\<lambda>p. cp_ID p = pid) (products db)"

definition product_Get :: "fault \<Rightarrow> labdb \<Rightarrow> nat \<Rightarrow> (app_error, CacheProduct) result" where
  "product_Get flt db pid =
     (if pid = 0 then Inl ErrProductNotFound
      else if flt ''read product'' then Inl (ErrDatabase ''read product'')
      else case find_product db pid of
        None \<Rightarrow> Inl ErrProductNotFound
      | Some p \<Rightarrow> Inr p)"

definition product_List :: "fault \<Rightarrow> labdb \<Rightarrow> (app_error, CacheProduct list) result" where
  "product_List flt db =
     (if flt ''list products'' then Inl (ErrDatabase ''list products'')
      else Inr (sort_key cp_ID (products db)))"

definition product_Require :: "fault \<Rightarrow> labdb \<Rightarrow> nat \<Rightarrow> app_error option" where
  "product_Require flt db pid =
     (if pid = 0 then Some ErrProductNotFound
      else if flt ''read product'' then Some (ErrDatabase ''read product'')
      else case find_product db pid of
        None \<Rightarrow> Some ErrProductNotFound
      | Some _ \<Rightarrow> None)"

text \<open>\<open>INSERT ... ON DUPLICATE KEY UPDATE\<close> over the unique key of \<open>order_stats\<close>.\<close>

definition order_Add :: "fault \<Rightarrow> labdb \<Rightarrow> Aggregate \<Rightarrow> app_error option \<times> labdb" where
  "order_Add flt db v =
     (if flt ''add order aggregate'' then (Some (ErrDatabase ''add order aggregate''), db)
      else let key = (ag_ProductID v, ag_InstanceID v, ag_TimeBucket v);
               row = (case map_of (order_stats db) key of
                   None \<Rightarrow> (ag_ReceivedUnits v, ag_AcceptedUnits v, ag_DroppedUnits v)
                 | Some (r, a, d) \<Rightarrow>
                     (r + ag_ReceivedUnits v, a + ag_AcceptedUnits v, d + ag_DroppedUnits v))
           in (None, db\<lparr>order_stats := AList.update key row (order_stats db)\<rparr>))"

subsection \<open>The processor\<close>

record order_processor =
  op_config :: load_config
  op_currentLoad :: rat
  op_lastUpdatedAt :: gotime

definition NewProcessor :: "load_config \<Rightarrow> order_processor option" where
  "NewProcessor c =
     (if lc_LabID c = [] \<or> lc_InstanceID c = [] \<or> lc_ProcessingSpeed c \<le> 0 \<or> lc_MaxLoad c \<le> 0
      then None else Some \<lparr>op_config = c, op_currentLoad = 0, op_lastUpdatedAt = 0\<rparr>)"

definition roundThree :: "rat \<Rightarrow> rat" where
  "roundThree v = fl (of_int (Round (fl (v * 1000))) / 1000)"

definition loadState :: "rat \<Rightarrow> string" where
  "loadState r =
     (if r \<le> fl (3 / 10) then ''idle''
      else if r \<le> fl (7 / 10) then ''normal''
      else if r < 1 then ''high''
      else ''overloaded'')"

definition order_allocate ::
  "order_processor \<Rightarrow> TrafficBatchRequest \<Rightarrow> gotime \<Rightarrow> TrafficBatchResult \<times> rat" where
  "order_allocate p request now =
     (let c = op_config p;
          elapsedSeconds =
            (if \<not> IsZero (op_lastUpdatedAt p) \<and> op_lastUpdatedAt p < now
             then Seconds (Sub now (op_lastUpdatedAt p)) else 0);
          settledLoad =
            max 0 (fl (op_currentLoad p - fl (float64 (lc_ProcessingSpeed c) * elapsedSeconds)));
          available = max 0 (fl (float64 (lc_MaxLoad c) - settledLoad));
          availableUnits = \<lfloor>fl (available + fl (1 / 1000000000))\<rfloor>;
          accepted = min (rq_RequestUnits request) availableUnits;
          dropped = rq_RequestUnits request - accepted;
          nextLoad = min (float64 (lc_MaxLoad c)) (fl (settledLoad + float64 accepted));
          loadRatio = roundThree (fl (nextLoad / float64 (lc_MaxLoad c)));
          status = (if accepted = 0 then ''dropped''
                    else if dropped > 0 then ''partially_accepted'' else ''accepted'')
      in (\<lparr>tr_BatchID = rq_BatchID request, tr_LabID = lc_LabID c, tr_Status = status,
           tr_OccurredAt = now, tr_Path = [], tr_TargetInstanceID = lc_InstanceID c,
           tr_ReceivedUnits = rq_RequestUnits request, tr_AcceptedUnits = accepted,
           tr_DroppedUnits = dropped,
           tr_InstanceState =
             \<lparr>is_ProcessingSpeed = lc_ProcessingSpeed c, is_MaxLoad = lc_MaxLoad c,
              is_CurrentLoad = roundThree nextLoad, is_LoadRatio = loadRatio,
              is_LoadState = loadState loadRatio, is_ObservedAt = now\<rparr>,
           tr_Cache = None\<rparr>, nextLoad))"

text \<open>
  \<open>Process\<close>: the load moves only when the statistics were stored. The present instant is an
  argument, as the clock of the code is.
\<close>

definition order_Process ::
  "fault \<Rightarrow> gotime \<Rightarrow> order_processor \<Rightarrow> labdb \<Rightarrow> TrafficBatchRequest \<Rightarrow>
   (app_error, TrafficBatchResult) result \<times> order_processor \<times> labdb" where
  "order_Process flt now p db request =
     (if rq_BatchID request = [] \<or> rq_ProductID request = 0 \<or> rq_RequestUnits request \<le> 0
      then (Inl ErrInvalidBatch, p, db)
      else case product_Require flt db (rq_ProductID request) of
        Some e \<Rightarrow> (Inl e, p, db)
      | None \<Rightarrow>
         (let (result, nextLoad) = order_allocate p request now
          in case order_Add flt db
               \<lparr>ag_ProductID = rq_ProductID request, ag_InstanceID = lc_InstanceID (op_config p),
                ag_TimeBucket = Truncate now Second, ag_ReceivedUnits = tr_ReceivedUnits result,
                ag_AcceptedUnits = tr_AcceptedUnits result,
                ag_DroppedUnits = tr_DroppedUnits result\<rparr> of
            (Some e, db') \<Rightarrow> (Inl e, p, db')
          | (None, db') \<Rightarrow>
              (Inr result, p\<lparr>op_currentLoad := nextLoad, op_lastUpdatedAt := now\<rparr>, db')))"

subsection \<open>Lemmas on the parts of an allocation\<close>

lemma roundThree_bounds:
  "0 \<le> x \<Longrightarrow> x \<le> of_int m \<Longrightarrow> 1000 * m \<le> 2 ^ 53 \<Longrightarrow>
   0 \<le> roundThree x \<and> roundThree x \<le> of_int m"
  unfolding roundThree_def by (intro conjI f64.rnd_thousandths)

lemma loadState_cases:
  "loadState r \<in> {''idle'', ''normal'', ''high'', ''overloaded''}"
  by (simp add: loadState_def)

text \<open>What the shared arithmetic of an allocation yields, for any settled load in range.\<close>

definition alloc_core :: "int \<Rightarrow> rat \<Rightarrow> int \<Rightarrow> int \<times> int \<times> rat" where
  "alloc_core m settled u =
     (let available = max 0 (fl (float64 m - settled));
          accepted = min u \<lfloor>fl (available + fl (1 / 1000000000))\<rfloor>
      in (accepted, u - accepted, min (float64 m) (fl (settled + float64 accepted))))"

lemma fl_billionth: "0 \<le> fl (1 / 1000000000)"
  by (intro f64.rnd_nonneg) simp

lemma alloc_core_ok:
  assumes m: "0 < m" "m \<le> 2 ^ 43" and s: "0 \<le> s" "s \<le> of_int m" and u: "0 < u"
    and r: "alloc_core m s u = (a, d, l)"
  shows "0 \<le> a \<and> a \<le> u \<and> d = u - a" "0 \<le> l \<and> l \<le> of_int m"
    "0 < d \<Longrightarrow> of_int m - 1 \<le> l"
proof -
  let ?av = "max 0 (fl (float64 m - s))"
  let ?y = "fl (?av + fl (1 / 1000000000))"
  have fm: "float64 m = of_int m" using m by (intro float64_int) simp
  have a: "a = min u \<lfloor>?y\<rfloor>" and d: "d = u - a" and l: "l = min (of_int m) (fl (s + float64 a))"
    using r by (auto simp: alloc_core_def Let_def fm)
  have y0: "0 \<le> ?y" by (intro f64.rnd_nonneg add_nonneg_nonneg fl_billionth) simp
  then show "0 \<le> a \<and> a \<le> u \<and> d = u - a" using a d u by (auto simp: min_def)
  then have a0: "0 \<le> a" by simp
  then have "0 \<le> float64 a" by (auto simp: float64_def intro: f64.rnd_nonneg)
  then have "0 \<le> fl (s + float64 a)" using s by (intro f64.rnd_nonneg) simp
  then show "0 \<le> l \<and> l \<le> of_int m" using l m by auto
  assume "0 < d"
  then have f: "a = \<lfloor>?y\<rfloor>" using a d by (auto simp: min_def split: if_splits)
  show "of_int m - 1 \<le> l"
  proof (cases "m - 1 \<le> a")
    case True
    then have "a \<le> 2 ^ 53 \<Longrightarrow> float64 a = of_int a" using a0 by (intro float64_int) simp
    moreover have "of_int (m - 1) \<le> float64 a"
      unfolding float64_def using True m by (intro f64.rnd_ge_int) auto
    ultimately have "of_int (m - 1) \<le> s + float64 a" using s by simp
    then have "of_int (m - 1) \<le> fl (s + float64 a)" using m by (intro f64.rnd_ge_int) auto
    then show ?thesis using l by (auto simp: min_def)
  next
    case False
    then have fa: "float64 a = of_int a" using a0 m by (intro float64_int) simp
    have lt: "?y < of_int (a + 1)" using f by linarith
    have "\<not> of_int (a + 1) \<le> ?av"
    proof
      assume "of_int (a + 1) \<le> ?av"
      then have "of_int (a + 1) \<le> ?y"
        using fl_billionth False a0 m by (intro f64.rnd_ge_int) auto
      then show False using lt by linarith
    qed
    then have lt': "fl (of_int m - s) < of_int (a + 1)" by (simp add: fm)
    have "of_int m - s < of_int (a + 1)"
    proof (rule ccontr)
      assume "\<not> of_int m - s < of_int (a + 1)"
      then have "of_int (a + 1) \<le> fl (of_int m - s)"
        using False a0 m by (intro f64.rnd_ge_int) auto
      with lt' show False by linarith
    qed
    then have "of_int (m - 1) \<le> s + of_int a" by simp
    then have "of_int (m - 1) \<le> fl (s + float64 a)"
      unfolding fa using m by (intro f64.rnd_ge_int) auto
    then show ?thesis using l by (auto simp: min_def)
  qed
qed

text \<open>The load settles downwards and stays in range.\<close>

definition settle :: "int \<Rightarrow> rat \<Rightarrow> gotime \<Rightarrow> gotime \<Rightarrow> rat" where
  "settle speed l t now =
     max 0 (fl (l - fl (float64 speed *
       (if \<not> IsZero t \<and> t < now then Seconds (Sub now t) else 0))))"

lemma settle_ok:
  assumes "0 < speed" "0 \<le> l" "l \<le> of_int m" "0 < m" "m \<le> 2 ^ 43"
  shows "0 \<le> settle speed l t now" "settle speed l t now \<le> of_int m"
proof -
  have "0 \<le> fl (float64 speed *
       (if \<not> IsZero t \<and> t < now then Seconds (Sub now t) else 0))"
    using assms(1)
    by (intro f64.rnd_nonneg mult_nonneg_nonneg)
      (auto simp: float64_def intro: f64.rnd_nonneg intro!: Seconds_nonneg Sub_nonneg)
  then have "fl (l - fl (float64 speed *
       (if \<not> IsZero t \<and> t < now then Seconds (Sub now t) else 0))) \<le> of_int m"
    using assms by (intro f64.rnd_le_int) auto
  then show "0 \<le> settle speed l t now" "settle speed l t now \<le> of_int m"
    using assms by (auto simp: settle_def)
qed

lemma alloc_core_settle_ok:
  assumes r: "alloc_core (lc_MaxLoad c) (settle (lc_ProcessingSpeed c) l t now) u = (a, d, l')"
    and c: "load_config_ok c" and l: "load_ok c l" and u: "0 < u"
  shows "0 \<le> a \<and> 0 \<le> d \<and> a + d = u" "load_ok c l'"
    "0 < d \<Longrightarrow> of_int (lc_MaxLoad c) - 1 \<le> l'"
proof -
  have m: "0 < lc_MaxLoad c" "lc_MaxLoad c \<le> 2 ^ 43" and p: "0 < lc_ProcessingSpeed c"
    and b: "0 \<le> l" "l \<le> of_int (lc_MaxLoad c)"
    using c l by (auto simp: load_config_ok_def load_ok_def)
  note k = alloc_core_ok [OF m settle_ok [OF p b m] u r]
  show "0 \<le> a \<and> 0 \<le> d \<and> a + d = u" using k(1) by simp
  show "load_ok c l'" using k(2) by (simp add: load_ok_def)
  show "0 < d \<Longrightarrow> of_int (lc_MaxLoad c) - 1 \<le> l'" by (rule k(3))
qed

subsection \<open>The processor implements the load model\<close>

definition order_alloc ::
  "load_config \<Rightarrow> rat \<Rightarrow> gotime \<Rightarrow> int \<Rightarrow> gotime \<Rightarrow> int \<times> int \<times> rat" where
  "order_alloc c l t u now =
     (let (r, l') = order_allocate \<lparr>op_config = c, op_currentLoad = l, op_lastUpdatedAt = t\<rparr>
            \<lparr>rq_BatchID = [], rq_ProductID = 0, rq_RequestUnits = u\<rparr> now
      in (tr_AcceptedUnits r, tr_DroppedUnits r, l'))"

lemma order_alloc_core:
  "order_alloc c l t u now =
     alloc_core (lc_MaxLoad c) (settle (lc_ProcessingSpeed c) l t now) u"
  by (simp only: order_alloc_def order_allocate_def alloc_core_def settle_def Let_def prod.case
      order_processor.simps TrafficBatchResult.simps TrafficBatchRequest.simps)

interpretation order_load: load_allocator order_alloc
  by unfold_locales (auto simp only: order_alloc_core dest: alloc_core_settle_ok)

subsection \<open>What a batch does\<close>

definition stats_total :: "labdb \<Rightarrow> int \<times> int \<times> int" where
  "stats_total db = (sum_list (map (fst \<circ> snd) (order_stats db)),
     sum_list (map (fst \<circ> snd \<circ> snd) (order_stats db)),
     sum_list (map (snd \<circ> snd \<circ> snd) (order_stats db)))"

lemma sum_update:
  fixes f :: "'v \<Rightarrow> int"
  shows "wf_map m \<Longrightarrow> sum_list (map (f \<circ> snd) (AList.update k v m)) =
    sum_list (map (f \<circ> snd) m) + f v - (case map_of m k of None \<Rightarrow> 0 | Some w \<Rightarrow> f w)"
proof (induction m)
  case (Cons p m)
  then show ?case
    by (cases p) (auto simp: wf_map_def keys_def map_of_eq_None_iff split: option.splits)
qed simp

lemma order_Add_total:
  assumes "order_Add flt db v = (None, db')" "wf_map (order_stats db)"
  shows "stats_total db' = (let (r, a, d) = stats_total db in
      (r + ag_ReceivedUnits v, a + ag_AcceptedUnits v, d + ag_DroppedUnits v))"
    and "wf_map (order_stats db')"
proof -
  let ?k = "(ag_ProductID v, ag_InstanceID v, ag_TimeBucket v)"
  obtain row where db': "db' = db\<lparr>order_stats := AList.update ?k row (order_stats db)\<rparr>"
    and row: "row = (case map_of (order_stats db) ?k of
        None \<Rightarrow> (ag_ReceivedUnits v, ag_AcceptedUnits v, ag_DroppedUnits v)
      | Some (r, a, d) \<Rightarrow>
          (r + ag_ReceivedUnits v, a + ag_AcceptedUnits v, d + ag_DroppedUnits v))"
    using assms(1) by (auto simp: order_Add_def Let_def split: if_splits)
  show "wf_map (order_stats db')" using assms(2) by (simp add: db')
  show "stats_total db' = (let (r, a, d) = stats_total db in
      (r + ag_ReceivedUnits v, a + ag_AcceptedUnits v, d + ag_DroppedUnits v))"
    using sum_update [OF assms(2), of fst ?k row] sum_update [OF assms(2), of "fst \<circ> snd" ?k row]
      sum_update [OF assms(2), of "snd \<circ> snd" ?k row]
    by (auto simp: stats_total_def db' row comp_assoc split: option.splits)
qed

lemma order_allocate_alloc:
  "order_alloc (op_config p) (op_currentLoad p) (op_lastUpdatedAt p) (rq_RequestUnits rq) now =
   (tr_AcceptedUnits (fst (order_allocate p rq now)), tr_DroppedUnits (fst (order_allocate p rq now)),
    snd (order_allocate p rq now))"
  by (simp only: order_alloc_def order_allocate_def Let_def prod.case fst_conv snd_conv
      order_processor.simps TrafficBatchResult.simps TrafficBatchRequest.simps)

lemma order_Process_Inr:
  assumes "order_Process flt now p db rq = (Inr r, p', db')"
  shows "0 < rq_RequestUnits rq" "r = fst (order_allocate p rq now)"
    "p' = p\<lparr>op_currentLoad := snd (order_allocate p rq now), op_lastUpdatedAt := now\<rparr>"
    "order_Add flt db \<lparr>ag_ProductID = rq_ProductID rq, ag_InstanceID = lc_InstanceID (op_config p),
       ag_TimeBucket = Truncate now Second, ag_ReceivedUnits = tr_ReceivedUnits r,
       ag_AcceptedUnits = tr_AcceptedUnits r, ag_DroppedUnits = tr_DroppedUnits r\<rparr> = (None, db')"
proof -
  obtain x l where x: "order_allocate p rq now = (x, l)" by fastforce
  show "0 < rq_RequestUnits rq" "r = fst (order_allocate p rq now)"
    "p' = p\<lparr>op_currentLoad := snd (order_allocate p rq now), op_lastUpdatedAt := now\<rparr>"
    "order_Add flt db \<lparr>ag_ProductID = rq_ProductID rq, ag_InstanceID = lc_InstanceID (op_config p),
       ag_TimeBucket = Truncate now Second, ag_ReceivedUnits = tr_ReceivedUnits r,
       ag_AcceptedUnits = tr_AcceptedUnits r, ag_DroppedUnits = tr_DroppedUnits r\<rparr> = (None, db')"
    using assms x
    by (auto simp: order_Process_def split: if_splits option.splits prod.splits)
qed

text \<open>
  Claim C32. A batch that is processed is split into accepted and dropped units that add up to
  the requested units, it leaves the load of the instance between 0 and its maximum, it drops
  units only when the instance is left within one unit of its maximum, and the statistics table
  grows by exactly the units received, accepted and dropped.
\<close>

theorem order_Process_conserves:
  assumes "load_config_ok (op_config p)" "load_ok (op_config p) (op_currentLoad p)"
    "wf_map (order_stats db)" "order_Process flt now p db rq = (Inr r, p', db')"
  shows "0 \<le> tr_AcceptedUnits r \<and> 0 \<le> tr_DroppedUnits r \<and>
      tr_AcceptedUnits r + tr_DroppedUnits r = rq_RequestUnits rq \<and>
    load_ok (op_config p') (op_currentLoad p') \<and>
    (0 < tr_DroppedUnits r \<longrightarrow> of_int (lc_MaxLoad (op_config p)) - 1 \<le> op_currentLoad p') \<and>
    stats_total db' = (let (x, y, z) = stats_total db in
      (x + rq_RequestUnits rq, y + tr_AcceptedUnits r, z + tr_DroppedUnits r))"
proof -
  note parts = order_Process_Inr [OF assms(4)]
  have a: "order_alloc (op_config p) (op_currentLoad p) (op_lastUpdatedAt p) (rq_RequestUnits rq) now =
      (tr_AcceptedUnits r, tr_DroppedUnits r, op_currentLoad p')"
    using order_allocate_alloc parts(2,3) by simp
  have "tr_ReceivedUnits r = rq_RequestUnits rq"
    by (simp only: parts(2) order_allocate_def Let_def fst_conv TrafficBatchResult.simps)
  then show ?thesis
    using order_load.alloc_split [OF a assms(1,2) parts(1)]
      order_load.alloc_load_ok [OF a assms(1,2) parts(1)]
      order_load.alloc_saturates [OF a assms(1,2) parts(1)]
      order_Add_total(1) [OF parts(4) assms(3)] parts(3)
    by auto
qed

theorem order_Process_conserves_witness:
  "\<exists>r p' db'. order_Process (\<lambda>_. False) 5000000000
      \<lparr>op_config = \<lparr>lc_LabID = ''lab-1'', lc_InstanceID = ''app-1'', lc_ProcessingSpeed = 10,
         lc_MaxLoad = 100\<rparr>, op_currentLoad = 95, op_lastUpdatedAt = 5000000000\<rparr>
      \<lparr>products = [\<lparr>cp_ID = 1, cp_Name = ''a'', cp_Category = ''b'', cp_Version = 1\<rparr>],
       order_stats = []\<rparr>
      \<lparr>rq_BatchID = ''b-01'', rq_ProductID = 1, rq_RequestUnits = 10\<rparr> = (Inr r, p', db') \<and>
     tr_AcceptedUnits r + tr_DroppedUnits r = 10 \<and> op_currentLoad p' \<le> 100"
proof -
  let ?p = "\<lparr>op_config = \<lparr>lc_LabID = ''lab-1'', lc_InstanceID = ''app-1'', lc_ProcessingSpeed = 10,
      lc_MaxLoad = 100\<rparr>, op_currentLoad = 95, op_lastUpdatedAt = 5000000000\<rparr>"
  let ?db = "\<lparr>products = [\<lparr>cp_ID = 1, cp_Name = ''a'', cp_Category = ''b'', cp_Version = 1\<rparr>],
      order_stats = []\<rparr>"
  let ?rq = "\<lparr>rq_BatchID = ''b-01'', rq_ProductID = 1, rq_RequestUnits = 10\<rparr>"
  let ?now = "5000000000 :: int"
  obtain r p' db' where run: "order_Process (\<lambda>_. False) ?now ?p ?db ?rq = (Inr r, p', db')"
    by (simp add: order_Process_def product_Require_def find_product_def order_Add_def Let_def
        case_prod_beta)
  have "p' = ?p\<lparr>op_currentLoad := op_currentLoad p', op_lastUpdatedAt := ?now\<rparr>"
    using order_Process_Inr(3) [OF run] by simp
  then have "op_config p' = op_config ?p" by (metis order_processor.select_convs(1)
      order_processor.update_convs(2,3))
  then show ?thesis
    using run order_Process_conserves [OF _ _ _ run]
    by (auto simp: load_config_ok_def load_ok_def)
qed

text \<open>
  A batch that fails, for a malformed request, an unknown product or a database
  failure while reading the product or storing the statistics, changes neither the load of the
  instance nor the database.
\<close>

theorem order_Process_error_atomic:
  assumes "order_Process flt now p db rq = (Inl e, p', db')"
  shows "p' = p \<and> db' = db"
  using assms
  by (auto simp: order_Process_def order_Add_def Let_def split: if_splits option.splits prod.splits)

theorem order_Process_error_atomic_witness:
  "order_Process (\<lambda>m. m = ''add order aggregate'') 7
     \<lparr>op_config = \<lparr>lc_LabID = ''l'', lc_InstanceID = ''i'', lc_ProcessingSpeed = 1, lc_MaxLoad = 9\<rparr>,
      op_currentLoad = 0, op_lastUpdatedAt = 0\<rparr>
     \<lparr>products = [\<lparr>cp_ID = 1, cp_Name = ''a'', cp_Category = ''b'', cp_Version = 1\<rparr>],
      order_stats = []\<rparr>
     \<lparr>rq_BatchID = ''b-01'', rq_ProductID = 1, rq_RequestUnits = 10\<rparr> =
   (Inl (ErrDatabase ''add order aggregate''),
     \<lparr>op_config = \<lparr>lc_LabID = ''l'', lc_InstanceID = ''i'', lc_ProcessingSpeed = 1, lc_MaxLoad = 9\<rparr>,
      op_currentLoad = 0, op_lastUpdatedAt = 0\<rparr>,
     \<lparr>products = [\<lparr>cp_ID = 1, cp_Name = ''a'', cp_Category = ''b'', cp_Version = 1\<rparr>],
      order_stats = []\<rparr>)"
proof -
  let ?p = "\<lparr>op_config = \<lparr>lc_LabID = ''l'', lc_InstanceID = ''i'', lc_ProcessingSpeed = 1, lc_MaxLoad = 9\<rparr>,
      op_currentLoad = 0, op_lastUpdatedAt = 0\<rparr>"
  let ?db = "\<lparr>products = [\<lparr>cp_ID = 1, cp_Name = ''a'', cp_Category = ''b'', cp_Version = 1\<rparr>],
      order_stats = []\<rparr>"
  let ?rq = "\<lparr>rq_BatchID = ''b-01'', rq_ProductID = 1, rq_RequestUnits = 10\<rparr>"
  obtain p' db' where run: "order_Process (\<lambda>m. m = ''add order aggregate'') 7 ?p ?db ?rq =
      (Inl (ErrDatabase ''add order aggregate''), p', db')"
    by (simp add: order_Process_def product_Require_def find_product_def order_Add_def
        case_prod_beta)
  with order_Process_error_atomic [OF run] show ?thesis by simp
qed

end
