(* ===== verification/L1Store.thy ===== *)
theory L1Store
  imports Protocol
begin

text \<open>
  The process-local cache of \<^verbatim>\<open>services/lab-app/internal/cache/l1.go\<close>: a map from product
  identifiers to elements of a doubly linked recency list. The list is modelled with its
  element references, front first, and the map holds references into it, as the code does;
  \<open>l1_inv\<close> says that the two agree. \<open>lru_of\<close> forgets the references, and the operations refine
  the list operations \<open>lru_get\<close>, \<open>lru_put\<close> and \<open>lru_del\<close> through it. The contract a client
  relies on is the locale \<open>ttl_cache\<close>, interpreted as \<open>l1\<close>.
\<close>

record l1Value =
  lv_product :: CacheProduct
  lv_expiresAt :: gotime
  lv_lastAccessedAt :: gotime

record L1Store =
  l1_maximum :: int
  l1_ttl :: duration
  l1_entries :: "(nat \<times> nat) list"
  l1_recency :: "(nat \<times> l1Value) list"
  l1_fresh :: nat

definition NewL1Store :: "int \<Rightarrow> duration \<Rightarrow> L1Store" where
  "NewL1Store maximum ttl =
     \<lparr>l1_maximum = maximum, l1_ttl = ttl, l1_entries = [], l1_recency = [], l1_fresh = 0\<rparr>"

definition l1_remove :: "nat \<Rightarrow> l1Value \<Rightarrow> L1Store \<Rightarrow> L1Store" where
  "l1_remove el v s = s\<lparr>l1_entries := AList.delete (cp_ID (lv_product v)) (l1_entries s),
     l1_recency := AList.delete el (l1_recency s)\<rparr>"

text \<open>Storing a new value in an element and moving it to the front.\<close>

definition l1_touch :: "nat \<Rightarrow> l1Value \<Rightarrow> L1Store \<Rightarrow> L1Store" where
  "l1_touch el v s = s\<lparr>l1_recency := (el, v) # AList.delete el (l1_recency s)\<rparr>"

definition l1_Get :: "nat \<Rightarrow> gotime \<Rightarrow> L1Store \<Rightarrow> CacheProduct option \<times> L1Store" where
  "l1_Get pid now s =
     (case map_of (l1_entries s) pid of
        None \<Rightarrow> (None, s)
      | Some el \<Rightarrow>
         (case map_of (l1_recency s) el of
            None \<Rightarrow> (None, s)
          | Some v \<Rightarrow>
              if \<not> now < lv_expiresAt v then (None, l1_remove el v s)
              else (Some (lv_product v), l1_touch el (v\<lparr>lv_lastAccessedAt := now\<rparr>) s)))"

definition l1_Put ::
  "CacheProduct \<Rightarrow> gotime \<Rightarrow> L1Store \<Rightarrow> (gotime \<times> CacheProduct option) \<times> L1Store" where
  "l1_Put p now s =
     (let expiresAt = now + l1_ttl s;
          v = \<lparr>lv_product = p, lv_expiresAt = expiresAt, lv_lastAccessedAt = now\<rparr>
      in case map_of (l1_entries s) (cp_ID p) of
        Some el \<Rightarrow> ((expiresAt, None), l1_touch el v s)
      | None \<Rightarrow>
         (let s1 = s\<lparr>l1_recency := (l1_fresh s, v) # l1_recency s,
                     l1_entries := AList.update (cp_ID p) (l1_fresh s) (l1_entries s),
                     l1_fresh := Suc (l1_fresh s)\<rparr>
          in if int (length (l1_entries s1)) \<le> l1_maximum s1 then ((expiresAt, None), s1)
             else let (el, oldest) = last (l1_recency s1)
                  in ((expiresAt, Some (lv_product oldest)), l1_remove el oldest s1)))"

definition l1_Delete :: "nat \<Rightarrow> L1Store \<Rightarrow> bool \<times> L1Store" where
  "l1_Delete pid s =
     (case map_of (l1_entries s) pid of
        None \<Rightarrow> (False, s)
      | Some el \<Rightarrow>
         (case map_of (l1_recency s) el of
            None \<Rightarrow> (False, s)
          | Some v \<Rightarrow> (True, l1_remove el v s)))"

definition l1_Clear :: "L1Store \<Rightarrow> CacheProduct list \<times> L1Store" where
  "l1_Clear s = (map (lv_product \<circ> snd) (l1_recency s), s\<lparr>l1_entries := [], l1_recency := []\<rparr>)"

text \<open>
  The loop of \<open>Snapshot\<close> reads the next element before it removes the present one, so it
  visits every element the list had at the start.
\<close>

definition l1_entry :: "l1Value \<Rightarrow> CacheEntry" where
  "l1_entry v = \<lparr>ce_Product = lv_product v, ce_ExpiresAt = lv_expiresAt v,
     ce_LastAccessedAt = Some (lv_lastAccessedAt v), ce_TTLMS = 0\<rparr>"

fun l1_snapshot_loop ::
  "gotime \<Rightarrow> (nat \<times> l1Value) list \<Rightarrow> CacheEntry list \<Rightarrow> L1Store \<Rightarrow> CacheEntry list \<times> L1Store" where
  "l1_snapshot_loop now [] values s = (values, s)"
| "l1_snapshot_loop now ((el, v) # rest) values s =
     (if \<not> now < lv_expiresAt v
      then l1_snapshot_loop now rest values (l1_remove el v s)
      else l1_snapshot_loop now rest (values @ [l1_entry v]) s)"

definition l1_Snapshot :: "gotime \<Rightarrow> L1Store \<Rightarrow> CacheEntry list \<times> L1Store" where
  "l1_Snapshot now s = l1_snapshot_loop now (l1_recency s) [] s"

subsection \<open>The invariant\<close>

text \<open>
  The references are distinct and older than the next one, the products are distinct, and
  the map sends a product to the element that holds it.
\<close>

definition l1_inv :: "L1Store \<Rightarrow> bool" where
  "l1_inv s = (distinct (map fst (l1_recency s)) \<and>
     distinct (map (cp_ID \<circ> lv_product \<circ> snd) (l1_recency s)) \<and>
     wf_map (l1_entries s) \<and>
     set (l1_entries s) = (\<lambda>(el, v). (cp_ID (lv_product v), el)) ` set (l1_recency s) \<and>
     (\<forall>(el, v) \<in> set (l1_recency s). el < l1_fresh s))"

definition lru_of :: "L1Store \<Rightarrow> l1Value list" where
  "lru_of s = map snd (l1_recency s)"

lemma l1_inv_New: "l1_inv (NewL1Store m ttl)"
  by (simp add: l1_inv_def NewL1Store_def)

lemma lru_of_New: "lru_of (NewL1Store m ttl) = []"
  by (simp add: lru_of_def NewL1Store_def)

lemma l1_entries_iff:
  assumes "l1_inv s"
  shows "map_of (l1_entries s) pid = Some el \<longleftrightarrow>
    (\<exists>v. map_of (l1_recency s) el = Some v \<and> cp_ID (lv_product v) = pid)"
proof -
  have d: "distinct (map fst (l1_entries s))" "distinct (map fst (l1_recency s))"
    using assms by (auto simp: l1_inv_def wf_map_def keys_def)
  have "map_of (l1_entries s) pid = Some el \<longleftrightarrow> (pid, el) \<in> set (l1_entries s)"
    using d by simp
  also have "\<dots> \<longleftrightarrow> (\<exists>v. (el, v) \<in> set (l1_recency s) \<and> cp_ID (lv_product v) = pid)"
    using assms by (auto simp: l1_inv_def)
  finally show ?thesis using d by simp
qed

lemma l1_entries_None:
  assumes "l1_inv s"
  shows "map_of (l1_entries s) pid = None \<longleftrightarrow>
    (\<forall>v \<in> set (lru_of s). cp_ID (lv_product v) \<noteq> pid)"
  using assms by (force simp: l1_inv_def map_of_eq_None_iff lru_of_def image_iff)

lemma l1_length: "l1_inv s \<Longrightarrow> length (l1_entries s) = length (lru_of s)"
proof -
  assume s: "l1_inv s"
  have "inj_on (\<lambda>(el, v). (cp_ID (lv_product v), el)) (set (l1_recency s))"
    using s unfolding l1_inv_def distinct_map inj_on_def by fastforce
  then have "card (set (l1_entries s)) = card (set (l1_recency s))"
    using s by (simp add: l1_inv_def card_image)
  moreover have "distinct (l1_entries s)" "distinct (l1_recency s)"
    using s by (auto simp: l1_inv_def wf_map_def keys_def distinct_map)
  ultimately show ?thesis by (simp add: distinct_card lru_of_def)
qed

subsection \<open>The abstract recency list\<close>

definition lru_find :: "nat \<Rightarrow> l1Value list \<Rightarrow> l1Value option" where
  "lru_find pid xs = find (\<lambda>v. cp_ID (lv_product v) = pid) xs"

definition lru_remove :: "nat \<Rightarrow> l1Value list \<Rightarrow> l1Value list" where
  "lru_remove pid xs = filter (\<lambda>v. cp_ID (lv_product v) \<noteq> pid) xs"

definition lru_get :: "nat \<Rightarrow> gotime \<Rightarrow> l1Value list \<Rightarrow> CacheProduct option \<times> l1Value list" where
  "lru_get pid now xs =
     (case lru_find pid xs of
        None \<Rightarrow> (None, xs)
      | Some v \<Rightarrow> if now < lv_expiresAt v
          then (Some (lv_product v), v\<lparr>lv_lastAccessedAt := now\<rparr> # lru_remove pid xs)
          else (None, lru_remove pid xs))"

definition lru_put ::
  "int \<Rightarrow> duration \<Rightarrow> CacheProduct \<Rightarrow> gotime \<Rightarrow> l1Value list \<Rightarrow> CacheProduct option \<times> l1Value list" where
  "lru_put cap ttl p now xs =
     (let ys = \<lparr>lv_product = p, lv_expiresAt = now + ttl, lv_lastAccessedAt = now\<rparr> #
            lru_remove (cp_ID p) xs
      in if lru_find (cp_ID p) xs \<noteq> None \<or> int (length ys) \<le> cap then (None, ys)
         else (Some (lv_product (last ys)), butlast ys))"

definition lru_del :: "nat \<Rightarrow> l1Value list \<Rightarrow> bool \<times> l1Value list" where
  "lru_del pid xs = (lru_find pid xs \<noteq> None, lru_remove pid xs)"

definition lru_ok :: "l1Value list \<Rightarrow> bool" where
  "lru_ok xs = distinct (map (cp_ID \<circ> lv_product) xs)"

lemma lru_remove_absent: "lru_find pid xs = None \<Longrightarrow> lru_remove pid xs = xs"
  by (simp add: lru_find_def lru_remove_def find_None_iff)

lemma lru_remove_last:
  assumes "lru_ok xs" "xs \<noteq> []"
  shows "lru_remove (cp_ID (lv_product (last xs))) xs = butlast xs"
proof -
  obtain ys y where xs: "xs = ys @ [y]" using assms(2) by (metis rev_exhaust)
  then have "\<forall>v \<in> set ys. cp_ID (lv_product v) \<noteq> cp_ID (lv_product y)"
    using assms(1) by (auto simp: lru_ok_def image_iff)
  then show ?thesis using xs by (simp add: lru_remove_def)
qed

lemma lru_ok_remove: "lru_ok xs \<Longrightarrow> lru_ok (lru_remove pid xs)"
  by (simp add: lru_ok_def lru_remove_def distinct_map_filter)

lemma lru_find_Some: "lru_find pid xs = Some v \<Longrightarrow> v \<in> set xs \<and> cp_ID (lv_product v) = pid"
  by (auto simp: lru_find_def find_Some_iff)

lemma lru_find_eq:
  assumes "lru_ok xs"
  shows "lru_find pid xs = Some v \<longleftrightarrow> v \<in> set xs \<and> cp_ID (lv_product v) = pid"
proof -
  have "lru_find pid xs = Some w \<Longrightarrow> v \<in> set xs \<Longrightarrow> cp_ID (lv_product v) = pid \<Longrightarrow> w = v" for w
    using assms lru_find_Some [of pid xs w] by (auto simp: lru_ok_def distinct_map inj_on_def)
  moreover have "v \<in> set xs \<Longrightarrow> cp_ID (lv_product v) = pid \<Longrightarrow> lru_find pid xs \<noteq> None"
    by (auto simp: lru_find_def find_None_iff)
  ultimately show ?thesis using lru_find_Some by blast
qed

subsection \<open>The store refines the list\<close>

lemma lru_of_ok: "l1_inv s \<Longrightarrow> lru_ok (lru_of s)"
  by (simp add: l1_inv_def lru_ok_def lru_of_def comp_assoc)

lemma l1_find:
  assumes "l1_inv s"
  shows "lru_find pid (lru_of s) =
    (case map_of (l1_entries s) pid of None \<Rightarrow> None | Some el \<Rightarrow> map_of (l1_recency s) el)"
proof (cases "map_of (l1_entries s) pid")
  case None
  then show ?thesis
    using l1_entries_None [OF assms, of pid] by (simp add: lru_find_def find_None_iff)
next
  case (Some el)
  then obtain v where v: "map_of (l1_recency s) el = Some v" "cp_ID (lv_product v) = pid"
    using l1_entries_iff [OF assms] by blast
  then have "v \<in> set (lru_of s)" by (force simp: lru_of_def dest: map_of_SomeD)
  then show ?thesis using v Some lru_find_eq [OF lru_of_ok [OF assms]] by simp
qed

lemma l1_same:
  assumes "l1_inv s" "map_of (l1_recency s) el = Some v" "(e, w) \<in> set (l1_recency s)"
  shows "e = el \<longleftrightarrow> cp_ID (lv_product w) = cp_ID (lv_product v)"
proof -
  have v: "(el, v) \<in> set (l1_recency s)" using assms(2) by (rule map_of_SomeD)
  have i: "inj_on fst (set (l1_recency s))"
    "inj_on (cp_ID \<circ> lv_product \<circ> snd) (set (l1_recency s))"
    using assms(1) by (simp_all add: l1_inv_def distinct_map)
  show ?thesis
    using inj_onD [OF i(1) _ assms(3) v] inj_onD [OF i(2) _ assms(3) v] by auto
qed

lemma lru_of_delete:
  assumes "l1_inv s" "map_of (l1_recency s) el = Some v"
  shows "map snd (AList.delete el (l1_recency s)) = lru_remove (cp_ID (lv_product v)) (lru_of s)"
proof -
  have "filter (\<lambda>p. fst p \<noteq> el) (l1_recency s) =
      filter (\<lambda>p. cp_ID (lv_product (snd p)) \<noteq> cp_ID (lv_product v)) (l1_recency s)"
    using l1_same [OF assms] by (intro filter_cong) auto
  then show ?thesis
    by (simp add: delete_filter lru_of_def lru_remove_def filter_map comp_def)
qed

lemma l1_entries_remove:
  assumes "l1_inv s" "map_of (l1_recency s) el = Some v"
  shows "set (AList.delete (cp_ID (lv_product v)) (l1_entries s)) =
    (\<lambda>(e, w). (cp_ID (lv_product w), e)) ` set (AList.delete el (l1_recency s))"
proof -
  have e: "set (l1_entries s) = (\<lambda>(e, w). (cp_ID (lv_product w), e)) ` set (l1_recency s)"
    using assms(1) by (simp add: l1_inv_def)
  show ?thesis
    unfolding set_delete e using l1_same [OF assms] by force
qed

lemma l1_inv_remove:
  assumes "l1_inv s" "map_of (l1_recency s) el = Some v"
  shows "l1_inv (l1_remove el v s)"
proof -
  have "distinct (map f (AList.delete el (l1_recency s)))"
    if "distinct (map f (l1_recency s))" for f :: "nat \<times> l1Value \<Rightarrow> nat"
    using that by (simp add: delete_filter distinct_map_filter)
  moreover have "\<forall>(e, w) \<in> set (AList.delete el (l1_recency s)). e < l1_fresh s"
    using assms(1) by (auto simp: l1_inv_def set_delete)
  ultimately show ?thesis
    using assms(1) l1_entries_remove [OF assms] by (simp add: l1_inv_def l1_remove_def)
qed

lemma l1_inv_touch:
  assumes "l1_inv s" "map_of (l1_recency s) el = Some v"
    "cp_ID (lv_product w) = cp_ID (lv_product v)"
  shows "l1_inv (l1_touch el w s)"
proof -
  let ?r = "AList.delete el (l1_recency s)"
  have r: "l1_inv (l1_remove el v s)" using assms(1,2) by (rule l1_inv_remove)
  have v: "(el, v) \<in> set (l1_recency s)" using assms(2) by (rule map_of_SomeD)
  have i: "inj_on fst (set (l1_recency s))" using assms(1) by (simp add: l1_inv_def distinct_map)
  have uniq: "(el, w') \<in> set (l1_recency s) \<Longrightarrow> w' = v" for w'
    using inj_onD [OF i _ _ v, of "(el, w')"] by simp
  have sr: "set (l1_recency s) = insert (el, v) (set ?r)"
    unfolding set_delete using v by (auto dest: uniq)
  have "set (l1_entries s) = (\<lambda>(e, w). (cp_ID (lv_product w), e)) ` set (l1_recency s)"
    using assms(1) by (simp add: l1_inv_def)
  then have e: "set (l1_entries s) =
      insert (cp_ID (lv_product w), el) ((\<lambda>(e, w). (cp_ID (lv_product w), e)) ` set ?r)"
    by (simp only: sr image_insert prod.case assms(3))
  have "\<forall>p \<in> set ?r. fst p \<noteq> el \<and> cp_ID (lv_product (snd p)) \<noteq> cp_ID (lv_product w)"
    using l1_same [OF assms(1,2)] assms(3) by (auto simp: set_delete)
  then have "el \<notin> fst ` set ?r"
    "cp_ID (lv_product w) \<notin> (\<lambda>p. cp_ID (lv_product (snd p))) ` set ?r"
    by (auto simp: image_iff)
  moreover have "el < l1_fresh s" using assms(1) v by (auto simp: l1_inv_def)
  ultimately show ?thesis
    using r assms(1) e by (simp add: l1_inv_def l1_touch_def l1_remove_def comp_def)
qed

subsection \<open>Every operation refines its abstract counterpart\<close>

lemma l1_Get_refines:
  assumes "l1_inv s" "l1_Get pid now s = (r, s')"
  shows "l1_inv s'" "lru_get pid now (lru_of s) = (r, lru_of s')"
proof -
  have "l1_inv s' \<and> lru_get pid now (lru_of s) = (r, lru_of s')"
  proof (cases "map_of (l1_entries s) pid")
    case None
    then show ?thesis using assms l1_find [OF assms(1), of pid] by (simp add: l1_Get_def lru_get_def)
  next
    case (Some el)
    then obtain v where v: "map_of (l1_recency s) el = Some v" "cp_ID (lv_product v) = pid"
      using l1_entries_iff [OF assms(1)] by blast
    have f: "lru_find pid (lru_of s) = Some v" using l1_find [OF assms(1), of pid] Some v by simp
    have d: "map snd (AList.delete el (l1_recency s)) = lru_remove pid (lru_of s)"
      using lru_of_delete [OF assms(1) v(1)] v(2) by simp
    show ?thesis
      using assms Some v f d l1_inv_remove [OF assms(1) v(1)]
        l1_inv_touch [OF assms(1) v(1), of "v\<lparr>lv_lastAccessedAt := now\<rparr>"]
      by (auto simp: l1_Get_def lru_get_def l1_remove_def l1_touch_def lru_of_def)
  qed
  then show "l1_inv s'" "lru_get pid now (lru_of s) = (r, lru_of s')" by simp_all
qed

lemma l1_Delete_refines:
  assumes "l1_inv s" "l1_Delete pid s = (r, s')"
  shows "l1_inv s'" "lru_del pid (lru_of s) = (r, lru_of s')"
proof -
  have "l1_inv s' \<and> lru_del pid (lru_of s) = (r, lru_of s')"
  proof (cases "map_of (l1_entries s) pid")
    case None
    then have f: "lru_find pid (lru_of s) = None" using l1_find [OF assms(1), of pid] by simp
    then show ?thesis
      using assms None lru_remove_absent [OF f] by (simp add: l1_Delete_def lru_del_def)
  next
    case (Some el)
    then obtain v where v: "map_of (l1_recency s) el = Some v" "cp_ID (lv_product v) = pid"
      using l1_entries_iff [OF assms(1)] by blast
    have "lru_find pid (lru_of s) = Some v" using l1_find [OF assms(1), of pid] Some v by simp
    then show ?thesis
      using assms Some v l1_inv_remove [OF assms(1) v(1)] lru_of_delete [OF assms(1) v(1)]
      by (auto simp: l1_Delete_def lru_del_def l1_remove_def lru_of_def)
  qed
  then show "l1_inv s'" "lru_del pid (lru_of s) = (r, lru_of s')" by simp_all
qed

text \<open>Pushing a new product to the front, before any eviction.\<close>

lemma l1_inv_push:
  assumes "l1_inv s" "map_of (l1_entries s) (cp_ID (lv_product v)) = None"
  shows "l1_inv (s\<lparr>l1_recency := (l1_fresh s, v) # l1_recency s,
    l1_entries := AList.update (cp_ID (lv_product v)) (l1_fresh s) (l1_entries s),
    l1_fresh := Suc (l1_fresh s)\<rparr>)"
proof -
  have n: "cp_ID (lv_product v) \<notin> fst ` set (l1_entries s)"
    using assms(2) by (simp add: map_of_eq_None_iff)
  then have u: "AList.update (cp_ID (lv_product v)) (l1_fresh s) (l1_entries s) =
      l1_entries s @ [(cp_ID (lv_product v), l1_fresh s)]"
    by (rule update_absent)
  have "l1_fresh s \<notin> fst ` set (l1_recency s)" using assms(1) by (auto simp: l1_inv_def)
  moreover have "cp_ID (lv_product v) \<notin> (\<lambda>p. cp_ID (lv_product (snd p))) ` set (l1_recency s)"
    using l1_entries_None [OF assms(1)] assms(2) by (auto simp: lru_of_def)
  moreover have "wf_map (l1_entries s @ [(cp_ID (lv_product v), l1_fresh s)])"
    using assms(1) n by (auto simp: l1_inv_def wf_map_def keys_def)
  moreover have "\<forall>(el, v) \<in> set (l1_recency s). el < Suc (l1_fresh s)"
    using assms(1) by (auto simp: l1_inv_def)
  ultimately show ?thesis
    unfolding u using assms(1) by (simp add: l1_inv_def comp_def)
qed

lemma l1_Put_refines:
  assumes "l1_inv s" "l1_Put p now s = ((ex, ev), s')"
  shows "l1_inv s'" "ex = now + l1_ttl s"
    "lru_put (l1_maximum s) (l1_ttl s) p now (lru_of s) = (ev, lru_of s')"
proof -
  let ?v = "\<lparr>lv_product = p, lv_expiresAt = now + l1_ttl s, lv_lastAccessedAt = now\<rparr>"
  have "l1_inv s' \<and> ex = now + l1_ttl s \<and>
    lru_put (l1_maximum s) (l1_ttl s) p now (lru_of s) = (ev, lru_of s')"
  proof (cases "map_of (l1_entries s) (cp_ID p)")
    case (Some el)
    then obtain v where v: "map_of (l1_recency s) el = Some v" "cp_ID (lv_product v) = cp_ID p"
      using l1_entries_iff [OF assms(1)] by blast
    have f: "lru_find (cp_ID p) (lru_of s) = Some v"
      using l1_find [OF assms(1), of "cp_ID p"] Some v by simp
    have "l1_inv (l1_touch el ?v s)" using v by (intro l1_inv_touch [OF assms(1) v(1)]) simp
    moreover have "lru_of (l1_touch el ?v s) = ?v # lru_remove (cp_ID p) (lru_of s)"
      using lru_of_delete [OF assms(1) v(1)] v(2) by (simp add: l1_touch_def lru_of_def)
    ultimately show ?thesis using assms(2) Some f by (auto simp: l1_Put_def lru_put_def Let_def)
  next
    case None
    let ?s = "s\<lparr>l1_recency := (l1_fresh s, ?v) # l1_recency s,
      l1_entries := AList.update (cp_ID p) (l1_fresh s) (l1_entries s),
      l1_fresh := Suc (l1_fresh s)\<rparr>"
    have i: "l1_inv ?s" using l1_inv_push [OF assms(1), of ?v] None by simp
    have f: "lru_find (cp_ID p) (lru_of s) = None" using l1_find [OF assms(1), of "cp_ID p"] None by simp
    have a: "lru_of ?s = ?v # lru_remove (cp_ID p) (lru_of s)"
      by (simp add: lru_of_def lru_remove_absent [OF f, unfolded lru_of_def])
    obtain el old where l: "last (l1_recency ?s) = (el, old)" by fastforce
    have "last (l1_recency ?s) \<in> set (l1_recency ?s)" by (rule last_in_set) simp
    then have "(el, old) \<in> set (l1_recency ?s)" by (simp only: l)
    then have m: "map_of (l1_recency ?s) el = Some old"
      using i by (intro map_of_is_SomeI) (simp_all add: l1_inv_def)
    have "last (lru_of ?s) = snd (last (l1_recency ?s))"
      unfolding lru_of_def by (rule last_map) simp
    then have "last (lru_of ?s) = old" by (simp only: l snd_conv)
    then have "lru_remove (cp_ID (lv_product old)) (lru_of ?s) = butlast (lru_of ?s)"
      using lru_remove_last [OF lru_of_ok [OF i]] by (simp add: a)
    then have "lru_of (l1_remove el old ?s) = butlast (lru_of ?s)"
      using lru_of_delete [OF i m] by (simp add: l1_remove_def lru_of_def)
    moreover have "l1_inv (l1_remove el old ?s)" by (rule l1_inv_remove [OF i m])
    moreover have "length (l1_entries ?s) = length (lru_of ?s)" by (rule l1_length [OF i])
    ultimately show ?thesis
      using assms(2) None f i a l \<open>last (lru_of ?s) = old\<close>
      by (auto simp: l1_Put_def lru_put_def Let_def split: if_splits)
  qed
  then show "l1_inv s'" "ex = now + l1_ttl s"
    "lru_put (l1_maximum s) (l1_ttl s) p now (lru_of s) = (ev, lru_of s')" by simp_all
qed

lemma l1_Clear_refines: "l1_inv s \<Longrightarrow> l1_inv (snd (l1_Clear s)) \<and> lru_of (snd (l1_Clear s)) = []"
  by (simp add: l1_Clear_def l1_inv_def lru_of_def)

lemma l1_snapshot_loop_refines:
  assumes "l1_inv s" "distinct (map fst rest)" "set rest \<subseteq> set (l1_recency s)"
    "l1_snapshot_loop now rest vs s = (vs', s')"
  shows "l1_inv s' \<and> vs' = vs @ map l1_entry (filter (\<lambda>v. now < lv_expiresAt v) (map snd rest)) \<and>
    l1_recency s' =
      filter (\<lambda>p. p \<in> set rest \<longrightarrow> now < lv_expiresAt (snd p)) (l1_recency s)"
  using assms
proof (induction rest arbitrary: vs s)
  case (Cons q rest)
  obtain el v where q: "q = (el, v)" by fastforce
  have m: "map_of (l1_recency s) el = Some v"
    using Cons.prems q by (auto simp: l1_inv_def)
  have n: "\<forall>p \<in> set rest. fst p \<noteq> el" using Cons.prems q by auto
  show ?case
  proof (cases "now < lv_expiresAt v")
    case True
    have "l1_snapshot_loop now rest (vs @ [l1_entry v]) s = (vs', s')"
      using Cons.prems(4) True q by simp
    from Cons.IH [OF Cons.prems(1) _ _ this] Cons.prems(2,3) q True show ?thesis
      by (auto intro!: filter_cong)
  next
    case False
    let ?t = "l1_remove el v s"
    have t: "l1_recency ?t = filter (\<lambda>p. fst p \<noteq> el) (l1_recency s)"
      by (simp add: l1_remove_def delete_filter)
    have "l1_snapshot_loop now rest vs ?t = (vs', s')" using Cons.prems(4) False q by simp
    moreover have "set rest \<subseteq> set (l1_recency ?t)" using Cons.prems(3) n by (auto simp: t)
    ultimately have ih: "l1_inv s'"
      "vs' = vs @ map l1_entry (filter (\<lambda>v. now < lv_expiresAt v) (map snd rest))"
      "l1_recency s' =
         filter (\<lambda>p. p \<in> set rest \<longrightarrow> now < lv_expiresAt (snd p)) (l1_recency ?t)"
      using Cons.IH [OF l1_inv_remove [OF Cons.prems(1) m]] Cons.prems(2) by simp_all
    have i: "inj_on fst (set (l1_recency s))"
      using Cons.prems(1) by (simp add: l1_inv_def distinct_map)
    have "p \<in> set (l1_recency s) \<Longrightarrow> fst p = el \<longleftrightarrow> p = (el, v)" for p
      using inj_onD [OF i _ _ map_of_SomeD [OF m], of p] by auto
    then have "l1_recency s' = filter (\<lambda>p. p \<in> set (q # rest) \<longrightarrow> now < lv_expiresAt (snd p))
        (l1_recency s)"
      unfolding ih(3) t filter_filter using False q n by (intro filter_cong) auto
    then show ?thesis using ih(1,2) False q by simp
  qed
qed simp

lemma l1_Snapshot_refines:
  assumes "l1_inv s" "l1_Snapshot now s = (vs, s')"
  shows "l1_inv s'" "lru_of s' = filter (\<lambda>v. now < lv_expiresAt v) (lru_of s)"
    "vs = map l1_entry (lru_of s')"
proof -
  have "l1_inv s' \<and> vs = map l1_entry (filter (\<lambda>v. now < lv_expiresAt v) (lru_of s)) \<and>
    l1_recency s' = filter (\<lambda>p. p \<in> set (l1_recency s) \<longrightarrow> now < lv_expiresAt (snd p))
      (l1_recency s)"
  proof -
    have "distinct (map fst (l1_recency s))" using assms(1) by (simp add: l1_inv_def)
    from l1_snapshot_loop_refines [OF assms(1) this subset_refl
        assms(2) [unfolded l1_Snapshot_def]]
    show ?thesis by (simp add: lru_of_def)
  qed
  moreover from this have "lru_of s' = filter (\<lambda>v. now < lv_expiresAt v) (lru_of s)"
    by (simp add: lru_of_def filter_map comp_def cong: filter_cong)
  ultimately show "l1_inv s'" "lru_of s' = filter (\<lambda>v. now < lv_expiresAt v) (lru_of s)"
    "vs = map l1_entry (lru_of s')" by simp_all
qed

subsection \<open>The contract of a bounded cache with expiry\<close>

locale ttl_cache =
  fixes get :: "nat \<Rightarrow> gotime \<Rightarrow> 's \<Rightarrow> CacheProduct option \<times> 's"
    and put :: "CacheProduct \<Rightarrow> gotime \<Rightarrow> 's \<Rightarrow> (gotime \<times> CacheProduct option) \<times> 's"
    and look :: "'s \<Rightarrow> nat \<Rightarrow> (CacheProduct \<times> gotime) option"
    and life :: "'s \<Rightarrow> duration"
    and invar :: "'s \<Rightarrow> bool"
  assumes get_law: "invar s \<Longrightarrow> get pid now s = (r, s') \<Longrightarrow>
      invar s' \<and> life s' = life s \<and>
      r = (case look s pid of None \<Rightarrow> None | Some (p, e) \<Rightarrow> if now < e then Some p else None) \<and>
      look s' = (if r = None then (look s)(pid := None) else look s)"
    and put_law: "invar s \<Longrightarrow> put p now s = ((e, ev), s') \<Longrightarrow>
      invar s' \<and> life s' = life s \<and> e = now + life s \<and>
      (case ev of None \<Rightarrow> look s' = (look s)(cp_ID p \<mapsto> (p, e))
       | Some q \<Rightarrow> cp_ID q \<noteq> cp_ID p \<and> look s (cp_ID q) \<noteq> None \<and> look s (cp_ID p) = None \<and>
           look s' = (look s)(cp_ID p \<mapsto> (p, e), cp_ID q := None))"
begin

lemma look_after_put:
  "invar s \<Longrightarrow> put p now s = ((e, ev), s') \<Longrightarrow> look s' (cp_ID p) = Some (p, now + life s)"
  using put_law [of s p now e ev s'] by (cases ev) auto

lemma get_after_put:
  assumes "invar s" "put p now s = ((e, ev), s1)" "get (cp_ID p) later s1 = (r, s2)"
  shows "r = (if later < now + life s then Some p else None)"
proof -
  have "invar s1" using put_law [OF assms(1,2)] by simp
  then show ?thesis using get_law [OF _ assms(3)] look_after_put [OF assms(1,2)] by auto
qed

text \<open>A hit never changes what the cache holds, and a second lookup gives the same answer.\<close>

lemma get_twice:
  assumes "invar s" "get pid now s = (Some p, s1)" "get pid later s1 = (r, s2)"
  shows "r = Some p \<or> r = None \<and> (\<exists>e. look s pid = Some (p, e) \<and> e \<le> later)"
proof -
  note l = get_law [OF assms(1,2)]
  then obtain e where "look s pid = Some (p, e)" by (auto split: option.splits if_splits)
  moreover have "invar s1" "look s1 = look s" using l by simp_all
  ultimately show ?thesis using get_law [OF _ assms(3)] by auto
qed

end

subsection \<open>The store provides the contract\<close>

definition l1_look :: "L1Store \<Rightarrow> nat \<Rightarrow> (CacheProduct \<times> gotime) option" where
  "l1_look s pid = map_option (\<lambda>v. (lv_product v, lv_expiresAt v)) (lru_find pid (lru_of s))"

definition l1_ok :: "L1Store \<Rightarrow> bool" where
  "l1_ok s = (l1_inv s \<and> 0 < l1_maximum s \<and> int (length (lru_of s)) \<le> l1_maximum s)"

lemma lru_find_Cons: "lru_find pid (v # xs) =
    (if cp_ID (lv_product v) = pid then Some v else lru_find pid xs)"
  by (simp add: lru_find_def)

lemma lru_find_remove: "lru_find pid (lru_remove k xs) = (if pid = k then None else lru_find pid xs)"
  by (induction xs) (auto simp: lru_find_def lru_remove_def)

lemma length_lru_remove:
  "lru_ok xs \<Longrightarrow> lru_find k xs \<noteq> None \<Longrightarrow> Suc (length (lru_remove k xs)) = length xs"
proof (induction xs)
  case (Cons v xs)
  show ?case
  proof (cases "cp_ID (lv_product v) = k")
    case True
    then have "lru_find k xs = None"
      using Cons.prems(1) by (auto simp: lru_ok_def lru_find_def find_None_iff image_iff)
    then show ?thesis using True lru_remove_absent by (simp add: lru_remove_def)
  next
    case False
    then show ?thesis using Cons by (auto simp: lru_find_Cons lru_ok_def lru_remove_def)
  qed
qed (simp add: lru_find_def)

lemma length_lru_remove_le: "length (lru_remove k xs) \<le> length xs"
  by (simp add: lru_remove_def)

lemma l1_frame:
  "l1_maximum (snd (l1_Get pid now s)) = l1_maximum s" "l1_ttl (snd (l1_Get pid now s)) = l1_ttl s"
  "l1_maximum (snd (l1_Put p now s)) = l1_maximum s" "l1_ttl (snd (l1_Put p now s)) = l1_ttl s"
  by (auto simp: l1_Get_def l1_Put_def l1_remove_def l1_touch_def Let_def
      split: option.splits prod.splits)

lemma l1_Get_law:
  assumes "l1_ok s" "l1_Get pid now s = (r, s')"
  shows "l1_ok s' \<and> l1_ttl s' = l1_ttl s \<and>
    r = (case l1_look s pid of None \<Rightarrow> None | Some (p, e) \<Rightarrow> if now < e then Some p else None) \<and>
    l1_look s' = (if r = None then (l1_look s)(pid := None) else l1_look s)"
proof -
  have i: "l1_inv s" using assms(1) by (simp add: l1_ok_def)
  note ref = l1_Get_refines [OF i assms(2)]
  have f: "l1_maximum s' = l1_maximum s" "l1_ttl s' = l1_ttl s"
    using l1_frame(1,2) [of pid now s] assms(2) by simp_all
  show ?thesis
  proof (cases "lru_find pid (lru_of s)")
    case None
    then have "r = None" "lru_of s' = lru_of s" using ref(2) by (simp_all add: lru_get_def)
    then show ?thesis
      using ref(1) f assms(1) None by (auto simp: l1_ok_def l1_look_def fun_eq_iff)
  next
    case (Some v)
    then have v: "cp_ID (lv_product v) = pid" using lru_find_Some by blast
    have s': "lru_of s' = (if now < lv_expiresAt v
        then v\<lparr>lv_lastAccessedAt := now\<rparr> # lru_remove pid (lru_of s)
        else lru_remove pid (lru_of s))"
      using ref(2) Some by (auto simp: lru_get_def split: if_splits)
    have len: "length (lru_of s') \<le> length (lru_of s)"
      using Some length_lru_remove [OF lru_of_ok [OF i], of pid] by (simp add: s')
    have "l1_look s' = (if r = None then (l1_look s)(pid := None) else l1_look s)"
    proof -
      have "(r = None) = (\<not> now < lv_expiresAt v)"
        using ref(2) Some by (auto simp: lru_get_def split: if_splits)
      then show ?thesis
        using Some v by (simp add: l1_look_def s' fun_eq_iff lru_find_Cons lru_find_remove)
    qed
    then show ?thesis
      using ref Some f len assms(1) by (auto simp: l1_ok_def l1_look_def lru_get_def split: if_splits)
  qed
qed

lemma l1_Put_law:
  assumes "l1_ok s" "l1_Put p now s = ((e, ev), s')"
  shows "l1_ok s' \<and> l1_ttl s' = l1_ttl s \<and> e = now + l1_ttl s \<and>
    (case ev of None \<Rightarrow> l1_look s' = (l1_look s)(cp_ID p \<mapsto> (p, e))
     | Some q \<Rightarrow> cp_ID q \<noteq> cp_ID p \<and> l1_look s (cp_ID q) \<noteq> None \<and> l1_look s (cp_ID p) = None \<and>
         l1_look s' = (l1_look s)(cp_ID p \<mapsto> (p, e), cp_ID q := None))"
proof -
  let ?v = "\<lparr>lv_product = p, lv_expiresAt = now + l1_ttl s, lv_lastAccessedAt = now\<rparr>"
  define ys where "ys = ?v # lru_remove (cp_ID p) (lru_of s)"
  have i: "l1_inv s" using assms(1) by (simp add: l1_ok_def)
  note ref = l1_Put_refines [OF i assms(2)]
  have f: "l1_maximum s' = l1_maximum s" "l1_ttl s' = l1_ttl s"
    using l1_frame(3,4) [of p now s] assms(2) by simp_all
  have ys: "lru_ok ys"
    using lru_ok_remove [OF lru_of_ok [OF i], of "cp_ID p"]
    by (auto simp: ys_def lru_ok_def lru_remove_def)
  have look: "map_option (\<lambda>v. (lv_product v, lv_expiresAt v)) (lru_find k ys) =
      ((l1_look s)(cp_ID p \<mapsto> (p, e))) k" for k
    using ref(2) by (simp add: ys_def lru_find_Cons lru_find_remove l1_look_def)
  show ?thesis
  proof (cases "lru_find (cp_ID p) (lru_of s) \<noteq> None \<or> int (length ys) \<le> l1_maximum s")
    case True
    then have "ev = None" "lru_of s' = ys" using ref(3) by (simp_all add: lru_put_def Let_def ys_def)
    moreover have "int (length ys) \<le> l1_maximum s"
      using True length_lru_remove [OF lru_of_ok [OF i], of "cp_ID p"] assms(1)
      by (auto simp: l1_ok_def ys_def)
    moreover have "l1_look s' = (l1_look s)(cp_ID p \<mapsto> (p, e))"
      using look \<open>lru_of s' = ys\<close> by (simp add: l1_look_def fun_eq_iff)
    ultimately show ?thesis using ref(1,2) f assms(1) by (simp add: l1_ok_def)
  next
    case False
    then have ev: "ev = Some (lv_product (last ys))" "lru_of s' = butlast ys"
      using ref(3) by (simp_all add: lru_put_def Let_def ys_def)
    let ?q = "lv_product (last ys)"
    have abs: "lru_remove (cp_ID p) (lru_of s) = lru_of s"
      using False lru_remove_absent by blast
    then have len: "length (lru_of s') = length (lru_of s)" using ev(2) by (simp add: ys_def)
    have ne: "lru_of s \<noteq> []" using False assms(1) abs by (auto simp: l1_ok_def ys_def)
    then have q: "last ys = last (lru_of s)" "last (lru_of s) \<in> set (lru_of s)"
      using abs by (simp_all add: ys_def)
    have look_q: "lru_find (cp_ID ?q) (lru_of s) \<noteq> None"
      using q by (auto simp: lru_find_def find_None_iff)
    then have qp: "cp_ID ?q \<noteq> cp_ID p" using False by auto
    have "lru_of s' = lru_remove (cp_ID ?q) ys"
      using lru_remove_last [OF ys] ev(2) by (simp add: ys_def)
    then have "l1_look s' = (l1_look s)(cp_ID p \<mapsto> (p, e), cp_ID ?q := None)"
      using look by (simp add: l1_look_def fun_eq_iff lru_find_remove)
    then show ?thesis
      using ref(1,2) f assms(1) ev len look_q qp False by (auto simp: l1_ok_def l1_look_def)
  qed
qed

interpretation l1: ttl_cache l1_Get l1_Put l1_look l1_ttl l1_ok
  by unfold_locales (rule l1_Get_law l1_Put_law; assumption)+


subsection \<open>Sequences of calls\<close>

datatype l1_call = CGet nat gotime | CPut CacheProduct gotime | CDelete nat | CClear | CSnapshot gotime

datatype l1_answer = AGet "CacheProduct option" | APut gotime "CacheProduct option" | ADelete bool
  | AClear "CacheProduct list" | ASnapshot "CacheEntry list"

fun l1_step :: "l1_call \<Rightarrow> L1Store \<Rightarrow> l1_answer \<times> L1Store" where
  "l1_step (CGet pid now) s = apfst AGet (l1_Get pid now s)"
| "l1_step (CPut p now) s = apfst (case_prod APut) (l1_Put p now s)"
| "l1_step (CDelete pid) s = apfst ADelete (l1_Delete pid s)"
| "l1_step CClear s = apfst AClear (l1_Clear s)"
| "l1_step (CSnapshot now) s = apfst ASnapshot (l1_Snapshot now s)"

fun l1_run :: "l1_call list \<Rightarrow> L1Store \<Rightarrow> l1_answer list \<times> L1Store" where
  "l1_run [] s = ([], s)"
| "l1_run (c # cs) s = (let (a, s1) = l1_step c s; (as, s2) = l1_run cs s1 in (a # as, s2))"

fun lru_step :: "int \<Rightarrow> duration \<Rightarrow> l1_call \<Rightarrow> l1Value list \<Rightarrow> l1_answer \<times> l1Value list" where
  "lru_step cap ttl (CGet pid now) xs = apfst AGet (lru_get pid now xs)"
| "lru_step cap ttl (CPut p now) xs = apfst (APut (now + ttl)) (lru_put cap ttl p now xs)"
| "lru_step cap ttl (CDelete pid) xs = apfst ADelete (lru_del pid xs)"
| "lru_step cap ttl CClear xs = (AClear (map lv_product xs), [])"
| "lru_step cap ttl (CSnapshot now) xs =
     (let live = filter (\<lambda>v. now < lv_expiresAt v) xs in (ASnapshot (map l1_entry live), live))"

fun lru_run :: "int \<Rightarrow> duration \<Rightarrow> l1_call list \<Rightarrow> l1Value list \<Rightarrow> l1_answer list \<times> l1Value list" where
  "lru_run cap ttl [] xs = ([], xs)"
| "lru_run cap ttl (c # cs) xs =
     (let (a, xs1) = lru_step cap ttl c xs; (as, xs2) = lru_run cap ttl cs xs1 in (a # as, xs2))"

lemma l1_snapshot_loop_frame:
  "l1_maximum (snd (l1_snapshot_loop now rest vs s)) = l1_maximum s \<and>
   l1_ttl (snd (l1_snapshot_loop now rest vs s)) = l1_ttl s"
  by (induction now rest vs s rule: l1_snapshot_loop.induct) (auto simp: l1_remove_def)

lemma l1_step_frame:
  assumes "l1_step c s = (a, s')"
  shows "l1_maximum s' = l1_maximum s" "l1_ttl s' = l1_ttl s"
proof -
  have "l1_maximum (snd (l1_step c s)) = l1_maximum s \<and> l1_ttl (snd (l1_step c s)) = l1_ttl s"
    using l1_snapshot_loop_frame
    by (cases c) (auto simp: l1_frame l1_Delete_def l1_Clear_def l1_Snapshot_def l1_remove_def
        split: option.splits)
  then show "l1_maximum s' = l1_maximum s" "l1_ttl s' = l1_ttl s" using assms by simp_all
qed

lemma l1_step_refines:
  assumes "l1_inv s" "l1_step c s = (a, s')"
  shows "l1_inv s'" "lru_step (l1_maximum s) (l1_ttl s) c (lru_of s) = (a, lru_of s')"
proof -
  have "l1_inv s' \<and> lru_step (l1_maximum s) (l1_ttl s) c (lru_of s) = (a, lru_of s')"
  proof (cases c)
    case (CGet pid now)
    then show ?thesis
      using assms l1_Get_refines [OF assms(1)] by (cases "l1_Get pid now s") fastforce
  next
    case (CPut p now)
    obtain e ev t where "l1_Put p now s = ((e, ev), t)" by (metis prod.collapse)
    then show ?thesis using assms CPut l1_Put_refines [OF assms(1)] by fastforce
  next
    case (CDelete pid)
    then show ?thesis
      using assms l1_Delete_refines [OF assms(1)] by (cases "l1_Delete pid s") fastforce
  next
    case CClear
    then show ?thesis
      using assms l1_Clear_refines [OF assms(1)] by (auto simp: l1_Clear_def lru_of_def)
  next
    case (CSnapshot now)
    then show ?thesis
      using assms l1_Snapshot_refines [OF assms(1)]
      by (cases "l1_Snapshot now s") (auto simp: Let_def)
  qed
  then show "l1_inv s'" "lru_step (l1_maximum s) (l1_ttl s) c (lru_of s) = (a, lru_of s')"
    by simp_all
qed

lemma l1_run_refines:
  "l1_inv s \<Longrightarrow> l1_run cs s = (as, s') \<Longrightarrow>
   lru_run (l1_maximum s) (l1_ttl s) cs (lru_of s) = (as, lru_of s')"
proof (induction cs arbitrary: s as s')
  case (Cons c cs)
  obtain a s1 where s1: "l1_step c s = (a, s1)" by fastforce
  obtain as' s2 where s2: "l1_run cs s1 = (as', s2)" by fastforce
  show ?case
    using Cons.IH [OF l1_step_refines(1) [OF Cons.prems(1) s1] s2]
      l1_step_refines(2) [OF Cons.prems(1) s1] l1_step_frame [OF s1] Cons.prems(2) s1 s2
    by simp
qed simp

lemma lru_step_bound:
  assumes "0 \<le> cap" "int (length xs) \<le> cap" "lru_step cap ttl c xs = (a, ys)"
    "lru_ok xs"
  shows "int (length ys) \<le> cap" "lru_ok ys"
proof -
  have "int (length ys) \<le> cap \<and> lru_ok ys"
  proof (cases c)
    case (CGet pid now)
    have "lru_find pid xs = Some v \<Longrightarrow> cp_ID (lv_product v) = pid" for v
      using lru_find_Some by blast
    then show ?thesis
      using assms CGet length_lru_remove [OF assms(4), of pid] lru_ok_remove [OF assms(4), of pid]
      by (auto simp: lru_get_def lru_ok_def lru_remove_def split: option.splits if_splits)
  next
    case (CPut p now)
    define zs where "zs = \<lparr>lv_product = p, lv_expiresAt = now + ttl, lv_lastAccessedAt = now\<rparr> #
      lru_remove (cp_ID p) xs"
    have zs: "lru_ok zs" "length zs \<le> Suc (length xs)"
      "lru_find (cp_ID p) xs \<noteq> None \<Longrightarrow> length zs = length xs"
      using lru_ok_remove [OF assms(4)] length_lru_remove [OF assms(4), of "cp_ID p"]
        length_lru_remove_le [of "cp_ID p" xs]
      by (auto simp: zs_def lru_ok_def lru_remove_def)
    then have "lru_ok (butlast zs)" by (simp add: lru_ok_def map_butlast distinct_butlast)
    moreover have "ys = (if lru_find (cp_ID p) xs \<noteq> None \<or> int (length zs) \<le> cap then zs
        else butlast zs)"
      using assms(3) CPut by (auto simp: lru_put_def Let_def zs_def simp del: butlast.simps)
    ultimately show ?thesis using zs assms(2) by (auto simp del: butlast.simps)
  qed (use assms length_lru_remove_le lru_ok_remove in
      \<open>auto simp: lru_del_def Let_def lru_ok_def lru_remove_def distinct_map_filter
        intro: order_trans [OF of_nat_mono [OF length_filter_le]]\<close>)
  then show "int (length ys) \<le> cap" "lru_ok ys" by simp_all
qed

lemma lru_run_bound:
  "0 \<le> cap \<Longrightarrow> int (length xs) \<le> cap \<Longrightarrow> lru_ok xs \<Longrightarrow>
   int (length (snd (lru_run cap ttl cs xs))) \<le> cap \<and> lru_ok (snd (lru_run cap ttl cs xs))"
proof (induction cs arbitrary: xs)
  case (Cons c cs)
  obtain a ys where ys: "lru_step cap ttl c xs = (a, ys)" by fastforce
  show ?case
    using Cons.IH [OF Cons.prems(1) lru_step_bound [OF Cons.prems(1,2) ys Cons.prems(3)]] ys
    by (simp add: case_prod_beta Let_def)
qed simp

text \<open>
  Claim C33. Whatever calls a store receives after it was made, it answers each of them as a
  plain list of values in order of recency does, although it works on a map of references into
  a linked list: the answers and the values held are those of the reference list.
\<close>

theorem l1_calls_refine_lru:
  "lru_run m ttl cs [] =
     (fst (l1_run cs (NewL1Store m ttl)), lru_of (snd (l1_run cs (NewL1Store m ttl))))"
proof -
  obtain as s' where "l1_run cs (NewL1Store m ttl) = (as, s')" by fastforce
  then show ?thesis
    using l1_run_refines [OF l1_inv_New] by (fastforce simp: lru_of_New NewL1Store_def lru_of_def)
qed

text \<open>
  A store made with a positive capacity never holds more values than its capacity,
  nor two values of one product, whatever calls it receives.
\<close>

theorem l1_calls_bounded:
  assumes "0 < m"
  shows "int (length (l1_recency (snd (l1_run cs (NewL1Store m ttl))))) \<le> m \<and>
    distinct (map (cp_ID \<circ> lv_product) (lru_of (snd (l1_run cs (NewL1Store m ttl)))))"
proof -
  obtain as s' where run: "l1_run cs (NewL1Store m ttl) = (as, s')" by fastforce
  have "lru_run m ttl cs [] = (as, lru_of s')"
    using l1_run_refines [OF l1_inv_New run] by (simp add: lru_of_def NewL1Store_def)
  then show ?thesis
    using lru_run_bound [of m "[]" ttl cs] assms run by (simp add: lru_ok_def lru_of_def)
qed

theorem l1_calls_bounded_witness:
  "int (length (l1_recency (snd (l1_run
     [CPut \<lparr>cp_ID = 1, cp_Name = ''a'', cp_Category = ''c'', cp_Version = 1\<rparr> 5,
      CPut \<lparr>cp_ID = 2, cp_Name = ''b'', cp_Category = ''c'', cp_Version = 1\<rparr> 6]
     (NewL1Store 1 10))))) \<le> 1"
  using l1_calls_bounded [of 1 "[CPut \<lparr>cp_ID = 1, cp_Name = ''a'', cp_Category = ''c'', cp_Version = 1\<rparr> 5,
      CPut \<lparr>cp_ID = 2, cp_Name = ''b'', cp_Category = ''c'', cp_Version = 1\<rparr> 6]" 10]
  by simp

end
