(* ===== verification/CacheProcessor.thy ===== *)
theory CacheProcessor
  imports OrderProcessor L1Store
begin

text \<open>
  The cache processor of a lab application, \<^verbatim>\<open>services/lab-app/internal/cache/processor.go\<close>, and
  the Redis store it uses, \<^verbatim>\<open>redis.go\<close>. The client library of Redis is a parameter: a record
  of functions over an abstract server state \<open>'w\<close>. A stored value is the JSON text of a struct,
  represented by the struct it encodes; \<open>Garbage\<close> is text that does not decode. The processor
  locks its cache and its load apart; a call is modelled as one sequential step.
\<close>

subsection \<open>The Redis client and the store over it\<close>

datatype redis_value = ProductJSON CacheProduct | SummaryJSON CacheInstanceState | Garbage

datatype redis_reply = RNil | RErr | RVal redis_value

record 'w redis_client =
  rc_Get :: "string \<Rightarrow> 'w \<Rightarrow> redis_reply \<times> 'w"
  rc_Set :: "string \<Rightarrow> redis_value \<Rightarrow> duration \<Rightarrow> 'w \<Rightarrow> bool \<times> 'w"
  rc_Del :: "string \<Rightarrow> 'w \<Rightarrow> 'w"

text \<open>
  \<open>json.Unmarshal\<close> into a product ignores the fields a product does not have, so the text of
  another struct decodes to a product whose fields are zero.
\<close>

fun unmarshal_product :: "redis_value \<Rightarrow> CacheProduct option" where
  "unmarshal_product (ProductJSON p) = Some p"
| "unmarshal_product (SummaryJSON _) =
     Some \<lparr>cp_ID = 0, cp_Name = [], cp_Category = [], cp_Version = 0\<rparr>"
| "unmarshal_product Garbage = None"

record redisStore =
  rd_prefix :: string
  rd_baseTTL :: duration
  rd_jitter :: int

definition newRedisStore :: "string \<Rightarrow> duration \<Rightarrow> int \<Rightarrow> redisStore" where
  "newRedisStore labID baseTTL jitter =
     \<lparr>rd_prefix = ''labcache:'' @ labID @ '':'', rd_baseTTL = baseTTL, rd_jitter = jitter\<rparr>"

definition productKey :: "redisStore \<Rightarrow> nat \<Rightarrow> string" where
  "productKey s pid = rd_prefix s @ ''product:'' @ digits pid"

definition summaryKey :: "redisStore \<Rightarrow> string \<Rightarrow> string" where
  "summaryKey s instanceID = rd_prefix s @ ''l1:'' @ instanceID"

definition redis_Get ::
  "'w redis_client \<Rightarrow> redisStore \<Rightarrow> nat \<Rightarrow> 'w \<Rightarrow> (unit, CacheProduct option) result \<times> 'w" where
  "redis_Get rc s pid w =
     (case rc_Get rc (productKey s pid) w of
        (RNil, w1) \<Rightarrow> (Inr None, w1)
      | (RErr, w1) \<Rightarrow> (Inl (), w1)
      | (RVal b, w1) \<Rightarrow>
         (case unmarshal_product b of
            None \<Rightarrow> (Inl (), rc_Del rc (productKey s pid) w1)
          | Some p \<Rightarrow>
              if cp_ID p \<noteq> pid then (Inl (), rc_Del rc (productKey s pid) w1)
              else (Inr (Some p), w1)))"

text \<open>
  The life of a stored product: the base life plus a jitter drawn by \<open>rand.Int64N\<close>, which
  returns a number from 0 up to its argument. The draw is the argument \<open>draw\<close>.
\<close>

definition redis_range :: "redisStore \<Rightarrow> int" where
  "redis_range s = gquot (gquot (rd_baseTTL s) Millisecond * rd_jitter s) 100"

definition redis_ttl :: "redisStore \<Rightarrow> int \<Rightarrow> duration" where
  "redis_ttl s draw =
     (if rd_jitter s > 0 then rd_baseTTL s + (draw - redis_range s) * Millisecond
      else rd_baseTTL s)"

definition redis_Set ::
  "'w redis_client \<Rightarrow> redisStore \<Rightarrow> int \<Rightarrow> gotime \<Rightarrow> CacheProduct \<Rightarrow> 'w \<Rightarrow>
   (unit, gotime) result \<times> 'w" where
  "redis_Set rc s draw clock p w =
     (let ttl = redis_ttl s draw
      in case rc_Set rc (productKey s (cp_ID p)) (ProductJSON p) ttl w of
        (False, w1) \<Rightarrow> (Inl (), w1)
      | (True, w1) \<Rightarrow> (Inr (clock + ttl), w1))"

definition redis_Report ::
  "'w redis_client \<Rightarrow> redisStore \<Rightarrow> CacheInstanceState \<Rightarrow> 'w \<Rightarrow> bool \<times> 'w" where
  "redis_Report rc s inst w =
     rc_Set rc (summaryKey s (ci_InstanceID inst)) (SummaryJSON inst) (5 * Second) w"

subsection \<open>The processor\<close>

record cache_config =
  cc_load :: load_config
  cc_InstanceCount :: int
  cc_L1MaxEntries :: int
  cc_L1TTL :: duration
  cc_L2TTL :: duration
  cc_L2JitterPercent :: int
  cc_LatencyL1MS :: int
  cc_LatencyRedisMS :: int
  cc_LatencyMySQLMS :: int
  cc_LatencyDegradedMS :: int

record cache_processor =
  pz_l1 :: L1Store
  pz_redis :: redisStore
  pz_config :: cache_config
  pz_currentLoad :: rat
  pz_lastUpdatedAt :: gotime
  pz_l1Enabled :: bool

definition NewCacheProcessor :: "string \<Rightarrow> cache_config \<Rightarrow> cache_processor option" where
  "NewCacheProcessor redisAddress c =
     (let l = cc_load c in
      if redisAddress = [] \<or> lc_LabID l = [] \<or> lc_InstanceID l = [] \<or> cc_InstanceCount c \<le> 0 \<or>
         lc_ProcessingSpeed l \<le> 0 \<or> lc_MaxLoad l \<le> 0 \<or> cc_L1MaxEntries c \<le> 0 \<or>
         cc_L1TTL c \<le> 0 \<or> cc_L2TTL c \<le> 0
      then None
      else Some \<lparr>pz_l1 = NewL1Store (cc_L1MaxEntries c) (cc_L1TTL c),
        pz_redis = newRedisStore (lc_LabID l) (cc_L2TTL c) (cc_L2JitterPercent c),
        pz_config = c, pz_currentLoad = 0, pz_lastUpdatedAt = 0, pz_l1Enabled = True\<rparr>)"

definition putL1 ::
  "CacheProduct \<Rightarrow> gotime \<Rightarrow> string \<Rightarrow> cache_processor \<Rightarrow> CacheDelta list \<times> cache_processor" where
  "putL1 v now reason p =
     (let ((expiresAt, evicted), l1') = l1_Put v now (pz_l1 p);
          inst = lc_InstanceID (cc_load (pz_config p));
          add = \<lparr>cd_Scope = ''instance'', cd_InstanceID = inst, cd_Operation = ''add'',
                 cd_ProductID = cp_ID v, cd_Reason = reason, cd_Product = Some v,
                 cd_ExpiresAt = Some expiresAt\<rparr>
      in (case evicted of
            None \<Rightarrow> [add]
          | Some e \<Rightarrow> [add,
              \<lparr>cd_Scope = ''instance'', cd_InstanceID = inst, cd_Operation = ''remove'',
               cd_ProductID = cp_ID e, cd_Reason = ''capacity_lru'', cd_Product = Some e,
               cd_ExpiresAt = None\<rparr>],
          p\<lparr>pz_l1 := l1'\<rparr>))"

definition putL1IfEnabled ::
  "CacheProduct \<Rightarrow> gotime \<Rightarrow> string \<Rightarrow> cache_processor \<Rightarrow> CacheDelta list \<times> cache_processor" where
  "putL1IfEnabled v now reason p =
     (if \<not> pz_l1Enabled p then ([], p) else putL1 v now reason p)"

definition localInstanceState :: "gotime \<Rightarrow> cache_processor \<Rightarrow> CacheInstanceState \<times> cache_processor" where
  "localInstanceState now p =
     (let (entries, l1') = l1_Snapshot now (pz_l1 p)
      in (\<lparr>ci_InstanceID = lc_InstanceID (cc_load (pz_config p)),
           ci_Status = (if pz_l1Enabled p then ''live'' else ''disabled''),
           ci_ObservedAt = now,
           ci_Entries = (if pz_l1Enabled p then entries else [])\<rparr>,
          p\<lparr>pz_l1 := l1'\<rparr>))"

definition report ::
  "'w redis_client \<Rightarrow> gotime \<Rightarrow> cache_processor \<Rightarrow> 'w \<Rightarrow> cache_processor \<times> 'w" where
  "report rc now p w =
     (let (inst, p1) = localInstanceState now p;
          (_, w1) = redis_Report rc (pz_redis p) inst w
      in (p1, w1))"

definition SetL1Enabled :: "bool \<Rightarrow> gotime \<Rightarrow> cache_processor \<Rightarrow> CacheInstanceState \<times> cache_processor" where
  "SetL1Enabled enabled now p =
     (let already = (pz_l1Enabled p = enabled);
          p1 = p\<lparr>pz_l1Enabled := enabled\<rparr>;
          p2 = (if \<not> enabled \<and> \<not> already then p1\<lparr>pz_l1 := snd (l1_Clear (pz_l1 p1))\<rparr> else p1);
          (entries, l1') = l1_Snapshot now (pz_l1 p2)
      in (\<lparr>ci_InstanceID = lc_InstanceID (cc_load (pz_config p)),
           ci_Status = (if enabled then ''live'' else ''disabled''),
           ci_ObservedAt = now, ci_Entries = (if enabled then entries else [])\<rparr>,
          p2\<lparr>pz_l1 := l1'\<rparr>))"

definition latency :: "cache_config \<Rightarrow> string \<Rightarrow> int" where
  "latency c layer =
     (if layer = ''l1'' then cc_LatencyL1MS c
      else if layer = ''redis'' then cc_LatencyRedisMS c
      else if layer = ''mysql'' then cc_LatencyMySQLMS c
      else cc_LatencyDegradedMS c)"

definition cacheLoadState :: "rat \<Rightarrow> string" where
  "cacheLoadState r =
     (if r \<le> fl (3 / 10) then ''idle''
      else if r \<le> fl (7 / 10) then ''normal''
      else if r < 1 then ''high''
      else ''overloaded'')"

definition cache_allocate ::
  "cache_processor \<Rightarrow> TrafficBatchRequest \<Rightarrow> gotime \<Rightarrow> CacheResult \<Rightarrow>
   TrafficBatchResult \<times> cache_processor" where
  "cache_allocate p request now cacheResult =
     (let c = cc_load (pz_config p);
          elapsed = (if \<not> IsZero (pz_lastUpdatedAt p) \<and> pz_lastUpdatedAt p < now
             then Seconds (Sub now (pz_lastUpdatedAt p)) else 0);
          settled = max 0 (fl (pz_currentLoad p - fl (float64 (lc_ProcessingSpeed c) * elapsed)));
          available = \<lfloor>fl (max 0 (fl (float64 (lc_MaxLoad c) - settled)) + fl (1 / 1000000000))\<rfloor>;
          accepted = min (rq_RequestUnits request) available;
          dropped = rq_RequestUnits request - accepted;
          nxt = min (float64 (lc_MaxLoad c)) (fl (settled + float64 accepted));
          ratio = fl (of_int (Round (fl (fl (nxt / float64 (lc_MaxLoad c)) * 1000))) / 1000);
          status = (if accepted = 0 then ''dropped''
                    else if dropped > 0 then ''partially_accepted'' else ''accepted'')
      in (\<lparr>tr_BatchID = rq_BatchID request, tr_LabID = lc_LabID c, tr_Status = status,
           tr_OccurredAt = now, tr_Path = [], tr_TargetInstanceID = lc_InstanceID c,
           tr_ReceivedUnits = rq_RequestUnits request, tr_AcceptedUnits = accepted,
           tr_DroppedUnits = dropped,
           tr_InstanceState =
             \<lparr>is_ProcessingSpeed = lc_ProcessingSpeed c, is_MaxLoad = lc_MaxLoad c,
              is_CurrentLoad = fl (of_int (Round (fl (nxt * 1000))) / 1000),
              is_LoadRatio = ratio, is_LoadState = cacheLoadState ratio, is_ObservedAt = now\<rparr>,
           tr_Cache = Some cacheResult\<rparr>,
          p\<lparr>pz_currentLoad := nxt, pz_lastUpdatedAt := now\<rparr>))"

subsection \<open>One batch\<close>

text \<open>
  What a call of \<open>Process\<close> meets outside the processor: the Redis client, the lab database and
  its faults, the jitter draw, and the instants read from \<open>p.now\<close> and, in the Redis store,
  from \<open>time.Now\<close>.
\<close>

record 'w cache_env =
  env_redis :: "'w redis_client"
  env_fault :: fault
  env_db :: labdb
  env_draw :: int
  env_now :: gotime
  env_clock :: gotime

record resolution =
  re_Outcome :: string
  re_ResolvedBy :: string
  re_Product :: "CacheProduct option"
  re_Trace :: "CacheTraceStep list"
  re_Deltas :: "CacheDelta list"

abbreviation step :: "string \<Rightarrow> string \<Rightarrow> CacheTraceStep" where
  "step layer res \<equiv> \<lparr>ct_Layer = layer, ct_Result = res\<rparr>"

text \<open>The lookup in MySQL, after Redis missed or failed, and the fill of both caches.\<close>

definition resolve_mysql ::
  "'w cache_env \<Rightarrow> nat \<Rightarrow> CacheTraceStep list \<Rightarrow> bool \<Rightarrow> cache_processor \<Rightarrow> 'w \<Rightarrow>
   (app_error, resolution) result \<times> cache_processor \<times> 'w" where
  "resolve_mysql env pid trace redisFailed p w =
     (case product_Get (env_fault env) (env_db env) pid of
        Inl ErrProductNotFound \<Rightarrow>
          (Inr \<lparr>re_Outcome = ''not_found'', re_ResolvedBy = ''mysql'', re_Product = None,
                re_Trace = trace @ [step ''mysql'' ''not_found''], re_Deltas = []\<rparr>, p, w)
      | Inl e \<Rightarrow> (Inl e, p, w)
      | Inr v \<Rightarrow>
         (let (setResult, w1) = redis_Set (env_redis env) (pz_redis p) (env_draw env) (env_clock env) v w;
              redisDeltas = (case setResult of
                 Inl _ \<Rightarrow> []
               | Inr expiresAt \<Rightarrow>
                   [\<lparr>cd_Scope = ''redis'', cd_InstanceID = [], cd_Operation = ''add'',
                     cd_ProductID = cp_ID v, cd_Reason = ''mysql_fill'', cd_Product = Some v,
                     cd_ExpiresAt = Some expiresAt\<rparr>]);
              (l1Deltas, p1) = putL1IfEnabled v (env_now env) ''mysql_fill'' p
          in (Inr \<lparr>re_Outcome = ''found'',
                   re_ResolvedBy = (if redisFailed then ''degraded'' else ''mysql''),
                   re_Product = Some v, re_Trace = trace @ [step ''mysql'' ''hit''],
                   re_Deltas = redisDeltas @ l1Deltas\<rparr>, p1, w1)))"

definition resolve_redis ::
  "'w cache_env \<Rightarrow> nat \<Rightarrow> CacheTraceStep list \<Rightarrow> cache_processor \<Rightarrow> 'w \<Rightarrow>
   (app_error, resolution) result \<times> cache_processor \<times> 'w" where
  "resolve_redis env pid trace p w =
     (case redis_Get (env_redis env) (pz_redis p) pid w of
        (Inr (Some v), w1) \<Rightarrow>
         (let (deltas, p1) = putL1IfEnabled v (env_now env) ''redis_fill'' p
          in (Inr \<lparr>re_Outcome = ''found'', re_ResolvedBy = ''redis'', re_Product = Some v,
                   re_Trace = trace @ [step ''redis'' ''hit''], re_Deltas = deltas\<rparr>, p1, w1))
      | (Inr None, w1) \<Rightarrow> resolve_mysql env pid (trace @ [step ''redis'' ''miss'']) False p w1
      | (Inl _, w1) \<Rightarrow> resolve_mysql env pid (trace @ [step ''redis'' ''unavailable'']) True p w1)"

definition resolve ::
  "'w cache_env \<Rightarrow> nat \<Rightarrow> cache_processor \<Rightarrow> 'w \<Rightarrow>
   (app_error, resolution) result \<times> cache_processor \<times> 'w" where
  "resolve env pid p w =
     (let (hit, p1) =
        (if pz_l1Enabled p
         then (let (r, l1') = l1_Get pid (env_now env) (pz_l1 p) in (r, p\<lparr>pz_l1 := l1'\<rparr>))
         else (None, p))
      in case hit of
           Some v \<Rightarrow>
             (Inr \<lparr>re_Outcome = ''found'', re_ResolvedBy = ''l1'', re_Product = Some v,
                   re_Trace = [step ''l1'' ''hit''], re_Deltas = []\<rparr>, p1, w)
         | None \<Rightarrow>
             resolve_redis env pid
               [step ''l1'' (if pz_l1Enabled p then ''miss'' else ''disabled'')] p1 w)"

definition cache_Process ::
  "'w cache_env \<Rightarrow> TrafficBatchRequest \<Rightarrow> cache_processor \<Rightarrow> 'w \<Rightarrow>
   (app_error, TrafficBatchResult) result \<times> cache_processor \<times> 'w" where
  "cache_Process env request p w =
     (if rq_BatchID request = [] \<or> rq_ProductID request = 0 \<or> rq_RequestUnits request \<le> 0
      then (Inl ErrInvalidBatch, p, w)
      else case resolve env (rq_ProductID request) p w of
        (Inl e, p1, w1) \<Rightarrow> (Inl e, p1, w1)
      | (Inr r, p1, w1) \<Rightarrow>
         (let cacheResult =
                \<lparr>cr_ActualLookupCount = 1, cr_Outcome = re_Outcome r,
                 cr_ResolvedBy = re_ResolvedBy r, cr_Trace = re_Trace r,
                 cr_Product = (if re_Outcome r = ''found'' then re_Product r else None),
                 cr_SimulatedLatencyMS = latency (pz_config p) (re_ResolvedBy r),
                 cr_ObservedAt = env_now env, cr_Deltas = re_Deltas r\<rparr>;
              (p2, w2) = report (env_redis env) (env_now env) p1 w1;
              (result, p3) = cache_allocate p2 request (env_now env) cacheResult
          in (Inr result, p3, w2)))"

subsection \<open>The load model of the cache processor\<close>

definition cache_alloc ::
  "load_config \<Rightarrow> rat \<Rightarrow> gotime \<Rightarrow> int \<Rightarrow> gotime \<Rightarrow> int \<times> int \<times> rat" where
  "cache_alloc c l t u now =
     (let (r, p') = cache_allocate
            \<lparr>pz_l1 = NewL1Store 1 1, pz_redis = newRedisStore [] 1 0,
             pz_config = \<lparr>cc_load = c, cc_InstanceCount = 1, cc_L1MaxEntries = 1, cc_L1TTL = 1,
               cc_L2TTL = 1, cc_L2JitterPercent = 0, cc_LatencyL1MS = 1, cc_LatencyRedisMS = 1,
               cc_LatencyMySQLMS = 1, cc_LatencyDegradedMS = 1\<rparr>,
             pz_currentLoad = l, pz_lastUpdatedAt = t, pz_l1Enabled = True\<rparr>
            \<lparr>rq_BatchID = [], rq_ProductID = 0, rq_RequestUnits = u\<rparr> now
            \<lparr>cr_ActualLookupCount = 1, cr_Outcome = [], cr_ResolvedBy = [], cr_Trace = [],
             cr_Product = None, cr_SimulatedLatencyMS = 1, cr_ObservedAt = now, cr_Deltas = []\<rparr>
      in (tr_AcceptedUnits r, tr_DroppedUnits r, pz_currentLoad p'))"

lemma cache_alloc_core:
  "cache_alloc c l t u now =
     alloc_core (lc_MaxLoad c) (settle (lc_ProcessingSpeed c) l t now) u"
  by (simp only: cache_alloc_def cache_allocate_def alloc_core_def settle_def Let_def prod.case
      cache_processor.simps cache_config.simps TrafficBatchResult.simps TrafficBatchRequest.simps)

interpretation cache_load: load_allocator cache_alloc
  by unfold_locales (auto simp only: cache_alloc_core dest: alloc_core_settle_ok)

lemma cacheLoadState_eq: "cacheLoadState = loadState"
  by (simp add: fun_eq_iff cacheLoadState_def loadState_def)

text \<open>
  The two kinds of lab application split a batch alike: on the same configuration, load and
  instants, the cache processor yields the result of the order processor with the cache result
  added, and moves the load to the same value.
\<close>

theorem cache_allocate_eq_order:
  "cache_allocate p request now cr =
    (let (r, l) = order_allocate \<lparr>op_config = cc_load (pz_config p), op_currentLoad = pz_currentLoad p,
           op_lastUpdatedAt = pz_lastUpdatedAt p\<rparr> request now
     in (r\<lparr>tr_Cache := Some cr\<rparr>, p\<lparr>pz_currentLoad := l, pz_lastUpdatedAt := now\<rparr>))"
  by (simp only: cache_allocate_def order_allocate_def Let_def roundThree_def cacheLoadState_eq
      order_processor.select_convs prod.case TrafficBatchResult.update_convs)

subsection \<open>The invariant of the processor\<close>

text \<open>A disabled local cache is empty, and the local cache is always well formed.\<close>

definition cache_inv :: "cache_processor \<Rightarrow> bool" where
  "cache_inv p = (l1_ok (pz_l1 p) \<and> (\<not> pz_l1Enabled p \<longrightarrow> lru_of (pz_l1 p) = []) \<and>
     load_config_ok (cc_load (pz_config p)) \<and> load_ok (cc_load (pz_config p)) (pz_currentLoad p))"

lemma l1_ok_Snapshot:
  assumes "l1_ok s" "l1_Snapshot now s = (vs, s')"
  shows "l1_ok s' \<and> lru_of s' = filter (\<lambda>v. now < lv_expiresAt v) (lru_of s)"
proof -
  have i: "l1_inv s" using assms(1) by (simp add: l1_ok_def)
  have "l1_maximum (snd (l1_snapshot_loop now rest vs s)) = l1_maximum s" for rest vs s
    by (induction now rest vs s rule: l1_snapshot_loop.induct) (auto simp: l1_remove_def)
  then have "l1_maximum s' = l1_maximum s" using assms(2) by (metis l1_Snapshot_def snd_conv)
  moreover have "int (length (filter (\<lambda>v. now < lv_expiresAt v) (lru_of s))) \<le> int (length (lru_of s))"
    by simp
  ultimately show ?thesis
    using l1_Snapshot_refines [OF i assms(2)] assms(1) unfolding l1_ok_def
    by (metis order_trans)
qed

lemma l1_ok_Clear: "l1_ok s \<Longrightarrow> l1_ok (snd (l1_Clear s)) \<and> lru_of (snd (l1_Clear s)) = []"
  using l1_Clear_refines [of s] by (auto simp: l1_ok_def l1_Clear_def)

definition same_but_l1 :: "cache_processor \<Rightarrow> cache_processor \<Rightarrow> bool" where
  "same_but_l1 p q = (pz_redis q = pz_redis p \<and> pz_config q = pz_config p \<and>
     pz_currentLoad q = pz_currentLoad p \<and> pz_lastUpdatedAt q = pz_lastUpdatedAt p \<and>
     pz_l1Enabled q = pz_l1Enabled p)"

lemma same_but_l1_refl [simp]: "same_but_l1 p p"
  by (simp add: same_but_l1_def)

lemma same_but_l1_update [simp]: "same_but_l1 p (p\<lparr>pz_l1 := l\<rparr>)"
  by (simp add: same_but_l1_def)

lemma same_but_l1_trans: "same_but_l1 p q \<Longrightarrow> same_but_l1 q r \<Longrightarrow> same_but_l1 p r"
  by (simp add: same_but_l1_def)

lemma putL1IfEnabled_ok:
  assumes "putL1IfEnabled v now reason p = (ds, p')" "l1_ok (pz_l1 p)"
  shows "l1_ok (pz_l1 p')" "same_but_l1 p p'" "\<not> pz_l1Enabled p \<Longrightarrow> p' = p"
    "pz_l1Enabled p \<Longrightarrow> l1_look (pz_l1 p') (cp_ID v) = Some (v, now + l1_ttl (pz_l1 p))"
proof -
  obtain e ev s' where put: "l1_Put v now (pz_l1 p) = ((e, ev), s')"
    by (metis prod.collapse)
  note law = l1_Put_law [OF assms(2) put] and look = l1.look_after_put [OF assms(2) put]
  show "l1_ok (pz_l1 p')" "same_but_l1 p p'" "\<not> pz_l1Enabled p \<Longrightarrow> p' = p"
    "pz_l1Enabled p \<Longrightarrow> l1_look (pz_l1 p') (cp_ID v) = Some (v, now + l1_ttl (pz_l1 p))"
    using assms law look put
    by (auto simp: putL1IfEnabled_def putL1_def Let_def split: if_splits)
qed

text \<open>What a lookup below the local cache leaves: the caller's product at the front of it.\<close>

definition filled :: "nat \<Rightarrow> gotime \<Rightarrow> cache_processor \<Rightarrow> cache_processor \<Rightarrow>
    (app_error, resolution) result \<Rightarrow> bool" where
  "filled pid now p p' r = (l1_ok (pz_l1 p') \<and> same_but_l1 p p' \<and>
     (\<not> pz_l1Enabled p \<longrightarrow> p' = p) \<and>
     (case r of Inl _ \<Rightarrow> True
      | Inr x \<Rightarrow> (re_Outcome x = ''found'' \<longrightarrow>
          (\<exists>v. re_Product x = Some v \<and> cp_ID v = pid \<and>
             (pz_l1Enabled p \<longrightarrow> l1_look (pz_l1 p') pid = Some (v, now + l1_ttl (pz_l1 p)))))))"

lemma product_Get_id: "product_Get flt db pid = Inr v \<Longrightarrow> cp_ID v = pid"
  by (auto simp: product_Get_def find_product_def find_Some_iff split: if_splits option.splits)

lemma resolve_mysql_filled:
  assumes "resolve_mysql env pid tr rf p w = (r, p', w')" "l1_ok (pz_l1 p)"
  shows "filled pid (env_now env) p p' r"
proof (cases "product_Get (env_fault env) (env_db env) pid")
  case (Inl e)
  then show ?thesis
    using assms by (cases e) (auto simp: resolve_mysql_def filled_def)
next
  case (Inr v)
  obtain ds q where q: "putL1IfEnabled v (env_now env) ''mysql_fill'' p = (ds, q)" by fastforce
  have "p' = q" "\<exists>x. r = Inr x \<and> re_Product x = Some v"
    using assms(1) Inr q by (auto simp: resolve_mysql_def Let_def split: prod.splits)
  then show ?thesis
    using putL1IfEnabled_ok [OF q assms(2)] product_Get_id [OF Inr] by (auto simp: filled_def)
qed

lemma redis_Get_id: "redis_Get rc s pid w = (Inr (Some v), w') \<Longrightarrow> cp_ID v = pid"
  by (auto simp: redis_Get_def split: prod.splits redis_reply.splits option.splits if_splits)

lemma resolve_redis_filled:
  assumes "resolve_redis env pid tr p w = (r, p', w')" "l1_ok (pz_l1 p)"
  shows "filled pid (env_now env) p p' r"
proof -
  obtain a w1 where g: "redis_Get (env_redis env) (pz_redis p) pid w = (a, w1)" by fastforce
  show ?thesis
  proof (cases "\<exists>v. a = Inr (Some v)")
    case True
    then obtain v where a: "a = Inr (Some v)" by blast
    obtain ds q where q: "putL1IfEnabled v (env_now env) ''redis_fill'' p = (ds, q)" by fastforce
    have "p' = q" "\<exists>x. r = Inr x \<and> re_Product x = Some v"
      using assms(1) g a q by (auto simp: resolve_redis_def Let_def)
    then show ?thesis
      using putL1IfEnabled_ok [OF q assms(2)] redis_Get_id g a by (fastforce simp: filled_def)
  next
    case False
    then obtain tr' rf where "resolve_mysql env pid tr' rf p w1 = (r, p', w')"
      using assms(1) g by (auto simp: resolve_redis_def split: sum.splits option.splits)
    then show ?thesis by (rule resolve_mysql_filled) (rule assms(2))
  qed
qed

text \<open>The outcome of a whole lookup: a hit answers from the local cache and keeps it.\<close>

lemma resolve_cases:
  assumes "resolve env pid p w = (r, p', w')" "l1_ok (pz_l1 p)"
  obtains (hit) v e x where "pz_l1Enabled p" "l1_look (pz_l1 p) pid = Some (v, e)" "env_now env < e"
      "r = Inr x" "re_Outcome x = ''found''" "re_ResolvedBy x = ''l1''" "re_Product x = Some v"
      "l1_ok (pz_l1 p')" "l1_look (pz_l1 p') = l1_look (pz_l1 p)"
      "l1_ttl (pz_l1 p') = l1_ttl (pz_l1 p)" "same_but_l1 p p'" "w' = w"
  | (miss) q tr where "resolve_redis env pid tr q w = (r, p', w')" "filled pid (env_now env) q p' r"
      "l1_ok (pz_l1 q)" "same_but_l1 p q" "\<not> pz_l1Enabled p \<Longrightarrow> q = p"
      "l1_ttl (pz_l1 q) = l1_ttl (pz_l1 p)"
proof -
  obtain g s' where g: "l1_Get pid (env_now env) (pz_l1 p) = (g, s')" by fastforce
  note law = l1_Get_law [OF assms(2) g]
  show ?thesis
  proof (cases "pz_l1Enabled p \<and> g \<noteq> None")
    case True
    then obtain v where v: "g = Some v" "pz_l1Enabled p" by blast
    then obtain e where e: "l1_look (pz_l1 p) pid = Some (v, e)" "env_now env < e"
      using law by (auto split: option.splits if_splits)
    show ?thesis
      using assms(1) g v e law by (intro hit [of v e]) (auto simp: resolve_def Let_def)
  next
    case False
    define q where "q = (if pz_l1Enabled p then p\<lparr>pz_l1 := s'\<rparr> else p)"
    have "\<exists>tr. resolve_redis env pid tr q w = (r, p', w')"
      using assms(1) g False by (auto simp: resolve_def Let_def q_def split: if_splits)
    then obtain tr where tr: "resolve_redis env pid tr q w = (r, p', w')" by blast
    have q: "l1_ok (pz_l1 q)" "same_but_l1 p q" "\<not> pz_l1Enabled p \<Longrightarrow> q = p"
      "l1_ttl (pz_l1 q) = l1_ttl (pz_l1 p)"
      using law assms(2) by (auto simp: q_def)
    show ?thesis by (rule miss [OF tr resolve_redis_filled [OF tr q(1)] q])
  qed
qed

subsection \<open>Invariants and fills\<close>

lemma report_ok:
  assumes "report rc now p w = (p', w')" "l1_ok (pz_l1 p)"
  shows "l1_ok (pz_l1 p')" "same_but_l1 p p'"
    "lru_of (pz_l1 p') = filter (\<lambda>v. now < lv_expiresAt v) (lru_of (pz_l1 p))"
proof -
  obtain vs s' where s: "l1_Snapshot now (pz_l1 p) = (vs, s')" by fastforce
  have "p' = p\<lparr>pz_l1 := s'\<rparr>"
    using assms(1) s by (auto simp: report_def localInstanceState_def Let_def split: prod.splits)
  then show "l1_ok (pz_l1 p')" "same_but_l1 p p'"
    "lru_of (pz_l1 p') = filter (\<lambda>v. now < lv_expiresAt v) (lru_of (pz_l1 p))"
    using l1_ok_Snapshot [OF assms(2) s] by simp_all
qed

lemma cache_allocate_parts:
  "pz_l1 (snd (cache_allocate p rq now cr)) = pz_l1 p"
  "pz_config (snd (cache_allocate p rq now cr)) = pz_config p"
  "pz_l1Enabled (snd (cache_allocate p rq now cr)) = pz_l1Enabled p"
  "pz_redis (snd (cache_allocate p rq now cr)) = pz_redis p"
  "tr_Cache (fst (cache_allocate p rq now cr)) = Some cr"
  "cache_alloc (cc_load (pz_config p)) (pz_currentLoad p) (pz_lastUpdatedAt p)
     (rq_RequestUnits rq) now =
   (tr_AcceptedUnits (fst (cache_allocate p rq now cr)),
    tr_DroppedUnits (fst (cache_allocate p rq now cr)),
    pz_currentLoad (snd (cache_allocate p rq now cr)))"
  by (cases p; simp only: cache_alloc_def cache_allocate_def Let_def prod.case fst_conv snd_conv
      cache_processor.simps cache_config.simps TrafficBatchResult.simps TrafficBatchRequest.simps)+

lemma cache_allocate_state:
  assumes "cache_allocate p rq now cr = (x, p')"
  shows "pz_l1 p' = pz_l1 p" "pz_config p' = pz_config p" "pz_l1Enabled p' = pz_l1Enabled p"
    "pz_redis p' = pz_redis p" "tr_Cache x = Some cr"
    "cache_alloc (cc_load (pz_config p)) (pz_currentLoad p) (pz_lastUpdatedAt p)
       (rq_RequestUnits rq) now = (tr_AcceptedUnits x, tr_DroppedUnits x, pz_currentLoad p')"
  using cache_allocate_parts [of p rq now cr] unfolding assms by simp_all

text \<open>The parts of a successful batch.\<close>

lemma cache_Process_Inr:
  assumes "cache_Process env rq p w = (Inr x, p', w')"
  obtains r p1 w1 p2 cr where "resolve env (rq_ProductID rq) p w = (Inr r, p1, w1)"
    "report (env_redis env) (env_now env) p1 w1 = (p2, w')"
    "cache_allocate p2 rq (env_now env) cr = (x, p')" "0 < rq_RequestUnits rq"
    "cr_ResolvedBy cr = re_ResolvedBy r" "cr_Outcome cr = re_Outcome r"
    "re_Outcome r = ''found'' \<Longrightarrow> cr_Product cr = re_Product r"
proof -
  have v: "\<not> (rq_BatchID rq = [] \<or> rq_ProductID rq = 0 \<or> rq_RequestUnits rq \<le> 0)"
    using assms unfolding cache_Process_def by (metis Inl_Inr_False prod.inject)
  obtain a p1 w1 where a: "resolve env (rq_ProductID rq) p w = (a, p1, w1)" by (metis prod_cases3)
  then obtain r where r: "a = Inr r"
    using assms v by (cases a) (simp_all add: cache_Process_def)
  obtain p2 w2 where p2: "report (env_redis env) (env_now env) p1 w1 = (p2, w2)" by fastforce
  define cr where "cr = \<lparr>cr_ActualLookupCount = 1, cr_Outcome = re_Outcome r,
    cr_ResolvedBy = re_ResolvedBy r, cr_Trace = re_Trace r,
    cr_Product = (if re_Outcome r = ''found'' then re_Product r else None),
    cr_SimulatedLatencyMS = latency (pz_config p) (re_ResolvedBy r),
    cr_ObservedAt = env_now env, cr_Deltas = re_Deltas r\<rparr>"
  obtain y p3 where p3: "cache_allocate p2 rq (env_now env) cr = (y, p3)" by fastforce
  have "(Inr y, p3, w2) = (Inr x, p', w')"
    using assms v a r p2 p3 by (simp add: cache_Process_def Let_def cr_def)
  then show ?thesis using that [of r p1 w1 p2 cr] a r p2 p3 v by (simp add: cr_def)
qed

lemma cache_inv_Process:
  assumes "cache_inv p" "cache_Process env rq p w = (r, p', w')"
  shows "cache_inv p'"
proof -
  have ok: "l1_ok (pz_l1 p)" using assms(1) by (simp add: cache_inv_def)
  have res: "l1_ok (pz_l1 p1) \<and> same_but_l1 p p1 \<and> (\<not> pz_l1Enabled p \<longrightarrow> p1 = p)"
    if "resolve env (rq_ProductID rq) p w = (x, p1, w1)" for x p1 w1
  proof (rule resolve_cases [OF that ok])
    fix q tr
    assume "filled (rq_ProductID rq) (env_now env) q p1 x" "same_but_l1 p q"
      "\<not> pz_l1Enabled p \<Longrightarrow> q = p"
    then show ?thesis
      using same_but_l1_trans [of p q p1] by (auto simp: filled_def same_but_l1_def)
  qed auto
  show ?thesis
  proof (cases r)
    case (Inl e)
    then consider "p' = p" | w1 where "resolve env (rq_ProductID rq) p w = (Inl e, p', w1)"
      using assms(2) by (auto simp: cache_Process_def split: if_splits prod.splits sum.splits)
    then show ?thesis
      using assms(1) res by cases (auto simp: cache_inv_def same_but_l1_def)
  next
    case (Inr x)
    obtain r1 p1 w1 p2 cr where p1: "resolve env (rq_ProductID rq) p w = (Inr r1, p1, w1)"
      and p2: "report (env_redis env) (env_now env) p1 w1 = (p2, w')"
      and p3: "cache_allocate p2 rq (env_now env) cr = (x, p')" and u: "0 < rq_RequestUnits rq"
      using assms(2) unfolding Inr by (rule cache_Process_Inr)
    have "l1_ok (pz_l1 p2)" "same_but_l1 p p2"
      using res [OF p1] report_ok [OF p2] same_but_l1_trans by blast+
    moreover have "\<not> pz_l1Enabled p \<Longrightarrow> lru_of (pz_l1 p2) = []"
      using res [OF p1] report_ok(3) [OF p2] assms(1) by (simp add: cache_inv_def)
    moreover have "load_ok (cc_load (pz_config p)) (pz_currentLoad p')"
      using cache_load.alloc_load_ok [OF cache_allocate_state(6) [OF p3]] assms(1) u
        \<open>same_but_l1 p p2\<close> by (simp add: cache_inv_def same_but_l1_def)
    ultimately show ?thesis
      using cache_allocate_state [OF p3] assms(1) by (simp add: cache_inv_def same_but_l1_def)
  qed
qed

lemma cache_inv_SetL1Enabled:
  assumes "cache_inv p" "SetL1Enabled b now p = (st, p')"
  shows "cache_inv p'" "pz_l1Enabled p' = b"
proof -
  have ok: "l1_ok (pz_l1 p)" using assms(1) by (simp add: cache_inv_def)
  define s where "s = (if \<not> b \<and> pz_l1Enabled p then snd (l1_Clear (pz_l1 p)) else pz_l1 p)"
  obtain vs s' where s': "l1_Snapshot now s = (vs, s')" by fastforce
  have s: "l1_ok s" "\<not> b \<Longrightarrow> lru_of s = []"
    using l1_ok_Clear [OF ok] ok assms(1) by (auto simp: s_def cache_inv_def)
  have "p' = p\<lparr>pz_l1Enabled := b, pz_l1 := s'\<rparr>"
    using assms(2) s' by (auto simp: SetL1Enabled_def Let_def s_def split: if_splits prod.splits)
  then show "cache_inv p'" "pz_l1Enabled p' = b"
    using l1_ok_Snapshot [OF s(1) s'] s(2) assms(1) by (auto simp: cache_inv_def)
qed

lemma lru_find_filter:
  "lru_ok xs \<Longrightarrow> lru_find k (filter P xs) =
     (case lru_find k xs of None \<Rightarrow> None | Some v \<Rightarrow> if P v then Some v else None)"
proof (induction xs)
  case (Cons v xs)
  have "cp_ID (lv_product v) = k \<Longrightarrow> lru_find k xs = None"
    using Cons.prems by (auto simp: lru_ok_def lru_find_def find_None_iff image_iff)
  then show ?case using Cons by (auto simp: lru_find_Cons lru_ok_def)
qed (simp add: lru_find_def)

lemma report_look:
  assumes "report rc now p w = (p', w')" "l1_ok (pz_l1 p)" "l1_look (pz_l1 p) k = Some (v, e)" "now < e"
  shows "l1_look (pz_l1 p') k = Some (v, e)"
proof -
  have "lru_ok (lru_of (pz_l1 p))" using assms(2) by (simp add: l1_ok_def lru_of_ok)
  then show ?thesis
    using assms(3,4) unfolding l1_look_def report_ok(3) [OF assms(1,2)]
    by (auto simp: lru_find_filter split: option.splits)
qed


subsection \<open>Sequences of calls\<close>

datatype 'w cache_call = CProcess "'w cache_env" TrafficBatchRequest | CSetL1 bool gotime
  | CReport "'w redis_client" gotime

fun cache_step :: "'w cache_call \<Rightarrow> cache_processor \<times> 'w \<Rightarrow> cache_processor \<times> 'w" where
  "cache_step (CProcess env rq) (p, w) = snd (cache_Process env rq p w)"
| "cache_step (CSetL1 b now) (p, w) = (snd (SetL1Enabled b now p), w)"
| "cache_step (CReport rc now) (p, w) = report rc now p w"

lemma cache_inv_report:
  assumes "report rc now p w = (p', w')" "cache_inv p"
  shows "cache_inv p'"
  using report_ok [OF assms(1)] assms(2) by (auto simp: cache_inv_def same_but_l1_def)

lemma cache_inv_step: "cache_inv (fst s) \<Longrightarrow> cache_inv (fst (cache_step c s))"
proof (cases s)
  case (Pair p w)
  assume i: "cache_inv (fst s)"
  show ?thesis
  proof (cases c)
    case (CProcess env rq)
    then show ?thesis
      using i Pair cache_inv_Process [of p env rq w] by (cases "cache_Process env rq p w") simp
  next
    case (CSetL1 b now)
    then show ?thesis
      using i Pair cache_inv_SetL1Enabled(1) [of p b now] by (cases "SetL1Enabled b now p") simp
  next
    case (CReport rc now)
    then show ?thesis
      using i Pair cache_inv_report [of rc now p w] by (cases "report rc now p w") simp
  qed
qed

lemma cache_inv_run: "cache_inv (fst s) \<Longrightarrow> cache_inv (fst (fold cache_step cs s))"
  by (induction cs arbitrary: s) (simp_all add: cache_inv_step)

lemma cache_inv_New:
  "NewCacheProcessor a c = Some p \<Longrightarrow> load_config_ok (cc_load c) \<Longrightarrow> cache_inv p"
  by (auto simp: NewCacheProcessor_def Let_def cache_inv_def l1_ok_def l1_inv_New lru_of_New
      load_config_ok_def load_ok_def NewL1Store_def split: if_splits)
    (simp_all add: l1_inv_def lru_of_def)


text \<open>No call changes the configuration, the capacity or the life of the local cache.\<close>

definition kept :: "cache_processor \<Rightarrow> cache_processor \<Rightarrow> bool" where
  "kept p q = (pz_config q = pz_config p \<and> pz_redis q = pz_redis p \<and>
     l1_maximum (pz_l1 q) = l1_maximum (pz_l1 p) \<and> l1_ttl (pz_l1 q) = l1_ttl (pz_l1 p))"

lemma kept_refl [simp]: "kept p p"
  by (simp add: kept_def)

lemma kept_trans: "kept p q \<Longrightarrow> kept q r \<Longrightarrow> kept p r"
  by (simp add: kept_def)

lemma kept_put: "kept p (snd (putL1IfEnabled v now reason p))"
  using l1_frame(3,4) [of v now "pz_l1 p"]
  by (auto simp: putL1IfEnabled_def putL1_def kept_def Let_def split: prod.splits)

lemma kept_mysql: "kept p (fst (snd (resolve_mysql env pid tr rf p w)))"
  using kept_put [of p _ "env_now env" "''mysql_fill''"]
  by (auto simp: resolve_mysql_def Let_def case_prod_beta split: sum.splits app_error.splits)

lemma kept_redis: "kept p (fst (snd (resolve_redis env pid tr p w)))"
  using kept_put [of p _ "env_now env" "''redis_fill''"] kept_mysql
  by (auto simp: resolve_redis_def Let_def case_prod_beta split: sum.splits option.splits)

lemma kept_resolve: "kept p (fst (snd (resolve env pid p w)))"
proof -
  have "kept p (p\<lparr>pz_l1 := snd (l1_Get pid (env_now env) (pz_l1 p))\<rparr>)"
    using l1_frame(1,2) [of pid "env_now env" "pz_l1 p"] by (simp add: kept_def)
  then show ?thesis
    using kept_redis kept_trans [OF _ kept_redis]
    by (auto simp: resolve_def Let_def case_prod_beta split: option.splits)
qed

lemma kept_snapshot: "kept p (p\<lparr>pz_l1Enabled := b, pz_l1 := snd (l1_Snapshot now (pz_l1 p))\<rparr>)"
  using l1_snapshot_loop_frame by (simp add: kept_def l1_Snapshot_def)

lemma kept_report: "kept p (fst (report rc now p w))"
  using kept_snapshot [where p = p and b = "pz_l1Enabled p" and now = now]
  by (simp add: report_def localInstanceState_def Let_def case_prod_beta)

lemma kept_SetL1Enabled: "kept p (snd (SetL1Enabled b now p))"
  using l1_snapshot_loop_frame
  by (auto simp: SetL1Enabled_def kept_def Let_def case_prod_beta l1_Snapshot_def l1_Clear_def)

lemma kept_Process: "kept p (fst (snd (cache_Process env rq p w)))"
proof (cases "cache_Process env rq p w")
  case (fields r p' w')
  show ?thesis
  proof (cases r)
    case (Inl e)
    then consider "p' = p" | w1 where "resolve env (rq_ProductID rq) p w = (Inl e, p', w1)"
      using fields by (auto simp: cache_Process_def split: if_splits prod.splits sum.splits)
    then show ?thesis using fields kept_resolve [of p env "rq_ProductID rq" w] by cases simp_all
  next
    case (Inr x)
    obtain r1 p1 w1 p2 cr where p: "resolve env (rq_ProductID rq) p w = (Inr r1, p1, w1)"
      "report (env_redis env) (env_now env) p1 w1 = (p2, w')"
      "cache_allocate p2 rq (env_now env) cr = (x, p')"
      using fields unfolding Inr by (rule cache_Process_Inr)
    have "kept p2 p'" using cache_allocate_state [OF p(3)] by (simp add: kept_def)
    then show ?thesis
      using kept_resolve [of p env "rq_ProductID rq" w] fields
        kept_report [of p1 "env_redis env" "env_now env" w1] p
      by (auto intro: kept_trans)
  qed
qed

lemma kept_step: "kept (fst s) (fst (cache_step c s))"
  using kept_Process kept_SetL1Enabled kept_report by (cases s; cases c) simp_all

lemma kept_run: "kept (fst s) (fst (fold cache_step cs s))"
proof (induction cs arbitrary: s)
  case (Cons c cs)
  then show ?case using kept_trans [OF kept_step Cons.IH] by simp
qed simp


subsection \<open>The guarantees of the processor\<close>

text \<open>
  Claim C34. Whatever batches, switches of the local cache and reports a processor sees, and
  whatever Redis and the database answer, its local cache never holds more than
  \<open>L1MaxEntries\<close> products, it is empty while it is disabled, and the load of the instance stays
  between 0 and its maximum.
\<close>

theorem cache_processor_safe:
  assumes "NewCacheProcessor addr c = Some p" "load_config_ok (cc_load c)"
    "fold cache_step calls (p, w) = (p', w')"
  shows "int (length (l1_recency (pz_l1 p'))) \<le> cc_L1MaxEntries c \<and>
    (\<not> pz_l1Enabled p' \<longrightarrow> l1_recency (pz_l1 p') = []) \<and>
    0 \<le> pz_currentLoad p' \<and> pz_currentLoad p' \<le> of_int (lc_MaxLoad (cc_load c))"
proof -
  have "cache_inv p'"
    using cache_inv_run [of "(p, w)" calls] cache_inv_New [OF assms(1,2)] assms(3) by simp
  moreover have "kept p p'" using kept_run [of "(p, w)" calls] assms(3) by simp
  moreover have "l1_maximum (pz_l1 p) = cc_L1MaxEntries c" "pz_config p = c"
    using assms(1) by (auto simp: NewCacheProcessor_def NewL1Store_def Let_def split: if_splits)
  ultimately show ?thesis
    by (auto simp: cache_inv_def l1_ok_def lru_of_def kept_def load_ok_def)
qed

theorem cache_processor_safe_witness:
  "\<exists>p. NewCacheProcessor ''redis:6379''
      \<lparr>cc_load = \<lparr>lc_LabID = ''lab-1'', lc_InstanceID = ''app-1'', lc_ProcessingSpeed = 10,
         lc_MaxLoad = 100\<rparr>,
       cc_InstanceCount = 2, cc_L1MaxEntries = 3, cc_L1TTL = 60, cc_L2TTL = 90,
       cc_L2JitterPercent = 10, cc_LatencyL1MS = 1, cc_LatencyRedisMS = 5,
       cc_LatencyMySQLMS = 20, cc_LatencyDegradedMS = 40\<rparr> = Some p \<and>
     int (length (l1_recency (pz_l1 (fst (fold cache_step [CSetL1 False 7] (p, ())))))) \<le> 3"
proof -
  let ?c = "\<lparr>cc_load = \<lparr>lc_LabID = ''lab-1'', lc_InstanceID = ''app-1'', lc_ProcessingSpeed = 10,
         lc_MaxLoad = 100\<rparr>,
       cc_InstanceCount = 2, cc_L1MaxEntries = 3, cc_L1TTL = 60, cc_L2TTL = 90,
       cc_L2JitterPercent = 10, cc_LatencyL1MS = 1, cc_LatencyRedisMS = 5,
       cc_LatencyMySQLMS = 20, cc_LatencyDegradedMS = 40\<rparr>"
  obtain p where p: "NewCacheProcessor ''redis:6379'' ?c = Some p"
    by (simp add: NewCacheProcessor_def Let_def)
  obtain p' w' where "fold cache_step [CSetL1 False 7] (p, ()) = (p', w')" by fastforce
  with cache_processor_safe [OF p _ this] p show ?thesis
    by (simp add: load_config_ok_def)
qed

lemma product_Get_Inl:
  "product_Get flt db pid = Inl e \<Longrightarrow> e = ErrProductNotFound \<or>
     e = ErrDatabase ''read product'' \<and> flt ''read product''"
  by (auto simp: product_Get_def split: if_splits option.splits)

lemma resolve_Inl:
  assumes "resolve env pid p w = (Inl e, p', w')"
  shows "e = ErrDatabase ''read product'' \<and> env_fault env ''read product''"
proof -
  have my: "e = ErrDatabase ''read product'' \<and> env_fault env ''read product''"
    if "resolve_mysql env pid tr rf q u = (Inl e, q', u')" for tr rf q u q' u'
    using that product_Get_Inl [of "env_fault env" "env_db env" pid]
    by (auto simp: resolve_mysql_def Let_def case_prod_beta split: sum.splits app_error.splits)
  have "e = ErrDatabase ''read product'' \<and> env_fault env ''read product''"
    if "resolve_redis env pid tr q u = (Inl e, q', u')" for tr q u q' u'
    using that my by (auto simp: resolve_redis_def Let_def split: prod.splits sum.splits option.splits)
  then show ?thesis
    using assms by (auto simp: resolve_def Let_def split: prod.splits option.splits if_splits)
qed

lemma cache_Process_cache:
  assumes "cache_Process env rq p w = (Inr x, p', w')"
    "resolve env (rq_ProductID rq) p w = (Inr r, p1, w1)"
  shows "\<exists>c. tr_Cache x = Some c \<and> cr_ResolvedBy c = re_ResolvedBy r \<and> cr_Outcome c = re_Outcome r"
proof (rule cache_Process_Inr [OF assms(1)])
  fix r' p1' w1' p2 cr
  assume "resolve env (rq_ProductID rq) p w = (Inr r', p1', w1')"
    "cache_allocate p2 rq (env_now env) cr = (x, p')"
    "cr_ResolvedBy cr = re_ResolvedBy r'" "cr_Outcome cr = re_Outcome r'"
  then show ?thesis using assms(2) cache_allocate_state(5) by fastforce
qed

lemma resolve_outcome:
  assumes "resolve env pid p w = (Inr r, p', w')"
  shows "re_Outcome r = ''found'' \<or>
    re_Outcome r = ''not_found'' \<and> product_Get (env_fault env) (env_db env) pid = Inl ErrProductNotFound"
proof -
  let ?ok = "\<lambda>r. re_Outcome r = ''found'' \<or>
    re_Outcome r = ''not_found'' \<and> product_Get (env_fault env) (env_db env) pid = Inl ErrProductNotFound"
  have my: "?ok r" if "resolve_mysql env pid tr rf q u = (Inr r, q', u')" for tr rf q u q' u'
    using that by (auto simp: resolve_mysql_def Let_def case_prod_beta split: sum.splits app_error.splits)
  have "?ok r" if "resolve_redis env pid tr q u = (Inr r, q', u')" for tr q u q' u'
    using that my by (auto simp: resolve_redis_def Let_def split: prod.splits sum.splits option.splits)
  then show ?thesis
    using assms by (auto simp: resolve_def Let_def split: prod.splits option.splits if_splits)
qed

lemma cache_Process_total:
  assumes "rq_BatchID rq \<noteq> []" "rq_ProductID rq \<noteq> 0" "0 < rq_RequestUnits rq"
    "\<not> env_fault env ''read product''"
  shows "\<exists>r p1 w1 x p' w'. resolve env (rq_ProductID rq) p w = (Inr r, p1, w1) \<and>
    cache_Process env rq p w = (Inr x, p', w')"
proof -
  obtain a p1 w1 where a: "resolve env (rq_ProductID rq) p w = (a, p1, w1)" by (metis prod_cases3)
  show ?thesis
  proof (cases a)
    case (Inl e)
    then show ?thesis using resolve_Inl [of env "rq_ProductID rq" p w e] a assms(4) by simp
  next
    case (Inr r)
    then show ?thesis using a assms by (simp add: cache_Process_def Let_def case_prod_beta)
  qed
qed

text \<open>
  Claim C35. The processor does not depend on Redis to answer: a well-formed batch is processed
  whatever Redis does, lost connections and undecodable values included, as long as the
  database can be read. A product of the catalogue is found; for a product that is not in it the answer is
  that it was not found, unless a cache still holds it.
\<close>

theorem cache_Process_available:
  assumes "rq_BatchID rq \<noteq> []" "rq_ProductID rq \<noteq> 0" "0 < rq_RequestUnits rq" "\<not> env_fault env ''read product''"
  shows "\<exists>x p' w' c. cache_Process env rq p w = (Inr x, p', w') \<and> tr_Cache x = Some c \<and>
    (cr_Outcome c = ''found'' \<or>
     cr_Outcome c = ''not_found'' \<and> find_product (env_db env) (rq_ProductID rq) = None)"
proof -
  obtain r p1 w1 x p' w' where r: "resolve env (rq_ProductID rq) p w = (Inr r, p1, w1)"
    and x: "cache_Process env rq p w = (Inr x, p', w')"
    using cache_Process_total [OF assms] by metis
  have "product_Get (env_fault env) (env_db env) (rq_ProductID rq) = Inl ErrProductNotFound \<Longrightarrow>
      find_product (env_db env) (rq_ProductID rq) = None"
    using assms(2,4) by (auto simp: product_Get_def split: option.splits)
  with resolve_outcome [OF r] cache_Process_cache [OF x r] x show ?thesis by auto
qed

definition redis_down :: "unit redis_client" where
  "redis_down = \<lparr>rc_Get = (\<lambda>_ w. (RErr, w)), rc_Set = (\<lambda>_ _ _ w. (False, w)), rc_Del = (\<lambda>_ w. w)\<rparr>"

definition sample_db :: labdb where
  "sample_db = \<lparr>products = [\<lparr>cp_ID = 1, cp_Name = ''a'', cp_Category = ''b'', cp_Version = 1\<rparr>],
     order_stats = []\<rparr>"

definition sample_env :: "gotime \<Rightarrow> unit cache_env" where
  "sample_env now = \<lparr>env_redis = redis_down, env_fault = (\<lambda>_. False), env_db = sample_db,
     env_draw = 0, env_now = now, env_clock = now\<rparr>"

definition sample_processor :: cache_processor where
  "sample_processor = \<lparr>pz_l1 = NewL1Store 3 60, pz_redis = newRedisStore ''lab-1'' 90 10,
     pz_config = \<lparr>cc_load = \<lparr>lc_LabID = ''lab-1'', lc_InstanceID = ''app-1'',
         lc_ProcessingSpeed = 10, lc_MaxLoad = 100\<rparr>,
       cc_InstanceCount = 2, cc_L1MaxEntries = 3, cc_L1TTL = 60, cc_L2TTL = 90,
       cc_L2JitterPercent = 10, cc_LatencyL1MS = 1, cc_LatencyRedisMS = 5,
       cc_LatencyMySQLMS = 20, cc_LatencyDegradedMS = 40\<rparr>,
     pz_currentLoad = 0, pz_lastUpdatedAt = 0, pz_l1Enabled = True\<rparr>"

definition sample_rq :: TrafficBatchRequest where
  "sample_rq = \<lparr>rq_BatchID = ''b-01'', rq_ProductID = 1, rq_RequestUnits = 10\<rparr>"

theorem cache_Process_available_witness:
  "\<exists>x p' w' c. cache_Process (sample_env 5) sample_rq sample_processor () = (Inr x, p', w') \<and>
     tr_Cache x = Some c \<and> cr_Outcome c = ''found''"
proof -
  have f: "find_product (env_db (sample_env 5)) (rq_ProductID sample_rq) \<noteq> None"
    by (simp add: sample_env_def sample_rq_def sample_db_def find_product_def)
  have "\<exists>x p' w' c. cache_Process (sample_env 5) sample_rq sample_processor () = (Inr x, p', w') \<and> tr_Cache x = Some c \<and>
      (cr_Outcome c = ''found'' \<or>
       cr_Outcome c = ''not_found'' \<and> find_product (env_db (sample_env 5)) (rq_ProductID sample_rq) = None)"
    by (rule cache_Process_available) (simp_all add: sample_env_def sample_rq_def)
  then show ?thesis using f by blast
qed

lemma cache_Process_fills:
  assumes "cache_inv p" "pz_l1Enabled p" "0 < l1_ttl (pz_l1 p)"
    "cache_Process env rq p w = (Inr x, p', w')"
    "tr_Cache x = Some cx" "cr_Outcome cx = ''found''" "cr_ResolvedBy cx \<noteq> ''l1''"
  shows "\<exists>v. cr_Product cx = Some v \<and> l1_ok (pz_l1 p') \<and> pz_l1Enabled p' \<and>
    l1_look (pz_l1 p') (rq_ProductID rq) = Some (v, env_now env + l1_ttl (pz_l1 p))"
proof -
  have ok: "l1_ok (pz_l1 p)" using assms(1) by (simp add: cache_inv_def)
  obtain r p1 w1 p2 cr where p1: "resolve env (rq_ProductID rq) p w = (Inr r, p1, w1)"
    and p2: "report (env_redis env) (env_now env) p1 w1 = (p2, w')"
    and p3: "cache_allocate p2 rq (env_now env) cr = (x, p')" and "0 < rq_RequestUnits rq"
    and cr: "cr_ResolvedBy cr = re_ResolvedBy r" "cr_Outcome cr = re_Outcome r"
      "re_Outcome r = ''found'' \<Longrightarrow> cr_Product cr = re_Product r"
    using cache_Process_Inr [OF assms(4)] by metis
  note st = cache_allocate_state [OF p3]
  have cx: "cx = cr" using st(5) assms(5) by simp
  have "\<exists>v. re_Product r = Some v \<and> l1_ok (pz_l1 p1) \<and> pz_l1Enabled p1 \<and>
      l1_look (pz_l1 p1) (rq_ProductID rq) = Some (v, env_now env + l1_ttl (pz_l1 p))"
    using p1 ok
  proof (cases rule: resolve_cases)
    case (miss q tr)
    then show ?thesis
      using assms(2,6) cx cr(2) by (auto simp: filled_def same_but_l1_def)
  qed (use assms(7) cx cr(1) in auto)
  then obtain v where v: "re_Product r = Some v" "l1_ok (pz_l1 p1)" "pz_l1Enabled p1"
    "l1_look (pz_l1 p1) (rq_ProductID rq) = Some (v, env_now env + l1_ttl (pz_l1 p))" by blast
  then have "l1_look (pz_l1 p') (rq_ProductID rq) = Some (v, env_now env + l1_ttl (pz_l1 p))"
    using report_look [OF p2 v(2,4)] assms(3) st(1) by simp
  moreover have "l1_ok (pz_l1 p')" "pz_l1Enabled p'"
    using report_ok [OF p2 v(2)] v(3) st by (simp_all add: same_but_l1_def)
  ultimately show ?thesis using cr v(1) cx assms(6) by simp
qed

lemma cache_Process_hit:
  assumes "l1_ok (pz_l1 p)" "pz_l1Enabled p" "cache_Process env rq p w = (Inr y, p', w')"
    "l1_look (pz_l1 p) (rq_ProductID rq) = Some (v, e)" "env_now env < e"
  shows "\<exists>cy. tr_Cache y = Some cy \<and> cr_ResolvedBy cy = ''l1'' \<and> cr_Product cy = Some v"
proof -
  obtain r p1 w1 p2 cr where p1: "resolve env (rq_ProductID rq) p w = (Inr r, p1, w1)"
    and p3: "cache_allocate p2 rq (env_now env) cr = (y, p')"
    and cr: "cr_ResolvedBy cr = re_ResolvedBy r"
      "re_Outcome r = ''found'' \<Longrightarrow> cr_Product cr = re_Product r"
    using cache_Process_Inr [OF assms(3)] by metis
  obtain g s' where g: "l1_Get (rq_ProductID rq) (env_now env) (pz_l1 p) = (g, s')" by fastforce
  then have "fst (l1_Get (rq_ProductID rq) (env_now env) (pz_l1 p)) = Some v"
    using l1_Get_law [OF assms(1) g] assms(4,5) by simp
  then have "re_ResolvedBy r = ''l1'' \<and> re_Product r = Some v \<and> re_Outcome r = ''found''"
    using p1 assms(2) by (auto simp: resolve_def Let_def case_prod_beta)
  then show ?thesis using cache_allocate_state(5) [OF p3] cr by simp
qed

text \<open>
  Read-through: after a batch found its product below the local cache, in Redis or in
  MySQL, a later batch for that product, within the life of a local entry, is answered by the
  local cache with the same product, whatever Redis and the database have become.
\<close>

theorem cache_read_through:
  assumes "cache_inv p" "pz_l1Enabled p" "0 < l1_ttl (pz_l1 p)"
    "cache_Process env rq p w = (Inr x, p', w')"
    "tr_Cache x = Some cx" "cr_Outcome cx = ''found''" "cr_ResolvedBy cx \<noteq> ''l1''"
    "cache_Process env2 rq2 p' w2 = (Inr y, p'', w3)" "rq_ProductID rq2 = rq_ProductID rq"
    "env_now env2 < env_now env + l1_ttl (pz_l1 p)"
  shows "\<exists>cy. tr_Cache y = Some cy \<and> cr_ResolvedBy cy = ''l1'' \<and> cr_Product cy = cr_Product cx"
proof -
  obtain v where v: "cr_Product cx = Some v" "l1_ok (pz_l1 p')" "pz_l1Enabled p'"
    "l1_look (pz_l1 p') (rq_ProductID rq2) = Some (v, env_now env + l1_ttl (pz_l1 p))"
    using cache_Process_fills [OF assms(1-7)] assms(9) by metis
  show ?thesis using cache_Process_hit [OF v(2,3) assms(8) v(4) assms(10)] v(1) by simp
qed

lemma sample_inv: "cache_inv sample_processor"
  by (simp add: cache_inv_def sample_processor_def l1_ok_def l1_inv_New lru_of_New
      load_config_ok_def load_ok_def) (simp add: NewL1Store_def)

lemma sample_Process:
  "\<exists>x p' w'. cache_Process (sample_env now) sample_rq p () = (Inr x, p', w')"
  using cache_Process_total [of sample_rq "sample_env now" p "()"]
  by (auto simp: sample_rq_def sample_env_def)

theorem cache_read_through_witness:
  "\<exists>x p' y p'' w' cx cy. cache_Process (sample_env 5) sample_rq sample_processor () = (Inr x, p', ()) \<and>
     tr_Cache x = Some cx \<and> cr_ResolvedBy cx = ''degraded'' \<and>
     cache_Process (sample_env 20) sample_rq p' () = (Inr y, p'', w') \<and>
     tr_Cache y = Some cy \<and> cr_ResolvedBy cy = ''l1'' \<and> cr_Product cy = cr_Product cx"
proof -
  obtain x p' w' where x: "cache_Process (sample_env 5) sample_rq sample_processor () = (Inr x, p', w')"
    using sample_Process by blast
  obtain y p'' w'' where y: "cache_Process (sample_env 20) sample_rq p' () = (Inr y, p'', w'')"
    using sample_Process by blast
  have "\<exists>cx. tr_Cache x = Some cx \<and> cr_ResolvedBy cx = ''degraded'' \<and> cr_Outcome cx = ''found''"
  proof -
    obtain r p1 w1 where r: "resolve (sample_env 5) (rq_ProductID sample_rq) sample_processor () =
        (Inr r, p1, w1)" "re_ResolvedBy r = ''degraded''" "re_Outcome r = ''found''"
      by (auto simp: resolve_def Let_def case_prod_beta sample_processor_def l1_Get_def NewL1Store_def
          resolve_redis_def redis_Get_def sample_env_def redis_down_def resolve_mysql_def
          product_Get_def find_product_def sample_db_def sample_rq_def)
    show ?thesis using cache_Process_cache [OF x r(1)] r(2,3) by simp
  qed
  then obtain cx where cx: "tr_Cache x = Some cx" "cr_ResolvedBy cx = ''degraded''"
    "cr_Outcome cx = ''found''" by blast
  have "\<exists>cy. tr_Cache y = Some cy \<and> cr_ResolvedBy cy = ''l1'' \<and> cr_Product cy = cr_Product cx"
    using cx by (intro cache_read_through [OF sample_inv _ _ x cx(1) _ _ y])
      (simp_all add: sample_processor_def sample_env_def NewL1Store_def)
  then show ?thesis using x y cx by auto
qed


text \<open>
  The life of a product stored in Redis stays within the configured jitter of the base
  life, whatever is drawn from the range the code draws from, and a jitter below one hundred
  per cent keeps it positive.
\<close>

theorem redis_ttl_bounds:
  assumes "0 < rd_baseTTL s" "0 \<le> rd_jitter s" "rd_jitter s < 100"
    "0 \<le> draw" "draw < 2 * redis_range s + 1"
  shows "0 < redis_ttl s draw \<and>
    100 * \<bar>redis_ttl s draw - rd_baseTTL s\<bar> \<le> rd_baseTTL s * rd_jitter s"
proof -
  let ?b = "rd_baseTTL s" and ?j = "rd_jitter s" and ?r = "redis_range s"
  have "0 \<le> ?b div 1000000 * ?j" using assms by (simp add: pos_imp_zdiv_nonneg_iff)
  then have r: "?r = (?b div 1000000 * ?j) div 100"
    using assms by (simp add: redis_range_def gquot_nonneg)
  have "100 * ?r \<le> ?b div 1000000 * ?j" unfolding r by linarith
  then have "100 * (?r * 1000000) \<le> ?b div 1000000 * 1000000 * ?j" by (simp add: mult.commute)
  also have "\<dots> \<le> ?b * ?j" using assms(2) by (intro mult_right_mono) (simp_all add: div_times_less_eq_dividend)
  finally have k: "100 * (?r * 1000000) \<le> ?b * ?j" .
  have d: "\<bar>redis_ttl s draw - ?b\<bar> \<le> ?r * 1000000"
    using assms by (auto simp: redis_ttl_def abs_le_iff)
  have "?b * ?j < 100 * ?b" using assms by simp
  then have "0 < redis_ttl s draw" using k d by linarith
  moreover have "100 * \<bar>redis_ttl s draw - ?b\<bar> \<le> ?b * ?j"
    using d by (intro order_trans [OF _ k]) (simp add: mult.commute)
  ultimately show ?thesis by simp
qed

theorem redis_ttl_bounds_witness:
  "0 < redis_ttl (newRedisStore ''lab-1'' 60000000000 20) 3"
  using redis_ttl_bounds [of "newRedisStore ''lab-1'' 60000000000 20" 3]
  by (simp add: newRedisStore_def redis_range_def gquot_def)

end
