(* ===== verification/LabRules.thy ===== *)
theory LabRules
  imports Prelude
begin

text \<open>
  The rules of a lab session, \<^verbatim>\<open>services/platform-api/internal/lab\<close>: the life cycle of
  \<^verbatim>\<open>status.go\<close>, the scenarios of \<^verbatim>\<open>scenario.go\<close>, the identifiers of \<^verbatim>\<open>identity.go\<close> and the
  admission limits of \<^verbatim>\<open>quota.go\<close>. The errors of the lab package and of the operation queue are
  the constructors of \<open>lab_error\<close>; \<open>ErrDB\<close> carries the message a database error is wrapped in
  and \<open>ErrText\<close> the text of an error made with \<open>errors.New\<close> in place.
\<close>

datatype lab_error = ErrInvalidRequest | ErrAlreadyActive | ErrCourseNotFound | ErrLabUnavailable
  | ErrNotFound | ErrNotOwned | ErrOperationConflict | ErrBusy | ErrNotRunning | ErrStateConflict
  | ErrActionNotAllowed | ErrInstanceNotFound | ErrMinInstanceLimit | ErrMaxInstanceLimit
  | ErrWeightInvalid | ErrCapacityExceeded | ErrInstanceLimit
  | ErrNoPending | ErrLeaseLost | ErrStale | ErrNoChange
  | ErrDB string | ErrText string

subsection \<open>The life cycle\<close>

datatype Status = Preparing | Running | Expiring | Failed | Terminating | Terminated
  | OtherStatus string

fun Valid :: "Status \<Rightarrow> bool" where
  "Valid (OtherStatus _) = False"
| "Valid _ = True"

fun Active :: "Status \<Rightarrow> bool" where
  "Active Preparing = True"
| "Active Running = True"
| "Active Expiring = True"
| "Active Terminating = True"
| "Active _ = False"

fun CanTransition :: "Status \<Rightarrow> Status \<Rightarrow> bool" where
  "CanTransition Preparing t = (t = Running \<or> t = Failed \<or> t = Terminating)"
| "CanTransition Running t = (t = Expiring \<or> t = Failed \<or> t = Terminating)"
| "CanTransition Expiring t = (t = Running \<or> t = Failed \<or> t = Terminating)"
| "CanTransition Failed t = (t = Terminating)"
| "CanTransition Terminating t = (t = Failed \<or> t = Terminated)"
| "CanTransition _ t = False"

fun status_name :: "Status \<Rightarrow> string" where
  "status_name Preparing = ''Preparing''"
| "status_name Running = ''Running''"
| "status_name Expiring = ''Expiring''"
| "status_name Failed = ''Failed''"
| "status_name Terminating = ''Terminating''"
| "status_name Terminated = ''Terminated''"
| "status_name (OtherStatus s) = s"

definition ValidateTransition :: "Status \<Rightarrow> Status \<Rightarrow> lab_error option" where
  "ValidateTransition from to =
     (if \<not> Valid from then Some (ErrText (''invalid source lab status '' @ status_name from))
      else if \<not> Valid to then Some (ErrText (''invalid target lab status '' @ status_name to))
      else if \<not> CanTransition from to
      then Some (ErrText (''lab status cannot transition from '' @ status_name from @
             '' to '' @ status_name to))
      else None)"

lemma CanTransition_Valid: "CanTransition s t \<Longrightarrow> Valid s \<and> Valid t"
  by (cases s; cases t) simp_all

lemma ValidateTransition_None: "ValidateTransition s t = None \<longleftrightarrow> CanTransition s t"
  using CanTransition_Valid by (auto simp: ValidateTransition_def)

lemma Active_Valid: "Active s \<Longrightarrow> Valid s"
  by (cases s) simp_all

lemma terminal: "Valid s \<Longrightarrow> (\<forall>t. \<not> CanTransition s t) \<longleftrightarrow> s = Terminated"
  by (cases s) auto

subsection \<open>Scenarios\<close>

record scenario =
  sc_Type :: string
  sc_TemplateID :: string
  sc_InitialInstances :: int
  sc_TemporaryContainers :: int
  sc_RedisRequired :: bool

definition scenariosByCourseSlug :: "string \<rightharpoonup> scenario" where
  "scenariosByCourseSlug = map_of
     [(''application-data-separation'',
       \<lparr>sc_Type = ''application_data_separation'',
        sc_TemplateID = ''application_data_separation_scenario_v1'',
        sc_InitialInstances = 1, sc_TemporaryContainers = 1, sc_RedisRequired = False\<rparr>),
      (''application-cluster'',
       \<lparr>sc_Type = ''application_cluster'', sc_TemplateID = ''application_cluster_scenario_v1'',
        sc_InitialInstances = 1, sc_TemporaryContainers = 1, sc_RedisRequired = False\<rparr>),
      (''multi-level-cache'',
       \<lparr>sc_Type = ''multi_level_cache'', sc_TemplateID = ''multi_level_cache_scenario_v1'',
        sc_InitialInstances = 3, sc_TemporaryContainers = 4, sc_RedisRequired = True\<rparr>)]"

definition scenarioForCourse :: "string \<Rightarrow> string \<Rightarrow> scenario option" where
  "scenarioForCourse slug status =
     (if status \<noteq> ''active'' then None else scenariosByCourseSlug slug)"

text \<open>What the usage query counts for a lab agrees with what its scenario reserves.\<close>

lemma scenarioForCourse_containers:
  "scenarioForCourse slug st = Some sc \<Longrightarrow>
     sc_TemporaryContainers sc = (if sc_Type sc = ''multi_level_cache'' then 4 else 1) \<and>
     0 < sc_InitialInstances sc \<and> sc_InitialInstances sc \<le> sc_TemporaryContainers sc"
  by (auto simp: scenarioForCourse_def scenariosByCourseSlug_def split: if_splits)

subsection \<open>Identifiers\<close>

text \<open>\<open>newLabID\<close> encodes sixteen random bytes, which are an argument of the model.\<close>

definition hex_digit :: "nat \<Rightarrow> char" where
  "hex_digit n = ''0123456789abcdef'' ! (n mod 16)"

definition hex_EncodeToString :: "nat list \<Rightarrow> string" where
  "hex_EncodeToString bs = concat (map (\<lambda>b. [hex_digit (b div 16), hex_digit b]) bs)"

definition newLabID :: "nat list option \<Rightarrow> (lab_error, string) result" where
  "newLabID bs = (case bs of None \<Rightarrow> Inl (ErrText ''generate lab id'')
     | Some bs \<Rightarrow> Inr (''lab-'' @ hex_EncodeToString bs))"

fun lab_chars :: "nat \<Rightarrow> string \<Rightarrow> bool" where
  "lab_chars i [] = True"
| "lab_chars i (r # rs) =
     (if is_lower r \<or> is_digit r then lab_chars (Suc i) rs
      else if r = CHR ''-'' \<and> i > 0 then lab_chars (Suc i) rs
      else False)"

definition validLabID :: "string \<Rightarrow> bool" where
  "validLabID v = (if length v < 4 \<or> length v > 64 then False else lab_chars 0 v)"

fun operation_chars :: "nat \<Rightarrow> string \<Rightarrow> bool" where
  "operation_chars i [] = True"
| "operation_chars i (r # rs) =
     (if is_lower r \<or> is_upper r \<or> is_digit r then operation_chars (Suc i) rs
      else if i > 0 \<and> (r = CHR ''-'' \<or> r = CHR ''_'' \<or> r = CHR ''.'') then operation_chars (Suc i) rs
      else False)"

definition validOperationID :: "string \<Rightarrow> bool" where
  "validOperationID v = (if length v = 0 \<or> length v > 64 then False else operation_chars 0 v)"

lemma hex_length: "length (hex_EncodeToString bs) = 2 * length bs"
  by (induction bs) (simp_all add: hex_EncodeToString_def)

lemma hex_digit_ok: "is_lower (hex_digit n) \<or> is_digit (hex_digit n)"
proof -
  have "\<forall>k < 16. is_lower (''0123456789abcdef'' ! k) \<or> is_digit (''0123456789abcdef'' ! k)"
    by (code_simp)
  moreover have "n mod 16 < 16" by simp
  ultimately show ?thesis unfolding hex_digit_def by blast
qed

lemma hex_chars: "c \<in> set (hex_EncodeToString bs) \<Longrightarrow> is_lower c \<or> is_digit c"
  using hex_digit_ok by (auto simp: hex_EncodeToString_def)

lemma lab_chars_plain: "\<forall>c \<in> set cs. is_lower c \<or> is_digit c \<Longrightarrow> lab_chars i cs"
  by (induction cs arbitrary: i) auto

lemma operation_chars_plain:
  "\<forall>c \<in> set cs. is_lower c \<or> is_digit c \<or> 0 < i \<and> c = CHR ''-'' \<Longrightarrow> operation_chars i cs"
  by (induction cs arbitrary: i) auto

text \<open>Identifiers generated by the platform are accepted by its own checks.\<close>

lemma validLabID_new:
  assumes "newLabID (Some bs) = Inr v" "length bs = 16"
  shows "validLabID v"
proof -
  have v: "v = ''lab-'' @ hex_EncodeToString bs" using assms(1) by (simp add: newLabID_def)
  have "lab_chars (Suc (Suc (Suc (Suc 0)))) (hex_EncodeToString bs)"
    using hex_chars by (intro lab_chars_plain) blast
  then show ?thesis
    using assms(2) hex_length [of bs] by (simp add: v validLabID_def is_lower_def is_digit_def)
qed

subsection \<open>Quotas\<close>

record Quota =
  q_MaxActiveLabs :: int
  q_MaxTemporaryContainers :: int
  q_MaxInstancesPerLab :: int

record Usage =
  u_ActiveLabs :: int
  u_TemporaryContainers :: int

record Reservation =
  rv_TemporaryContainers :: int
  rv_Instances :: int

definition quota_Validate :: "Quota \<Rightarrow> lab_error option" where
  "quota_Validate q =
     (if q_MaxActiveLabs q \<le> 0 \<or> q_MaxTemporaryContainers q \<le> 0 \<or> q_MaxInstancesPerLab q \<le> 0
      then Some (ErrText ''lab quota limits must be positive'') else None)"

definition AdmitCreate :: "Quota \<Rightarrow> Usage \<Rightarrow> Reservation \<Rightarrow> lab_error option" where
  "AdmitCreate q usage r =
     (case quota_Validate q of
        Some e \<Rightarrow> Some e
      | None \<Rightarrow>
          if rv_Instances r \<le> 0 \<or> rv_Instances r > q_MaxInstancesPerLab q then Some ErrInstanceLimit
          else if rv_TemporaryContainers r < rv_Instances r then Some ErrCapacityExceeded
          else if u_ActiveLabs usage < 0 \<or> u_TemporaryContainers usage < 0
          then Some (ErrText ''lab resource usage cannot be negative'')
          else if u_ActiveLabs usage + 1 > q_MaxActiveLabs q \<or>
            u_TemporaryContainers usage + rv_TemporaryContainers r > q_MaxTemporaryContainers q
          then Some ErrCapacityExceeded
          else None)"

definition AdmitInstanceCount :: "Quota \<Rightarrow> int \<Rightarrow> int \<Rightarrow> lab_error option" where
  "AdmitInstanceCount q current delta =
     (case quota_Validate q of
        Some e \<Rightarrow> Some e
      | None \<Rightarrow>
          let next = current + delta
          in if next \<le> 0 \<or> next > q_MaxInstancesPerLab q then Some ErrInstanceLimit else None)"

lemma AdmitCreate_None:
  "AdmitCreate q u r = None \<longleftrightarrow>
     0 < q_MaxActiveLabs q \<and> 0 < q_MaxTemporaryContainers q \<and> 0 < q_MaxInstancesPerLab q \<and>
     0 < rv_Instances r \<and> rv_Instances r \<le> q_MaxInstancesPerLab q \<and>
     rv_Instances r \<le> rv_TemporaryContainers r \<and> 0 \<le> u_ActiveLabs u \<and>
     0 \<le> u_TemporaryContainers u \<and> u_ActiveLabs u + 1 \<le> q_MaxActiveLabs q \<and>
     u_TemporaryContainers u + rv_TemporaryContainers r \<le> q_MaxTemporaryContainers q"
  by (auto simp: AdmitCreate_def quota_Validate_def split: if_splits)

end
