(* ===== verification/Database.thy ===== *)
theory Database
  imports LabRules
begin

text \<open>
  The platform database, \<^verbatim>\<open>database/mysql/init/001_platform_schema.sql\<close>, as the Go repositories
  use it. A table is the list of its rows in the order of insertion; a row is a record with one
  field per column the code reads or writes. The status columns have the values their \<open>CHECK\<close>
  constraints allow. Instants are at the precision of their columns. Strings are compared as the
  collation of the schema does (ignoring case, \<open>same_key\<close>) for operation identifiers and for the instance a
  cache action names; lab identifiers are lower case (\<open>validLabID\<close>), and the other comparisons are of
  strings that the platform itself wrote.

  A transaction yields \<open>Inl\<close> an error, and is then rolled back, or \<open>Inr\<close> a value and the
  committed database; \<open>atomically\<close> makes the two cases one step of the database. Every transaction of the
  code defers \<open>Rollback\<close> as soon as it has begun, and \<open>atomically\<close> stands for that call as well: that a
  failed transaction leaves nothing behind is the meaning of the model, not a theorem.
\<close>

subsection \<open>Values of the columns\<close>

datatype op_status = OpPending | OpClaimed | OpRunning | OpSucceeded | OpFailed | OpCompensating

datatype action = CREATE_LAB | RESET_LAB | DESTROY_LAB | ADD_INSTANCE | REMOVE_INSTANCE
  | SET_INSTANCE_PERFORMANCE | SET_INSTANCE_WEIGHTS | SET_BALANCING_MODE | APPLY_ADAPTIVE_WEIGHTS
  | REMOVE_INSTANCE_L1 | ADD_INSTANCE_L1 | REMOVE_SESSION_REDIS | ADD_SESSION_REDIS
  | OtherAction string

text \<open>A slice of Go is nil or a list; the two encode differently in JSON.\<close>

type_synonym 'a slice = "'a list option"

definition elems :: "'a slice \<Rightarrow> 'a list" where
  "elems s = (case s of None \<Rightarrow> [] | Some xs \<Rightarrow> xs)"

record InstanceWeight =
  iw_InstanceID :: string
  iw_Weight :: int

record ActionInput =
  ai_OperationID :: string
  ai_ActionType :: action
  ai_TargetInstanceID :: "string option"
  ai_PerformancePercent :: "int option"
  ai_Weights :: "InstanceWeight slice"
  ai_BalancingMode :: "string option"

record topologyServer =
  sv_InstanceName :: string
  sv_Weight :: int

record topologyActionPayload =
  tp_Request :: ActionInput
  tp_ScenarioTemplateID :: string
  tp_InstanceName :: string
  tp_PerformancePercent :: int
  tp_PreviousPerformancePercent :: int
  tp_Servers :: "topologyServer slice"
  tp_PreviousServers :: "topologyServer slice"

record cacheActionPayload =
  ca_ScenarioTemplateID :: string
  ca_Request :: ActionInput

record adjustmentPayload =
  ad_ExpectedMode :: string
  ad_TopologyFingerprint :: string
  ad_Servers :: "topologyServer list"
  ad_Weights :: "InstanceWeight list"

text \<open>
  The JSON of \<open>payload_json\<close>, one constructor per encoder of the code: \<open>Create\<close>, the reset and
  the destroy of \<open>EnqueueAction\<close>, the two kinds of user action and the adaptive adjustment.
\<close>

datatype payload =
    CreatePayload nat string string int bool
  | ResetPayload string
  | ReasonPayload string
  | TopologyPayload topologyActionPayload
  | CachePayload cacheActionPayload
  | AdjustmentPayload adjustmentPayload

text \<open>
  What a request is after it was encoded and decoded: \<open>omitempty\<close> leaves an empty slice out, so
  it comes back nil.
\<close>

definition json_slice :: "'a slice \<Rightarrow> 'a slice" where
  "json_slice s = (if s = Some [] then None else s)"

definition json_input :: "ActionInput \<Rightarrow> ActionInput" where
  "json_input i = i\<lparr>ai_Weights := json_slice (ai_Weights i)\<rparr>"

definition zero_input :: ActionInput where
  "zero_input = \<lparr>ai_OperationID = [], ai_ActionType = OtherAction [], ai_TargetInstanceID = None,
     ai_PerformancePercent = None, ai_Weights = None, ai_BalancingMode = None\<rparr>"

text \<open>The field \<open>request\<close> of a stored payload, as both kinds of user action decode it.\<close>

fun payload_request :: "payload \<Rightarrow> ActionInput" where
  "payload_request (TopologyPayload p) = json_input (tp_Request p)"
| "payload_request (CachePayload p) = json_input (ca_Request p)"
| "payload_request (AdjustmentPayload p) = zero_input\<lparr>ai_Weights := Some (ad_Weights p)\<rparr>"
| "payload_request _ = zero_input"

fun payload_template :: "payload \<Rightarrow> string" where
  "payload_template (CreatePayload _ _ t _ _) = t"
| "payload_template (ResetPayload t) = t"
| "payload_template (TopologyPayload p) = tp_ScenarioTemplateID p"
| "payload_template (CachePayload p) = ca_ScenarioTemplateID p"
| "payload_template _ = []"

subsection \<open>Rows\<close>

record user_row =
  us_id :: nat
  us_username :: string
  us_password_hash :: string
  us_status :: string

record course_row =
  co_id :: nat
  co_slug :: string
  co_status :: string

record progress_row =
  pg_viewed :: bool
  pg_last_viewed_at :: "gotime option"
  pg_last_lab_id :: "string option"

record session_row =
  ls_id :: string
  ls_user_id :: nat
  ls_course_id :: nat
  ls_scenario_type :: string
  ls_scenario_template_id :: string
  ls_status :: Status
  ls_balancing_mode :: string
  ls_mysql_db_name :: "string option"
  ls_mysql_db_user :: "string option"
  ls_redis_enabled :: bool
  ls_started_at :: "gotime option"
  ls_last_effective_action_at :: "gotime option"
  ls_terminated_at :: "gotime option"
  ls_termination_reason :: "string option"
  ls_created_at :: gotime
  ls_updated_at :: gotime

record instance_row =
  li_lab_id :: string
  li_instance_name :: string
  li_container_id :: "string option"
  li_status :: string
  li_cpu_limit_cores :: rat
  li_memory_limit_mb :: int
  li_performance_percent :: int
  li_processing_speed :: int
  li_max_load :: int
  li_current_weight :: int
  li_created_at :: gotime
  li_updated_at :: gotime

record resource_row =
  lr_lab_id :: string
  lr_resource_type :: string
  lr_resource_name :: string
  lr_external_id :: "string option"
  lr_status :: string
  lr_metadata :: "string option"
  lr_created_at :: gotime
  lr_updated_at :: gotime

text \<open>\<open>result_json\<close>: the code reads back only whether an adjustment was skipped.\<close>

datatype op_result = SkippedResult | OtherResult

record operation_row =
  lo_id :: nat
  lo_operation_id :: string
  lo_lab_id :: string
  lo_requested_by :: nat
  lo_action :: action
  lo_target_instance_id :: "string option"
  lo_status :: op_status
  lo_payload :: payload
  lo_result :: "op_result option"
  lo_error_code :: "string option"
  lo_error_message :: "string option"
  lo_lease_owner :: "string option"
  lo_lease_expires_at :: "gotime option"
  lo_attempt_count :: int
  lo_created_at :: gotime
  lo_updated_at :: gotime
  lo_completed_at :: "gotime option"

record platform_db =
  users :: "user_row list"
  courses :: "course_row list"
  progress :: "((nat \<times> nat) \<times> progress_row) list"
  sessions :: "session_row list"
  instances :: "instance_row list"
  resources :: "resource_row list"
  operations :: "operation_row list"
  next_operation :: nat

subsection \<open>Statements\<close>

definition atomically ::
  "platform_db \<Rightarrow> (lab_error, 'a \<times> platform_db) result \<Rightarrow> (lab_error, 'a) result \<times> platform_db" where
  "atomically db r = (case r of Inl e \<Rightarrow> (Inl e, db) | Inr (x, db') \<Rightarrow> (Inr x, db'))"

text \<open>
  An \<open>UPDATE\<close>: the rows affected are those it changed, which is what the driver reports without
  the \<open>clientFoundRows\<close> option.
\<close>

definition exec_update :: "('r \<Rightarrow> bool) \<Rightarrow> ('r \<Rightarrow> 'r) \<Rightarrow> 'r list \<Rightarrow> nat \<times> 'r list" where
  "exec_update P f rows =
     (length (filter (\<lambda>r. P r \<and> f r \<noteq> r) rows), map (\<lambda>r. if P r then f r else r) rows)"

definition exec_delete :: "('r \<Rightarrow> bool) \<Rightarrow> 'r list \<Rightarrow> nat \<times> 'r list" where
  "exec_delete P rows = (length (filter P rows), filter (\<lambda>r. \<not> P r) rows)"

definition find_session :: "string \<Rightarrow> platform_db \<Rightarrow> session_row option" where
  "find_session labID db = find (\<lambda>s. ls_id s = labID) (sessions db)"

definition to_lower :: "char \<Rightarrow> char" where
  "to_lower c = (if is_upper c then char_of (of_char c + 32 :: nat) else c)"

definition same_key :: "string \<Rightarrow> string \<Rightarrow> bool" where
  "same_key a b = (map to_lower a = map to_lower b)"

definition find_operation :: "string \<Rightarrow> platform_db \<Rightarrow> operation_row option" where
  "find_operation opID db = find (\<lambda>r. same_key (lo_operation_id r) opID) (operations db)"

definition op_active :: "op_status \<Rightarrow> bool" where
  "op_active s = (s \<in> {OpPending, OpClaimed, OpRunning, OpCompensating})"

definition pending_operation :: "string \<Rightarrow> platform_db \<Rightarrow> bool" where
  "pending_operation labID db =
     (\<exists>r \<in> set (operations db). lo_lab_id r = labID \<and> op_active (lo_status r))"

text \<open>
  \<open>INSERT INTO lab_operations\<close> of a pending operation; \<open>None\<close> when the unique key on the
  operation identifier is taken.
\<close>

definition insert_operation ::
  "string \<Rightarrow> string \<Rightarrow> nat \<Rightarrow> action \<Rightarrow> string option \<Rightarrow> payload \<Rightarrow> gotime \<Rightarrow> platform_db \<Rightarrow>
   (nat \<times> platform_db) option" where
  "insert_operation opID labID userID act target pl now db =
     (if find_operation opID db \<noteq> None then None
      else Some (next_operation db,
        db\<lparr>operations := operations db @
             [\<lparr>lo_id = next_operation db, lo_operation_id = opID, lo_lab_id = labID,
               lo_requested_by = userID, lo_action = act, lo_target_instance_id = target,
               lo_status = OpPending, lo_payload = pl, lo_result = None, lo_error_code = None,
               lo_error_message = None, lo_lease_owner = None, lo_lease_expires_at = None,
               lo_attempt_count = 0, lo_created_at = now, lo_updated_at = now,
               lo_completed_at = None\<rparr>],
           next_operation := next_operation db + 1\<rparr>))"

end
