(* ===== verification/LabRepository.thy ===== *)
theory LabRepository
  imports Database "HOL-Library.Product_Lexorder"
begin

text \<open>
  The persistence of lab sessions, \<^verbatim>\<open>services/platform-api/internal/lab/repository.go\<close>. Each
  transaction is one function; it reads its first lookup before it holds any lock, so what
  other transactions commit while it waits for its locks is the argument \<open>other\<close>, a function on
  the database that is applied between the two.
\<close>

subsection \<open>Values returned to the callers\<close>

record Session =
  se_ID :: string
  se_UserID :: nat
  se_CourseID :: nat
  se_ScenarioType :: string
  se_ScenarioTemplateID :: string
  se_Status :: Status
  se_BalancingMode :: string
  se_RedisEnabled :: bool
  se_StartedAt :: "gotime option"
  se_LastEffectiveActionAt :: "gotime option"
  se_IdleExpiresAt :: "gotime option"
  se_MaximumExpiresAt :: "gotime option"
  se_TerminatedAt :: "gotime option"
  se_TerminationReason :: "string option"
  se_CreatedAt :: gotime
  se_UpdatedAt :: gotime

record Instance =
  in_ID :: string
  in_Name :: string
  in_ContainerID :: string
  in_Status :: string
  in_CPULimitCores :: rat
  in_MemoryLimitMB :: int
  in_PerformancePercent :: int
  in_ProcessingSpeed :: int
  in_MaxLoad :: int
  in_CurrentWeight :: int
  in_CurrentLoad :: rat
  in_LoadRatio :: rat
  in_LoadState :: string
  in_ObservedAt :: gotime

record CreatedOperation =
  cop_ID :: nat
  cop_OperationID :: string
  cop_LabID :: string
  cop_RequestedBy :: nat
  cop_Action :: action
  cop_TargetInstanceID :: "string option"
  cop_Status :: op_status
  cop_SubmittedAt :: gotime
  cop_CompletedAt :: "gotime option"

record CreateResult =
  crr_Session :: Session
  crr_Operation :: CreatedOperation
  crr_Existing :: bool

record ActionResult =
  arr_Operation :: CreatedOperation
  arr_Existing :: bool

definition scanSession :: "session_row \<Rightarrow> Session" where
  "scanSession r = \<lparr>se_ID = ls_id r, se_UserID = ls_user_id r, se_CourseID = ls_course_id r,
     se_ScenarioType = ls_scenario_type r, se_ScenarioTemplateID = ls_scenario_template_id r,
     se_Status = ls_status r, se_BalancingMode = ls_balancing_mode r,
     se_RedisEnabled = ls_redis_enabled r, se_StartedAt = ls_started_at r,
     se_LastEffectiveActionAt = ls_last_effective_action_at r, se_IdleExpiresAt = None,
     se_MaximumExpiresAt = None, se_TerminatedAt = ls_terminated_at r,
     se_TerminationReason = ls_termination_reason r, se_CreatedAt = ls_created_at r,
     se_UpdatedAt = ls_updated_at r\<rparr>"

definition created_operation :: "operation_row \<Rightarrow> CreatedOperation" where
  "created_operation r = \<lparr>cop_ID = lo_id r, cop_OperationID = lo_operation_id r,
     cop_LabID = lo_lab_id r, cop_RequestedBy = lo_requested_by r, cop_Action = lo_action r,
     cop_TargetInstanceID = lo_target_instance_id r, cop_Status = lo_status r,
     cop_SubmittedAt = lo_created_at r, cop_CompletedAt = lo_completed_at r\<rparr>"

subsection \<open>Lookups inside a transaction\<close>

text \<open>\<open>Inr None\<close> stands for \<open>sql.ErrNoRows\<close>.\<close>

definition findActionByOperationID :: "string \<Rightarrow> platform_db \<Rightarrow> CreatedOperation option" where
  "findActionByOperationID opID db = map_option created_operation (find_operation opID db)"

definition matchingActionResult ::
  "CreatedOperation \<Rightarrow> nat \<Rightarrow> string \<Rightarrow> action \<Rightarrow> (lab_error, ActionResult) result" where
  "matchingActionResult op userID labID act =
     (if cop_LabID op \<noteq> labID \<or> cop_RequestedBy op \<noteq> userID \<or> cop_Action op \<noteq> act
      then Inl ErrOperationConflict
      else Inr \<lparr>arr_Operation = op, arr_Existing = True\<rparr>)"

text \<open>
  The join of the operation with its session. The query does not select the target instance,
  so the result has none.
\<close>

definition findExistingCreate :: "string \<Rightarrow> platform_db \<Rightarrow> CreateResult option" where
  "findExistingCreate opID db =
     (case find_operation opID db of
        None \<Rightarrow> None
      | Some r \<Rightarrow>
         (case find_session (lo_lab_id r) db of
            None \<Rightarrow> None
          | Some s \<Rightarrow> Some \<lparr>crr_Session = scanSession s,
              crr_Operation = (created_operation r)\<lparr>cop_LabID := ls_id s, cop_TargetInstanceID := None\<rparr>,
              crr_Existing = False\<rparr>))"

definition existing_create ::
  "CreateResult \<Rightarrow> nat \<Rightarrow> nat \<Rightarrow> (lab_error, CreateResult) result" where
  "existing_create c userID courseID =
     (if cop_RequestedBy (crr_Operation c) \<noteq> userID \<or> cop_Action (crr_Operation c) \<noteq> CREATE_LAB \<or>
         se_CourseID (crr_Session c) \<noteq> courseID
      then Inl ErrOperationConflict
      else Inr (c\<lparr>crr_Existing := True\<rparr>))"

definition lockUser :: "fault \<Rightarrow> nat \<Rightarrow> platform_db \<Rightarrow> lab_error option" where
  "lockUser flt userID db =
     (if flt ''lock lab owner'' \<or> (\<forall>u \<in> set (users db). us_id u \<noteq> userID)
      then Some (ErrDB ''lock lab owner'') else None)"

text \<open>\<open>GET_LOCK\<close> and \<open>RELEASE_LOCK\<close> return 1, another number, or null.\<close>

definition lockGlobalAdmission :: "fault \<Rightarrow> lab_error option" where
  "lockGlobalAdmission flt =
     (if flt ''lock global lab admission'' then Some (ErrDB ''lock global lab admission'')
      else if flt ''lock global lab admission returned null''
      then Some (ErrText ''lock global lab admission returned null'')
      else if flt ''lock global lab admission timed out''
      then Some (ErrText ''lock global lab admission timed out'')
      else None)"

definition releaseGlobalAdmission :: "fault \<Rightarrow> lab_error option" where
  "releaseGlobalAdmission flt =
     (if flt ''release global lab admission'' then Some (ErrDB ''release global lab admission'')
      else if flt ''release global lab admission lock was not owned''
      then Some (ErrText ''release global lab admission lock was not owned'')
      else if flt ''release global lab admission lock failed''
      then Some (ErrText ''release global lab admission lock failed'')
      else None)"

definition findActiveLabID :: "nat \<Rightarrow> platform_db \<Rightarrow> string option" where
  "findActiveLabID userID db =
     map_option ls_id (find (\<lambda>s. ls_user_id s = userID \<and> Active (ls_status s)) (sessions db))"

definition loadUsage :: "platform_db \<Rightarrow> Usage" where
  "loadUsage db =
     (let active = filter (\<lambda>s. Active (ls_status s)) (sessions db)
      in \<lparr>u_ActiveLabs = int (length active),
          u_TemporaryContainers =
            sum_list (map (\<lambda>s. if ls_scenario_type s = ''multi_level_cache'' then 4 else 1) active)\<rparr>)"

fun validTerminationReason :: "string \<Rightarrow> bool" where
  "validTerminationReason v = (v \<in> {''user_requested'', ''idle_timeout'', ''maximum_duration''})"

text \<open>\<open>requireSingleRow\<close> for the number of rows an update changed.\<close>

definition requireSingleRow :: "nat \<Rightarrow> lab_error option" where
  "requireSingleRow n = (if n \<noteq> 1 then Some ErrStateConflict else None)"

subsection \<open>Creating a lab\<close>

definition new_session ::
  "string \<Rightarrow> nat \<Rightarrow> nat \<Rightarrow> scenario \<Rightarrow> gotime \<Rightarrow> session_row" where
  "new_session labID userID courseID sc now =
     \<lparr>ls_id = labID, ls_user_id = userID, ls_course_id = courseID, ls_scenario_type = sc_Type sc,
      ls_scenario_template_id = sc_TemplateID sc, ls_status = Preparing,
      ls_balancing_mode = ''fixed'', ls_mysql_db_name = None, ls_mysql_db_user = None,
      ls_redis_enabled = False, ls_started_at = None, ls_last_effective_action_at = None,
      ls_terminated_at = None, ls_termination_reason = None, ls_created_at = now,
      ls_updated_at = now\<rparr>"

definition update_last_lab :: "nat \<Rightarrow> nat \<Rightarrow> string \<Rightarrow> platform_db \<Rightarrow> platform_db" where
  "update_last_lab userID courseID labID db =
     (let row = (case map_of (progress db) (userID, courseID) of
            None \<Rightarrow> \<lparr>pg_viewed = False, pg_last_viewed_at = None, pg_last_lab_id = Some labID\<rparr>
          | Some p \<Rightarrow> p\<lparr>pg_last_lab_id := Some labID\<rparr>)
      in db\<lparr>progress := AList.update (userID, courseID) row (progress db)\<rparr>)"

text \<open>The inserts, once the request is admitted.\<close>

definition create_rows ::
  "fault \<Rightarrow> nat \<Rightarrow> nat \<Rightarrow> string \<Rightarrow> string \<Rightarrow> scenario \<Rightarrow> gotime \<Rightarrow> platform_db \<Rightarrow>
   (lab_error, CreateResult \<times> platform_db) result" where
  "create_rows flt userID courseID operationID labID sc now db =
     (let session = new_session labID userID courseID sc now
      in if find_session labID db \<noteq> None then Inl ErrOperationConflict
         else if flt ''insert lab session'' then Inl (ErrDB ''insert lab session'')
         else let db1 = db\<lparr>sessions := sessions db @ [session]\<rparr>
         in case insert_operation operationID labID userID CREATE_LAB None
                (CreatePayload courseID (sc_Type sc) (sc_TemplateID sc) (sc_InitialInstances sc)
                  (sc_RedisRequired sc)) now db1 of
             None \<Rightarrow> Inl ErrOperationConflict
           | Some (oid, db2) \<Rightarrow>
               if flt ''insert create lab operation'' then Inl (ErrDB ''insert create lab operation'')
               else if flt ''read create lab operation id''
               then Inl (ErrDB ''read create lab operation id'')
               else if flt ''update course last lab'' then Inl (ErrDB ''update course last lab'')
               else if flt ''commit create lab transaction''
               then Inl (ErrDB ''commit create lab transaction'')
               else Inr (\<lparr>crr_Session = scanSession session,
                    crr_Operation = \<lparr>cop_ID = oid, cop_OperationID = operationID, cop_LabID = labID,
                      cop_RequestedBy = userID, cop_Action = CREATE_LAB, cop_TargetInstanceID = None,
                      cop_Status = OpPending, cop_SubmittedAt = now, cop_CompletedAt = None\<rparr>,
                    crr_Existing = False\<rparr>, update_last_lab userID courseID labID db2))"

text \<open>The admission checks, under the locks of the user and of the global admission.\<close>

definition create_locked ::
  "fault \<Rightarrow> nat \<Rightarrow> nat \<Rightarrow> string \<Rightarrow> string \<Rightarrow> Quota \<Rightarrow> gotime \<Rightarrow> platform_db \<Rightarrow>
   (lab_error, CreateResult \<times> platform_db) result" where
  "create_locked flt userID courseID operationID labID quota now db =
     (if flt ''recheck existing create'' then Inl (ErrDB ''recheck existing create'')
      else case findExistingCreate operationID db of
        Some c \<Rightarrow> map_sum id (\<lambda>c. (c, db)) (existing_create c userID courseID)
      | None \<Rightarrow>
          if flt ''load lab course'' then Inl (ErrDB ''load lab course'')
          else case find (\<lambda>c. co_id c = courseID) (courses db) of
            None \<Rightarrow> Inl ErrCourseNotFound
          | Some course \<Rightarrow>
             (case scenarioForCourse (co_slug course) (co_status course) of
                None \<Rightarrow> Inl ErrLabUnavailable
              | Some sc \<Rightarrow>
                  if flt ''find active lab'' then Inl (ErrDB ''find active lab'')
                  else if findActiveLabID userID db \<notin> {None, Some []} then Inl ErrAlreadyActive
                  else if flt ''load lab capacity usage'' then Inl (ErrDB ''load lab capacity usage'')
                  else case AdmitCreate quota (loadUsage db)
                       \<lparr>rv_TemporaryContainers = sc_TemporaryContainers sc,
                        rv_Instances = sc_InitialInstances sc\<rparr> of
                    Some e \<Rightarrow> Inl e
                  | None \<Rightarrow> create_rows flt userID courseID operationID labID sc now db))"

text \<open>
  \<open>Create\<close>. When the global lock cannot be released after the commit, the lab was created and
  the caller gets an error.
\<close>

definition lab_Create ::
  "fault \<Rightarrow> (platform_db \<Rightarrow> platform_db) \<Rightarrow> nat \<Rightarrow> nat \<Rightarrow> string \<Rightarrow> string \<Rightarrow> Quota \<Rightarrow> gotime \<Rightarrow>
   platform_db \<Rightarrow> (lab_error, CreateResult) result \<times> platform_db" where
  "lab_Create flt other userID courseID operationID labID quota now db =
     (if flt ''reserve create lab connection'' then (Inl (ErrDB ''reserve create lab connection''), db)
      else if flt ''begin create lab transaction'' then (Inl (ErrDB ''begin create lab transaction''), db)
      else if flt ''find existing create'' then (Inl (ErrDB ''find existing create''), db)
      else case findExistingCreate operationID db of
        Some c \<Rightarrow> (existing_create c userID courseID, db)
      | None \<Rightarrow>
         (case lockUser flt userID db of
            Some e \<Rightarrow> (Inl e, db)
          | None \<Rightarrow>
             (case lockGlobalAdmission flt of
                Some e \<Rightarrow> (Inl e, other db)
              | None \<Rightarrow>
                 (case atomically (other db)
                     (create_locked flt userID courseID operationID labID quota now (other db)) of
                    (Inl e, db') \<Rightarrow> (Inl e, db')
                  | (Inr c, db') \<Rightarrow>
                      if crr_Existing c then (Inr c, db')
                      else case releaseGlobalAdmission flt of
                        Some e \<Rightarrow> (Inl e, db')
                      | None \<Rightarrow> (Inr c, db')))))"

subsection \<open>Reset and destroy\<close>

text \<open>The checks of \<open>EnqueueAction\<close> on the state of the lab, and the payload that is stored.\<close>

definition action_admitted :: "session_row \<Rightarrow> action \<Rightarrow> string \<Rightarrow> (lab_error, payload) result" where
  "action_admitted s act reason =
     (if act \<noteq> RESET_LAB \<and> act \<noteq> DESTROY_LAB then Inl ErrInvalidRequest
      else if act = RESET_LAB
      then (if ls_status s \<noteq> Running \<and> ls_status s \<noteq> Expiring then Inl ErrNotRunning
            else Inr (ResetPayload (ls_scenario_template_id s)))
      else if ls_status s \<notin> {Preparing, Running, Expiring, Failed} then Inl ErrNotRunning
      else Inr (ReasonPayload reason))"

definition mark_terminating :: "string \<Rightarrow> string \<Rightarrow> gotime \<Rightarrow> platform_db \<Rightarrow> nat \<times> platform_db" where
  "mark_terminating labID reason now db =
     (let (n, ss) = exec_update
            (\<lambda>s. ls_id s = labID \<and> ls_status s \<in> {Preparing, Running, Expiring, Failed})
            (\<lambda>s. s\<lparr>ls_status := Terminating, ls_termination_reason := Some reason,
                   ls_updated_at := now\<rparr>) (sessions db)
      in (n, db\<lparr>sessions := ss\<rparr>))"

definition enqueue_locked ::
  "fault \<Rightarrow> nat \<Rightarrow> string \<Rightarrow> string \<Rightarrow> action \<Rightarrow> string \<Rightarrow> gotime \<Rightarrow> platform_db \<Rightarrow>
   (lab_error, ActionResult \<times> platform_db) result" where
  "enqueue_locked flt userID labID operationID act reason now db =
     (if flt ''lock lab action session'' then Inl (ErrDB ''lock lab action session'')
      else case find_session labID db of
        None \<Rightarrow> Inl ErrNotFound
      | Some s \<Rightarrow>
          if ls_user_id s \<noteq> userID then Inl ErrNotOwned
          else if flt ''recheck existing lab action'' then Inl (ErrDB ''recheck existing lab action'')
          else case findActionByOperationID operationID db of
            Some op \<Rightarrow> map_sum id (\<lambda>r. (r, db)) (matchingActionResult op userID labID act)
          | None \<Rightarrow>
             (case action_admitted s act reason of
                Inl e \<Rightarrow> Inl e
              | Inr pl \<Rightarrow>
                 (let terminationReason =
                    (if act = DESTROY_LAB \<and> validTerminationReason reason then reason
                     else ''user_requested'')
                  in if flt ''check lab action queue'' then Inl (ErrDB ''check lab action queue'')
                     else if pending_operation labID db then Inl ErrBusy
                     else let (n, db1) = (if act = DESTROY_LAB
                            then mark_terminating labID terminationReason now db else (1, db))
                     in if act = DESTROY_LAB \<and> flt ''mark lab terminating''
                        then Inl (ErrDB ''mark lab terminating'')
                        else if act = DESTROY_LAB \<and> requireSingleRow n \<noteq> None then Inl ErrStateConflict
                        else case insert_operation operationID labID userID act None pl now db1 of
                          None \<Rightarrow> Inl ErrOperationConflict
                        | Some (oid, db2) \<Rightarrow>
                            if flt ''insert lab action'' then Inl (ErrDB ''insert lab action'')
                            else if flt ''read lab action id'' then Inl (ErrDB ''read lab action id'')
                            else if flt ''commit lab action'' then Inl (ErrDB ''commit lab action'')
                            else Inr (\<lparr>arr_Operation =
                                 \<lparr>cop_ID = oid, cop_OperationID = operationID, cop_LabID = labID,
                                  cop_RequestedBy = userID, cop_Action = act,
                                  cop_TargetInstanceID = None, cop_Status = OpPending,
                                  cop_SubmittedAt = now, cop_CompletedAt = None\<rparr>,
                                 arr_Existing = False\<rparr>, db2))))"

definition EnqueueAction ::
  "fault \<Rightarrow> (platform_db \<Rightarrow> platform_db) \<Rightarrow> nat \<Rightarrow> string \<Rightarrow> string \<Rightarrow> action \<Rightarrow> string \<Rightarrow> gotime \<Rightarrow>
   platform_db \<Rightarrow> (lab_error, ActionResult) result \<times> platform_db" where
  "EnqueueAction flt other userID labID operationID act reason now db =
     (if flt ''reserve lab action connection'' then (Inl (ErrDB ''reserve lab action connection''), db)
      else if flt ''begin lab action transaction'' then (Inl (ErrDB ''begin lab action transaction''), db)
      else if flt ''find existing lab action'' then (Inl (ErrDB ''find existing lab action''), db)
      else case findActionByOperationID operationID db of
        Some op \<Rightarrow> (matchingActionResult op userID labID act, db)
      | None \<Rightarrow>
          atomically (other db)
            (enqueue_locked flt userID labID operationID act reason now (other db)))"

subsection \<open>Reading\<close>

definition FindOwned :: "fault \<Rightarrow> string \<Rightarrow> nat \<Rightarrow> platform_db \<Rightarrow> (lab_error, Session) result" where
  "FindOwned flt labID userID db =
     (if flt ''find owned lab'' then Inl (ErrDB ''find owned lab'')
      else case find_session labID db of
        None \<Rightarrow> Inl ErrNotFound
      | Some s \<Rightarrow> if ls_user_id s \<noteq> userID then Inl ErrNotOwned else Inr (scanSession s))"

text \<open>The parts of a snapshot that come from the database.\<close>

record Resource =
  rsc_Type :: string
  rsc_Name :: string
  rsc_ExternalID :: string
  rsc_Status :: string
  rsc_Metadata :: "string option"

record OperationSnapshot =
  os_OperationID :: string
  os_Action :: action
  os_TargetInstanceID :: "string option"
  os_Status :: op_status
  os_SubmittedAt :: gotime
  os_CompletedAt :: "gotime option"
  os_Error :: "(string \<times> string) option"

record IntegerPolicy =
  ip_Minimum :: int
  ip_Maximum :: int
  ip_Step :: int
  ip_Default :: int

record TopologyNode =
  tn_ID :: string
  tn_Type :: string

record TopologyEdge =
  te_From :: string
  te_To :: string

record Snapshot =
  sn_Lab :: Session
  sn_Instances :: "Instance list"
  sn_Redis :: "string option"
  sn_Gateway :: string
  sn_Nodes :: "TopologyNode list"
  sn_Edges :: "TopologyEdge list"
  sn_Resources :: "Resource list"
  sn_LatestOperation :: "OperationSnapshot option"
  sn_RequestUnits :: IntegerPolicy
  sn_GenerationIntervalMS :: IntegerPolicy

definition scanInstance :: "instance_row \<Rightarrow> Instance" where
  "scanInstance r = \<lparr>in_ID = li_instance_name r, in_Name = li_instance_name r,
     in_ContainerID = (case li_container_id r of None \<Rightarrow> [] | Some c \<Rightarrow> c),
     in_Status = li_status r, in_CPULimitCores = li_cpu_limit_cores r,
     in_MemoryLimitMB = li_memory_limit_mb r, in_PerformancePercent = li_performance_percent r,
     in_ProcessingSpeed = li_processing_speed r, in_MaxLoad = li_max_load r,
     in_CurrentWeight = li_current_weight r, in_CurrentLoad = 0, in_LoadRatio = 0,
     in_LoadState = [], in_ObservedAt = 0\<rparr>"

definition scanResource :: "resource_row \<Rightarrow> Resource" where
  "scanResource r = \<lparr>rsc_Type = lr_resource_type r, rsc_Name = lr_resource_name r,
     rsc_ExternalID = (case lr_external_id r of None \<Rightarrow> [] | Some x \<Rightarrow> x),
     rsc_Status = lr_status r, rsc_Metadata = lr_metadata r\<rparr>"

text \<open>The loop over the resources keeps the status of the last one of each kind.\<close>

definition status_of_type :: "string \<Rightarrow> Resource list \<Rightarrow> string option" where
  "status_of_type typ rs = map_option rsc_Status (find (\<lambda>r. rsc_Type r = typ) (rev rs))"

definition scanOperation :: "operation_row \<Rightarrow> OperationSnapshot" where
  "scanOperation r = \<lparr>os_OperationID = lo_operation_id r, os_Action = lo_action r,
     os_TargetInstanceID = lo_target_instance_id r, os_Status = lo_status r,
     os_SubmittedAt = lo_created_at r, os_CompletedAt = lo_completed_at r,
     os_Error = (if lo_error_code r = None \<and> lo_error_message r = None then None
       else Some (case lo_error_code r of None \<Rightarrow> [] | Some c \<Rightarrow> c,
                  case lo_error_message r of None \<Rightarrow> [] | Some m \<Rightarrow> m))\<rparr>"

definition latest_operation :: "string \<Rightarrow> platform_db \<Rightarrow> operation_row option" where
  "latest_operation labID db =
     (let rows = filter (\<lambda>r. lo_lab_id r = labID \<and> lo_action r \<noteq> APPLY_ADAPTIVE_WEIGHTS) (operations db)
      in if rows = [] then None
         else Some (last (sort_key (\<lambda>r. (lo_created_at r, lo_id r)) rows)))"

definition zero_policy :: IntegerPolicy where
  "zero_policy = \<lparr>ip_Minimum = 0, ip_Maximum = 0, ip_Step = 0, ip_Default = 0\<rparr>"

definition FindSnapshot :: "fault \<Rightarrow> string \<Rightarrow> nat \<Rightarrow> platform_db \<Rightarrow> (lab_error, Snapshot) result" where
  "FindSnapshot flt labID userID db =
     (if flt ''begin lab snapshot transaction'' then Inl (ErrDB ''begin lab snapshot transaction'')
      else if flt ''load lab snapshot session'' then Inl (ErrDB ''load lab snapshot session'')
      else case find_session labID db of
        None \<Rightarrow> Inl ErrNotFound
      | Some s \<Rightarrow>
          if ls_user_id s \<noteq> userID then Inl ErrNotOwned
          else if flt ''load lab instances'' then Inl (ErrDB ''load lab instances'')
          else if flt ''load lab resources'' then Inl (ErrDB ''load lab resources'')
          else if flt ''load latest lab operation'' then Inl (ErrDB ''load latest lab operation'')
          else if flt ''commit lab snapshot'' then Inl (ErrDB ''commit lab snapshot'')
          else let ins = map scanInstance (sort_key li_instance_name
                     (filter (\<lambda>i. li_lab_id i = labID) (instances db)));
                   res = map scanResource (sort_key (\<lambda>r. (lr_resource_type r, lr_resource_name r))
                     (filter (\<lambda>r. lr_lab_id r = labID) (resources db)));
                   gateway = (case status_of_type ''nginx-fragment'' res of None \<Rightarrow> [] | Some g \<Rightarrow> g)
          in Inr \<lparr>sn_Lab = scanSession s, sn_Instances = ins,
                 sn_Redis = status_of_type ''session-redis'' res,
                 sn_Gateway = (if gateway = [] then ''unknown'' else gateway),
                 sn_Nodes = [], sn_Edges = [], sn_Resources = res,
                 sn_LatestOperation = map_option scanOperation (latest_operation labID db),
                 sn_RequestUnits = zero_policy, sn_GenerationIntervalMS = zero_policy\<rparr>)"

end
