(* ===== verification/Topology.thy ===== *)
theory Topology
  imports LabRepository
begin

text \<open>
  The actions of a learner on a running lab: the topology changes of a cluster lab,
  \<^verbatim>\<open>services/platform-api/internal/lab/topology.go\<close>, and the cache controls of a cache lab,
  \<^verbatim>\<open>cache_actions.go\<close>. A dereference of a nil pointer is the error \<open>nil_panic\<close>. The name of the instance
  in a cache action is not checked, and MySQL compares it ignoring case.
\<close>

definition nil_panic :: lab_error where
  "nil_panic = ErrText ''invalid memory address or nil pointer dereference''"

definition applicationClusterScenario :: string where
  "applicationClusterScenario = ''application_cluster''"

subsection \<open>Servers and weights\<close>

definition topologyServers :: "Instance list \<Rightarrow> topologyServer list" where
  "topologyServers is = map (\<lambda>i. \<lparr>sv_InstanceName = in_Name i, sv_Weight = in_CurrentWeight i\<rparr>) is"

definition topologyServersWithout :: "Instance list \<Rightarrow> string \<Rightarrow> topologyServer list" where
  "topologyServersWithout is excluded = topologyServers (filter (\<lambda>i. in_Name i \<noteq> excluded) is)"

definition instance_name :: "nat \<Rightarrow> string" where
  "instance_name n = ''app-'' @ digits n"

text \<open>The search for the first free name; \<open>[]\<close> when every name up to the maximum is used.\<close>

fun free_name :: "string list \<Rightarrow> nat \<Rightarrow> nat \<Rightarrow> string" where
  "free_name used index 0 = []"
| "free_name used index (Suc left) =
     (if instance_name index \<notin> set used then instance_name index
      else free_name used (Suc index) left)"

definition nextInstanceName :: "Instance list \<Rightarrow> int \<Rightarrow> string" where
  "nextInstanceName is maximum = free_name (map in_Name is) 1 (nat maximum)"

definition containsInstance :: "Instance list \<Rightarrow> string \<Rightarrow> bool" where
  "containsInstance is iid = (\<exists>i \<in> set is. in_ID i = iid \<or> in_Name i = iid)"

definition findTopologyInstance :: "Instance list \<Rightarrow> string \<Rightarrow> Instance option" where
  "findTopologyInstance is iid = find (\<lambda>i. in_ID i = iid \<or> in_Name i = iid) is"

text \<open>A lookup in a map of Go integers: 0 when the key is absent.\<close>

definition int_at :: "(string \<times> int) list \<Rightarrow> string \<Rightarrow> int" where
  "int_at m k = (case map_of m k of None \<Rightarrow> 0 | Some v \<Rightarrow> v)"

fun collect_weights ::
  "InstanceWeight list \<Rightarrow> (string \<times> int) list \<Rightarrow> (string \<times> int) list option" where
  "collect_weights [] values = Some values"
| "collect_weights (w # ws) values =
     (if iw_Weight w < 1 \<or> iw_Weight w > 100 \<or> int_at values (iw_InstanceID w) \<noteq> 0 then None
      else collect_weights ws (AList.update (iw_InstanceID w) (iw_Weight w) values))"

fun weighted_servers ::
  "(string \<times> int) list \<Rightarrow> Instance list \<Rightarrow> topologyServer list option" where
  "weighted_servers values [] = Some []"
| "weighted_servers values (i # is) =
     (let weight = int_at values (in_ID i)
      in if weight = 0 then None
         else map_option ((#) \<lparr>sv_InstanceName = in_Name i, sv_Weight = weight\<rparr>)
                (weighted_servers values is))"

definition validateWeights ::
  "Instance list \<Rightarrow> InstanceWeight list \<Rightarrow> (lab_error, topologyServer list) result" where
  "validateWeights is weights =
     (if length weights \<noteq> length is then Inl ErrWeightInvalid
      else case collect_weights weights [] of
        None \<Rightarrow> Inl ErrWeightInvalid
      | Some values \<Rightarrow>
         (case weighted_servers values is of
            None \<Rightarrow> Inl ErrWeightInvalid
          | Some servers \<Rightarrow> Inr (sort_key sv_InstanceName servers)))"

subsection \<open>Queries\<close>

definition ensureNoPendingTopologyAction :: "fault \<Rightarrow> string \<Rightarrow> platform_db \<Rightarrow> lab_error option" where
  "ensureNoPendingTopologyAction flt labID db =
     (if flt ''check topology action queue'' then Some (ErrDB ''check topology action queue'')
      else if pending_operation labID db then Some ErrBusy else None)"

text \<open>A null container identifier cannot be scanned into a string.\<close>

definition lockTopologyInstances ::
  "fault \<Rightarrow> string \<Rightarrow> platform_db \<Rightarrow> (lab_error, Instance list) result" where
  "lockTopologyInstances flt labID db =
     (if flt ''lock topology instances'' then Inl (ErrDB ''lock topology instances'')
      else let rows = sort_key li_instance_name
                 (filter (\<lambda>i. li_lab_id i = labID \<and> li_status i = ''running'') (instances db))
      in if \<exists>r \<in> set rows. li_container_id r = None then Inl (ErrDB ''scan topology instance'')
         else Inr (map scanInstance rows))"

definition live_instances :: "platform_db \<Rightarrow> nat" where
  "live_instances db = length (filter (\<lambda>i. li_status i \<notin> {''terminated'', ''deleted''}) (instances db))"

definition live_redis :: "platform_db \<Rightarrow> nat" where
  "live_redis db = length (filter (\<lambda>r. lr_resource_type r = ''session-redis'' \<and>
     lr_status r \<notin> {''deleted'', ''terminated''}) (resources db))"

definition admitGlobalTemporaryContainer :: "fault \<Rightarrow> Quota \<Rightarrow> platform_db \<Rightarrow> lab_error option" where
  "admitGlobalTemporaryContainer flt quota db =
     (if flt ''count temporary instances'' then Some (ErrDB ''count temporary instances'')
      else if flt ''count temporary redis'' then Some (ErrDB ''count temporary redis'')
      else if int (live_instances db) + int (live_redis db) + 1 > q_MaxTemporaryContainers quota
      then Some ErrCapacityExceeded else None)"

subsection \<open>The payload of a topology action\<close>

definition buildTopologyPayload ::
  "fault \<Rightarrow> Session \<Rightarrow> Instance list \<Rightarrow> ActionInput \<Rightarrow> Quota \<Rightarrow> platform_db \<Rightarrow>
   (lab_error, topologyActionPayload \<times> string option) result" where
  "buildTopologyPayload flt session is input quota db =
     (let payload = \<lparr>tp_Request = input, tp_ScenarioTemplateID = se_ScenarioTemplateID session,
            tp_InstanceName = [], tp_PerformancePercent = 0, tp_PreviousPerformancePercent = 0,
            tp_Servers = None, tp_PreviousServers = Some (topologyServers is)\<rparr>
      in case ai_ActionType input of
        ADD_INSTANCE \<Rightarrow>
          if int (length is) \<ge> q_MaxInstancesPerLab quota then Inl ErrMaxInstanceLimit
          else (case admitGlobalTemporaryContainer flt quota db of
              Some e \<Rightarrow> Inl e
            | None \<Rightarrow>
               (let name = nextInstanceName is (q_MaxInstancesPerLab quota)
                in Inr (payload\<lparr>tp_InstanceName := name, tp_PerformancePercent := 100,
                     tp_Servers := Some (topologyServers is @
                       [\<lparr>sv_InstanceName = name, sv_Weight = 100\<rparr>])\<rparr>, None)))
      | REMOVE_INSTANCE \<Rightarrow>
          if length is \<le> 1 then Inl ErrMinInstanceLimit
          else (case ai_TargetInstanceID input of
              None \<Rightarrow> Inl nil_panic
            | Some target \<Rightarrow>
                if \<not> containsInstance is target then Inl ErrInstanceNotFound
                else Inr (payload\<lparr>tp_InstanceName := target,
                       tp_Servers := Some (topologyServersWithout is target)\<rparr>, Some target))
      | SET_INSTANCE_PERFORMANCE \<Rightarrow>
         (case ai_TargetInstanceID input of
            None \<Rightarrow> Inl nil_panic
          | Some target \<Rightarrow>
             (case findTopologyInstance is target of
                None \<Rightarrow> Inl ErrInstanceNotFound
              | Some i \<Rightarrow>
                 (case ai_PerformancePercent input of
                    None \<Rightarrow> Inl nil_panic
                  | Some percent \<Rightarrow>
                      Inr (payload\<lparr>tp_InstanceName := target, tp_PerformancePercent := percent,
                             tp_PreviousPerformancePercent := in_PerformancePercent i,
                             tp_Servers := Some (topologyServers is)\<rparr>, Some target))))
      | SET_INSTANCE_WEIGHTS \<Rightarrow>
          if se_BalancingMode session \<noteq> ''fixed'' then Inl ErrActionNotAllowed
          else (case validateWeights is (elems (ai_Weights input)) of
              Inl e \<Rightarrow> Inl e
            | Inr servers \<Rightarrow> Inr (payload\<lparr>tp_Servers := Some servers\<rparr>, None))
      | SET_BALANCING_MODE \<Rightarrow> Inr (payload, None)
      | _ \<Rightarrow> Inl ErrActionNotAllowed)"

subsection \<open>Replays of an operation\<close>

definition findTopologyAction :: "string \<Rightarrow> platform_db \<Rightarrow> (CreatedOperation \<times> ActionInput) option" where
  "findTopologyAction opID db =
     map_option (\<lambda>r. (created_operation r, payload_request (lo_payload r))) (find_operation opID db)"

definition matchingTopologyAction ::
  "CreatedOperation \<Rightarrow> ActionInput \<Rightarrow> nat \<Rightarrow> string \<Rightarrow> ActionInput \<Rightarrow> (lab_error, ActionResult) result" where
  "matchingTopologyAction op stored userID labID requested =
     (if cop_LabID op \<noteq> labID \<or> cop_RequestedBy op \<noteq> userID \<or>
         cop_Action op \<noteq> ai_ActionType requested \<or> stored \<noteq> requested
      then Inl ErrOperationConflict
      else Inr \<lparr>arr_Operation = op, arr_Existing = True\<rparr>)"

subsection \<open>Topology actions\<close>

definition topology_locked ::
  "fault \<Rightarrow> nat \<Rightarrow> string \<Rightarrow> ActionInput \<Rightarrow> Quota \<Rightarrow> gotime \<Rightarrow> platform_db \<Rightarrow>
   (lab_error, ActionResult \<times> platform_db) result" where
  "topology_locked flt userID labID input quota now db =
     (if flt ''lock topology lab'' then Inl (ErrDB ''lock topology lab'')
      else case find_session labID db of
        None \<Rightarrow> Inl ErrNotFound
      | Some s \<Rightarrow>
          if ls_user_id s \<noteq> userID then Inl ErrNotOwned
          else if ls_status s \<noteq> Running \<and> ls_status s \<noteq> Expiring then Inl ErrNotRunning
          else if ls_scenario_type s \<noteq> applicationClusterScenario then Inl ErrActionNotAllowed
          else case (if ai_ActionType input = ADD_INSTANCE then lockGlobalAdmission flt else None) of
            Some e \<Rightarrow> Inl e
          | None \<Rightarrow>
         (case ensureNoPendingTopologyAction flt labID db of
            Some e \<Rightarrow> Inl e
          | None \<Rightarrow>
         (case lockTopologyInstances flt labID db of
            Inl e \<Rightarrow> Inl e
          | Inr is \<Rightarrow>
         (case buildTopologyPayload flt (scanSession s) is input quota db of
            Inl e \<Rightarrow> Inl e
          | Inr (pl, target) \<Rightarrow>
         (case insert_operation (ai_OperationID input) labID userID (ai_ActionType input) target
                (TopologyPayload pl) now db of
            None \<Rightarrow> Inl ErrOperationConflict
          | Some (oid, db1) \<Rightarrow>
              if flt ''insert topology action'' then Inl (ErrDB ''insert topology action'')
              else if flt ''read topology action id'' then Inl (ErrDB ''read topology action id'')
              else if flt ''commit topology action'' then Inl (ErrDB ''commit topology action'')
              else Inr (\<lparr>arr_Operation =
                   \<lparr>cop_ID = oid, cop_OperationID = ai_OperationID input, cop_LabID = labID,
                    cop_RequestedBy = userID, cop_Action = ai_ActionType input,
                    cop_TargetInstanceID = target, cop_Status = OpPending, cop_SubmittedAt = now,
                    cop_CompletedAt = None\<rparr>, arr_Existing = False\<rparr>, db1))))))"

definition EnqueueTopologyAction ::
  "fault \<Rightarrow> (platform_db \<Rightarrow> platform_db) \<Rightarrow> nat \<Rightarrow> string \<Rightarrow> ActionInput \<Rightarrow> Quota \<Rightarrow> gotime \<Rightarrow>
   platform_db \<Rightarrow> (lab_error, ActionResult) result \<times> platform_db" where
  "EnqueueTopologyAction flt other userID labID input quota now db =
     (if flt ''reserve topology action connection''
      then (Inl (ErrDB ''reserve topology action connection''), db)
      else if flt ''begin topology action transaction''
      then (Inl (ErrDB ''begin topology action transaction''), db)
      else if flt ''find existing topology action''
      then (Inl (ErrDB ''find existing topology action''), db)
      else case findTopologyAction (ai_OperationID input) db of
        Some (op, stored) \<Rightarrow> (matchingTopologyAction op stored userID labID input, db)
      | None \<Rightarrow>
         (case atomically (other db) (topology_locked flt userID labID input quota now (other db)) of
            (Inl e, db') \<Rightarrow> (Inl e, db')
          | (Inr r, db') \<Rightarrow>
             (case (if ai_ActionType input = ADD_INSTANCE then releaseGlobalAdmission flt else None) of
                Some e \<Rightarrow> (Inl e, db')
              | None \<Rightarrow> (Inr r, db'))))"

subsection \<open>Cache actions\<close>

definition findCacheAction :: "string \<Rightarrow> platform_db \<Rightarrow> (CreatedOperation \<times> ActionInput) option" where
  "findCacheAction opID db =
     map_option (\<lambda>r. (created_operation r, payload_request (lo_payload r))) (find_operation opID db)"

definition cache_locked ::
  "fault \<Rightarrow> nat \<Rightarrow> string \<Rightarrow> ActionInput \<Rightarrow> gotime \<Rightarrow> platform_db \<Rightarrow>
   (lab_error, ActionResult \<times> platform_db) result" where
  "cache_locked flt userID labID input now db =
     (if flt ''lock cache lab'' then Inl (ErrDB ''lock cache lab'')
      else case find_session labID db of
        None \<Rightarrow> Inl ErrNotFound
      | Some s \<Rightarrow>
          if ls_user_id s \<noteq> userID then Inl ErrNotOwned
          else if ls_status s \<noteq> Running then Inl ErrNotRunning
          else if ls_scenario_type s \<noteq> ''multi_level_cache'' then Inl ErrActionNotAllowed
          else if ai_TargetInstanceID input \<noteq> None \<and> flt ''validate cache instance''
          then Inl (ErrDB ''validate cache instance'')
          else if (case ai_TargetInstanceID input of None \<Rightarrow> False
              | Some target \<Rightarrow> length (filter (\<lambda>i. li_lab_id i = labID \<and> same_key (li_instance_name i) target \<and>
                  li_status i = ''running'') (instances db)) \<noteq> 1)
          then Inl ErrInstanceNotFound
          else case ensureNoPendingTopologyAction flt labID db of
            Some e \<Rightarrow> Inl e
          | None \<Rightarrow>
         (case insert_operation (ai_OperationID input) labID userID (ai_ActionType input)
                (ai_TargetInstanceID input)
                (CachePayload \<lparr>ca_ScenarioTemplateID = ls_scenario_template_id s, ca_Request = input\<rparr>)
                now db of
            None \<Rightarrow> Inl ErrOperationConflict
          | Some (oid, db1) \<Rightarrow>
              if flt ''insert cache action'' then Inl (ErrDB ''insert cache action'')
              else if flt ''read cache action id'' then Inl (ErrDB ''read cache action id'')
              else if flt ''commit cache action'' then Inl (ErrDB ''commit cache action'')
              else Inr (\<lparr>arr_Operation =
                   \<lparr>cop_ID = oid, cop_OperationID = ai_OperationID input, cop_LabID = labID,
                    cop_RequestedBy = userID, cop_Action = ai_ActionType input,
                    cop_TargetInstanceID = ai_TargetInstanceID input, cop_Status = OpPending,
                    cop_SubmittedAt = now, cop_CompletedAt = None\<rparr>, arr_Existing = False\<rparr>, db1)))"

definition EnqueueCacheAction ::
  "fault \<Rightarrow> (platform_db \<Rightarrow> platform_db) \<Rightarrow> nat \<Rightarrow> string \<Rightarrow> ActionInput \<Rightarrow> gotime \<Rightarrow>
   platform_db \<Rightarrow> (lab_error, ActionResult) result \<times> platform_db" where
  "EnqueueCacheAction flt other userID labID input now db =
     (if flt ''begin cache action'' then (Inl (ErrDB ''begin cache action''), db)
      else if flt ''find cache action'' then (Inl (ErrDB ''find cache action''), db)
      else case findCacheAction (ai_OperationID input) db of
        Some (op, stored) \<Rightarrow>
          (if cop_LabID op \<noteq> labID \<or> cop_RequestedBy op \<noteq> userID \<or> stored \<noteq> input
           then Inl ErrOperationConflict
           else Inr \<lparr>arr_Operation = op, arr_Existing = True\<rparr>, db)
      | None \<Rightarrow>
          atomically (other db) (cache_locked flt userID labID input now (other db)))"


subsection \<open>What the checks establish\<close>

definition weight_pairs :: "InstanceWeight list \<Rightarrow> (string \<times> int) list" where
  "weight_pairs ws = map (\<lambda>w. (iw_InstanceID w, iw_Weight w)) ws"

lemma weight_pairs_simps [simp]:
  "weight_pairs [] = []" "weight_pairs (w # ws) = (iw_InstanceID w, iw_Weight w) # weight_pairs ws"
  "fst ` set (weight_pairs ws) = iw_InstanceID ` set ws" "map fst (weight_pairs ws) = map iw_InstanceID ws"
  by (auto simp: weight_pairs_def comp_def image_image)

definition weights_in_range :: "InstanceWeight list \<Rightarrow> bool" where
  "weights_in_range ws = (\<forall>w \<in> set ws. 1 \<le> iw_Weight w \<and> iw_Weight w \<le> 100)"

lemma AList_update_append: "k \<notin> fst ` set m \<Longrightarrow> AList.update k v m = m @ [(k, v)]"
  by (induction m) auto

lemma int_at_nonzero:
  assumes "\<forall>(k, v) \<in> set m. v \<noteq> 0"
  shows "int_at m k = 0 \<longleftrightarrow> k \<notin> fst ` set m"
proof (cases "map_of m k")
  case None
  then have "k \<notin> fst ` set m" by (simp add: map_of_eq_None_iff)
  then show ?thesis using None by (simp add: int_at_def)
next
  case (Some v)
  then show ?thesis using assms map_of_SomeD [OF Some] by (force simp: int_at_def)
qed

lemma collect_weights_eq:
  assumes "\<forall>(k, v) \<in> set m. v \<noteq> 0"
  shows "collect_weights ws m = (if weights_in_range ws \<and> distinct (map iw_InstanceID ws) \<and>
    iw_InstanceID ` set ws \<inter> fst ` set m = {} then Some (m @ weight_pairs ws) else None)"
  using assms
proof (induction ws arbitrary: m)
  case (Cons w ws)
  show ?case
  proof (cases "iw_Weight w < 1 \<or> iw_Weight w > 100 \<or> iw_InstanceID w \<in> fst ` set m")
    case True
    then show ?thesis using int_at_nonzero [OF Cons.prems] by (auto simp: weights_in_range_def)
  next
    case False
    then have "collect_weights (w # ws) m = collect_weights ws (m @ [(iw_InstanceID w, iw_Weight w)])"
      using int_at_nonzero [OF Cons.prems] by (simp add: AList_update_append)
    moreover have "\<forall>(k, v) \<in> set (m @ [(iw_InstanceID w, iw_Weight w)]). v \<noteq> 0"
      using False Cons.prems by auto
    ultimately show ?thesis using Cons.IH False by (auto simp: weights_in_range_def)
  qed
qed (simp add: weights_in_range_def)

lemma weighted_servers_eq:
  assumes "\<forall>(k, v) \<in> set m. v \<noteq> 0"
  shows "weighted_servers m ins = (if in_ID ` set ins \<subseteq> fst ` set m
    then Some (map (\<lambda>i. \<lparr>sv_InstanceName = in_Name i, sv_Weight = int_at m (in_ID i)\<rparr>) ins) else None)"
  by (induction ins) (auto simp: int_at_nonzero [OF assms] Let_def)

lemma validateWeights_eq:
  assumes "distinct (map in_ID ins)"
  shows "validateWeights ins ws =
    (if weights_in_range ws \<and> distinct (map iw_InstanceID ws) \<and> iw_InstanceID ` set ws = in_ID ` set ins
     then Inr (sort_key sv_InstanceName
       (map (\<lambda>i. \<lparr>sv_InstanceName = in_Name i, sv_Weight = int_at (weight_pairs ws) (in_ID i)\<rparr>) ins))
     else Inl ErrWeightInvalid)"
proof -
  have len: "length ws = length ins \<and> in_ID ` set ins \<subseteq> iw_InstanceID ` set ws \<longleftrightarrow>
      iw_InstanceID ` set ws = in_ID ` set ins" if d: "distinct (map iw_InstanceID ws)"
  proof
    have card: "card (iw_InstanceID ` set ws) = length ws" "card (in_ID ` set ins) = length ins"
      using distinct_card [OF d] distinct_card [OF assms] by simp_all
    show "iw_InstanceID ` set ws = in_ID ` set ins"
      if "length ws = length ins \<and> in_ID ` set ins \<subseteq> iw_InstanceID ` set ws"
      using that card card_subset_eq [of "iw_InstanceID ` set ws" "in_ID ` set ins"] by simp
    show "length ws = length ins \<and> in_ID ` set ins \<subseteq> iw_InstanceID ` set ws"
      if "iw_InstanceID ` set ws = in_ID ` set ins" using that card by simp
  qed
  have pos: "\<forall>(k, v) \<in> set (weight_pairs ws). v \<noteq> 0" if "weights_in_range ws"
    using that by (auto simp: weights_in_range_def weight_pairs_def)
  show ?thesis
    using len by (simp add: validateWeights_def collect_weights_eq weighted_servers_eq [OF pos] Let_def) auto
qed

lemma instance_name_inj: "instance_name m = instance_name n \<longleftrightarrow> m = n"
  by (auto simp: instance_name_def digits_inj)

lemma free_name_find:
  "free_name used k n =
     (case find (\<lambda>j. instance_name j \<notin> set used) [k..<k + n] of None \<Rightarrow> [] | Some j \<Rightarrow> instance_name j)"
proof (induction n arbitrary: k)
  case (Suc n)
  have "[k..<k + Suc n] = k # [Suc k..<Suc k + n]" by (simp add: upt_conv_Cons)
  then show ?case using Suc by (simp only: free_name.simps find.simps) simp
qed simp

lemma names_run_out:
  assumes "length used < n"
  shows "\<exists>j \<in> {k..<k + n}. instance_name j \<notin> set used"
proof (rule ccontr)
  assume "\<not> ?thesis"
  then have "instance_name ` {k..<k + n} \<subseteq> set used" by auto
  moreover have "card (instance_name ` {k..<k + n}) = n"
    by (subst card_image) (auto simp: inj_on_def instance_name_inj)
  ultimately have "n \<le> card (set used)" by (metis List.finite_set card_mono)
  then show False using assms card_length [of used] by simp
qed

lemma nextInstanceName_free:
  assumes "int (length ins) < maximum"
  shows "\<exists>j. 1 \<le> j \<and> int j \<le> maximum \<and> nextInstanceName ins maximum = instance_name j \<and>
    instance_name j \<notin> in_Name ` set ins \<and> (\<forall>i. 1 \<le> i \<and> i < j \<longrightarrow> instance_name i \<in> in_Name ` set ins)"
proof -
  let ?free = "\<lambda>j. instance_name j \<notin> set (map in_Name ins)" and ?js = "[1..<1 + nat maximum]"
  have "find ?free ?js \<noteq> None"
    using names_run_out [of "map in_Name ins" "nat maximum" 1] assms unfolding find_None_iff by force
  then obtain j where j: "find ?free ?js = Some j" by blast
  then obtain i where i: "i < length ?js" "?free (?js ! i)" "j = ?js ! i"
    "\<forall>k < i. \<not> ?free (?js ! k)" by (auto simp: find_Some_iff)
  then have ji: "j = 1 + i" by (simp only: length_upt nth_upt)
  have "\<not> ?free m" if "1 \<le> m" "m < j" for m
  proof -
    have "?js ! (m - 1) = m" "m - 1 < i" using that i(1) ji by (simp_all del: upt_Suc)
    then show ?thesis using i(4) by metis
  qed
  then have first: "\<forall>m. 1 \<le> m \<and> m < j \<longrightarrow> instance_name m \<in> in_Name ` set ins" by simp
  have "nextInstanceName ins maximum = instance_name j"
    using j by (simp add: nextInstanceName_def free_name_find del: upt_Suc)
  moreover have "int j \<le> maximum" "?free j" using i(1,2,3) ji by (simp_all del: upt_Suc)
  ultimately show ?thesis using ji first by (intro exI [of _ j]) simp
qed

text \<open>A list of servers that the gateway can balance over.\<close>

definition upstream_ok :: "topologyServer list \<Rightarrow> bool" where
  "upstream_ok ss = (ss \<noteq> [] \<and> distinct (map sv_InstanceName ss) \<and> (\<forall>s \<in> set ss. 0 < sv_Weight s))"

definition instances_ok :: "Instance list \<Rightarrow> bool" where
  "instances_ok ins = (distinct (map in_Name ins) \<and>
     (\<forall>i \<in> set ins. in_ID i = in_Name i \<and> 0 < in_CurrentWeight i))"

lemma upstream_ok_sort: "upstream_ok (sort_key f ss) = upstream_ok ss"
proof -
  have "sort_key f ss = [] \<longleftrightarrow> ss = []" by (metis length_0_conv length_sort)
  then show ?thesis by (simp add: upstream_ok_def distinct_map)
qed

lemma upstream_ok_servers: "instances_ok ins \<Longrightarrow> ins \<noteq> [] \<Longrightarrow> upstream_ok (topologyServers ins)"
  by (auto simp: instances_ok_def upstream_ok_def topologyServers_def comp_def)

lemma upstream_ok_without:
  assumes "instances_ok ins" "1 < length ins"
  shows "upstream_ok (topologyServersWithout ins name)"
proof -
  obtain a b rest where "ins = a # b # rest" using assms(2) by (cases ins; cases "tl ins") auto
  then have "\<exists>i \<in> set ins. in_Name i \<noteq> name" using assms(1) by (auto simp: instances_ok_def)
  then have "filter (\<lambda>i. in_Name i \<noteq> name) ins \<noteq> []" by (simp add: filter_empty_conv)
  then have "instances_ok (filter (\<lambda>i. in_Name i \<noteq> name) ins)"
    using assms(1) by (auto simp: instances_ok_def distinct_map_filter)
  then show ?thesis
    using \<open>filter _ ins \<noteq> []\<close> by (simp add: topologyServersWithout_def upstream_ok_servers)
qed

lemma upstream_ok_add:
  assumes "instances_ok ins" "int (length ins) < m"
  shows "upstream_ok (topologyServers ins @ [\<lparr>sv_InstanceName = nextInstanceName ins m, sv_Weight = 100\<rparr>])"
  using assms(1) nextInstanceName_free [OF assms(2)]
  by (auto simp: upstream_ok_def instances_ok_def topologyServers_def image_iff comp_def)

lemma upstream_ok_weights:
  assumes ok: "instances_ok ins" and v: "validateWeights ins ws = Inr ss" and n: "ws \<noteq> []"
  shows "upstream_ok ss"
proof -
  have "distinct (map in_ID ins)" using ok by (auto simp: instances_ok_def distinct_map inj_on_def)
  then have r: "weights_in_range ws" "iw_InstanceID ` set ws = in_ID ` set ins"
    and ss: "ss = sort_key sv_InstanceName (map (\<lambda>i. \<lparr>sv_InstanceName = in_Name i,
       sv_Weight = int_at (weight_pairs ws) (in_ID i)\<rparr>) ins)"
    using v by (auto simp: validateWeights_eq split: if_splits)
  have "0 < int_at (weight_pairs ws) (in_ID i)" if "i \<in> set ins" for i
  proof -
    have "in_ID i \<in> fst ` set (weight_pairs ws)" using that r by auto
    then obtain v where "map_of (weight_pairs ws) (in_ID i) = Some v"
      by (metis map_of_eq_None_iff not_None_eq)
    then show ?thesis using r(1) map_of_SomeD
      by (fastforce simp: int_at_def weight_pairs_def weights_in_range_def)
  qed
  moreover have "ins \<noteq> []" using r(2) n by auto
  ultimately show ?thesis using ok unfolding ss upstream_ok_sort
    by (auto simp: upstream_ok_def instances_ok_def comp_def)
qed

lemma validateWeights_length: "validateWeights ins ws = Inr ss \<Longrightarrow> distinct (map in_ID ins) \<Longrightarrow> length ss = length ins"
  by (auto simp: validateWeights_eq split: if_splits)

lemma topologyServers_length [simp]:
  "length (topologyServers ins) = length ins" "length (topologyServersWithout ins n) \<le> length ins"
  by (simp_all add: topologyServers_def topologyServersWithout_def)

lemma buildTopologyPayload_upstream:
  assumes ok: "instances_ok ins" and a: "ai_ActionType input \<noteq> SET_BALANCING_MODE"
    and w: "ai_ActionType input = SET_INSTANCE_WEIGHTS \<Longrightarrow> elems (ai_Weights input) \<noteq> []"
    and b: "buildTopologyPayload flt session ins input quota db = Inr (pl, target)"
  shows "\<exists>ss. tp_Servers pl = Some ss \<and> upstream_ok ss \<and>
    int (length ss) \<le> max (int (length ins)) (q_MaxInstancesPerLab quota)"
proof (cases "ai_ActionType input")
  case ADD_INSTANCE
  then show ?thesis using b upstream_ok_add [OF ok, of "q_MaxInstancesPerLab quota"]
    by (auto simp: buildTopologyPayload_def Let_def not_le split: if_splits option.splits)
next
  case REMOVE_INSTANCE
  then show ?thesis using b upstream_ok_without [OF ok]
    by (auto simp: buildTopologyPayload_def Let_def not_le le_max_iff_disj split: if_splits option.splits)
next
  case SET_INSTANCE_PERFORMANCE
  moreover have "findTopologyInstance [] t = None" for t by (simp add: findTopologyInstance_def)
  ultimately show ?thesis using b upstream_ok_servers [OF ok]
    by (cases "ins = []") (auto simp: buildTopologyPayload_def Let_def split: if_splits option.splits)
next
  case SET_INSTANCE_WEIGHTS
  moreover have "distinct (map in_ID ins)"
    using ok by (auto simp: instances_ok_def distinct_map inj_on_def)
  ultimately show ?thesis using b upstream_ok_weights [OF ok _ w] validateWeights_length
    by (force simp: buildTopologyPayload_def Let_def split: if_splits sum.splits)
qed (use a b in \<open>simp_all add: buildTopologyPayload_def Let_def\<close>)

text \<open>The unique key on the names of a lab's instances, and the check on their weights.\<close>

definition instance_keys :: "platform_db \<Rightarrow> bool" where
  "instance_keys db = (distinct (map (\<lambda>i. (li_lab_id i, li_instance_name i)) (instances db)) \<and>
     (\<forall>i \<in> set (instances db). 0 < li_current_weight i))"

lemma lockTopologyInstances_ok:
  assumes "instance_keys db" "lockTopologyInstances flt labID db = Inr ins"
  shows "instances_ok ins"
proof -
  let ?rows = "filter (\<lambda>i. li_lab_id i = labID \<and> li_status i = ''running'') (instances db)"
  have ins: "ins = map scanInstance (sort_key li_instance_name ?rows)"
    using assms(2) by (auto simp: lockTopologyInstances_def Let_def split: if_splits)
  have "distinct (map li_instance_name ?rows)"
    using assms(1) by (auto simp: instance_keys_def distinct_map inj_on_def)
  then have "distinct (map li_instance_name (sort_key li_instance_name ?rows))"
    by (simp add: distinct_map)
  then show ?thesis using assms(1) unfolding ins
    by (auto simp: instances_ok_def instance_keys_def scanInstance_def comp_def)
qed

lemma insert_operation_last:
  "insert_operation op l u a t pl now db = Some (oid, db') \<Longrightarrow>
     operations db' \<noteq> [] \<and> lo_payload (last (operations db')) = pl"
  by (auto simp: insert_operation_def split: if_splits)


text \<open>
  A request for fixed weights is accepted exactly when it names every running instance of
  the lab once and each weight lies between 1 and 100; the servers are then the instances in the
  order of their names, each with the weight requested for it, and otherwise the answer is
  \<open>ErrWeightInvalid\<close>.
\<close>

theorem validateWeights_correct:
  assumes "distinct (map in_ID ins)"
  shows "validateWeights ins ws =
    (if (\<forall>w \<in> set ws. 1 \<le> iw_Weight w \<and> iw_Weight w \<le> 100) \<and> distinct (map iw_InstanceID ws) \<and>
        set (map iw_InstanceID ws) = set (map in_ID ins)
     then Inr (sort_key sv_InstanceName (map (\<lambda>i. \<lparr>sv_InstanceName = in_Name i,
       sv_Weight = the (map_of (map (\<lambda>w. (iw_InstanceID w, iw_Weight w)) ws) (in_ID i))\<rparr>) ins))
     else Inl ErrWeightInvalid)"
proof -
  have "int_at (weight_pairs ws) (in_ID i) = the (map_of (map (\<lambda>w. (iw_InstanceID w, iw_Weight w)) ws) (in_ID i))"
    if "iw_InstanceID ` set ws = in_ID ` set ins" "i \<in> set ins" for i
  proof -
    have "in_ID i \<in> fst ` set (weight_pairs ws)" using that by auto
    then show ?thesis by (auto simp: int_at_def weight_pairs_def map_of_eq_None_iff split: option.splits)
  qed
  then show ?thesis
    using validateWeights_eq [OF assms] by (auto simp: weights_in_range_def intro!: arg_cong [of _ _ "sort_key _"])
qed

definition sample_instance :: "string \<Rightarrow> string \<Rightarrow> instance_row" where
  "sample_instance labID name = \<lparr>li_lab_id = labID, li_instance_name = name,
     li_container_id = Some (labID @ name), li_status = ''running'', li_cpu_limit_cores = 1,
     li_memory_limit_mb = 64, li_performance_percent = 100, li_processing_speed = 10,
     li_max_load = 100, li_current_weight = 100, li_created_at = 0, li_updated_at = 0\<rparr>"

theorem validateWeights_correct_witness:
  "validateWeights (map (\<lambda>n. scanInstance (sample_instance ''l'' n)) [''app-1'', ''app-2''])
     [\<lparr>iw_InstanceID = ''app-2'', iw_Weight = 30\<rparr>, \<lparr>iw_InstanceID = ''app-1'', iw_Weight = 70\<rparr>] =
   Inr [\<lparr>sv_InstanceName = ''app-1'', sv_Weight = 70\<rparr>, \<lparr>sv_InstanceName = ''app-2'', sv_Weight = 30\<rparr>]"
proof -
  let ?ins = "map (\<lambda>n. scanInstance (sample_instance ''l'' n)) [''app-1'', ''app-2'']"
  have "distinct (map in_ID ?ins)" by code_simp
  from validateWeights_correct [OF this] show ?thesis
    by (auto simp: scanInstance_def sample_instance_def)
qed

end
