(* ===== verification/LabService.thy ===== *)
theory LabService
  imports Topology
begin

text \<open>
  The lab service, \<^verbatim>\<open>services/platform-api/internal/lab/session.go\<close>: the checks on a request
  before it reaches the repository, and the derived parts of a snapshot. The clock of the code
  is the argument \<open>clock\<close> and the random bytes of a new identifier are the argument \<open>bytes\<close>.
  The repository is the MySQL one, which supports every kind of action.
\<close>

record LifetimeConfig =
  lt_IdleTimeout :: duration
  lt_MaxDuration :: duration

definition DefaultLifetimeConfig :: LifetimeConfig where
  "DefaultLifetimeConfig = \<lparr>lt_IdleTimeout = 10 * Minute, lt_MaxDuration = 30 * Minute\<rparr>"

definition validActionInput :: "ActionInput \<Rightarrow> bool" where
  "validActionInput input =
     (let noTarget = (ai_TargetInstanceID input = None);
          target = (ai_TargetInstanceID input \<noteq> None \<and> ai_TargetInstanceID input \<noteq> Some []);
          noPercent = (ai_PerformancePercent input = None);
          noWeights = (elems (ai_Weights input) = []);
          noMode = (ai_BalancingMode input = None)
      in case ai_ActionType input of
        ADD_INSTANCE \<Rightarrow> noTarget \<and> noPercent \<and> noWeights \<and> noMode
      | REMOVE_INSTANCE \<Rightarrow> target \<and> noPercent \<and> noWeights \<and> noMode
      | SET_INSTANCE_PERFORMANCE \<Rightarrow>
          target \<and> (case ai_PerformancePercent input of None \<Rightarrow> False | Some p \<Rightarrow> p \<ge> 20 \<and> p \<le> 100) \<and>
          noWeights \<and> noMode
      | SET_INSTANCE_WEIGHTS \<Rightarrow> noTarget \<and> noPercent \<and> \<not> noWeights \<and> noMode
      | SET_BALANCING_MODE \<Rightarrow> noTarget \<and> noPercent \<and> noWeights \<and>
          ai_BalancingMode input \<in> {Some ''fixed'', Some ''adaptive''}
      | REMOVE_INSTANCE_L1 \<Rightarrow> target \<and> noPercent \<and> noWeights \<and> noMode
      | ADD_INSTANCE_L1 \<Rightarrow> target \<and> noPercent \<and> noWeights \<and> noMode
      | REMOVE_SESSION_REDIS \<Rightarrow> noTarget \<and> noPercent \<and> noWeights \<and> noMode
      | ADD_SESSION_REDIS \<Rightarrow> noTarget \<and> noPercent \<and> noWeights \<and> noMode
      | _ \<Rightarrow> False)"

definition isCacheAction :: "action \<Rightarrow> bool" where
  "isCacheAction a =
     (a \<in> {REMOVE_INSTANCE_L1, ADD_INSTANCE_L1, REMOVE_SESSION_REDIS, ADD_SESSION_REDIS})"

definition svc_Action ::
  "fault \<Rightarrow> (platform_db \<Rightarrow> platform_db) \<Rightarrow> Quota \<Rightarrow> gotime \<Rightarrow> nat \<Rightarrow> string \<Rightarrow> ActionInput \<Rightarrow>
   platform_db \<Rightarrow> (lab_error, ActionResult) result \<times> platform_db" where
  "svc_Action flt other quota clock userID labID input db =
     (if userID = 0 \<or> \<not> validLabID labID \<or> \<not> validOperationID (ai_OperationID input) \<or>
         \<not> validActionInput input
      then (Inl ErrInvalidRequest, db)
      else if isCacheAction (ai_ActionType input)
      then EnqueueCacheAction flt other userID labID input (Truncate clock Microsecond) db
      else EnqueueTopologyAction flt other userID labID input quota (Truncate clock Microsecond) db)"

definition svc_Create ::
  "fault \<Rightarrow> (platform_db \<Rightarrow> platform_db) \<Rightarrow> Quota \<Rightarrow> gotime \<Rightarrow> nat list option \<Rightarrow> nat \<Rightarrow> nat \<Rightarrow>
   string \<Rightarrow> platform_db \<Rightarrow> (lab_error, CreateResult) result \<times> platform_db" where
  "svc_Create flt other quota clock bytes userID courseID operationID db =
     (if userID = 0 \<or> courseID = 0 \<or> \<not> validOperationID operationID
      then (Inl ErrInvalidRequest, db)
      else case quota_Validate quota of
        Some e \<Rightarrow> (Inl e, db)
      | None \<Rightarrow>
         (case newLabID bytes of
            Inl e \<Rightarrow> (Inl e, db)
          | Inr labID \<Rightarrow>
              lab_Create flt other userID courseID operationID labID quota
                (Truncate clock Microsecond) db))"

definition svc_Reset ::
  "fault \<Rightarrow> (platform_db \<Rightarrow> platform_db) \<Rightarrow> gotime \<Rightarrow> nat \<Rightarrow> string \<Rightarrow> string \<Rightarrow>
   platform_db \<Rightarrow> (lab_error, ActionResult) result \<times> platform_db" where
  "svc_Reset flt other clock userID labID operationID db =
     (if userID = 0 \<or> \<not> validLabID labID \<or> \<not> validOperationID operationID
      then (Inl ErrInvalidRequest, db)
      else EnqueueAction flt other userID labID operationID RESET_LAB [] (Truncate clock Microsecond) db)"

definition svc_Terminate ::
  "fault \<Rightarrow> (platform_db \<Rightarrow> platform_db) \<Rightarrow> gotime \<Rightarrow> nat \<Rightarrow> string \<Rightarrow> string \<Rightarrow>
   platform_db \<Rightarrow> (lab_error, ActionResult) result \<times> platform_db" where
  "svc_Terminate flt other clock userID labID operationID db =
     (if userID = 0 \<or> \<not> validLabID labID \<or> \<not> validOperationID operationID
      then (Inl ErrInvalidRequest, db)
      else EnqueueAction flt other userID labID operationID DESTROY_LAB ''user_requested''
             (Truncate clock Microsecond) db)"

definition decorateDeadlines :: "LifetimeConfig \<Rightarrow> Session \<Rightarrow> Session" where
  "decorateDeadlines lt s =
     s\<lparr>se_MaximumExpiresAt := (case se_StartedAt s of None \<Rightarrow> se_MaximumExpiresAt s
         | Some t \<Rightarrow> Some (t + lt_MaxDuration lt)),
       se_IdleExpiresAt := (case se_LastEffectiveActionAt s of None \<Rightarrow> se_IdleExpiresAt s
         | Some t \<Rightarrow> Some (t + lt_IdleTimeout lt))\<rparr>"

definition GetOwned ::
  "fault \<Rightarrow> LifetimeConfig \<Rightarrow> string \<Rightarrow> nat \<Rightarrow> platform_db \<Rightarrow> (lab_error, Session) result" where
  "GetOwned flt lt labID userID db =
     (if \<not> validLabID labID \<or> userID = 0 then Inl ErrNotFound
      else map_sum id (decorateDeadlines lt) (FindOwned flt labID userID db))"

definition decorateTrafficSnapshot :: "gotime \<Rightarrow> Snapshot \<Rightarrow> Snapshot" where
  "decorateTrafficSnapshot clock s =
     (let ins = map (\<lambda>i. i\<lparr>in_CurrentLoad := 0, in_LoadRatio := 0, in_LoadState := ''idle'',
            in_ObservedAt := Truncate clock Microsecond\<rparr>) (sn_Instances s)
      in s\<lparr>sn_RequestUnits :=
             \<lparr>ip_Minimum = 1, ip_Maximum = 100, ip_Step = 1, ip_Default = 10\<rparr>,
           sn_GenerationIntervalMS :=
             \<lparr>ip_Minimum = 250, ip_Maximum = 5000, ip_Step = 250, ip_Default = 250\<rparr>,
           sn_Instances := ins,
           sn_Nodes := [\<lparr>tn_ID = ''user-pool'', tn_Type = ''user_pool''\<rparr>,
               \<lparr>tn_ID = ''lab-gateway'', tn_Type = ''gateway''\<rparr>] @
             map (\<lambda>i. \<lparr>tn_ID = in_ID i, tn_Type = ''application''\<rparr>) ins,
           sn_Edges := \<lparr>te_From = ''user-pool'', te_To = ''lab-gateway''\<rparr> #
             map (\<lambda>i. \<lparr>te_From = ''lab-gateway'', te_To = in_ID i\<rparr>) ins\<rparr>)"

text \<open>The decorator that attaches the state of the balancer is the argument \<open>decorator\<close>.\<close>

definition svc_Snapshot ::
  "fault \<Rightarrow> LifetimeConfig \<Rightarrow> gotime \<Rightarrow> (Snapshot \<Rightarrow> Snapshot) option \<Rightarrow> string \<Rightarrow> nat \<Rightarrow>
   platform_db \<Rightarrow> (lab_error, Snapshot) result" where
  "svc_Snapshot flt lt clock decorator labID userID db =
     (if \<not> validLabID labID \<or> userID = 0 then Inl ErrNotFound
      else case FindSnapshot flt labID userID db of
        Inl e \<Rightarrow> Inl e
      | Inr s \<Rightarrow>
         (let s1 = s\<lparr>sn_Lab := decorateDeadlines lt (sn_Lab s)\<rparr>;
              s2 = decorateTrafficSnapshot clock s1
          in Inr (case decorator of None \<Rightarrow> s2 | Some d \<Rightarrow> d s2)))"

end
