(* ===== verification/Requests.thy ===== *)
theory Requests
  imports LabService
begin

text \<open>
  What the requests of a learner guarantee, \<^verbatim>\<open>services/platform-api/internal/lab\<close>: a replayed
  request answers as the first one did and changes nothing,
  nobody reaches the lab of another user, admission keeps to the quota, and the server lists of
  topology actions are ones the gateway can balance over.
\<close>

subsection \<open>Operations that are stored\<close>

lemma same_key_refl [simp]: "same_key k k"
  by (simp add: same_key_def)

definition pending_row ::
  "nat \<Rightarrow> string \<Rightarrow> string \<Rightarrow> nat \<Rightarrow> action \<Rightarrow> string option \<Rightarrow> payload \<Rightarrow> gotime \<Rightarrow> operation_row" where
  "pending_row oid opID labID userID act target pl now =
     \<lparr>lo_id = oid, lo_operation_id = opID, lo_lab_id = labID, lo_requested_by = userID, lo_action = act,
      lo_target_instance_id = target, lo_status = OpPending, lo_payload = pl, lo_result = None,
      lo_error_code = None, lo_error_message = None, lo_lease_owner = None, lo_lease_expires_at = None,
      lo_attempt_count = 0, lo_created_at = now, lo_updated_at = now, lo_completed_at = None\<rparr>"

lemma insert_operation_Some:
  assumes "insert_operation opID labID userID act target pl now db = Some (oid, db')"
  shows "find_operation opID db' = Some (pending_row oid opID labID userID act target pl now)"
    "sessions db' = sessions db" "find_operation opID db = None"
proof -
  show n: "find_operation opID db = None" using assms by (auto simp: insert_operation_def split: if_splits)
  have d: "db' = db\<lparr>operations := operations db @ [pending_row oid opID labID userID act target pl now],
      next_operation := next_operation db + 1\<rparr>"
    using assms by (auto simp: insert_operation_def pending_row_def split: if_splits)
  show "find_operation opID db' = Some (pending_row oid opID labID userID act target pl now)"
    using n by (simp add: d find_operation_def find_append) (simp add: pending_row_def)
  show "sessions db' = sessions db" by (simp add: d)
qed

lemma find_operation_progress [simp]:
  "find_operation op (update_last_lab u c l db) = find_operation op db"
  "find_session s (update_last_lab u c l db) = find_session s db"
  by (simp_all add: find_operation_def find_session_def update_last_lab_def Let_def)

lemma create_rows_existing:
  assumes "create_rows flt u c op l sc now db = Inr (res, db')"
  shows "findExistingCreate op db' = Some res \<and> \<not> crr_Existing res \<and> cop_RequestedBy (crr_Operation res) = u \<and>
    cop_Action (crr_Operation res) = CREATE_LAB \<and> se_CourseID (crr_Session res) = c"
proof -
  let ?s = "new_session l u c sc now"
  let ?pl = "CreatePayload c (sc_Type sc) (sc_TemplateID sc) (sc_InitialInstances sc) (sc_RedisRequired sc)"
  obtain oid db2 where n: "find_session l db = None"
    and i: "insert_operation op l u CREATE_LAB None ?pl now (db\<lparr>sessions := sessions db @ [?s]\<rparr>) = Some (oid, db2)"
    and r: "res = \<lparr>crr_Session = scanSession ?s,
        crr_Operation = \<lparr>cop_ID = oid, cop_OperationID = op, cop_LabID = l, cop_RequestedBy = u,
          cop_Action = CREATE_LAB, cop_TargetInstanceID = None, cop_Status = OpPending,
          cop_SubmittedAt = now, cop_CompletedAt = None\<rparr>, crr_Existing = False\<rparr>"
      "db' = update_last_lab u c l db2"
    using assms by (auto simp: create_rows_def Let_def split: if_splits option.splits)
  have s: "find_session l db2 = Some ?s"
    using n insert_operation_Some(2) [OF i] by (simp add: find_session_def find_append) (simp add: new_session_def)
  show ?thesis
    using insert_operation_Some(1) [OF i] s
    by (simp add: r findExistingCreate_def pending_row_def created_operation_def)
      (simp add: scanSession_def new_session_def)
qed

lemma existing_create_Inr: "existing_create c0 u c = Inr res \<Longrightarrow> existing_create c0 u c = Inr (res\<lparr>crr_Existing := True\<rparr>)"
  by (auto simp: existing_create_def split: if_splits)

text \<open>After a create that answered, the operation and its lab are found.\<close>

lemma lab_Create_existing:
  assumes "lab_Create flt other u c op l quota now db = (Inr res, db')"
  shows "\<exists>c0. findExistingCreate op db' = Some c0 \<and> existing_create c0 u c = Inr (res\<lparr>crr_Existing := True\<rparr>)"
proof (cases "findExistingCreate op db")
  case (Some c0)
  then show ?thesis using assms existing_create_Inr by (auto simp: lab_Create_def split: if_splits)
next
  case None
  then have "create_locked flt u c op l quota now (other db) = Inr (res, db')"
    using assms by (auto simp: lab_Create_def atomically_def split: if_splits option.splits sum.splits)
  then consider c0 where "findExistingCreate op (other db) = Some c0" "existing_create c0 u c = Inr res" "db' = other db"
    | sc where "create_rows flt u c op l sc now (other db) = Inr (res, db')"
    by (auto simp: create_locked_def map_sum_Inr split: if_splits option.splits)
  then show ?thesis
  proof cases
    case 1
    then show ?thesis using existing_create_Inr by metis
  next
    case 2
    from create_rows_existing [OF this] show ?thesis by (auto simp: existing_create_def)
  qed
qed

subsection \<open>Replayed actions\<close>

lemma enqueue_locked_inserts:
  assumes "enqueue_locked flt u l op a reason now db = Inr (res, db')" "findActionByOperationID op db = None"
  shows "\<exists>pl db1 oid. insert_operation op l u a None pl now db1 = Some (oid, db') \<and>
    res = \<lparr>arr_Operation = \<lparr>cop_ID = oid, cop_OperationID = op, cop_LabID = l, cop_RequestedBy = u,
      cop_Action = a, cop_TargetInstanceID = None, cop_Status = OpPending, cop_SubmittedAt = now,
      cop_CompletedAt = None\<rparr>, arr_Existing = False\<rparr>"
  using assms by (auto simp: enqueue_locked_def Let_def split: if_split_asm option.split_asm sum.split_asm prod.split_asm)

lemma enqueue_locked_found:
  assumes "enqueue_locked flt u l op a reason now db = Inr (res, db')" "findActionByOperationID op db = Some o'"
  shows "matchingActionResult o' u l a = Inr res \<and> db' = db"
proof -
  have "map_sum id (\<lambda>r. (r, db)) (matchingActionResult o' u l a) = Inr (res, db')"
    using assms(1) unfolding enqueue_locked_def assms(2) by (simp split: if_split_asm option.split_asm)
  then show ?thesis by (cases "matchingActionResult o' u l a") simp_all
qed

lemma enqueue_locked_existing:
  assumes "enqueue_locked flt u l op a reason now db = Inr (res, db')"
  shows "\<exists>o'. findActionByOperationID op db' = Some o' \<and>
    matchingActionResult o' u l a = Inr (res\<lparr>arr_Existing := True\<rparr>)"
proof (cases "findActionByOperationID op db")
  case (Some o')
  have "matchingActionResult o' u l a = Inr res" "db' = db" using enqueue_locked_found [OF assms Some] by simp_all
  moreover from this have "arr_Existing res" by (auto simp: matchingActionResult_def split: if_split_asm)
  ultimately show ?thesis using Some by (cases res) simp
next
  case None
  then obtain pl db1 oid where i: "insert_operation op l u a None pl now db1 = Some (oid, db')"
    and r: "res = \<lparr>arr_Operation = \<lparr>cop_ID = oid, cop_OperationID = op, cop_LabID = l, cop_RequestedBy = u,
      cop_Action = a, cop_TargetInstanceID = None, cop_Status = OpPending, cop_SubmittedAt = now,
      cop_CompletedAt = None\<rparr>, arr_Existing = False\<rparr>"
    using enqueue_locked_inserts [OF assms None] by blast
  then show ?thesis using insert_operation_Some(1) [OF i]
    by (simp add: findActionByOperationID_def matchingActionResult_def created_operation_def pending_row_def)
qed

lemma EnqueueAction_replay:
  assumes "EnqueueAction flt other u l op a reason now db = (Inr res, db')"
    "\<forall>m \<in> {''reserve lab action connection'', ''begin lab action transaction'', ''find existing lab action''}. \<not> flt' m"
  shows "EnqueueAction flt' other' u l op a reason' now' db' = (Inr (res\<lparr>arr_Existing := True\<rparr>), db')"
proof (cases "findActionByOperationID op db")
  case (Some o')
  then show ?thesis using assms
    by (auto simp: EnqueueAction_def matchingActionResult_def split: if_splits)
next
  case None
  then have "enqueue_locked flt u l op a reason now (other db) = Inr (res, db')"
    using assms(1) by (auto simp: EnqueueAction_def atomically_def split: if_splits sum.splits)
  from enqueue_locked_existing [OF this] show ?thesis using assms(2)
    by (auto simp: EnqueueAction_def)
qed

lemma json_input_id: "ai_Weights i \<noteq> Some [] \<Longrightarrow> json_input i = i"
  by (simp add: json_input_def json_slice_def)

lemma json_input_changes: "ai_Weights i = Some [] \<Longrightarrow> json_input i \<noteq> i"
  by (simp add: json_input_def json_slice_def) (metis ActionInput.select_convs(5) ActionInput.surjective ActionInput.update_convs(5) option.distinct(1))

text \<open>What is stored of a fresh action.\<close>

lemma topology_locked_stored:
  assumes "topology_locked flt u l input quota now db = Inr (res, db')"
  shows "findTopologyAction (ai_OperationID input) db' = Some (arr_Operation res, json_input input) \<and>
    cop_LabID (arr_Operation res) = l \<and> cop_RequestedBy (arr_Operation res) = u \<and>
    cop_Action (arr_Operation res) = ai_ActionType input \<and> \<not> arr_Existing res"
proof -
  obtain s ins pl target oid where
    b: "buildTopologyPayload flt (scanSession s) ins input quota db = Inr (pl, target)"
    and i: "insert_operation (ai_OperationID input) l u (ai_ActionType input) target
      (TopologyPayload pl) now db = Some (oid, db')"
    and r: "res = \<lparr>arr_Operation = \<lparr>cop_ID = oid, cop_OperationID = ai_OperationID input, cop_LabID = l,
      cop_RequestedBy = u, cop_Action = ai_ActionType input, cop_TargetInstanceID = target,
      cop_Status = OpPending, cop_SubmittedAt = now, cop_CompletedAt = None\<rparr>, arr_Existing = False\<rparr>"
    using assms by (auto simp: topology_locked_def split: if_splits option.splits sum.splits)
  have "tp_Request pl = input"
    using b by (auto simp: buildTopologyPayload_def Let_def split: action.splits if_splits option.splits sum.splits)
  then show ?thesis using insert_operation_Some(1) [OF i]
    by (simp add: r findTopologyAction_def created_operation_def pending_row_def)
qed

lemma cache_locked_stored:
  assumes "cache_locked flt u l input now db = Inr (res, db')"
  shows "findCacheAction (ai_OperationID input) db' = Some (arr_Operation res, json_input input) \<and>
    cop_LabID (arr_Operation res) = l \<and> cop_RequestedBy (arr_Operation res) = u \<and> \<not> arr_Existing res"
proof -
  obtain tid oid where
    i: "insert_operation (ai_OperationID input) l u (ai_ActionType input) (ai_TargetInstanceID input)
      (CachePayload \<lparr>ca_ScenarioTemplateID = tid, ca_Request = input\<rparr>) now db = Some (oid, db')"
    and r: "res = \<lparr>arr_Operation = \<lparr>cop_ID = oid, cop_OperationID = ai_OperationID input, cop_LabID = l,
      cop_RequestedBy = u, cop_Action = ai_ActionType input, cop_TargetInstanceID = ai_TargetInstanceID input,
      cop_Status = OpPending, cop_SubmittedAt = now, cop_CompletedAt = None\<rparr>, arr_Existing = False\<rparr>"
    using assms by (auto simp: cache_locked_def split: if_splits option.splits sum.splits)
  then show ?thesis using insert_operation_Some(1) [OF i]
    by (simp add: findCacheAction_def created_operation_def pending_row_def)
qed

text \<open>The points at which a replay can fail on the database.\<close>

definition replay_faults :: "string set" where
  "replay_faults = {''reserve topology action connection'', ''begin topology action transaction'',
     ''find existing topology action'', ''begin cache action'', ''find cache action''}"

text \<open>A stored request never has an empty list of weights.\<close>

lemma payload_request_weights:
  assumes "validActionInput (payload_request pl)"
  shows "ai_Weights (payload_request pl) \<noteq> Some []"
  using assms by (cases pl) (auto simp: json_input_def json_slice_def zero_input_def validActionInput_def)

lemma find_payload_request:
  "findTopologyAction op db = Some (o', stored) \<Longrightarrow> \<exists>pl. stored = payload_request pl"
  "findCacheAction op db = Some (o', stored) \<Longrightarrow> \<exists>pl. stored = payload_request pl"
  by (auto simp: findTopologyAction_def findCacheAction_def)

lemma EnqueueTopologyAction_replay:
  assumes v: "validActionInput input" and f: "\<forall>m \<in> replay_faults. \<not> flt' m"
    and e: "EnqueueTopologyAction flt other u l input quota now db = (Inr res, db')"
  shows "EnqueueTopologyAction flt' other' u l input quota' now' db' =
    (if ai_Weights input = Some [] then Inl ErrOperationConflict else Inr (res\<lparr>arr_Existing := True\<rparr>), db')"
proof (cases "findTopologyAction (ai_OperationID input) db")
  case (Some x)
  then obtain o' stored where x: "findTopologyAction (ai_OperationID input) db = Some (o', stored)"
    by (cases x) auto
  have "stored = input" "db' = db" using e x
    by (auto simp: EnqueueTopologyAction_def matchingTopologyAction_def split: if_splits)
  then show ?thesis using e f x v payload_request_weights find_payload_request(1) [OF x]
    by (auto simp: EnqueueTopologyAction_def matchingTopologyAction_def replay_faults_def split: if_splits)
next
  case None
  then have "topology_locked flt u l input quota now (other db) = Inr (res, db')"
    using e by (auto simp: EnqueueTopologyAction_def atomically_def split: if_splits option.splits sum.splits)
  from topology_locked_stored [OF this] show ?thesis using f json_input_id [of input] json_input_changes [of input]
    by (auto simp: EnqueueTopologyAction_def matchingTopologyAction_def replay_faults_def)
qed

lemma EnqueueCacheAction_replay:
  assumes v: "validActionInput input" and f: "\<forall>m \<in> replay_faults. \<not> flt' m"
    and e: "EnqueueCacheAction flt other u l input now db = (Inr res, db')"
  shows "EnqueueCacheAction flt' other' u l input now' db' =
    (if ai_Weights input = Some [] then Inl ErrOperationConflict else Inr (res\<lparr>arr_Existing := True\<rparr>), db')"
proof (cases "findCacheAction (ai_OperationID input) db")
  case (Some x)
  then obtain o' stored where x: "findCacheAction (ai_OperationID input) db = Some (o', stored)"
    by (cases x) auto
  have "stored = input" "db' = db" using e x by (auto simp: EnqueueCacheAction_def split: if_splits)
  then show ?thesis using e f x v payload_request_weights find_payload_request(2) [OF x]
    by (auto simp: EnqueueCacheAction_def replay_faults_def split: if_splits)
next
  case None
  then have "cache_locked flt u l input now (other db) = Inr (res, db')"
    using e by (auto simp: EnqueueCacheAction_def atomically_def split: if_splits sum.splits)
  from cache_locked_stored [OF this] show ?thesis using f json_input_id [of input] json_input_changes [of input]
    by (auto simp: EnqueueCacheAction_def replay_faults_def)
qed

subsection \<open>Server lists\<close>

lemma buildTopologyPayload_no_panic:
  assumes "validActionInput input"
  shows "buildTopologyPayload flt session ins input quota db \<noteq> Inl nil_panic"
proof (cases "ai_ActionType input")
  case ADD_INSTANCE
  then show ?thesis
    by (auto simp: buildTopologyPayload_def admitGlobalTemporaryContainer_def nil_panic_def Let_def)
qed (use assms in \<open>auto simp: buildTopologyPayload_def validActionInput_def validateWeights_def
    nil_panic_def Let_def split: option.splits\<close>)

lemma topology_locked_upstream:
  assumes "instance_keys db" "topology_locked flt u l input quota now db = Inr (r, db')"
    "ai_ActionType input \<noteq> SET_BALANCING_MODE" "validActionInput input"
  obtains ins pl ss where "lockTopologyInstances flt l db = Inr ins"
    "lo_payload (last (operations db')) = TopologyPayload pl" "tp_Servers pl = Some ss" "upstream_ok ss"
    "int (length ss) \<le> max (int (length ins)) (q_MaxInstancesPerLab quota)"
proof -
  obtain s ins pl target oid where i: "lockTopologyInstances flt l db = Inr ins"
    and b: "buildTopologyPayload flt (scanSession s) ins input quota db = Inr (pl, target)"
    and d: "insert_operation (ai_OperationID input) l u (ai_ActionType input) target (TopologyPayload pl)
      now db = Some (oid, db')"
    using assms(2) by (auto simp: topology_locked_def split: if_splits option.splits sum.splits)
  have "ai_ActionType input = SET_INSTANCE_WEIGHTS \<Longrightarrow> elems (ai_Weights input) \<noteq> []"
    using assms(4) by (simp add: validActionInput_def Let_def)
  with buildTopologyPayload_upstream [OF lockTopologyInstances_ok [OF assms(1) i] assms(3) _ b]
  show ?thesis using that [OF i] insert_operation_last [OF d] by auto
qed

subsection \<open>Sample labs\<close>

definition sample_labID :: string where
  "sample_labID = ''lab-00112233445566778899aabbccddeeff''"

definition sample_session :: "string \<Rightarrow> session_row" where
  "sample_session scn = \<lparr>ls_id = sample_labID, ls_user_id = 7, ls_course_id = 2,
     ls_scenario_type = scn, ls_scenario_template_id = ''t'', ls_status = Running,
     ls_balancing_mode = ''fixed'', ls_mysql_db_name = None, ls_mysql_db_user = None,
     ls_redis_enabled = False, ls_started_at = Some 1000, ls_last_effective_action_at = Some 1000,
     ls_terminated_at = None, ls_termination_reason = None, ls_created_at = 0, ls_updated_at = 1000\<rparr>"

definition sample_cluster :: platform_db where
  "sample_cluster = \<lparr>users = [\<lparr>us_id = 7, us_username = ''u'', us_password_hash = [], us_status = ''active''\<rparr>,
       \<lparr>us_id = 8, us_username = ''v'', us_password_hash = [], us_status = ''active''\<rparr>],
     courses = [\<lparr>co_id = 2, co_slug = ''application-cluster'', co_status = ''active''\<rparr>], progress = [],
     sessions = [sample_session ''application_cluster''],
     instances = [sample_instance sample_labID ''app-1'', sample_instance sample_labID ''app-2'',
       sample_instance sample_labID ''app-3''],
     resources = [], operations = [], next_operation = 1\<rparr>"

definition sample_quota :: Quota where
  "sample_quota = \<lparr>q_MaxActiveLabs = 2, q_MaxTemporaryContainers = 4, q_MaxInstancesPerLab = 4\<rparr>"

definition sample_input :: "action \<Rightarrow> string option \<Rightarrow> ActionInput" where
  "sample_input a target = \<lparr>ai_OperationID = ''op-1'', ai_ActionType = a, ai_TargetInstanceID = target,
     ai_PerformancePercent = None, ai_Weights = None, ai_BalancingMode = None\<rparr>"

abbreviation no_fault :: fault where
  "no_fault \<equiv> \<lambda>_. False"

subsection \<open>Replays\<close>

text \<open>
  Claim C22. Creating a lab is idempotent: after a create that answered, a second request of the
  same user with the same operation identifier and course answers with the same lab and
  operation, marked as existing, and changes nothing, whatever identifier was drawn for it.
\<close>

theorem create_idempotent:
  assumes "svc_Create flt other quota clock bytes u c op db = (Inr res, db')"
    "newLabID bytes' = Inr labID'"
    "\<forall>m \<in> {''reserve create lab connection'', ''begin create lab transaction'', ''find existing create''}. \<not> flt' m"
  shows "svc_Create flt' other' quota clock' bytes' u c op db' = (Inr (res\<lparr>crr_Existing := True\<rparr>), db')"
proof -
  obtain labID where v: "u \<noteq> 0" "c \<noteq> 0" "validOperationID op" "quota_Validate quota = None"
    and "lab_Create flt other u c op labID quota (Truncate clock Microsecond) db = (Inr res, db')"
    using assms(1) by (auto simp: svc_Create_def split: if_splits option.splits sum.splits)
  from lab_Create_existing [OF this(5)] v assms(2,3) show ?thesis
    by (auto simp: svc_Create_def lab_Create_def)
qed

definition sample_create :: "(lab_error, CreateResult) result \<times> platform_db" where
  "sample_create = svc_Create no_fault id sample_quota 5000 (Some [1, 2, 3]) 8 2 ''op-1'' sample_cluster"

theorem create_idempotent_witness:
  "\<exists>res. fst sample_create = Inr res \<and>
     svc_Create no_fault id sample_quota 9000 (Some [4, 5]) 8 2 ''op-1'' (snd sample_create) =
       (Inr (res\<lparr>crr_Existing := True\<rparr>), snd sample_create)"
proof -
  have "is_ok (fst sample_create)" by code_simp
  then obtain res db' where r: "sample_create = (Inr res, db')"
    by (rule is_okE)
  have "newLabID (Some [4, 5]) = Inr (''lab-'' @ hex_EncodeToString [4, 5])" by (simp add: newLabID_def)
  from create_idempotent [OF r [unfolded sample_create_def] this, of no_fault] show ?thesis by (simp add: r)
qed

text \<open>
  Reset and terminate are idempotent: after a request that answered, a replay answers
  with the same operation, marked as existing, and changes nothing.
\<close>

theorem reset_terminate_idempotent:
  assumes "\<forall>m \<in> {''reserve lab action connection'', ''begin lab action transaction'', ''find existing lab action''}. \<not> flt' m"
  shows "(svc_Reset flt other clock u l op db = (Inr res, db') \<longrightarrow>
      svc_Reset flt' other' clock' u l op db' = (Inr (res\<lparr>arr_Existing := True\<rparr>), db')) \<and>
    (svc_Terminate flt other clock u l op db = (Inr res, db') \<longrightarrow>
      svc_Terminate flt' other' clock' u l op db' = (Inr (res\<lparr>arr_Existing := True\<rparr>), db'))"
  using EnqueueAction_replay [OF _ assms] by (auto simp: svc_Reset_def svc_Terminate_def split: if_splits)

definition sample_terminate :: "(lab_error, ActionResult) result \<times> platform_db" where
  "sample_terminate = svc_Terminate no_fault id 5000 7 sample_labID ''op-1'' sample_cluster"

lemma sample_terminate_ok: "is_ok (fst sample_terminate)"
  by code_simp

theorem reset_terminate_idempotent_witness:
  "\<exists>res. fst sample_terminate = Inr res \<and>
     svc_Terminate no_fault id 9000 7 sample_labID ''op-1'' (snd sample_terminate) =
       (Inr (res\<lparr>arr_Existing := True\<rparr>), snd sample_terminate)"
proof -
  obtain res db' where r: "sample_terminate = (Inr res, db')"
    using sample_terminate_ok by (rule is_okE)
  then show ?thesis
    using reset_terminate_idempotent [of no_fault no_fault id 5000 7 sample_labID "''op-1''" sample_cluster res db' id 9000]
    by (simp add: sample_terminate_def)
qed

text \<open>
  Claim C23. The actions on a running lab are idempotent as long as the request does not carry an
  empty list of weights: a replay answers with the same operation and changes nothing. A request
  that does carry an empty list is stored without it, so its replay is refused with
  \<open>ErrOperationConflict\<close>.
\<close>

theorem action_replay:
  assumes "svc_Action flt other quota clock u l input db = (Inr res, db')" "\<forall>m \<in> replay_faults. \<not> flt' m"
  shows "svc_Action flt' other' quota' clock' u l input db' =
    (if ai_Weights input = Some [] then Inl ErrOperationConflict else Inr (res\<lparr>arr_Existing := True\<rparr>), db')"
proof -
  have v: "u \<noteq> 0" "validLabID l" "validOperationID (ai_OperationID input)" "validActionInput input"
    using assms(1) by (auto simp: svc_Action_def split: if_splits)
  then show ?thesis
    using assms(1) EnqueueTopologyAction_replay [OF v(4) assms(2)] EnqueueCacheAction_replay [OF v(4) assms(2)]
    by (cases "isCacheAction (ai_ActionType input)") (simp_all add: svc_Action_def)
qed

definition sample_remove :: "InstanceWeight slice \<Rightarrow> (lab_error, ActionResult) result \<times> platform_db" where
  "sample_remove ws = svc_Action no_fault id sample_quota 5000 7 sample_labID
     ((sample_input REMOVE_INSTANCE (Some ''app-2''))\<lparr>ai_Weights := ws\<rparr>) sample_cluster"

theorem action_replay_witness:
  "svc_Action no_fault id sample_quota 9000 7 sample_labID
     ((sample_input REMOVE_INSTANCE (Some ''app-2''))\<lparr>ai_Weights := Some []\<rparr>) (snd (sample_remove (Some []))) =
   (Inl ErrOperationConflict, snd (sample_remove (Some [])))"
proof -
  have "is_ok (fst (sample_remove (Some [])))" by code_simp
  then obtain res db' where r: "sample_remove (Some []) = (Inr res, db')"
    by (rule is_okE)
  from action_replay [OF r [unfolded sample_remove_def], of no_fault] show ?thesis by (simp add: r)
qed

subsection \<open>Labs of other users\<close>

text \<open>
  The answers to a user who is not the owner: not found when the identifier is not one of a lab, not
  owned, or a failure of the database.
\<close>

definition foreign_read :: "fault \<Rightarrow> nat \<Rightarrow> string \<Rightarrow> (lab_error, 'a) result \<Rightarrow> bool" where
  "foreign_read flt u l r = (case r of Inr _ \<Rightarrow> False
     | Inl e \<Rightarrow> if u = 0 \<or> \<not> validLabID l then e = ErrNotFound else e = ErrNotOwned \<or> (\<exists>m. flt m \<and> e = ErrDB m))"

text \<open>
  A request of such a user to change the lab: it is invalid, the database fails, its operation identifier
  is taken, it replays an operation that this user has on this lab already, or it is refused as not owned.
\<close>

definition foreign_write ::
  "fault \<Rightarrow> bool \<Rightarrow> nat \<Rightarrow> string \<Rightarrow> string \<Rightarrow> platform_db \<Rightarrow> (lab_error, ActionResult) result \<Rightarrow> bool" where
  "foreign_write flt valid u l op db r =
     (case r of
        Inr a \<Rightarrow> valid \<and> (\<exists>x. find_operation op db = Some x \<and> lo_lab_id x = l \<and> lo_requested_by x = u) \<and>
          arr_Existing a \<and> cop_LabID (arr_Operation a) = l \<and> cop_RequestedBy (arr_Operation a) = u
      | Inl e \<Rightarrow> if \<not> valid then e = ErrInvalidRequest
          else (\<exists>m. flt m \<and> e = ErrDB m) \<or>
            e = (if find_operation op db = None then ErrNotOwned else ErrOperationConflict))"

lemma foreign_read_cases:
  assumes "find_session l db = Some s" "ls_user_id s \<noteq> u"
  shows "foreign_read flt u l (GetOwned flt lt l u db)" "foreign_read flt u l (svc_Snapshot flt lt clock decorator l u db)"
  using assms by (auto simp: foreign_read_def GetOwned_def FindOwned_def svc_Snapshot_def FindSnapshot_def)

lemma EnqueueAction_foreign:
  assumes "find_session l (other db) = Some s" "ls_user_id s \<noteq> u"
  shows "foreign_write flt True u l op db (fst (EnqueueAction flt other u l op a why now db)) \<and>
    snd (EnqueueAction flt other u l op a why now db) \<in> {db, other db}"
  using assms by (auto simp: EnqueueAction_def foreign_write_def findActionByOperationID_def matchingActionResult_def
      created_operation_def enqueue_locked_def atomically_def split: option.splits)

lemma EnqueueTopologyAction_foreign:
  assumes "find_session l (other db) = Some s" "ls_user_id s \<noteq> u"
  shows "foreign_write flt True u l (ai_OperationID input) db (fst (EnqueueTopologyAction flt other u l input q now db)) \<and>
    snd (EnqueueTopologyAction flt other u l input q now db) \<in> {db, other db}"
  using assms by (auto simp: EnqueueTopologyAction_def foreign_write_def findTopologyAction_def matchingTopologyAction_def
      created_operation_def topology_locked_def atomically_def split: option.splits)

lemma EnqueueCacheAction_foreign:
  assumes "find_session l (other db) = Some s" "ls_user_id s \<noteq> u"
  shows "foreign_write flt True u l (ai_OperationID input) db (fst (EnqueueCacheAction flt other u l input now db)) \<and>
    snd (EnqueueCacheAction flt other u l input now db) \<in> {db, other db}"
  using assms by (auto simp: EnqueueCacheAction_def foreign_write_def findCacheAction_def
      created_operation_def cache_locked_def atomically_def split: option.splits)

lemma foreign_write_invalid: "\<not> v \<Longrightarrow> foreign_write flt v u l op db (Inl ErrInvalidRequest)"
  by (simp add: foreign_write_def)

text \<open>
  Claim C25. A lab is read and changed only by its owner. For any other user, reading the lab and its
  snapshot answers \<open>ErrNotOwned\<close>, unless the database fails or the identifier is malformed. An
  action, a reset and a terminate leave the database as it was, or as other transactions left it meanwhile; a
  valid one answers \<open>ErrNotOwned\<close> unless the database fails or its operation identifier is taken.
  With a taken identifier the answer is \<open>ErrOperationConflict\<close>, or the stored operation when that
  is an operation which the same user requested on the same lab.
\<close>

theorem foreign_lab_refused:
  assumes "find_session l (other db) = Some s" "ls_user_id s \<noteq> u"
  shows "foreign_read flt u l (GetOwned flt lt l u (other db)) \<and>
    foreign_read flt u l (svc_Snapshot flt lt clock decorator l u (other db)) \<and>
    foreign_write flt (u \<noteq> 0 \<and> validLabID l \<and> validOperationID (ai_OperationID input) \<and> validActionInput input)
      u l (ai_OperationID input) db (fst (svc_Action flt other quota clock u l input db)) \<and>
    foreign_write flt (u \<noteq> 0 \<and> validLabID l \<and> validOperationID op) u l op db (fst (svc_Reset flt other clock u l op db)) \<and>
    foreign_write flt (u \<noteq> 0 \<and> validLabID l \<and> validOperationID op) u l op db (fst (svc_Terminate flt other clock u l op db)) \<and>
    snd (svc_Action flt other quota clock u l input db) \<in> {db, other db} \<and>
    snd (svc_Reset flt other clock u l op db) \<in> {db, other db} \<and>
    snd (svc_Terminate flt other clock u l op db) \<in> {db, other db}"
  using foreign_read_cases [OF assms] EnqueueAction_foreign [where other = other and db = db, OF assms]
    EnqueueTopologyAction_foreign [where other = other and db = db, OF assms]
    EnqueueCacheAction_foreign [where other = other and db = db, OF assms]
  by (auto simp: svc_Action_def svc_Reset_def svc_Terminate_def foreign_write_invalid)

theorem foreign_lab_refused_witness:
  "svc_Terminate no_fault id 5000 8 sample_labID ''op-1'' sample_cluster = (Inl ErrNotOwned, sample_cluster)"
proof -
  let ?r = "svc_Terminate no_fault id 5000 8 sample_labID ''op-1'' sample_cluster"
  have s: "find_session sample_labID (id sample_cluster) = Some (sample_session ''application_cluster'')"
    "ls_user_id (sample_session ''application_cluster'') \<noteq> 8" and n: "find_operation ''op-1'' sample_cluster = None"
    by (simp_all add: find_session_def find_operation_def sample_cluster_def sample_session_def)
  have v: "validLabID sample_labID" "validOperationID ''op-1''" by code_simp+
  have "foreign_write no_fault True 8 sample_labID ''op-1'' sample_cluster (fst ?r)" "snd ?r = sample_cluster"
    using foreign_lab_refused [where other = id and db = sample_cluster and flt = no_fault and clock = 5000
        and op = "''op-1''", OF s] v by simp_all
  then show ?thesis using n by (cases ?r) (auto simp: foreign_write_def split: sum.splits)
qed


subsection \<open>Admission\<close>

lemma create_rows_sessions:
  assumes "create_rows flt u c op l sc now db = Inr (res, db')"
  shows "sessions db' = sessions db @ [new_session l u c sc now]"
proof -
  obtain pl oid db2 where i: "insert_operation op l u CREATE_LAB None pl now
      (db\<lparr>sessions := sessions db @ [new_session l u c sc now]\<rparr>) = Some (oid, db2)"
    and "db' = update_last_lab u c l db2"
    using assms by (auto simp: create_rows_def Let_def split: if_splits option.splits)
  then show ?thesis using insert_operation_Some(2) [OF i] by (simp add: update_last_lab_def Let_def)
qed

lemma loadUsage_new:
  assumes "sessions db' = sessions db @ [new_session l u c sc now]"
    "scenarioForCourse slug st = Some sc"
  shows "u_ActiveLabs (loadUsage db') = u_ActiveLabs (loadUsage db) + 1"
    "u_TemporaryContainers (loadUsage db') = u_TemporaryContainers (loadUsage db) + sc_TemporaryContainers sc"
  using scenarioForCourse_containers [OF assms(2)] by (simp_all add: loadUsage_def Let_def assms(1) new_session_def)

text \<open>
  Claim C26. A lab that is created keeps to the quota, in the units the platform counts: after a
  create that inserted a lab, the active labs are at most \<open>MaxActiveLabs\<close> and the containers
  counted for them at most \<open>MaxTemporaryContainers\<close>, and the new lab starts with at most
  \<open>MaxInstancesPerLab\<close> instances.
\<close>

theorem create_within_quota:
  assumes "svc_Create flt other quota clock bytes u c op db = (Inr res, db')" "\<not> crr_Existing res"
  shows "u_ActiveLabs (loadUsage db') \<le> q_MaxActiveLabs quota \<and>
    u_TemporaryContainers (loadUsage db') \<le> q_MaxTemporaryContainers quota \<and>
    (\<exists>slug sc. scenarioForCourse slug ''active'' = Some sc \<and> se_ScenarioType (crr_Session res) = sc_Type sc \<and>
       sc_InitialInstances sc \<le> q_MaxInstancesPerLab quota)"
proof -
  obtain labID where c: "lab_Create flt other u c op labID quota (Truncate clock Microsecond) db = (Inr res, db')"
    using assms(1) by (auto simp: svc_Create_def split: if_splits option.splits sum.splits)
  then have "create_locked flt u c op labID quota (Truncate clock Microsecond) (other db) = Inr (res, db')"
    using assms(2) by (auto simp: lab_Create_def existing_create_def atomically_def
        split: if_splits option.splits sum.splits)
  then obtain slug st sc where sc: "scenarioForCourse slug st = Some sc"
    and a: "AdmitCreate quota (loadUsage (other db)) \<lparr>rv_TemporaryContainers = sc_TemporaryContainers sc,
      rv_Instances = sc_InitialInstances sc\<rparr> = None"
    and r: "create_rows flt u c op labID sc (Truncate clock Microsecond) (other db) = Inr (res, db')"
    using assms(2) by (auto simp: create_locked_def existing_create_def map_sum_Inr split: if_splits option.splits)
  have "scenarioForCourse slug ''active'' = Some sc" using sc by (auto simp: scenarioForCourse_def split: if_splits)
  moreover have "se_ScenarioType (crr_Session res) = sc_Type sc"
    using r by (auto simp: create_rows_def scanSession_def new_session_def Let_def split: if_splits option.splits)
  ultimately show ?thesis
    using a loadUsage_new [OF create_rows_sessions [OF r] sc] by (auto simp: AdmitCreate_None)
qed

theorem create_within_quota_witness:
  "u_ActiveLabs (loadUsage (snd sample_create)) \<le> 2"
proof -
  have "is_ok (fst sample_create)" by code_simp
  then obtain res db' where r: "sample_create = (Inr res, db')" by (rule is_okE)
  have "map_sum id crr_Existing (fst sample_create) = Inr False" by code_simp
  then have "\<not> crr_Existing res" by (simp add: r)
  from create_within_quota [OF r [unfolded sample_create_def] this] show ?thesis by (simp add: r sample_quota_def)
qed

text \<open>
  What the quota counts is not what runs: the usage counts one container for a cluster
  lab however many instances it has. There is a state with as many instances running as
  \<open>MaxTemporaryContainers\<close> allows in which another lab is still admitted.
\<close>

theorem create_overcommits:
  "\<exists>db quota res db'. q_MaxTemporaryContainers quota \<le> int (live_instances db) \<and>
     svc_Create no_fault id quota 5000 (Some [1, 2, 3]) 8 2 ''op-1'' db = (Inr res, db') \<and> \<not> crr_Existing res"
proof -
  let ?q = "sample_quota\<lparr>q_MaxTemporaryContainers := 3, q_MaxInstancesPerLab := 3\<rparr>"
  let ?c = "svc_Create no_fault id ?q 5000 (Some [1, 2, 3]) 8 2 ''op-1'' sample_cluster"
  have "map_sum id crr_Existing (fst ?c) = Inr False" by code_simp
  then obtain res db' where r: "?c = (Inr res, db')" "\<not> crr_Existing res"
    by (cases ?c; cases "fst ?c") auto
  moreover have "q_MaxTemporaryContainers ?q \<le> int (live_instances sample_cluster)" by code_simp
  ultimately show ?thesis by blast
qed

subsection \<open>Actions\<close>

text \<open>
  Each topology action that is enqueued and that changes the servers stores a list of
  servers the gateway can balance over: it is not empty, no server is listed twice, every weight
  is positive, and there are no more servers than the quota or the present instances.
\<close>

theorem svc_Action_upstream:
  assumes "instance_keys (other db)" "svc_Action flt other quota clock u l input db = (Inr r, db')"
    "\<not> arr_Existing r"
    "ai_ActionType input \<in> {ADD_INSTANCE, REMOVE_INSTANCE, SET_INSTANCE_PERFORMANCE, SET_INSTANCE_WEIGHTS}"
  shows "\<exists>ins pl ss. lockTopologyInstances flt l (other db) = Inr ins \<and>
    lo_payload (last (operations db')) = TopologyPayload pl \<and> tp_Servers pl = Some ss \<and> ss \<noteq> [] \<and>
    distinct (map sv_InstanceName ss) \<and> (\<forall>s \<in> set ss. 0 < sv_Weight s) \<and>
    int (length ss) \<le> max (int (length ins)) (q_MaxInstancesPerLab quota)"
proof -
  have v: "validActionInput input" "\<not> isCacheAction (ai_ActionType input)"
    using assms(2,4) by (auto simp: svc_Action_def isCacheAction_def split: if_splits)
  then have "EnqueueTopologyAction flt other u l input quota (Truncate clock Microsecond) db = (Inr r, db')"
    using assms(2) by (auto simp: svc_Action_def split: if_splits)
  then have t: "topology_locked flt u l input quota (Truncate clock Microsecond) (other db) = Inr (r, db')"
    using assms(3) by (auto simp: EnqueueTopologyAction_def matchingTopologyAction_def atomically_def
        split: if_splits option.splits sum.splits)
  have "ai_ActionType input \<noteq> SET_BALANCING_MODE" using assms(4) by auto
  from topology_locked_upstream [OF assms(1) t this v(1)] show ?thesis
    unfolding upstream_ok_def by metis
qed

theorem svc_Action_upstream_witness:
  "\<exists>pl ss. lo_payload (last (operations (snd (sample_remove None)))) = TopologyPayload pl \<and>
     tp_Servers pl = Some ss \<and> ss \<noteq> [] \<and> distinct (map sv_InstanceName ss)"
proof -
  have "is_ok (fst (sample_remove None))" by code_simp
  then obtain res db' where r: "sample_remove None = (Inr res, db')" by (rule is_okE)
  have "map_sum id arr_Existing (fst (sample_remove None)) = Inr False" by code_simp
  then have e: "\<not> arr_Existing res" by (simp add: r)
  have k: "instance_keys (id sample_cluster)" by code_simp
  have "ai_ActionType (sample_input REMOVE_INSTANCE (Some ''app-2'')\<lparr>ai_Weights := None\<rparr>) \<in>
      {ADD_INSTANCE, REMOVE_INSTANCE, SET_INSTANCE_PERFORMANCE, SET_INSTANCE_WEIGHTS}"
    by (simp add: sample_input_def)
  from svc_Action_upstream [where other = id, OF k r [unfolded sample_remove_def] e this] show ?thesis
    by (auto simp: r)
qed

text \<open>
  The checks on the request protect the code behind them from dereferencing a field that
  is not there: no action ends in a nil pointer dereference.
\<close>

theorem svc_Action_no_panic:
  "fst (svc_Action flt other quota clock userID labID input db) \<noteq> Inl nil_panic"
proof (cases "validActionInput input")
  case True
  then have "topology_locked flt userID labID input quota now db' \<noteq> Inl nil_panic" for now db'
    using buildTopologyPayload_no_panic [OF True]
    by (auto simp: topology_locked_def nil_panic_def lockGlobalAdmission_def
      ensureNoPendingTopologyAction_def lockTopologyInstances_def Let_def split: option.splits sum.splits if_splits)
  then have "fst (EnqueueTopologyAction flt other userID labID input quota now db) \<noteq> Inl nil_panic" for now
    by (auto simp: EnqueueTopologyAction_def matchingTopologyAction_def nil_panic_def
      releaseGlobalAdmission_def atomically_def split: option.splits sum.splits prod.splits)
  moreover have "fst (EnqueueCacheAction flt other userID labID input now db) \<noteq> Inl nil_panic" for now
    by (auto simp: EnqueueCacheAction_def cache_locked_def nil_panic_def atomically_def
      ensureNoPendingTopologyAction_def split: option.splits sum.splits prod.splits)
  ultimately show ?thesis by (auto simp: svc_Action_def nil_panic_def)
qed (simp add: svc_Action_def nil_panic_def)

end
