(* ===== verification/LabMachine.thy ===== *)
theory LabMachine
  imports Database
begin

text \<open>
  What the platform promises about its labs, without tables, leases or payloads: a state machine
  over labs, each with an owner and a status, and operations, each on one lab and either active
  or finished. The transactions of the repositories are steps of this machine (theory
  \<open>Persistence\<close>). Its invariant is proved by rule induction over the reachable states.
\<close>

record op_info =
  oi_key :: string
  oi_lab :: string
  oi_action :: action
  oi_active :: bool

record lab_state =
  labs :: "string \<rightharpoonup> nat \<times> Status"
  ops :: "nat \<rightharpoonup> op_info"
  fresh :: nat

definition initial :: "lab_state \<Rightarrow> bool" where
  "initial st = (labs st = Map.empty \<and> ops st = Map.empty)"

definition idle :: "lab_state \<Rightarrow> string \<Rightarrow> bool" where
  "idle st l = (\<forall>n i. ops st n = Some i \<longrightarrow> oi_lab i = l \<longrightarrow> \<not> oi_active i)"

definition unused :: "lab_state \<Rightarrow> string \<Rightarrow> bool" where
  "unused st k = (\<forall>n i. ops st n = Some i \<longrightarrow> oi_key i \<noteq> k)"

definition no_active_lab :: "lab_state \<Rightarrow> nat \<Rightarrow> bool" where
  "no_active_lab st u = (\<forall>l s. labs st l = Some (u, s) \<longrightarrow> \<not> Active s)"

text \<open>The status in which an action may be queued, and the status that queuing it leads to.\<close>

fun enqueues :: "action \<Rightarrow> Status \<Rightarrow> Status \<Rightarrow> bool" where
  "enqueues CREATE_LAB s s' = False"
| "enqueues DESTROY_LAB s s' = (s \<in> {Preparing, Running, Expiring, Failed} \<and> s' = Terminating)"
| "enqueues _ s s' = (s \<in> {Running, Expiring} \<and> s' = s)"

text \<open>How the end of an operation may move its lab.\<close>

fun finishes :: "action \<Rightarrow> Status \<Rightarrow> Status \<Rightarrow> bool" where
  "finishes CREATE_LAB s s' = (s = Preparing \<and> s' \<in> {Running, Failed})"
| "finishes RESET_LAB s s' = (s \<in> {Running, Expiring} \<and> s' \<in> {Running, Failed})"
| "finishes DESTROY_LAB s s' = (s = Terminating \<and> s' \<in> {Terminated, Failed})"
| "finishes _ s s' = (s' = s \<or> s \<in> {Running, Expiring} \<and> s' = Running)"

definition add_op :: "string \<Rightarrow> string \<Rightarrow> action \<Rightarrow> lab_state \<Rightarrow> lab_state" where
  "add_op k l a st = st\<lparr>ops := (ops st)(fresh st \<mapsto>
     \<lparr>oi_key = k, oi_lab = l, oi_action = a, oi_active = True\<rparr>), fresh := fresh st + 1\<rparr>"

definition set_status :: "string \<Rightarrow> nat \<Rightarrow> Status \<Rightarrow> lab_state \<Rightarrow> lab_state" where
  "set_status l u s st = st\<lparr>labs := (labs st)(l \<mapsto> (u, s))\<rparr>"

definition end_op :: "nat \<Rightarrow> op_info \<Rightarrow> lab_state \<Rightarrow> lab_state" where
  "end_op n i st = st\<lparr>ops := (ops st)(n \<mapsto> i\<lparr>oi_active := False\<rparr>)\<rparr>"

inductive lab_step :: "lab_state \<Rightarrow> lab_state \<Rightarrow> bool" where
  create: "labs st l = None \<Longrightarrow> no_active_lab st u \<Longrightarrow> unused st k \<Longrightarrow>
    lab_step st (add_op k l CREATE_LAB (set_status l u Preparing st))"
| enqueue: "labs st l = Some (u, s) \<Longrightarrow> idle st l \<Longrightarrow> unused st k \<Longrightarrow> enqueues a s s' \<Longrightarrow>
    lab_step st (add_op k l a (set_status l u s' st))"
| expire: "labs st l = Some (u, Running) \<Longrightarrow> lab_step st (set_status l u Expiring st)"
| renew: "labs st l = Some (u, Expiring) \<Longrightarrow> lab_step st (set_status l u Running st)"
| finish: "ops st n = Some i \<Longrightarrow> oi_active i \<Longrightarrow> labs st (oi_lab i) = Some (u, s) \<Longrightarrow>
    finishes (oi_action i) s s' \<Longrightarrow> lab_step st (end_op n i (set_status (oi_lab i) u s' st))"

inductive reachable :: "lab_state \<Rightarrow> bool" where
  start: "initial st \<Longrightarrow> reachable st"
| step: "reachable st \<Longrightarrow> lab_step st st' \<Longrightarrow> reachable st'"

inductive_cases lab_stepE: "lab_step st st'"

subsection \<open>The invariant\<close>

text \<open>The status of a lab while one of its operations is active.\<close>

fun serves :: "action \<Rightarrow> Status \<Rightarrow> bool" where
  "serves CREATE_LAB s = (s = Preparing)"
| "serves DESTROY_LAB s = (s = Terminating)"
| "serves _ s = (s \<in> {Running, Expiring})"

definition status_inv :: "lab_state \<Rightarrow> bool" where
  "status_inv st = (\<forall>l u s. labs st l = Some (u, s) \<longrightarrow> Valid s)"

text \<open>
  The single-lab rule holds for labs that are live: preparing, running or expiring. It does not
  hold for all statuses that count as active, since a failed lab may be destroyed, and is then
  terminating, while its owner already uses another lab.
\<close>

definition live :: "Status \<Rightarrow> bool" where
  "live s = (s \<in> {Preparing, Running, Expiring})"

definition owner_inv :: "lab_state \<Rightarrow> bool" where
  "owner_inv st = (\<forall>l l' u s s'. labs st l = Some (u, s) \<longrightarrow> labs st l' = Some (u, s') \<longrightarrow>
     live s \<longrightarrow> live s' \<longrightarrow> l = l')"

definition table_inv :: "lab_state \<Rightarrow> bool" where
  "table_inv st = ((\<forall>n i. ops st n = Some i \<longrightarrow> n < fresh st \<and> labs st (oi_lab i) \<noteq> None) \<and>
     (\<forall>n m i j. ops st n = Some i \<longrightarrow> ops st m = Some j \<longrightarrow> oi_key i = oi_key j \<longrightarrow> n = m))"

definition queue_inv :: "lab_state \<Rightarrow> bool" where
  "queue_inv st = (\<forall>n m i j. ops st n = Some i \<longrightarrow> ops st m = Some j \<longrightarrow> oi_lab i = oi_lab j \<longrightarrow>
     oi_active i \<longrightarrow> oi_active j \<longrightarrow> n = m)"

definition serve_inv :: "lab_state \<Rightarrow> bool" where
  "serve_inv st = (\<forall>n i u s. ops st n = Some i \<longrightarrow> oi_active i \<longrightarrow>
     labs st (oi_lab i) = Some (u, s) \<longrightarrow> serves (oi_action i) s)"

definition busy_inv :: "lab_state \<Rightarrow> bool" where
  "busy_inv st = (\<forall>l u s. labs st l = Some (u, s) \<longrightarrow> s \<in> {Preparing, Terminating} \<longrightarrow>
     \<not> idle st l)"

definition lab_inv :: "lab_state \<Rightarrow> bool" where
  "lab_inv st = (status_inv st \<and> owner_inv st \<and> table_inv st \<and> queue_inv st \<and> serve_inv st \<and>
     busy_inv st)"

lemmas inv_defs = status_inv_def owner_inv_def table_inv_def queue_inv_def serve_inv_def busy_inv_def

lemmas machine_defs = add_op_def set_status_def end_op_def idle_def unused_def no_active_lab_def

lemma lab_inv_initial: "initial st \<Longrightarrow> lab_inv st"
  by (simp add: initial_def lab_inv_def inv_defs)

lemma serves_enqueue: "enqueues a s s' \<Longrightarrow> serves a s'"
  by (cases a) auto

lemma enqueue_valid: "enqueues a s s' \<Longrightarrow> Valid s'"
  by (cases a) auto

lemma enqueue_live: "enqueues a s s' \<Longrightarrow> live s' \<Longrightarrow> s' = s"
  by (cases a) (auto simp: live_def)

lemma live_Active: "live s \<Longrightarrow> Active s"
  by (auto simp: live_def)

lemma finish_valid: "finishes a s s' \<Longrightarrow> Valid s \<Longrightarrow> Valid s'"
  by (cases a) auto

lemma finish_live: "finishes a s s' \<Longrightarrow> serves a s \<Longrightarrow> live s' \<Longrightarrow> live s"
  by (cases a) (auto simp: live_def)

lemma finish_settled: "finishes a s s' \<Longrightarrow> serves a s \<Longrightarrow> s' \<notin> {Preparing, Terminating}"
  by (cases a) auto

lemma serves_swap: "serves a Running \<longleftrightarrow> serves a Expiring"
  by (cases a) auto

text \<open>Changing the status of a lab to one that is live only if the old one was.\<close>

lemma owner_inv_set:
  assumes "owner_inv st" "labs st l = Some (u, s)" "live s' \<Longrightarrow> live s"
  shows "owner_inv (set_status l u s' st)"
  using assms unfolding owner_inv_def set_status_def by (auto split: if_splits)

lemma owner_inv_ops [simp]:
  "owner_inv (add_op k l a st) = owner_inv st" "owner_inv (end_op n i st) = owner_inv st"
  by (simp_all add: owner_inv_def add_op_def end_op_def)

lemma status_inv_set: "status_inv st \<Longrightarrow> Valid s \<Longrightarrow> status_inv (set_status l u s st)"
  by (auto simp: status_inv_def set_status_def)

lemma status_inv_ops [simp]:
  "status_inv (add_op k l a st) = status_inv st" "status_inv (end_op n i st) = status_inv st"
  by (simp_all add: status_inv_def add_op_def end_op_def)

lemma table_inv_set: "table_inv st \<Longrightarrow> table_inv (set_status l u s st)"
  by (auto simp: table_inv_def set_status_def)

lemma table_inv_add:
  "table_inv st \<Longrightarrow> unused st k \<Longrightarrow> labs st l \<noteq> None \<Longrightarrow> table_inv (add_op k l a st)"
  by (auto simp: table_inv_def add_op_def unused_def less_Suc_eq)

lemma table_inv_end: "table_inv st \<Longrightarrow> ops st n = Some i \<Longrightarrow> table_inv (end_op n i st)"
  unfolding table_inv_def end_op_def by (auto split: if_splits)

lemma unused_set [simp]: "unused (set_status l u s st) k = unused st k"
  "idle (set_status l u s st) l' = idle st l'" "ops (set_status l u s st) = ops st"
  "labs (set_status l u s st) = (labs st)(l \<mapsto> (u, s))"
  by (simp_all add: machine_defs)

lemma labs_ops [simp]:
  "labs (add_op k l a st) = labs st" "labs (end_op n i st) = labs st"
  "ops (end_op n i st) = (ops st)(n \<mapsto> i\<lparr>oi_active := False\<rparr>)"
  by (simp_all add: add_op_def end_op_def)

lemma queue_inv_set [simp]: "queue_inv (set_status l u s st) = queue_inv st"
  by (simp add: queue_inv_def)

lemma queue_inv_add: "queue_inv st \<Longrightarrow> idle st l \<Longrightarrow> queue_inv (add_op k l a st)"
  by (auto simp: queue_inv_def add_op_def idle_def)

lemma queue_inv_end: "queue_inv st \<Longrightarrow> ops st n = Some i \<Longrightarrow> queue_inv (end_op n i st)"
  unfolding queue_inv_def end_op_def by (auto split: if_splits)

lemma serve_inv_set:
  assumes "serve_inv st" "idle st l \<or> (\<forall>n i. ops st n = Some i \<longrightarrow> oi_lab i = l \<longrightarrow> oi_active i \<longrightarrow>
    serves (oi_action i) s)"
  shows "serve_inv (set_status l u s st)"
  using assms unfolding serve_inv_def idle_def by auto

lemma serve_inv_add:
  "serve_inv st \<Longrightarrow> labs st l = Some (u, s) \<Longrightarrow> serves a s \<Longrightarrow> serve_inv (add_op k l a st)"
  by (auto simp: serve_inv_def add_op_def)

lemma busy_inv_set:
  "busy_inv st \<Longrightarrow> s \<notin> {Preparing, Terminating} \<or> \<not> idle st l \<Longrightarrow> busy_inv (set_status l u s st)"
  by (auto simp: busy_inv_def)

lemma busy_inv_add:
  assumes "\<forall>l' u s. l' \<noteq> l \<longrightarrow> labs st l' = Some (u, s) \<longrightarrow> s \<in> {Preparing, Terminating} \<longrightarrow>
    \<not> idle st l'" "table_inv st"
  shows "busy_inv (add_op k l a st)"
proof -
  have "ops st (fresh st) = None"
    using assms(2) unfolding table_inv_def by (meson not_None_eq less_irrefl)
  then have "ops st n = Some i \<Longrightarrow> ops (add_op k l a st) n = Some i" for n i
    by (auto simp: add_op_def)
  then have "\<not> idle st l' \<Longrightarrow> \<not> idle (add_op k l a st) l'" for l'
    unfolding idle_def by metis
  moreover have "\<not> idle (add_op k l a st) l" by (auto simp: idle_def add_op_def)
  ultimately show ?thesis using assms(1) unfolding busy_inv_def by (metis labs_ops(1))
qed

lemma lab_inv_create:
  assumes inv: "lab_inv st" and l: "labs st l = None" and u: "no_active_lab st u" and k: "unused st k"
  shows "lab_inv (add_op k l CREATE_LAB (set_status l u Preparing st))"
proof -
  have "labs st (oi_lab i) \<noteq> None" if "ops st n = Some i" for n i
    using inv that unfolding lab_inv_def table_inv_def by blast
  then have "oi_lab i \<noteq> l" if "ops st n = Some i" for n i
    using l that by metis
  then have idle: "idle st l" by (auto simp: idle_def)
  have "owner_inv (set_status l u Preparing st)"
    using inv u live_Active by (auto simp: lab_inv_def owner_inv_def no_active_lab_def)
  moreover have "busy_inv (add_op k l CREATE_LAB (set_status l u Preparing st))"
    using inv by (intro busy_inv_add table_inv_set) (auto simp: lab_inv_def busy_inv_def)
  ultimately show ?thesis
    using inv k idle
    by (auto simp: lab_inv_def intro!: status_inv_set table_inv_add table_inv_set queue_inv_add
        serve_inv_add serve_inv_set)
qed

lemma lab_inv_enqueue:
  assumes inv: "lab_inv st" and l: "labs st l = Some (u, s)" and idle: "idle st l"
    and k: "unused st k" and a: "enqueues a s s'"
  shows "lab_inv (add_op k l a (set_status l u s' st))"
proof -
  have "owner_inv (set_status l u s' st)"
    using inv l enqueue_live [OF a] by (intro owner_inv_set) (auto simp: lab_inv_def)
  moreover have "busy_inv (add_op k l a (set_status l u s' st))"
    using inv by (intro busy_inv_add table_inv_set) (auto simp: lab_inv_def busy_inv_def)
  ultimately show ?thesis
    using inv k idle serves_enqueue [OF a] enqueue_valid [OF a]
    by (auto simp: lab_inv_def intro!: status_inv_set table_inv_add table_inv_set queue_inv_add
        serve_inv_add serve_inv_set)
qed

lemma lab_inv_swap:
  assumes inv: "lab_inv st" and l: "labs st l = Some (u, s)"
    and s: "s \<in> {Running, Expiring}" "s' \<in> {Running, Expiring}"
  shows "lab_inv (set_status l u s' st)"
proof -
  have "owner_inv (set_status l u s' st)"
    using inv l s by (intro owner_inv_set) (auto simp: lab_inv_def live_def)
  moreover have "serve_inv (set_status l u s' st)"
  proof (intro serve_inv_set disjI2 allI impI)
    fix n i assume "ops st n = Some i" "oi_lab i = l" "oi_active i"
    then have "serves (oi_action i) s" using inv l by (auto simp: lab_inv_def serve_inv_def)
    then show "serves (oi_action i) s'" using s serves_swap by auto
  qed (use inv in \<open>simp add: lab_inv_def\<close>)
  ultimately show ?thesis
    using inv s by (auto simp: lab_inv_def intro!: status_inv_set table_inv_set busy_inv_set)
qed

lemma lab_inv_finish:
  assumes inv: "lab_inv st" and n: "ops st n = Some i" "oi_active i"
    and l: "labs st (oi_lab i) = Some (u, s)" and s: "finishes (oi_action i) s s'"
  shows "lab_inv (end_op n i (set_status (oi_lab i) u s' st))"
proof -
  let ?st = "end_op n i (set_status (oi_lab i) u s' st)"
  have sv: "serves (oi_action i) s" using inv n l by (auto simp: lab_inv_def serve_inv_def)
  have one: "m = n" if "ops st m = Some j" "oi_lab j = oi_lab i" "oi_active j" for m j
    using inv n that by (auto simp: lab_inv_def queue_inv_def)
  have "owner_inv ?st"
    using inv l finish_live [OF s sv] by (simp add: lab_inv_def owner_inv_set)
  moreover have "status_inv ?st"
    using inv l finish_valid [OF s] by (auto simp: lab_inv_def status_inv_def end_op_def)
  moreover have "serve_inv ?st"
  proof -
    have "serves (oi_action j) t"
      if m: "ops ?st m = Some j" "oi_active j" and t: "labs ?st (oi_lab j) = Some (v, t)" for m j v t
    proof -
      have "m \<noteq> n" using m by auto
      then have j: "ops st m = Some j" using m by simp
      then have "oi_lab j \<noteq> oi_lab i" using one m(2) \<open>m \<noteq> n\<close> by blast
      then have "labs st (oi_lab j) = Some (v, t)" using t by simp
      then show ?thesis using inv j m(2) unfolding lab_inv_def serve_inv_def by blast
    qed
    then show ?thesis unfolding serve_inv_def by blast
  qed
  moreover have "busy_inv ?st"
  proof -
    have "ops ?st m = Some j" if "ops st m = Some j" "oi_lab j \<noteq> oi_lab i" for m j
      using that n by auto
    then have "\<not> idle ?st l'" if "\<not> idle st l'" "l' \<noteq> oi_lab i" for l'
      using that unfolding idle_def by metis
    then show ?thesis
      using inv finish_settled [OF s sv] unfolding lab_inv_def busy_inv_def
      by (auto split: if_splits)
  qed
  ultimately show ?thesis
    using inv n by (auto simp: lab_inv_def intro!: table_inv_end queue_inv_end table_inv_set)
qed

lemma lab_inv_step: "lab_step st st' \<Longrightarrow> lab_inv st \<Longrightarrow> lab_inv st'"
  by (induction rule: lab_step.induct)
    (auto intro: lab_inv_create lab_inv_enqueue lab_inv_swap lab_inv_finish)

lemma lab_inv_steps: "lab_step\<^sup>*\<^sup>* st st' \<Longrightarrow> lab_inv st \<Longrightarrow> lab_inv st'"
  by (induction rule: rtranclp_induct) (auto intro: lab_inv_step)

lemma lab_inv_reachable: "reachable st \<Longrightarrow> lab_inv st"
  by (induction rule: reachable.induct) (auto intro: lab_inv_initial lab_inv_step)


subsection \<open>What steps keep\<close>

text \<open>An operation never changes its lab, its action or its identifier, and never comes back.\<close>

lemma step_op:
  assumes "lab_step st st'" "lab_inv st" "ops st n = Some i"
  shows "\<exists>j. ops st' n = Some j \<and> oi_lab j = oi_lab i \<and> oi_action j = oi_action i \<and>
    oi_key j = oi_key i \<and> (oi_active j \<longrightarrow> oi_active i)"
proof -
  have "n \<noteq> fresh st" using assms(2,3) unfolding lab_inv_def table_inv_def by blast
  with assms(1,3) show ?thesis
    by (cases rule: lab_step.cases) (auto simp: add_op_def set_status_def)
qed

text \<open>A lab never changes its owner, and its status moves along the life cycle.\<close>

lemma step_lab:
  assumes "lab_step st st'" "labs st l = Some (u, s)"
  shows "\<exists>s'. labs st' l = Some (u, s') \<and> (s' = s \<or> CanTransition s s')"
  using assms
proof (cases rule: lab_step.cases)
  case (enqueue l' u' s0 k a s')
  then show ?thesis using assms(2) by (cases a; cases "l = l'") auto
next
  case (finish n i u' s0 s')
  then show ?thesis using assms(2) by (cases "oi_action i"; cases "l = oi_lab i") auto
qed auto

end
