(* ===== verification/OperationQueue.thy ===== *)
theory OperationQueue
  imports LabRepository
begin

text \<open>
  The persistent queue of lab operations, \<^verbatim>\<open>services/platform-api/internal/operation/repository.go\<close>
  and the types of \<^verbatim>\<open>operation.go\<close>: leases on operations and the transactions that complete
  them together with the transition of their lab. The owner of a lease is compared exactly; MySQL compares
  it under the collation of the table, so the model is of workers whose configured identifiers differ in
  more than the case and the accents of their letters.
\<close>

record ProvisionInstance =
  pi_InstanceName :: string
  pi_ContainerID :: string
  pi_ContainerName :: string
  pi_Status :: string
  pi_CPULimitCores :: rat
  pi_MemoryLimitMB :: int
  pi_PerformancePercent :: int
  pi_ProcessingSpeed :: int
  pi_MaxLoad :: int
  pi_CurrentWeight :: int

record ProvisionRedis =
  rd_ContainerID :: string
  rd_ContainerName :: string
  rd_Status :: string

record ProvisionResult =
  pv_LabID :: string
  pv_ScenarioTemplateID :: string
  pv_DatabaseName :: string
  pv_DatabaseUser :: string
  pv_NetworkID :: string
  pv_NetworkName :: string
  pv_Instances :: "ProvisionInstance list"
  pv_Redis :: "ProvisionRedis option"

record TopologyResult =
  tpr_Instance :: "ProvisionInstance option"
  tpr_RemovedInstanceID :: string
  tpr_Weights :: "InstanceWeight list"
  tpr_BalancingMode :: string
  tpr_Skipped :: bool

type_synonym CacheOpResult = "ProvisionRedis option"

record Record =
  rec_ID :: nat
  rec_OperationID :: string
  rec_LabID :: string
  rec_RequestedBy :: nat
  rec_Action :: action
  rec_Payload :: payload
  rec_Status :: op_status
  rec_LeaseOwner :: string
  rec_LeaseExpires :: gotime
  rec_AttemptCount :: int
  rec_CreatedAt :: gotime

definition zero_provision :: ProvisionResult where
  "zero_provision = \<lparr>pv_LabID = [], pv_ScenarioTemplateID = [], pv_DatabaseName = [],
     pv_DatabaseUser = [], pv_NetworkID = [], pv_NetworkName = [], pv_Instances = [],
     pv_Redis = None\<rparr>"

definition zero_topology :: TopologyResult where
  "zero_topology = \<lparr>tpr_Instance = None, tpr_RemovedInstanceID = [], tpr_Weights = [],
     tpr_BalancingMode = [], tpr_Skipped = False\<rparr>"

definition requireOneRow :: "nat \<Rightarrow> lab_error option" where
  "requireOneRow n = (if n \<noteq> 1 then Some ErrLeaseLost else None)"

subsection \<open>Leases\<close>

definition claimable :: "gotime \<Rightarrow> operation_row \<Rightarrow> bool" where
  "claimable now r = (lo_status r = OpPending \<or>
     lo_status r \<in> {OpClaimed, OpRunning} \<and>
       (case lo_lease_expires_at r of None \<Rightarrow> False | Some t \<Rightarrow> t \<le> now))"

text \<open>
  The oldest claimable operation; \<open>SKIP LOCKED\<close> passes over the rows other transactions hold,
  which is the predicate \<open>locked\<close> on their identifiers.
\<close>

definition next_claim :: "(nat \<Rightarrow> bool) \<Rightarrow> gotime \<Rightarrow> platform_db \<Rightarrow> operation_row option" where
  "next_claim locked now db =
     (case sort_key (\<lambda>r. (lo_created_at r, lo_id r))
        (filter (\<lambda>r. claimable now r \<and> \<not> locked (lo_id r)) (operations db)) of
        [] \<Rightarrow> None | r # _ \<Rightarrow> Some r)"

definition Claim ::
  "fault \<Rightarrow> (nat \<Rightarrow> bool) \<Rightarrow> string \<Rightarrow> gotime \<Rightarrow> gotime \<Rightarrow> platform_db \<Rightarrow>
   (lab_error, Record) result \<times> platform_db" where
  "Claim flt locked owner now leaseExpires db =
     (if flt ''begin claim operation transaction''
      then (Inl (ErrDB ''begin claim operation transaction''), db)
      else if flt ''select operation for claim'' then (Inl (ErrDB ''select operation for claim''), db)
      else case next_claim locked now db of
        None \<Rightarrow> (Inl ErrNoPending, db)
      | Some r \<Rightarrow>
         (let (n, ops) = exec_update (\<lambda>x. lo_id x = lo_id r)
                (\<lambda>x. x\<lparr>lo_status := OpClaimed, lo_lease_owner := Some owner,
                       lo_lease_expires_at := Some leaseExpires,
                       lo_attempt_count := lo_attempt_count x + 1, lo_updated_at := now\<rparr>)
                (operations db)
          in if flt ''claim operation'' then (Inl (ErrDB ''claim operation''), db)
             else case requireOneRow n of
               Some e \<Rightarrow> (Inl e, db)
             | None \<Rightarrow>
                 if flt ''commit claim operation'' then (Inl (ErrDB ''commit claim operation''), db)
                 else (Inr \<lparr>rec_ID = lo_id r, rec_OperationID = lo_operation_id r,
                            rec_LabID = lo_lab_id r, rec_RequestedBy = lo_requested_by r,
                            rec_Action = lo_action r, rec_Payload = lo_payload r,
                            rec_Status = OpClaimed, rec_LeaseOwner = owner,
                            rec_LeaseExpires = leaseExpires,
                            rec_AttemptCount = lo_attempt_count r + 1,
                            rec_CreatedAt = lo_created_at r\<rparr>,
                       db\<lparr>operations := ops\<rparr>)))"

definition MarkRunning ::
  "fault \<Rightarrow> Record \<Rightarrow> gotime \<Rightarrow> gotime \<Rightarrow> platform_db \<Rightarrow> lab_error option \<times> platform_db" where
  "MarkRunning flt record now leaseExpires db =
     (if flt ''mark operation running'' then (Some (ErrDB ''mark operation running''), db)
      else let (n, ops) = exec_update
             (\<lambda>x. lo_id x = rec_ID record \<and> lo_status x = OpClaimed \<and>
                  lo_lease_owner x = Some (rec_LeaseOwner record))
             (\<lambda>x. x\<lparr>lo_status := OpRunning, lo_lease_expires_at := Some leaseExpires,
                    lo_updated_at := now\<rparr>) (operations db)
      in (requireOneRow n, db\<lparr>operations := ops\<rparr>))"

subsection \<open>Parts of a completion\<close>

text \<open>\<open>NULLIF(?, '')\<close>.\<close>

definition nullif :: "string \<Rightarrow> string option" where
  "nullif s = (if s = [] then None else Some s)"

definition completeOperationRecord ::
  "fault \<Rightarrow> Record \<Rightarrow> op_status \<Rightarrow> op_result option \<Rightarrow> string \<Rightarrow> string \<Rightarrow> gotime \<Rightarrow> platform_db \<Rightarrow>
   (lab_error, platform_db) result" where
  "completeOperationRecord flt record status result errorCode errorMessage now db =
     (if flt ''complete lab operation'' then Inl (ErrDB ''complete lab operation'')
      else let (n, ops) = exec_update
             (\<lambda>x. lo_id x = rec_ID record \<and> lo_status x = OpRunning \<and>
                  lo_lease_owner x = Some (rec_LeaseOwner record))
             (\<lambda>x. x\<lparr>lo_status := status, lo_result := result, lo_error_code := nullif errorCode,
                    lo_error_message := nullif errorMessage, lo_lease_owner := None,
                    lo_lease_expires_at := None, lo_completed_at := Some now,
                    lo_updated_at := now\<rparr>) (operations db)
      in case requireOneRow n of Some e \<Rightarrow> Inl e | None \<Rightarrow> Inr (db\<lparr>operations := ops\<rparr>))"

text \<open>
  An update of the lab of the record, in one of the given states; every caller reports a row
  count other than one as a state conflict.
\<close>

definition update_session ::
  "fault \<Rightarrow> string \<Rightarrow> string \<Rightarrow> Status set \<Rightarrow> (session_row \<Rightarrow> session_row) \<Rightarrow> platform_db \<Rightarrow>
   (lab_error, platform_db) result" where
  "update_session flt msg labID from f db =
     (if flt msg then Inl (ErrDB msg)
      else let (n, ss) = exec_update (\<lambda>s. ls_id s = labID \<and> ls_status s \<in> from) f (sessions db)
      in if n \<noteq> 1 then Inl ErrStateConflict else Inr (db\<lparr>sessions := ss\<rparr>))"

definition mark_instances :: "string \<Rightarrow> string \<Rightarrow> gotime \<Rightarrow> platform_db \<Rightarrow> platform_db" where
  "mark_instances labID status now db = db\<lparr>instances := map (\<lambda>i. if li_lab_id i = labID
     then i\<lparr>li_status := status, li_container_id := None, li_updated_at := now\<rparr> else i) (instances db)\<rparr>"

definition mark_resources :: "string \<Rightarrow> string \<Rightarrow> gotime \<Rightarrow> platform_db \<Rightarrow> platform_db" where
  "mark_resources labID status now db = db\<lparr>resources := map (\<lambda>r. if lr_lab_id r = labID
     then r\<lparr>lr_status := status, lr_external_id := None, lr_updated_at := now\<rparr> else r) (resources db)\<rparr>"

text \<open>
  The \<open>CHECK\<close> constraints of \<open>lab_instances\<close>, and its unique keys on containers and on names. An
  update runs into a constraint only if it finds a row.
\<close>

definition instance_check :: "instance_row \<Rightarrow> bool" where
  "instance_check i = (20 \<le> li_performance_percent i \<and> li_performance_percent i \<le> 100 \<and>
     0 < li_memory_limit_mb i \<and> 0 < li_processing_speed i \<and> 0 < li_max_load i \<and>
     0 < li_current_weight i)"

definition container_taken :: "instance_row \<Rightarrow> platform_db \<Rightarrow> bool" where
  "container_taken i db = (li_container_id i \<noteq> None \<and>
     (\<exists>j \<in> set (instances db). li_container_id j = li_container_id i \<and>
        (li_lab_id j, li_instance_name j) \<noteq> (li_lab_id i, li_instance_name i)))"

definition instance_exists :: "string \<Rightarrow> string \<Rightarrow> platform_db \<Rightarrow> bool" where
  "instance_exists labID name db = (\<exists>j \<in> set (instances db).
     li_lab_id j = labID \<and> li_instance_name j = name)"

definition name_taken :: "instance_row \<Rightarrow> platform_db \<Rightarrow> bool" where
  "name_taken i db = instance_exists (li_lab_id i) (li_instance_name i) db"

definition valueOrDefault :: "string \<Rightarrow> string \<Rightarrow> string" where
  "valueOrDefault v fallback = (if v = [] then fallback else v)"

definition provisioned_row :: "string \<Rightarrow> ProvisionInstance \<Rightarrow> string \<Rightarrow> gotime \<Rightarrow> instance_row" where
  "provisioned_row labID p status now =
     \<lparr>li_lab_id = labID, li_instance_name = pi_InstanceName p,
      li_container_id = Some (pi_ContainerID p), li_status = status,
      li_cpu_limit_cores = pi_CPULimitCores p, li_memory_limit_mb = pi_MemoryLimitMB p,
      li_performance_percent = pi_PerformancePercent p, li_processing_speed = pi_ProcessingSpeed p,
      li_max_load = pi_MaxLoad p, li_current_weight = pi_CurrentWeight p, li_created_at = now,
      li_updated_at = now\<rparr>"

text \<open>
  \<open>INSERT ... ON DUPLICATE KEY UPDATE\<close> of an instance: the row of that name, or else the row
  that holds the container, is overwritten; a clash with the other key is an error.
\<close>

definition overwrite :: "instance_row \<Rightarrow> instance_row \<Rightarrow> instance_row" where
  "overwrite i j = i\<lparr>li_lab_id := li_lab_id j, li_instance_name := li_instance_name j,
     li_created_at := li_created_at j\<rparr>"

definition upsert_instance :: "instance_row \<Rightarrow> platform_db \<Rightarrow> platform_db option" where
  "upsert_instance i db =
     (if \<not> instance_check i then None
      else if name_taken i db
      then (if container_taken i db then None
            else Some (db\<lparr>instances := map (\<lambda>j. if li_lab_id j = li_lab_id i \<and>
                   li_instance_name j = li_instance_name i then overwrite i j else j) (instances db)\<rparr>))
      else if container_taken i db
      then Some (db\<lparr>instances := map (\<lambda>j. if li_container_id j = li_container_id i
             then overwrite i j else j) (instances db)\<rparr>)
      else Some (db\<lparr>instances := instances db @ [i]\<rparr>))"

fun persist_instances ::
  "fault \<Rightarrow> string \<Rightarrow> gotime \<Rightarrow> ProvisionInstance list \<Rightarrow> platform_db \<Rightarrow> (lab_error, platform_db) result" where
  "persist_instances flt labID now [] db = Inr db"
| "persist_instances flt labID now (p # ps) db =
     (if pi_InstanceName p = [] \<or> pi_ContainerID p = [] \<or> pi_ContainerName p = [] \<or>
         pi_MemoryLimitMB p \<le> 0 \<or> pi_PerformancePercent p \<le> 0 \<or> pi_ProcessingSpeed p \<le> 0 \<or>
         pi_MaxLoad p \<le> 0 \<or> pi_CurrentWeight p \<le> 0
      then Inl (ErrText ''orchestrator instance result is incomplete'')
      else if flt ''persist lab instance'' then Inl (ErrDB ''persist lab instance'')
      else case upsert_instance
             (provisioned_row labID p (valueOrDefault (pi_Status p) ''running'') now) db of
        None \<Rightarrow> Inl (ErrDB ''persist lab instance'')
      | Some db' \<Rightarrow> persist_instances flt labID now ps db')"

definition upsert_resource :: "resource_row \<Rightarrow> platform_db \<Rightarrow> platform_db" where
  "upsert_resource r db =
     (let same = (\<lambda>q. lr_lab_id q = lr_lab_id r \<and> lr_resource_type q = lr_resource_type r \<and>
            lr_resource_name q = lr_resource_name r)
      in if \<exists>q \<in> set (resources db). same q
         then db\<lparr>resources := map (\<lambda>q. if same q then r\<lparr>lr_created_at := lr_created_at q\<rparr> else q)
                (resources db)\<rparr>
         else db\<lparr>resources := resources db @ [r]\<rparr>)"

definition resource_of ::
  "string \<Rightarrow> gotime \<Rightarrow> string \<times> string \<times> string \<times> string option \<Rightarrow> resource_row" where
  "resource_of labID now = (\<lambda>(typ, name, external, metadata).
     \<lparr>lr_lab_id = labID, lr_resource_type = typ, lr_resource_name = name,
      lr_external_id = nullif external, lr_status = ''ready'', lr_metadata = metadata,
      lr_created_at = now, lr_updated_at = now\<rparr>)"

definition provision_resources ::
  "string \<Rightarrow> ProvisionResult \<Rightarrow> (string \<times> string \<times> string \<times> string option) list" where
  "provision_resources labID v =
     [(''mysql-database'', pv_DatabaseName v, [], Some (pv_DatabaseUser v)),
      (''mysql-user'', pv_DatabaseUser v, [], None),
      (''docker-network'', pv_NetworkName v, pv_NetworkID v, None),
      (''nginx-fragment'', labID, [], None)] @
     (case pv_Redis v of None \<Rightarrow> []
      | Some r \<Rightarrow> [(''session-redis'', rd_ContainerName r, rd_ContainerID r, None)])"

definition persistProvisionResult ::
  "fault \<Rightarrow> Record \<Rightarrow> ProvisionResult \<Rightarrow> gotime \<Rightarrow> platform_db \<Rightarrow> (lab_error, platform_db) result" where
  "persistProvisionResult flt record v now db =
     (let labID = rec_LabID record in
      if pv_LabID v \<noteq> labID \<or> pv_DatabaseName v = [] \<or> pv_DatabaseUser v = [] \<or>
         pv_NetworkName v = [] \<or> pv_NetworkID v = [] \<or> pv_Instances v = []
      then Inl (ErrText ''orchestrator provision result is incomplete'')
      else if flt ''replace lab resources'' then Inl (ErrDB ''replace lab resources'')
      else if flt ''replace lab instances'' then Inl (ErrDB ''replace lab instances'')
      else case persist_instances flt labID now (pv_Instances v)
             (db\<lparr>resources := snd (exec_delete (\<lambda>r. lr_lab_id r = labID) (resources db)),
                 instances := snd (exec_delete (\<lambda>i. li_lab_id i = labID) (instances db))\<rparr>) of
        Inl e \<Rightarrow> Inl e
      | Inr db1 \<Rightarrow>
          if flt ''persist lab resource'' then Inl (ErrDB ''persist lab resource'')
          else Inr (fold upsert_resource (map (resource_of labID now) (provision_resources labID v)) db1))"

subsection \<open>Completions\<close>

text \<open>
  The common shape of a completion: apply the result when there is no error, complete the
  record, move the lab, commit. Every early return rolls the transaction back.
\<close>

definition complete_tx ::
  "fault \<Rightarrow> string \<Rightarrow> string \<Rightarrow> (platform_db \<Rightarrow> (lab_error, platform_db) result) \<Rightarrow>
   (platform_db \<Rightarrow> (lab_error, platform_db) result) \<Rightarrow>
   (platform_db \<Rightarrow> (lab_error, platform_db) result) \<Rightarrow> platform_db \<Rightarrow> lab_error option \<times> platform_db" where
  "complete_tx flt begin_msg commit_msg apply_result record_done move db =
     (if flt begin_msg then (Some (ErrDB begin_msg), db)
      else case apply_result db of
        Inl e \<Rightarrow> (Some e, db)
      | Inr db1 \<Rightarrow>
         (case record_done db1 of
            Inl e \<Rightarrow> (Some e, db)
          | Inr db2 \<Rightarrow>
             (case move db2 of
                Inl e \<Rightarrow> (Some e, db)
              | Inr db3 \<Rightarrow> if flt commit_msg then (Some (ErrDB commit_msg), db) else (None, db3))))"

definition CompleteProvision ::
  "fault \<Rightarrow> Record \<Rightarrow> ProvisionResult \<Rightarrow> string \<Rightarrow> string \<Rightarrow> gotime \<Rightarrow> platform_db \<Rightarrow>
   lab_error option \<times> platform_db" where
  "CompleteProvision flt record v errorCode errorMessage now =
     complete_tx flt ''begin complete operation transaction'' ''commit complete operation''
       (\<lambda>db. if errorCode = [] then persistProvisionResult flt record v now db else Inr db)
       (completeOperationRecord flt record (if errorCode = [] then OpSucceeded else OpFailed)
          (if errorCode = [] then Some OtherResult else None) errorCode errorMessage now)
       (if errorCode = []
        then update_session flt ''transition provisioned lab'' (rec_LabID record) {Preparing}
          (\<lambda>s. s\<lparr>ls_status := Running, ls_mysql_db_name := Some (pv_DatabaseName v),
                 ls_mysql_db_user := Some (pv_DatabaseUser v),
                 ls_redis_enabled := (pv_Redis v \<noteq> None), ls_started_at := Some now,
                 ls_last_effective_action_at := Some now, ls_updated_at := now\<rparr>)
        else update_session flt ''fail provisioned lab'' (rec_LabID record) {Preparing}
          (\<lambda>s. s\<lparr>ls_status := Failed, ls_updated_at := now\<rparr>))"

definition CompleteReset ::
  "fault \<Rightarrow> Record \<Rightarrow> ProvisionResult \<Rightarrow> string \<Rightarrow> string \<Rightarrow> gotime \<Rightarrow> platform_db \<Rightarrow>
   lab_error option \<times> platform_db" where
  "CompleteReset flt record v errorCode errorMessage now =
     complete_tx flt ''begin complete reset transaction'' ''commit complete reset''
       (\<lambda>db. if errorCode = [] then persistProvisionResult flt record v now db else Inr db)
       (completeOperationRecord flt record (if errorCode = [] then OpSucceeded else OpFailed)
          (if errorCode = [] then Some OtherResult else None) errorCode errorMessage now)
       (if errorCode = []
        then update_session flt ''complete reset lab transition'' (rec_LabID record) {Running, Expiring}
          (\<lambda>s. s\<lparr>ls_status := Running, ls_mysql_db_name := Some (pv_DatabaseName v),
                 ls_mysql_db_user := Some (pv_DatabaseUser v),
                 ls_redis_enabled := (pv_Redis v \<noteq> None),
                 ls_last_effective_action_at := Some now, ls_updated_at := now\<rparr>)
        else (\<lambda>db.
          if flt ''mark reset instances unknown'' then Inl (ErrDB ''mark reset instances unknown'')
          else if flt ''mark reset resources unknown'' then Inl (ErrDB ''mark reset resources unknown'')
          else update_session flt ''fail reset lab transition'' (rec_LabID record) {Running, Expiring}
            (\<lambda>s. s\<lparr>ls_status := Failed, ls_updated_at := now\<rparr>)
            (mark_resources (rec_LabID record) ''unknown'' now
              (mark_instances (rec_LabID record) ''unknown'' now db))))"

definition CompleteDestroy ::
  "fault \<Rightarrow> Record \<Rightarrow> string \<Rightarrow> string \<Rightarrow> gotime \<Rightarrow> platform_db \<Rightarrow> lab_error option \<times> platform_db" where
  "CompleteDestroy flt record errorCode errorMessage now =
     complete_tx flt ''begin complete destroy transaction'' ''commit complete destroy'' Inr
       (completeOperationRecord flt record (if errorCode = [] then OpSucceeded else OpFailed)
          (if errorCode = [] then Some OtherResult else None) errorCode errorMessage now)
       (\<lambda>db. if errorCode = []
        then (if flt ''terminate lab instances'' then Inl (ErrDB ''terminate lab instances'')
          else if flt ''delete persisted lab resources''
          then Inl (ErrDB ''delete persisted lab resources'')
          else update_session flt ''complete destroy lab transition'' (rec_LabID record) {Terminating}
            (\<lambda>s. s\<lparr>ls_status := Terminated, ls_terminated_at := Some now,
                   ls_termination_reason := (case ls_termination_reason s of
                      None \<Rightarrow> Some ''user_requested'' | Some r \<Rightarrow> Some r),
                   ls_updated_at := now\<rparr>)
            (mark_resources (rec_LabID record) ''deleted'' now
              (mark_instances (rec_LabID record) ''terminated'' now db)))
        else (if flt ''mark destroy instances unknown''
          then Inl (ErrDB ''mark destroy instances unknown'')
          else if flt ''mark destroy resources unknown''
          then Inl (ErrDB ''mark destroy resources unknown'')
          else update_session flt ''fail destroy lab transition'' (rec_LabID record) {Terminating}
            (\<lambda>s. s\<lparr>ls_status := Failed, ls_termination_reason := Some ''destroy_failed'',
                   ls_updated_at := now\<rparr>)
            (mark_resources (rec_LabID record) ''unknown'' now
              (mark_instances (rec_LabID record) ''unknown'' now db))))"

subsection \<open>Topology and cache results\<close>

fun persistWeights ::
  "fault \<Rightarrow> string \<Rightarrow> InstanceWeight list \<Rightarrow> gotime \<Rightarrow> platform_db \<Rightarrow> (lab_error, platform_db) result" where
  "persistWeights flt labID [] now db = Inr db"
| "persistWeights flt labID (w # ws) now db =
     (if flt ''persist instance weight'' \<or>
         iw_Weight w \<le> 0 \<and> instance_exists labID (iw_InstanceID w) db
      then Inl (ErrDB ''persist instance weight'')
      else let (n, is) = exec_update
             (\<lambda>i. li_lab_id i = labID \<and> li_instance_name i = iw_InstanceID w)
             (\<lambda>i. i\<lparr>li_current_weight := iw_Weight w, li_updated_at := now\<rparr>) (instances db)
      in if n \<noteq> 1 then Inl ErrStateConflict
         else persistWeights flt labID ws now (db\<lparr>instances := is\<rparr>))"

definition applyTopologyResult ::
  "fault \<Rightarrow> Record \<Rightarrow> TopologyResult \<Rightarrow> gotime \<Rightarrow> platform_db \<Rightarrow> (lab_error, platform_db) result" where
  "applyTopologyResult flt record v now db =
     (let labID = rec_LabID record in
      case rec_Action record of
        ADD_INSTANCE \<Rightarrow>
         (case tpr_Instance v of
            None \<Rightarrow> Inl (ErrText ''add instance result is incomplete'')
          | Some p \<Rightarrow>
              if pi_InstanceName p = [] \<or> pi_ContainerID p = [] \<or> pi_MemoryLimitMB p \<le> 0 \<or>
                 pi_PerformancePercent p \<le> 0 \<or> pi_ProcessingSpeed p \<le> 0 \<or> pi_MaxLoad p \<le> 0 \<or>
                 pi_CurrentWeight p \<le> 0
              then Inl (ErrText ''add instance result is incomplete'')
              else let row = provisioned_row labID p ''running'' now
              in if flt ''persist added instance'' \<or> \<not> instance_check row \<or> name_taken row db \<or>
                    container_taken row db
                 then Inl (ErrDB ''persist added instance'')
                 else Inr (db\<lparr>instances := instances db @ [row]\<rparr>))
      | REMOVE_INSTANCE \<Rightarrow>
          if tpr_RemovedInstanceID v = [] then Inl (ErrText ''remove instance result is incomplete'')
          else if flt ''delete removed instance'' then Inl (ErrDB ''delete removed instance'')
          else (let (n, is) = exec_delete (\<lambda>i. li_lab_id i = labID \<and>
                    li_instance_name i = tpr_RemovedInstanceID v) (instances db)
                in if n \<noteq> 1 then Inl ErrStateConflict else Inr (db\<lparr>instances := is\<rparr>))
      | SET_INSTANCE_PERFORMANCE \<Rightarrow>
         (case tpr_Instance v of
            None \<Rightarrow> Inl (ErrText ''performance result is incomplete'')
          | Some p \<Rightarrow>
              if pi_InstanceName p = [] \<or> pi_ContainerID p = [] \<or> pi_PerformancePercent p \<le> 0 \<or>
                 pi_ProcessingSpeed p \<le> 0 \<or> pi_MaxLoad p \<le> 0
              then Inl (ErrText ''performance result is incomplete'')
              else if flt ''persist instance performance'' \<or>
                 instance_exists labID (pi_InstanceName p) db \<and>
                 (pi_PerformancePercent p < 20 \<or> pi_PerformancePercent p > 100 \<or>
                  container_taken (provisioned_row labID p ''running'' now) db)
              then Inl (ErrDB ''persist instance performance'')
              else let (n, is) = exec_update
                     (\<lambda>i. li_lab_id i = labID \<and> li_instance_name i = pi_InstanceName p)
                     (\<lambda>i. i\<lparr>li_container_id := Some (pi_ContainerID p), li_status := ''running'',
                            li_cpu_limit_cores := pi_CPULimitCores p,
                            li_performance_percent := pi_PerformancePercent p,
                            li_processing_speed := pi_ProcessingSpeed p, li_updated_at := now\<rparr>)
                     (instances db)
              in if n \<noteq> 1 then Inl ErrStateConflict else Inr (db\<lparr>instances := is\<rparr>))
      | SET_INSTANCE_WEIGHTS \<Rightarrow>
          if tpr_Weights v = [] then Inl (ErrText ''weight result is incomplete'')
          else persistWeights flt labID (tpr_Weights v) now db
      | APPLY_ADAPTIVE_WEIGHTS \<Rightarrow>
          if tpr_Skipped v then Inr db
          else if tpr_Weights v = [] then Inl (ErrText ''weight result is incomplete'')
          else persistWeights flt labID (tpr_Weights v) now db
      | SET_BALANCING_MODE \<Rightarrow>
          if tpr_BalancingMode v \<noteq> ''fixed'' \<and> tpr_BalancingMode v \<noteq> ''adaptive''
          then Inl (ErrText ''balancing mode result is invalid'')
          else update_session flt ''persist balancing mode'' labID {Running, Expiring}
            (\<lambda>s. s\<lparr>ls_balancing_mode := tpr_BalancingMode v, ls_updated_at := now\<rparr>) db
      | _ \<Rightarrow> Inl (ErrText ''unsupported topology result''))"

definition CompleteTopology ::
  "fault \<Rightarrow> Record \<Rightarrow> TopologyResult \<Rightarrow> string \<Rightarrow> string \<Rightarrow> gotime \<Rightarrow> platform_db \<Rightarrow>
   lab_error option \<times> platform_db" where
  "CompleteTopology flt record v errorCode errorMessage now =
     complete_tx flt ''begin complete topology transaction'' ''commit topology action''
       (\<lambda>db. if errorCode = [] then applyTopologyResult flt record v now db else Inr db)
       (completeOperationRecord flt record (if errorCode = [] then OpSucceeded else OpFailed)
          (if errorCode = [] then Some (if tpr_Skipped v then SkippedResult else OtherResult) else None)
          errorCode errorMessage now)
       (if errorCode = [] \<and> rec_Action record \<noteq> APPLY_ADAPTIVE_WEIGHTS
        then update_session flt ''update topology lab activity'' (rec_LabID record) {Running, Expiring}
          (\<lambda>s. s\<lparr>ls_status := Running, ls_last_effective_action_at := Some now, ls_updated_at := now\<rparr>)
        else Inr)"

definition applyCacheResult ::
  "fault \<Rightarrow> Record \<Rightarrow> CacheOpResult \<Rightarrow> gotime \<Rightarrow> platform_db \<Rightarrow> (lab_error, platform_db) result" where
  "applyCacheResult flt record v now db =
     (case rec_Action record of
        REMOVE_SESSION_REDIS \<Rightarrow>
          if flt ''mark Redis deleted'' then Inl (ErrDB ''mark Redis deleted'')
          else Inr (db\<lparr>resources := map (\<lambda>r. if lr_lab_id r = rec_LabID record \<and>
                 lr_resource_type r = ''session-redis''
               then r\<lparr>lr_status := ''deleted'', lr_external_id := None, lr_updated_at := now\<rparr> else r)
               (resources db)\<rparr>)
      | ADD_SESSION_REDIS \<Rightarrow>
         (case v of
            None \<Rightarrow> Inl (ErrText ''Redis result is incomplete'')
          | Some r \<Rightarrow>
              if rd_ContainerID r = [] \<or> rd_ContainerName r = []
              then Inl (ErrText ''Redis result is incomplete'')
              else if flt ''persist Redis resource'' then Inl (ErrDB ''persist Redis resource'')
              else let same = (\<lambda>q. lr_lab_id q = rec_LabID record \<and>
                     lr_resource_type q = ''session-redis'' \<and> lr_resource_name q = rd_ContainerName r)
              in Inr (if \<exists>q \<in> set (resources db). same q
                   then db\<lparr>resources := map (\<lambda>q. if same q
                        then q\<lparr>lr_external_id := Some (rd_ContainerID r), lr_status := ''ready'',
                               lr_updated_at := now\<rparr> else q) (resources db)\<rparr>
                   else db\<lparr>resources := resources db @
                        [resource_of (rec_LabID record) now
                          (''session-redis'', rd_ContainerName r, rd_ContainerID r, None)]\<rparr>))
      | _ \<Rightarrow> Inr db)"

definition CompleteCache ::
  "fault \<Rightarrow> Record \<Rightarrow> CacheOpResult \<Rightarrow> string \<Rightarrow> string \<Rightarrow> gotime \<Rightarrow> platform_db \<Rightarrow>
   lab_error option \<times> platform_db" where
  "CompleteCache flt record v errorCode errorMessage now =
     complete_tx flt ''begin complete cache transaction'' ''commit cache action''
       (\<lambda>db. if errorCode = [] then applyCacheResult flt record v now db else Inr db)
       (completeOperationRecord flt record (if errorCode = [] then OpSucceeded else OpFailed)
          (if errorCode = [] then Some OtherResult else None) errorCode errorMessage now)
       (\<lambda>db. if errorCode \<noteq> [] then Inr db
        else if rec_Action record \<notin> {ADD_SESSION_REDIS, REMOVE_SESSION_REDIS} \<and>
          (flt ''read Redis session state'' \<or> find_session (rec_LabID record) db = None)
        then Inl (ErrDB ''read Redis session state'')
        else update_session flt ''update cache lab activity'' (rec_LabID record) {Running}
          (\<lambda>s. s\<lparr>ls_redis_enabled :=
                   (if rec_Action record = ADD_SESSION_REDIS then True
                    else if rec_Action record = REMOVE_SESSION_REDIS then False
                    else ls_redis_enabled s),
                 ls_last_effective_action_at := Some now, ls_updated_at := now\<rparr>) db)"

definition CompleteFailure ::
  "fault \<Rightarrow> Record \<Rightarrow> string \<Rightarrow> string \<Rightarrow> gotime \<Rightarrow> platform_db \<Rightarrow> lab_error option \<times> platform_db" where
  "CompleteFailure flt record errorCode errorMessage now db =
     (if flt ''fail operation'' then (Some (ErrDB ''fail operation''), db)
      else let (n, ops) = exec_update
             (\<lambda>x. lo_id x = rec_ID record \<and> lo_status x = OpRunning \<and>
                  lo_lease_owner x = Some (rec_LeaseOwner record))
             (\<lambda>x. x\<lparr>lo_status := OpFailed, lo_error_code := Some errorCode,
                    lo_error_message := Some errorMessage, lo_lease_owner := None,
                    lo_lease_expires_at := None, lo_completed_at := Some now,
                    lo_updated_at := now\<rparr>) (operations db)
      in (requireOneRow n, db\<lparr>operations := ops\<rparr>))"

end
