(* ===== verification/Lifecycle.thy ===== *)
theory Lifecycle
  imports LabRepository
begin

text \<open>
  The expiry of labs, \<^verbatim>\<open>services/platform-api/internal/lifecycle\<close>: the decision of
  \<^verbatim>\<open>decision.go\<close> and the transactions of \<^verbatim>\<open>repository.go\<close>. The digest in the identifier of the
  system's destroy operation is the argument \<open>sha\<close>, a function from strings to byte lists.
\<close>

datatype decisionKind = decisionNone | decisionExpiring | decisionRunning | decisionTerminating

record decision =
  de_kind :: decisionKind
  de_reason :: string
  de_deadline :: gotime

record lifecycle_config =
  lf_IdleTimeout :: duration
  lf_MaxDuration :: duration
  lf_ExpiringLead :: duration

record Transition =
  tr_LabID :: string
  tr_Kind :: decisionKind
  tr_Reason :: string
  tr_OperationID :: string

definition evaluate ::
  "gotime \<Rightarrow> Status \<Rightarrow> gotime option \<Rightarrow> gotime option \<Rightarrow> lifecycle_config \<Rightarrow> decision" where
  "evaluate now status startedAt lastEffectiveActionAt c =
     (case (startedAt, lastEffectiveActionAt) of
        (Some started, Some lastAction) \<Rightarrow>
         (let idleDeadline = lastAction + lf_IdleTimeout c;
              maximumDeadline = started + lf_MaxDuration c;
              (deadline, reason) =
                (if maximumDeadline < idleDeadline then (maximumDeadline, ''maximum_duration'')
                 else (idleDeadline, ''idle_timeout''))
          in if \<not> now < deadline
             then \<lparr>de_kind = decisionTerminating, de_reason = reason, de_deadline = deadline\<rparr>
             else if \<not> now < deadline - lf_ExpiringLead c
             then (if status = Running
                   then \<lparr>de_kind = decisionExpiring, de_reason = reason, de_deadline = deadline\<rparr>
                   else \<lparr>de_kind = decisionNone, de_reason = reason, de_deadline = deadline\<rparr>)
             else if status = Expiring
             then \<lparr>de_kind = decisionRunning, de_reason = reason, de_deadline = deadline\<rparr>
             else \<lparr>de_kind = decisionNone, de_reason = reason, de_deadline = deadline\<rparr>)
      | _ \<Rightarrow> \<lparr>de_kind = decisionNone, de_reason = [], de_deadline = 0\<rparr>)"

definition validateConfig :: "lifecycle_config \<Rightarrow> lab_error option" where
  "validateConfig c =
     (if lf_IdleTimeout c \<le> 0 \<or> lf_MaxDuration c \<le> 0 \<or> lf_ExpiringLead c \<le> 0
      then Some (ErrText ''lifecycle durations must be positive'')
      else if lf_ExpiringLead c \<ge> lf_IdleTimeout c \<or> lf_ExpiringLead c \<ge> lf_MaxDuration c
      then Some (ErrText ''lifecycle expiring lead must be shorter than both deadlines'')
      else None)"

definition expirationOperationID :: "(string \<Rightarrow> nat list) \<Rightarrow> string \<Rightarrow> string" where
  "expirationOperationID sha labID = ''system-expire-'' @ hex_EncodeToString (take 16 (sha labID))"

definition concurrent_change :: lab_error where
  "concurrent_change = ErrText ''lifecycle state changed concurrently''"

text \<open>One update of the status of the lab, which has to change exactly one row.\<close>

definition move_session ::
  "string \<Rightarrow> Status set \<Rightarrow> (session_row \<Rightarrow> session_row) \<Rightarrow> platform_db \<Rightarrow> (lab_error, platform_db) result" where
  "move_session labID from f db =
     (let (n, ss) = exec_update (\<lambda>s. ls_id s = labID \<and> ls_status s \<in> from) f (sessions db)
      in if n \<noteq> 1 then Inl concurrent_change else Inr (db\<lparr>sessions := ss\<rparr>))"

text \<open>\<open>Inr (None, db)\<close> is the case of no transition.\<close>

definition advance_terminating ::
  "fault \<Rightarrow> (string \<Rightarrow> nat list) \<Rightarrow> string \<Rightarrow> nat \<Rightarrow> string \<Rightarrow> gotime \<Rightarrow> platform_db \<Rightarrow>
   (lab_error, Transition option \<times> platform_db) result" where
  "advance_terminating flt sha labID userID reason now db =
     (if flt ''check active lifecycle operation'' then Inl (ErrDB ''check active lifecycle operation'')
      else if pending_operation labID db then Inr (None, db)
      else let opID = expirationOperationID sha labID
      in if flt ''enqueue lifecycle destroy'' then Inl (ErrDB ''enqueue lifecycle destroy'')
         else case insert_operation opID labID userID DESTROY_LAB None (ReasonPayload reason) now db of
           None \<Rightarrow> Inl (ErrDB ''enqueue lifecycle destroy'')
         | Some (_, db1) \<Rightarrow>
             if flt ''mark lab terminating'' then Inl (ErrDB ''mark lab terminating'')
             else case move_session labID {Running, Expiring}
                  (\<lambda>s. s\<lparr>ls_status := Terminating, ls_termination_reason := Some reason,
                         ls_updated_at := now\<rparr>) db1 of
               Inl e \<Rightarrow> Inl e
             | Inr db2 \<Rightarrow>
                 if flt ''commit terminating lab'' then Inl (ErrDB ''commit terminating lab'')
                 else Inr (Some \<lparr>tr_LabID = labID, tr_Kind = decisionTerminating, tr_Reason = reason,
                             tr_OperationID = opID\<rparr>, db2))"

definition advance_status ::
  "fault \<Rightarrow> string \<Rightarrow> string \<Rightarrow> string \<Rightarrow> decision \<Rightarrow> Status \<Rightarrow> Status \<Rightarrow> gotime \<Rightarrow> platform_db \<Rightarrow>
   (lab_error, Transition option \<times> platform_db) result" where
  "advance_status flt mark_msg commit_msg labID d from to now db =
     (if flt mark_msg then Inl (ErrDB mark_msg)
      else case move_session labID {from} (\<lambda>s. s\<lparr>ls_status := to, ls_updated_at := now\<rparr>) db of
        Inl e \<Rightarrow> Inl e
      | Inr db' \<Rightarrow>
          if flt commit_msg then Inl (ErrDB commit_msg)
          else Inr (Some \<lparr>tr_LabID = labID, tr_Kind = de_kind d, tr_Reason = de_reason d,
                      tr_OperationID = []\<rparr>, db'))"

definition advanceOne ::
  "fault \<Rightarrow> (string \<Rightarrow> nat list) \<Rightarrow> string \<Rightarrow> gotime \<Rightarrow> lifecycle_config \<Rightarrow> platform_db \<Rightarrow>
   (lab_error, Transition option) result \<times> platform_db" where
  "advanceOne flt sha labID now c db =
     atomically db
     (if flt ''begin lifecycle transaction'' then Inl (ErrDB ''begin lifecycle transaction'')
      else if flt ''load lifecycle lab'' then Inl (ErrDB ''load lifecycle lab'')
      else case find_session labID db of
        None \<Rightarrow> Inr (None, db)
      | Some s \<Rightarrow>
          if ls_started_at s = None \<or> ls_last_effective_action_at s = None then Inr (None, db)
          else let d = evaluate now (ls_status s) (ls_started_at s) (ls_last_effective_action_at s) c
          in case de_kind d of
            decisionExpiring \<Rightarrow>
              advance_status flt ''mark lab expiring'' ''commit expiring lab'' labID d Running Expiring now db
          | decisionRunning \<Rightarrow>
              advance_status flt ''restore lab running'' ''commit running lab'' labID d Expiring Running now db
          | decisionTerminating \<Rightarrow>
              advance_terminating flt sha labID (ls_user_id s) (de_reason d) now db
          | decisionNone \<Rightarrow> Inr (None, db))"

text \<open>
  \<open>Advance\<close>: one transaction per candidate; the first error ends the loop. What other
  transactions commit before each of them is the argument \<open>other\<close>, indexed by the lab.
\<close>

fun advance_loop ::
  "fault \<Rightarrow> (string \<Rightarrow> nat list) \<Rightarrow> (string \<Rightarrow> platform_db \<Rightarrow> platform_db) \<Rightarrow> gotime \<Rightarrow>
   lifecycle_config \<Rightarrow> string list \<Rightarrow> Transition list \<Rightarrow> platform_db \<Rightarrow>
   (lab_error option \<times> Transition list) \<times> platform_db" where
  "advance_loop flt sha other now c [] ts db = ((None, ts), db)"
| "advance_loop flt sha other now c (labID # labIDs) ts db =
     (case advanceOne flt sha labID now c (other labID db) of
        (Inl e, db') \<Rightarrow> ((Some e, ts), db')
      | (Inr None, db') \<Rightarrow> advance_loop flt sha other now c labIDs ts db'
      | (Inr (Some t), db') \<Rightarrow> advance_loop flt sha other now c labIDs (ts @ [t]) db')"

definition lifecycle_candidates :: "platform_db \<Rightarrow> string list" where
  "lifecycle_candidates db =
     map ls_id (sort_key (\<lambda>s. (ls_updated_at s, ls_id s))
       (filter (\<lambda>s. ls_status s \<in> {Running, Expiring}) (sessions db)))"

definition Advance ::
  "fault \<Rightarrow> (string \<Rightarrow> nat list) \<Rightarrow> (string \<Rightarrow> platform_db \<Rightarrow> platform_db) \<Rightarrow> gotime \<Rightarrow>
   lifecycle_config \<Rightarrow> platform_db \<Rightarrow> (lab_error option \<times> Transition list) \<times> platform_db" where
  "Advance flt sha other now c db =
     (case validateConfig c of
        Some e \<Rightarrow> ((Some e, []), db)
      | None \<Rightarrow>
          if flt ''list lifecycle candidates''
          then ((Some (ErrDB ''list lifecycle candidates''), []), db)
          else advance_loop flt sha other now c (lifecycle_candidates db) [] db)"

definition ExpectedLabIDs :: "fault \<Rightarrow> platform_db \<Rightarrow> (lab_error, string list) result" where
  "ExpectedLabIDs flt db =
     (if flt ''list expected lab ids'' then Inl (ErrDB ''list expected lab ids'')
      else Inr (sort (map ls_id (filter (\<lambda>s. ls_status s \<in> {Preparing, Running, Expiring, Terminating})
             (sessions db)))))"

text \<open>What one transaction did to the database.\<close>

lemma advanceOne_cases:
  assumes "advanceOne flt sha l now c db = (r, db')"
  obtains "db' = db"
  | m n d src dst t where "advance_status flt m n l d src dst now db = Inr (t, db')"
      "(src, dst) \<in> {(Running, Expiring), (Expiring, Running)}"
  | u reason t where "advance_terminating flt sha l u reason now db = Inr (t, db')"
proof (cases "find_session l db")
  case None
  then have "db' = db" using assms by (auto simp: advanceOne_def atomically_def split: if_splits)
  then show ?thesis by (rule that)
next
  case (Some s)
  define d where "d = evaluate now (ls_status s) (ls_started_at s) (ls_last_effective_action_at s) c"
  have "db' = db \<or>
      (\<exists>t. advance_status flt ''mark lab expiring'' ''commit expiring lab'' l d Running Expiring now db
        = Inr (t, db')) \<or>
      (\<exists>t. advance_status flt ''restore lab running'' ''commit running lab'' l d Expiring Running now db
        = Inr (t, db')) \<or>
      (\<exists>t. advance_terminating flt sha l (ls_user_id s) (de_reason d) now db = Inr (t, db'))"
    using assms Some
    by (auto simp: advanceOne_def atomically_def d_def Let_def
        split: if_splits decisionKind.splits sum.splits)
  then show ?thesis using that by blast
qed

end
