(* ===== verification/Persistence.thy ===== *)
theory Persistence
  imports LabMachine LabService OperationQueue Lifecycle
begin

text \<open>
  The database implements the state machine of labs: \<open>abs_db\<close> reads a machine state off the
  tables, and every transaction of the repositories is a step of the machine or none. The
  invariant of the machine thus holds of every database the platform can reach.
\<close>

subsection \<open>Reading the machine state off the tables\<close>

definition op_view :: "operation_row \<Rightarrow> op_info" where
  "op_view r = \<lparr>oi_key = map to_lower (lo_operation_id r), oi_lab = lo_lab_id r,
     oi_action = lo_action r, oi_active = op_active (lo_status r)\<rparr>"

definition abs_labs :: "session_row list \<Rightarrow> string \<rightharpoonup> nat \<times> Status" where
  "abs_labs ss = map_of (map (\<lambda>s. (ls_id s, (ls_user_id s, ls_status s))) ss)"

definition abs_ops :: "operation_row list \<Rightarrow> nat \<rightharpoonup> op_info" where
  "abs_ops rs = map_of (map (\<lambda>r. (lo_id r, op_view r)) rs)"

definition abs_db :: "platform_db \<Rightarrow> lab_state" where
  "abs_db db = \<lparr>labs = abs_labs (sessions db), ops = abs_ops (operations db),
     fresh = next_operation db\<rparr>"

definition db_wf :: "platform_db \<Rightarrow> bool" where
  "db_wf db = (distinct (map ls_id (sessions db)) \<and> [] \<notin> set (map ls_id (sessions db)) \<and>
     distinct (map lo_id (operations db)) \<and>
     (\<forall>r \<in> set (operations db). lo_id r < next_operation db))"

lemma abs_db_simps [simp]:
  "labs (abs_db db) = abs_labs (sessions db)" "ops (abs_db db) = abs_ops (operations db)"
  "fresh (abs_db db) = next_operation db"
  by (simp_all add: abs_db_def)

lemma map_of_key: "map_of (map (\<lambda>x. (k x, v x)) xs) a = map_option v (find (\<lambda>x. k x = a) xs)"
  by (induction xs) auto

lemma labs_find: "abs_labs (sessions db) l =
    map_option (\<lambda>s. (ls_user_id s, ls_status s)) (find_session l db)"
  by (simp add: abs_labs_def find_session_def map_of_key)

lemma find_by_key: "distinct (map k xs) \<Longrightarrow> find (\<lambda>x. k x = a) xs = Some x \<longleftrightarrow> x \<in> set xs \<and> k x = a"
  by (induction xs) auto

lemma ops_Some:
  assumes "db_wf db"
  shows "abs_ops (operations db) n = Some i \<longleftrightarrow>
    (\<exists>r \<in> set (operations db). lo_id r = n \<and> op_view r = i)"
  using assms find_by_key [of lo_id "operations db" n]
  by (auto simp: db_wf_def abs_ops_def map_of_key)

lemma ops_inj: "db_wf db \<Longrightarrow> x \<in> set (operations db) \<Longrightarrow> y \<in> set (operations db) \<Longrightarrow>
    lo_id x = lo_id y \<Longrightarrow> x = y"
  by (auto simp: db_wf_def distinct_map dest: inj_onD)

lemma session_in: "find_session l db = Some s \<Longrightarrow> s \<in> set (sessions db) \<and> ls_id s = l"
  by (auto simp: find_session_def find_Some_iff)

lemma labs_row: "db_wf db \<Longrightarrow> s \<in> set (sessions db) \<Longrightarrow>
    abs_labs (sessions db) (ls_id s) = Some (ls_user_id s, ls_status s)"
  using find_by_key [of ls_id "sessions db" "ls_id s" s]
  by (simp add: labs_find find_session_def db_wf_def)

lemma labs_in:
  fixes db :: platform_db
  shows "abs_labs (sessions db) l = Some (u, st) \<Longrightarrow> \<exists>s \<in> set (sessions db). ls_id s = l \<and> ls_user_id s = u \<and> ls_status s = st"
  by (auto simp: labs_find dest!: session_in)

lemma pending_idle: "db_wf db \<Longrightarrow> pending_operation l db \<longleftrightarrow> \<not> idle (abs_db db) l"
  by (fastforce simp: idle_def ops_Some pending_operation_def op_view_def)

lemma unused_find: "db_wf db \<Longrightarrow> find_operation k db = None \<longleftrightarrow> unused (abs_db db) (map to_lower k)"
  by (fastforce simp: unused_def ops_Some find_operation_def find_None_iff same_key_def op_view_def)

subsection \<open>The effect of the statements\<close>

lemma find_update:
  assumes "\<And>x. k (f x) = k x"
  shows "find (\<lambda>x. k x = a) (map (\<lambda>x. if P x then f x else x) xs) =
    map_option (\<lambda>x. if P x then f x else x) (find (\<lambda>x. k x = a) xs)"
  using assms by (induction xs) auto

lemma key_update: "(\<And>x. k (f x) = k x) \<Longrightarrow> k \<circ> (\<lambda>x. if P x then f x else x) = k"
  by (auto simp: fun_eq_iff)

lemma insert_operation_abs:
  assumes "insert_operation k l u a t pl now db = Some (oid, db')" "db_wf db"
  shows "abs_db db' = add_op (map to_lower k) l a (abs_db db)" "db_wf db'"
    "unused (abs_db db) (map to_lower k)" "sessions db' = sessions db"
proof -
  define row where "row = \<lparr>lo_id = next_operation db, lo_operation_id = k, lo_lab_id = l,
     lo_requested_by = u, lo_action = a, lo_target_instance_id = t, lo_status = OpPending,
     lo_payload = pl, lo_result = None, lo_error_code = None, lo_error_message = None,
     lo_lease_owner = None, lo_lease_expires_at = None, lo_attempt_count = 0,
     lo_created_at = now, lo_updated_at = now, lo_completed_at = None\<rparr>"
  have db': "db' = db\<lparr>operations := operations db @ [row], next_operation := next_operation db + 1\<rparr>"
    and n: "find_operation k db = None"
    using assms(1) by (auto simp: insert_operation_def row_def split: if_splits)
  have "find (\<lambda>r. lo_id r = next_operation db) (operations db) = None"
    using assms(2) by (auto simp: db_wf_def find_None_iff)
  then have "abs_ops (operations db @ [row]) = (abs_ops (operations db))(next_operation db \<mapsto>
      \<lparr>oi_key = map to_lower k, oi_lab = l, oi_action = a, oi_active = True\<rparr>)"
    by (auto simp: abs_ops_def map_of_key fun_eq_iff map_add_def row_def op_view_def op_active_def
        split: option.splits)
  then show "abs_db db' = add_op (map to_lower k) l a (abs_db db)"
    by (simp add: db' abs_db_def add_op_def)
  show "db_wf db'" using assms(2) by (auto simp: db_wf_def db' row_def)
  show "unused (abs_db db) (map to_lower k)" using n unused_find [OF assms(2)] by simp
  show "sessions db' = sessions db" by (simp add: db')
qed

text \<open>An update of one lab that changes one row.\<close>

lemma update_lab_abs:
  assumes "exec_update (\<lambda>s. ls_id s = l \<and> ls_status s \<in> from) f (sessions db) = (n, ss)" "n = 1"
    "\<And>s. ls_id (f s) = ls_id s" "\<And>s. ls_user_id (f s) = ls_user_id s" "db_wf db"
  shows "\<exists>s. find_session l db = Some s \<and> ls_status s \<in> from \<and>
      abs_db (db\<lparr>sessions := ss\<rparr>) = set_status l (ls_user_id s) (ls_status (f s)) (abs_db db)"
    "db_wf (db\<lparr>sessions := ss\<rparr>)"
proof -
  let ?P = "\<lambda>s. ls_id s = l \<and> ls_status s \<in> from"
  have ss: "ss = map (\<lambda>s. if ?P s then f s else s) (sessions db)"
    and "length (filter (\<lambda>s. ?P s \<and> f s \<noteq> s) (sessions db)) = 1"
    using assms(1,2) by (auto simp: exec_update_def)
  then have "filter (\<lambda>s. ?P s \<and> f s \<noteq> s) (sessions db) \<noteq> []" by auto
  then obtain s where s: "s \<in> set (sessions db)" "?P s" unfolding filter_empty_conv by blast
  have fs: "find_session l db = Some s"
    using s assms(5) by (simp add: find_session_def find_by_key db_wf_def)
  have "abs_labs ss = (abs_labs (sessions db))(l \<mapsto> (ls_user_id s, ls_status (f s)))"
  proof
    fix a
    have "abs_labs ss a = map_option ((\<lambda>s. (ls_user_id s, ls_status s)) \<circ> (\<lambda>s. if ?P s then f s else s))
        (find (\<lambda>s. ls_id s = a) (sessions db))"
      unfolding abs_labs_def map_of_key ss
      by (subst find_update) (simp_all add: assms(3) option.map_comp)
    also have "\<dots> = ((abs_labs (sessions db))(l \<mapsto> (ls_user_id s, ls_status (f s)))) a"
    proof (cases "find (\<lambda>s. ls_id s = a) (sessions db)")
      case None
      then have "a \<noteq> l" using fs by (auto simp: find_session_def)
      then show ?thesis using None by (simp add: abs_labs_def map_of_key)
    next
      case (Some t)
      have t: "ls_id t = a" using Some assms(5) by (simp add: find_by_key db_wf_def)
      have "a = l \<Longrightarrow> t = s" using Some fs by (simp add: find_session_def)
      note t = t this
      show ?thesis
      proof (cases "a = l")
        case True
        then show ?thesis using Some t s assms(4) by simp
      next
        case False
        then show ?thesis using Some t by (simp add: abs_labs_def map_of_key)
      qed
    qed
    finally show "abs_labs ss a = ((abs_labs (sessions db))(l \<mapsto> (ls_user_id s, ls_status (f s)))) a" .
  qed
  then show "\<exists>s. find_session l db = Some s \<and> ls_status s \<in> from \<and>
      abs_db (db\<lparr>sessions := ss\<rparr>) = set_status l (ls_user_id s) (ls_status (f s)) (abs_db db)"
    using fs s by (intro exI [of _ s]) (simp add: abs_db_def set_status_def)
  show "db_wf (db\<lparr>sessions := ss\<rparr>)"
    using assms(5) by (simp add: db_wf_def ss key_update [of ls_id f, OF assms(3)])
qed

text \<open>An update of the operations that keeps what the machine sees of them.\<close>

lemma update_ops_abs:
  assumes "ops' = map (\<lambda>r. if P r then f r else r) (operations db)" "\<And>r. lo_id (f r) = lo_id r"
    "db_wf db"
  shows "db_wf (db\<lparr>operations := ops'\<rparr>)"
    "(\<And>r. r \<in> set (operations db) \<Longrightarrow> P r \<Longrightarrow> op_view (f r) = op_view r) \<Longrightarrow>
       abs_db (db\<lparr>operations := ops'\<rparr>) = abs_db db"
proof -
  show "db_wf (db\<lparr>operations := ops'\<rparr>)"
    using assms(2,3) by (auto simp: db_wf_def assms(1) key_update [of lo_id f, OF assms(2)])
  assume "\<And>r. r \<in> set (operations db) \<Longrightarrow> P r \<Longrightarrow> op_view (f r) = op_view r"
  then have "map (\<lambda>x. (lo_id x, op_view x)) ops' = map (\<lambda>x. (lo_id x, op_view x)) (operations db)"
    using assms(2) by (simp add: assms(1))
  then show "abs_db (db\<lparr>operations := ops'\<rparr>) = abs_db db"
    by (simp add: abs_db_def abs_ops_def)
qed

text \<open>The end of a running operation.\<close>

lemma end_ops_abs:
  assumes "exec_update (\<lambda>x. lo_id x = n \<and> lo_status x = OpRunning \<and> lo_lease_owner x = Some w) f
      (operations db) = (k, ops')" "k = 1"
    "\<And>r. lo_id (f r) = lo_id r \<and> op_view (f r) = (op_view r)\<lparr>oi_active := False\<rparr>" "db_wf db"
  shows "\<exists>r. r \<in> set (operations db) \<and> lo_id r = n \<and> oi_active (op_view r) \<and>
      abs_db (db\<lparr>operations := ops'\<rparr>) = end_op n (op_view r) (abs_db db)"
    "db_wf (db\<lparr>operations := ops'\<rparr>)"
proof -
  let ?P = "\<lambda>x. lo_id x = n \<and> lo_status x = OpRunning \<and> lo_lease_owner x = Some w"
  have o: "ops' = map (\<lambda>x. if ?P x then f x else x) (operations db)"
    and "length (filter (\<lambda>x. ?P x \<and> f x \<noteq> x) (operations db)) = 1"
    using assms(1,2) by (auto simp: exec_update_def)
  then have "filter (\<lambda>x. ?P x \<and> f x \<noteq> x) (operations db) \<noteq> []" by auto
  then obtain r where r: "r \<in> set (operations db)" "?P r" unfolding filter_empty_conv by blast
  have fr: "find (\<lambda>x. lo_id x = n) (operations db) = Some r"
    using r assms(4) by (simp add: find_by_key db_wf_def)
  have "abs_ops ops' = (abs_ops (operations db))(n \<mapsto> (op_view r)\<lparr>oi_active := False\<rparr>)"
  proof
    fix a
    have "abs_ops ops' a = map_option (op_view \<circ> (\<lambda>x. if ?P x then f x else x))
        (find (\<lambda>x. lo_id x = a) (operations db))"
      unfolding abs_ops_def map_of_key o
      by (subst find_update) (simp_all add: assms(3) option.map_comp)
    also have "\<dots> = ((abs_ops (operations db))(n \<mapsto> (op_view r)\<lparr>oi_active := False\<rparr>)) a"
    proof (cases "a = n")
      case True
      then show ?thesis using fr r assms(3) by simp
    next
      case False
      then have "find (\<lambda>x. lo_id x = a) (operations db) = Some x \<Longrightarrow> lo_id x \<noteq> n" for x
        using assms(4) by (simp add: find_by_key db_wf_def)
      then show ?thesis
        using False by (cases "find (\<lambda>x. lo_id x = a) (operations db)")
          (auto simp: abs_ops_def map_of_key)
    qed
    finally show "abs_ops ops' a =
      ((abs_ops (operations db))(n \<mapsto> (op_view r)\<lparr>oi_active := False\<rparr>)) a" .
  qed
  then show "\<exists>r. r \<in> set (operations db) \<and> lo_id r = n \<and> oi_active (op_view r) \<and>
      abs_db (db\<lparr>operations := ops'\<rparr>) = end_op n (op_view r) (abs_db db)"
    using r by (intro exI [of _ r]) (simp add: abs_db_def end_op_def op_view_def op_active_def)
  show "db_wf (db\<lparr>operations := ops'\<rparr>)"
    using update_ops_abs(1) [OF o _ assms(4)] assms(3) by simp
qed

subsection \<open>Transactions are steps\<close>

definition refines :: "platform_db \<Rightarrow> platform_db \<Rightarrow> bool" where
  "refines db db' = (db_wf db' \<and> (abs_db db' = abs_db db \<or> lab_step (abs_db db) (abs_db db')))"

lemma refines_same: "db_wf db \<Longrightarrow> refines db db"
  by (simp add: refines_def)

lemma refines_step: "db_wf db' \<Longrightarrow> lab_step (abs_db db) (abs_db db') \<Longrightarrow> refines db db'"
  by (simp add: refines_def)

lemma refines_inv: "refines db db' \<Longrightarrow> lab_inv (abs_db db) \<Longrightarrow> lab_inv (abs_db db')"
  using lab_inv_step by (auto simp: refines_def)

lemma update_last_lab_core [simp]:
  "sessions (update_last_lab u c l db) = sessions db"
  "operations (update_last_lab u c l db) = operations db"
  "next_operation (update_last_lab u c l db) = next_operation db"
  "abs_db (update_last_lab u c l db) = abs_db db"
  "db_wf (update_last_lab u c l db) = db_wf db"
  by (simp_all add: update_last_lab_def Let_def abs_db_def db_wf_def)

lemma add_session_abs:
  assumes "find_session (ls_id s) db = None" "db_wf db" "ls_id s \<noteq> []"
  shows "abs_db (db\<lparr>sessions := sessions db @ [s]\<rparr>) =
      set_status (ls_id s) (ls_user_id s) (ls_status s) (abs_db db)"
    "db_wf (db\<lparr>sessions := sessions db @ [s]\<rparr>)"
proof -
  have "abs_labs (sessions db @ [s]) = (abs_labs (sessions db))(ls_id s \<mapsto> (ls_user_id s, ls_status s))"
    using assms(1) by (auto simp: abs_labs_def map_of_key fun_eq_iff find_session_def map_add_def
        split: option.splits)
  then show "abs_db (db\<lparr>sessions := sessions db @ [s]\<rparr>) =
      set_status (ls_id s) (ls_user_id s) (ls_status s) (abs_db db)"
    by (simp add: abs_db_def set_status_def)
  show "db_wf (db\<lparr>sessions := sessions db @ [s]\<rparr>)"
    using assms by (auto simp: db_wf_def find_session_def find_None_iff)
qed

lemma no_active_find:
  assumes "db_wf db" "findActiveLabID u db \<in> {None, Some []}"
  shows "no_active_lab (abs_db db) u"
proof -
  have "find (\<lambda>s. ls_user_id s = u \<and> Active (ls_status s)) (sessions db) = None"
  proof (rule ccontr)
    assume "find (\<lambda>s. ls_user_id s = u \<and> Active (ls_status s)) (sessions db) \<noteq> None"
    then obtain s where s: "find (\<lambda>s. ls_user_id s = u \<and> Active (ls_status s)) (sessions db) = Some s"
      by blast
    then have "s \<in> set (sessions db)" by (auto simp: find_Some_iff)
    then have "ls_id s \<noteq> []" using assms(1) by (force simp: db_wf_def)
    then show False using assms(2) s by (simp add: findActiveLabID_def)
  qed
  then have n: "\<forall>s \<in> set (sessions db). ls_user_id s = u \<longrightarrow> \<not> Active (ls_status s)"
    by (auto simp: find_None_iff)
  show ?thesis
    using n session_in by (fastforce simp: no_active_lab_def labs_find)
qed

lemma create_rows_step:
  assumes "create_rows flt u c opID l sc now db = Inr (r, db')" "db_wf db" "l \<noteq> []"
    "findActiveLabID u db \<in> {None, Some []}"
  shows "refines db db'"
proof -
  let ?s = "new_session l u c sc now"
  define db1 where "db1 = db\<lparr>sessions := sessions db @ [?s]\<rparr>"
  have l: "find_session l db = None" and id: "ls_id ?s = l" "ls_user_id ?s = u" "ls_status ?s = Preparing"
    using assms(1) by (auto simp: create_rows_def Let_def new_session_def split: if_splits)
  obtain oid db2 where i: "insert_operation opID l u CREATE_LAB None (CreatePayload c (sc_Type sc)
      (sc_TemplateID sc) (sc_InitialInstances sc) (sc_RedisRequired sc)) now db1 = Some (oid, db2)"
    and db': "db' = update_last_lab u c l db2"
    using assms(1) by (auto simp: create_rows_def Let_def db1_def split: if_splits option.splits)
  have w: "db_wf db1" "abs_db db1 = set_status l u Preparing (abs_db db)"
    using add_session_abs [of ?s db] l assms(2,3) id by (simp_all add: db1_def)
  note ins = insert_operation_abs [OF i w(1)]
  have "lab_step (abs_db db) (add_op (map to_lower opID) l CREATE_LAB (set_status l u Preparing (abs_db db)))"
    using l no_active_find [OF assms(2,4)] ins(3) w(2) by (intro lab_step.create) (simp_all add: labs_find)
  then show ?thesis using ins(1,2) w(2) by (intro refines_step) (simp_all add: db')
qed

lemma create_locked_step:
  assumes "create_locked flt u c opID l q now db = Inr (r, db')" "db_wf db" "l \<noteq> []"
  shows "refines db db'"
proof (cases "findExistingCreate opID db")
  case (Some x)
  then have "db' = db"
    using assms(1)
    by (auto simp: create_locked_def existing_create_def split: if_splits)
  then show ?thesis using assms(2) by (simp add: refines_same)
next
  case None
  then obtain sc where "create_rows flt u c opID l sc now db = Inr (r, db')"
    "findActiveLabID u db \<in> {None, Some []}"
    using assms(1) by (auto simp: create_locked_def split: if_splits option.splits)
  then show ?thesis using create_rows_step assms(2,3) by blast
qed

text \<open>
  A transaction waits for its locks on one database and acts on the one the others left: its
  effect is none, or it is a step from the latter.
\<close>

lemma lab_Create_step:
  assumes "lab_Create flt other u c opID l q now db = (r, db')" "db_wf db" "db_wf (other db)" "l \<noteq> []"
  shows "db' = db \<or> refines (other db) db'"
  using assms(1) create_locked_step [of flt u c opID l q now "other db"] assms(3,4)
  by (auto simp: lab_Create_def atomically_def refines_same
      split: if_splits option.splits sum.splits prod.splits)

text \<open>Queuing an operation on an idle lab that stays in its state.\<close>

lemma enqueue_same_step:
  assumes "insert_operation k l u a t pl now db = Some (oid, db')" "db_wf db"
    "find_session l db = Some s" "\<not> pending_operation l db" "enqueues a (ls_status s) (ls_status s)"
  shows "refines db db'"
proof -
  note ins = insert_operation_abs [OF assms(1,2)]
  have same: "set_status l (ls_user_id s) (ls_status s) (abs_db db) = abs_db db"
    using assms(3) by (simp add: set_status_def labs_find abs_db_def fun_upd_idem)
  have "lab_step (abs_db db) (add_op (map to_lower k) l a
      (set_status l (ls_user_id s) (ls_status s) (abs_db db)))"
    using assms(2-5) ins(3) by (intro lab_step.enqueue) (simp_all add: labs_find pending_idle)
  then show ?thesis using ins(1,2) by (intro refines_step) (simp_all add: same)
qed

text \<open>Queuing a destroy on an idle lab, which moves it to terminating first.\<close>

lemma enqueue_destroy_step:
  assumes "insert_operation k l v DESTROY_LAB t pl now db1 = Some (oid, db')" "db_wf db"
    "exec_update (\<lambda>s. ls_id s = l \<and> ls_status s \<in> from) f (sessions db) = (n, ss)" "n = 1"
    "from \<subseteq> {Preparing, Running, Expiring, Failed}"
    "\<And>s. ls_id (f s) = ls_id s \<and> ls_user_id (f s) = ls_user_id s \<and> ls_status (f s) = Terminating"
    "db1 = db\<lparr>sessions := ss\<rparr>" "\<not> pending_operation l db"
  shows "refines db db'"
proof -
  obtain s where s: "find_session l db = Some s" "ls_status s \<in> from"
    "abs_db db1 = set_status l (ls_user_id s) Terminating (abs_db db)" and w: "db_wf db1"
    using update_lab_abs [OF assms(3,4) _ _ assms(2)] assms(6,7) by auto
  note ins = insert_operation_abs [OF assms(1) w]
  have "lab_step (abs_db db) (add_op (map to_lower k) l DESTROY_LAB
      (set_status l (ls_user_id s) Terminating (abs_db db)))"
    using assms(2,5,8) ins(3) s by (intro lab_step.enqueue [of _ _ _ "ls_status s"])
      (auto simp: labs_find pending_idle)
  then show ?thesis using ins(1,2) s(3) by (intro refines_step) simp_all
qed

lemma enqueue_locked_step:
  assumes "enqueue_locked flt u l opID a reason now db = Inr (r, db')" "db_wf db"
  shows "refines db db'"
proof (cases "findActionByOperationID opID db")
  case (Some x)
  then have "db' = db"
    using assms(1) by (auto simp: enqueue_locked_def matchingActionResult_def
        split: if_splits option.splits)
  then show ?thesis using assms(2) by (simp add: refines_same)
next
  case None
  obtain s pl where s: "find_session l db = Some s" and adm: "action_admitted s a reason = Inr pl"
    and busy: "\<not> pending_operation l db"
    using assms(1) None
    by (auto simp: enqueue_locked_def Let_def split: if_splits option.splits sum.splits)
  define why where "why = (if a = DESTROY_LAB \<and> validTerminationReason reason then reason
    else ''user_requested'')"
  show ?thesis
  proof (cases "a = DESTROY_LAB")
    case True
    obtain n db1 where m: "mark_terminating l why now db = (n, db1)" by fastforce
    obtain oid where i: "insert_operation opID l u DESTROY_LAB None pl now db1 = Some (oid, db')"
      and n: "n = 1"
      using assms(1) None s adm busy True m unfolding enqueue_locked_def why_def
      by (auto simp: Let_def requireSingleRow_def split: if_splits option.splits)
    obtain ss where ss: "exec_update
        (\<lambda>s. ls_id s = l \<and> ls_status s \<in> {Preparing, Running, Expiring, Failed})
        (\<lambda>s. s\<lparr>ls_status := Terminating, ls_termination_reason := Some why, ls_updated_at := now\<rparr>)
        (sessions db) = (n, ss)" "db1 = db\<lparr>sessions := ss\<rparr>"
      using m by (auto simp: mark_terminating_def Let_def split: prod.splits)
    show ?thesis by (rule enqueue_destroy_step [OF i assms(2) ss(1) n _ _ ss(2) busy]) auto
  next
    case False
    obtain oid where "insert_operation opID l u a None pl now db = Some (oid, db')"
      using assms(1) None s adm busy False unfolding enqueue_locked_def
      by (auto simp: Let_def split: if_splits option.splits)
    moreover have "enqueues a (ls_status s) (ls_status s)"
      using adm False by (auto simp: action_admitted_def split: if_splits)
    ultimately show ?thesis using assms(2) s busy by (intro enqueue_same_step)
  qed
qed

lemma EnqueueAction_step:
  assumes "EnqueueAction flt other u l opID a reason now db = (r, db')" "db_wf db" "db_wf (other db)"
  shows "db' = db \<or> refines (other db) db'"
  using assms(1) enqueue_locked_step [of flt u l opID a reason now "other db"] assms(3)
  by (auto simp: EnqueueAction_def atomically_def refines_same
      split: if_splits option.splits sum.splits prod.splits)

text \<open>Actions of the learner.\<close>

lemma topology_action_kind:
  "buildTopologyPayload flt se is input q db = Inr x \<Longrightarrow> ai_ActionType input \<in>
     {ADD_INSTANCE, REMOVE_INSTANCE, SET_INSTANCE_PERFORMANCE, SET_INSTANCE_WEIGHTS, SET_BALANCING_MODE}"
  by (cases "ai_ActionType input") (simp_all add: buildTopologyPayload_def Let_def)

lemma topology_locked_step:
  assumes "topology_locked flt u l input q now db = Inr (r, db')" "db_wf db"
  shows "refines db db'"
proof -
  obtain s ins pl t oid where s: "find_session l db = Some s" "ls_status s \<in> {Running, Expiring}"
    and b: "buildTopologyPayload flt (scanSession s) ins input q db = Inr (pl, t)"
    and busy: "ensureNoPendingTopologyAction flt l db = None"
    and i: "insert_operation (ai_OperationID input) l u (ai_ActionType input) t (TopologyPayload pl) now db
      = Some (oid, db')"
    using assms(1) unfolding topology_locked_def
    by (auto split: if_splits option.splits sum.splits prod.splits)
  have "enqueues (ai_ActionType input) (ls_status s) (ls_status s)"
    using topology_action_kind [OF b] s(2) by auto
  moreover have "\<not> pending_operation l db"
    using busy by (simp add: ensureNoPendingTopologyAction_def split: if_splits)
  ultimately show ?thesis using enqueue_same_step [OF i assms(2) s(1)] by simp
qed

lemma EnqueueTopologyAction_step:
  assumes "EnqueueTopologyAction flt other u l input q now db = (r, db')" "db_wf db" "db_wf (other db)"
  shows "db' = db \<or> refines (other db) db'"
  using assms(1) topology_locked_step [of flt u l input q now "other db"] assms(3)
  by (auto simp: EnqueueTopologyAction_def atomically_def refines_same
      split: if_splits option.splits sum.splits prod.splits)

lemma cache_locked_step:
  assumes "cache_locked flt u l input now db = Inr (r, db')" "db_wf db"
    "isCacheAction (ai_ActionType input)"
  shows "refines db db'"
proof -
  obtain s oid pl where s: "find_session l db = Some s" "ls_status s = Running"
    and busy: "ensureNoPendingTopologyAction flt l db = None"
    and i: "insert_operation (ai_OperationID input) l u (ai_ActionType input)
      (ai_TargetInstanceID input) pl now db = Some (oid, db')"
    using assms(1) unfolding cache_locked_def
    by (auto split: if_splits option.splits)
  have "enqueues (ai_ActionType input) (ls_status s) (ls_status s)"
    using assms(3) s(2) by (auto simp: isCacheAction_def)
  moreover have "\<not> pending_operation l db"
    using busy by (simp add: ensureNoPendingTopologyAction_def split: if_splits)
  ultimately show ?thesis using enqueue_same_step [OF i assms(2) s(1)] by simp
qed

lemma EnqueueCacheAction_step:
  assumes "EnqueueCacheAction flt other u l input now db = (r, db')" "db_wf db" "db_wf (other db)"
    "isCacheAction (ai_ActionType input)"
  shows "db' = db \<or> refines (other db) db'"
  using assms(1) cache_locked_step [of flt u l input now "other db"] assms(3,4)
  by (auto simp: EnqueueCacheAction_def atomically_def refines_same
      split: if_splits option.splits sum.splits prod.splits)

subsection \<open>Expiry\<close>

lemma move_session_abs:
  assumes "move_session l from f db = Inr db'" "db_wf db"
    "\<And>s. ls_id (f s) = ls_id s" "\<And>s. ls_user_id (f s) = ls_user_id s"
  shows "\<exists>s. find_session l db = Some s \<and> ls_status s \<in> from \<and>
      abs_db db' = set_status l (ls_user_id s) (ls_status (f s)) (abs_db db)"
    "db_wf db'" "operations db' = operations db"
proof -
  obtain n ss where e: "exec_update (\<lambda>s. ls_id s = l \<and> ls_status s \<in> from) f (sessions db) = (n, ss)"
    by fastforce
  then have "n = 1" "db' = db\<lparr>sessions := ss\<rparr>"
    using assms(1) by (auto simp: move_session_def split: if_splits)
  then show "\<exists>s. find_session l db = Some s \<and> ls_status s \<in> from \<and>
      abs_db db' = set_status l (ls_user_id s) (ls_status (f s)) (abs_db db)"
    "db_wf db'" "operations db' = operations db"
    using update_lab_abs [OF e _ assms(3,4,2)] by simp_all
qed

lemma advance_status_step:
  assumes "advance_status flt m c l d from to now db = Inr (t, db')" "db_wf db"
    "(from, to) \<in> {(Running, Expiring), (Expiring, Running)}"
  shows "refines db db'"
proof -
  have m: "move_session l {from} (\<lambda>s. s\<lparr>ls_status := to, ls_updated_at := now\<rparr>) db = Inr db'"
    using assms(1) by (auto simp: advance_status_def split: if_splits sum.splits)
  obtain s where s: "find_session l db = Some s" "ls_status s = from"
    "abs_db db' = set_status l (ls_user_id s) to (abs_db db)"
    using move_session_abs(1) [OF m assms(2)] by auto
  have "lab_step (abs_db db) (abs_db db')"
    using s assms(3) by (auto simp: labs_find intro: lab_step.expire lab_step.renew)
  then show ?thesis using move_session_abs(2) [OF m assms(2)] by (simp add: refines_step)
qed

lemma advance_terminating_step:
  assumes "advance_terminating flt sha l u why now db = Inr (t, db')" "db_wf db"
  shows "refines db db'"
proof (cases "pending_operation l db")
  case True
  then have "db' = db" using assms(1) by (auto simp: advance_terminating_def split: if_splits)
  then show ?thesis using assms(2) by (simp add: refines_same)
next
  case False
  let ?f = "\<lambda>s. s\<lparr>ls_status := Terminating, ls_termination_reason := Some why, ls_updated_at := now\<rparr>"
  let ?k = "map to_lower (expirationOperationID sha l)"
  obtain oid db1 where i: "insert_operation (expirationOperationID sha l) l u DESTROY_LAB None
      (ReasonPayload why) now db = Some (oid, db1)"
    and m: "move_session l {Running, Expiring} ?f db1 = Inr db'"
    using assms(1) False
    by (auto simp: advance_terminating_def Let_def split: if_splits option.splits sum.splits)
  note ins = insert_operation_abs [OF i assms(2)]
  obtain s where s: "find_session l db1 = Some s" "ls_status s \<in> {Running, Expiring}"
    "abs_db db' = set_status l (ls_user_id s) Terminating (abs_db db1)"
    using move_session_abs(1) [OF m ins(2)] by auto
  have s0: "find_session l db = Some s" using s(1) ins(4) by (simp add: find_session_def)
  have "abs_db db' = add_op ?k l DESTROY_LAB (set_status l (ls_user_id s) Terminating (abs_db db))"
    by (simp add: s(3) ins(1) add_op_def set_status_def)
  moreover have "lab_step (abs_db db)
      (add_op ?k l DESTROY_LAB (set_status l (ls_user_id s) Terminating (abs_db db)))"
    using s0 s(2) False assms(2) ins(3)
    by (intro lab_step.enqueue [of _ _ _ "ls_status s"]) (auto simp: labs_find pending_idle)
  ultimately show ?thesis using move_session_abs(2) [OF m ins(2)] by (simp add: refines_step)
qed

lemma advanceOne_step:
  assumes "advanceOne flt sha l now c db = (r, db')" "db_wf db"
  shows "refines db db'"
  using advanceOne_cases [OF assms(1)]
proof cases
  case 1
  then show ?thesis using assms(2) by (simp add: refines_same)
next
  case (2 m n d src dst t)
  then show ?thesis using advance_status_step [OF 2(1) assms(2)] by blast
next
  case (3 u reason t)
  then show ?thesis by (rule advance_terminating_step [OF _ assms(2)])
qed

subsection \<open>The queue\<close>

lemma claim_active: "claimable now r \<Longrightarrow> op_active (lo_status r)"
  by (auto simp: claimable_def op_active_def)

lemma next_claim_in:
  "next_claim locked now db = Some r \<Longrightarrow> r \<in> set (operations db) \<and> claimable now r"
proof -
  assume "next_claim locked now db = Some r"
  then obtain rs where "sort_key (\<lambda>r. (lo_created_at r, lo_id r))
      (filter (\<lambda>r. claimable now r \<and> \<not> locked (lo_id r)) (operations db)) = r # rs"
    by (auto simp: next_claim_def split: list.splits)
  then have "r \<in> set (filter (\<lambda>r. claimable now r \<and> \<not> locked (lo_id r)) (operations db))"
    by (metis list.set_intros(1) set_sort)
  then show ?thesis by simp
qed

lemma Claim_step:
  assumes "Claim flt locked owner now until db = (r, db')" "db_wf db"
  shows "abs_db db' = abs_db db" "db_wf db'"
proof -
  have "abs_db db' = abs_db db \<and> db_wf db'"
  proof (cases "db' = db")
    case False
    let ?f = "\<lambda>x. x\<lparr>lo_status := OpClaimed, lo_lease_owner := Some owner,
      lo_lease_expires_at := Some until, lo_attempt_count := lo_attempt_count x + 1, lo_updated_at := now\<rparr>"
    obtain row where row: "next_claim locked now db = Some row"
      and db': "db' = db\<lparr>operations := map (\<lambda>x. if lo_id x = lo_id row then ?f x else x) (operations db)\<rparr>"
      using assms(1) False
      by (auto simp: Claim_def exec_update_def Let_def split: if_splits option.splits)
    have "x = row" if "x \<in> set (operations db)" "lo_id x = lo_id row" for x
      using assms(2) that next_claim_in [OF row] by (auto simp: db_wf_def distinct_map dest: inj_onD)
    then have "op_view (?f x) = op_view x" if "x \<in> set (operations db)" "lo_id x = lo_id row" for x
      using that claim_active next_claim_in [OF row] by (auto simp: op_view_def op_active_def)
    then show ?thesis
      using update_ops_abs [OF refl _ assms(2), of ?f "\<lambda>x. lo_id x = lo_id row"]
      by (simp add: db')
  qed (use assms(2) in simp)
  then show "abs_db db' = abs_db db" "db_wf db'" by simp_all
qed

lemma MarkRunning_step:
  assumes "MarkRunning flt rec now until db = (r, db')" "db_wf db"
  shows "abs_db db' = abs_db db" "db_wf db'"
proof -
  let ?f = "\<lambda>x. x\<lparr>lo_status := OpRunning, lo_lease_expires_at := Some until, lo_updated_at := now\<rparr>"
  let ?P = "\<lambda>x. lo_id x = rec_ID rec \<and> lo_status x = OpClaimed \<and>
    lo_lease_owner x = Some (rec_LeaseOwner rec)"
  have "db' = db \<or> db' = db\<lparr>operations := map (\<lambda>x. if ?P x then ?f x else x) (operations db)\<rparr>"
    using assms(1) by (auto simp: MarkRunning_def exec_update_def Let_def split: if_splits)
  moreover have "op_view (?f x) = op_view x" if "?P x" for x
    using that by (simp add: op_view_def op_active_def)
  ultimately show "abs_db db' = abs_db db" "db_wf db'"
    using update_ops_abs [OF refl _ assms(2), of ?f ?P] assms(2) by auto
qed

subsection \<open>Completions\<close>

text \<open>A record that a worker holds agrees with the row it was read from.\<close>

definition issued :: "Record \<Rightarrow> platform_db \<Rightarrow> bool" where
  "issued rec db = (\<forall>r \<in> set (operations db). lo_id r = rec_ID rec \<longrightarrow>
     lo_lab_id r = rec_LabID rec \<and> lo_action r = rec_Action rec)"

definition same_core :: "platform_db \<Rightarrow> platform_db \<Rightarrow> bool" where
  "same_core db db' = (sessions db' = sessions db \<and> operations db' = operations db \<and>
     next_operation db' = next_operation db)"

lemma same_core_abs: "same_core db db' \<Longrightarrow> abs_db db' = abs_db db \<and> db_wf db' = db_wf db"
  by (simp add: same_core_def abs_db_def db_wf_def)

lemma same_core_refl [simp]: "same_core db db"
  by (simp add: same_core_def)

lemma same_core_trans: "same_core a b \<Longrightarrow> same_core b c \<Longrightarrow> same_core a c"
  by (simp add: same_core_def)

lemma same_core_instances [simp]: "same_core db (db\<lparr>instances := is\<rparr>)"
  "same_core db (db\<lparr>resources := rs\<rparr>)" "same_core db (db\<lparr>resources := rs, instances := is\<rparr>)"
  by (simp_all add: same_core_def)

lemma complete_tx_cases:
  assumes "complete_tx flt bm cm app fin mv db = (e, db')"
  obtains "db' = db" "e \<noteq> None"
  | db1 db2 where "app db = Inr db1" "fin db1 = Inr db2" "mv db2 = Inr db'" "e = None"
  using assms by (auto simp: complete_tx_def split: if_splits sum.splits)

lemma completeOperationRecord_abs:
  assumes "completeOperationRecord flt rec st res ec em now db = Inr db'" "db_wf db"
    "st \<in> {OpSucceeded, OpFailed}"
  shows "\<exists>r \<in> set (operations db). lo_id r = rec_ID rec \<and> oi_active (op_view r) \<and>
      abs_db db' = end_op (rec_ID rec) (op_view r) (abs_db db)"
    "db_wf db'" "sessions db' = sessions db"
proof -
  let ?f = "\<lambda>x. x\<lparr>lo_status := st, lo_result := res, lo_error_code := nullif ec,
     lo_error_message := nullif em, lo_lease_owner := None, lo_lease_expires_at := None,
     lo_completed_at := Some now, lo_updated_at := now\<rparr>"
  obtain n ops' where e: "exec_update (\<lambda>x. lo_id x = rec_ID rec \<and> lo_status x = OpRunning \<and>
      lo_lease_owner x = Some (rec_LeaseOwner rec)) ?f (operations db) = (n, ops')" by fastforce
  then have n: "n = 1" and db': "db' = db\<lparr>operations := ops'\<rparr>"
    using assms(1) by (auto simp: completeOperationRecord_def requireOneRow_def split: if_splits)
  have f: "lo_id (?f r) = lo_id r \<and> op_view (?f r) = (op_view r)\<lparr>oi_active := False\<rparr>" for r
    using assms(3) by (auto simp: op_view_def op_active_def)
  show "\<exists>r \<in> set (operations db). lo_id r = rec_ID rec \<and> oi_active (op_view r) \<and>
      abs_db db' = end_op (rec_ID rec) (op_view r) (abs_db db)"
    "db_wf db'" "sessions db' = sessions db"
    using end_ops_abs [OF e n f assms(2)] by (auto simp: db')
qed

lemma update_session_abs:
  assumes "update_session flt m l from f db = Inr db'" "db_wf db"
    "\<And>s. ls_id (f s) = ls_id s" "\<And>s. ls_user_id (f s) = ls_user_id s"
  shows "\<exists>s. find_session l db = Some s \<and> ls_status s \<in> from \<and>
      abs_db db' = set_status l (ls_user_id s) (ls_status (f s)) (abs_db db)"
    "db_wf db'" "operations db' = operations db" "next_operation db' = next_operation db"
proof -
  obtain n ss where e: "exec_update (\<lambda>s. ls_id s = l \<and> ls_status s \<in> from) f (sessions db) = (n, ss)"
    by fastforce
  then have "n = 1" "db' = db\<lparr>sessions := ss\<rparr>"
    using assms(1) by (auto simp: update_session_def split: if_splits)
  then show "\<exists>s. find_session l db = Some s \<and> ls_status s \<in> from \<and>
      abs_db db' = set_status l (ls_user_id s) (ls_status (f s)) (abs_db db)"
    "db_wf db'" "operations db' = operations db" "next_operation db' = next_operation db"
    using update_lab_abs [OF e _ assms(3,4,2)] by simp_all
qed

text \<open>
  A completion whose result leaves the machine state alone, and which then moves the lab as the
  action allows, or leaves it where it is, is a finish step.
\<close>

lemma finish_step:
  assumes fin: "completeOperationRecord flt rec st res ec em now db1 = Inr db2"
      "st \<in> {OpSucceeded, OpFailed}"
    and app: "abs_db db1 = abs_db db" "db_wf db1" "operations db1 = operations db"
    and mv: "db_wf db'" "\<exists>u s s'. abs_labs (sessions db1) (rec_LabID rec) = Some (u, s) \<and>
        finishes (rec_Action rec) s s' \<and> abs_db db' = set_status (rec_LabID rec) u s' (abs_db db2)"
    and "issued rec db"
  shows "refines db db'"
proof -
  obtain r where r: "r \<in> set (operations db1)" "lo_id r = rec_ID rec" "oi_active (op_view r)"
    "abs_db db2 = end_op (rec_ID rec) (op_view r) (abs_db db1)"
    using completeOperationRecord_abs(1) [OF fin(1) app(2) fin(2)] by blast
  have i: "oi_lab (op_view r) = rec_LabID rec" "oi_action (op_view r) = rec_Action rec"
    using assms(8) r(1,2) app(3) by (auto simp: issued_def op_view_def)
  obtain u s s' where m: "abs_labs (sessions db1) (rec_LabID rec) = Some (u, s)"
    "finishes (rec_Action rec) s s'" "abs_db db' = set_status (rec_LabID rec) u s' (abs_db db2)"
    using mv(2) by blast
  have "ops (abs_db db1) (rec_ID rec) = Some (op_view r)"
    using r(1,2) app(2) by (auto simp: ops_Some)
  then have "lab_step (abs_db db1) (end_op (rec_ID rec) (op_view r)
      (set_status (oi_lab (op_view r)) u s' (abs_db db1)))"
    using r(3) m i by (intro lab_step.finish) simp_all
  also have "end_op (rec_ID rec) (op_view r) (set_status (oi_lab (op_view r)) u s' (abs_db db1)) =
      abs_db db'"
    by (simp add: m(3) r(4) i end_op_def set_status_def)
  finally show ?thesis using app(1) mv(1) by (simp add: refines_step)
qed

lemma upsert_instance_core: "upsert_instance i db = Some db' \<Longrightarrow> same_core db db'"
  by (auto simp: upsert_instance_def split: if_splits)

lemma persist_instances_core: "persist_instances flt l now ps db = Inr db' \<Longrightarrow> same_core db db'"
proof (induction ps arbitrary: db)
  case (Cons p ps)
  then obtain d where "upsert_instance
      (provisioned_row l p (valueOrDefault (pi_Status p) ''running'') now) db = Some d"
    "persist_instances flt l now ps d = Inr db'"
    by (auto split: if_splits option.splits)
  then show ?case using Cons.IH upsert_instance_core same_core_trans by blast
qed simp

lemma upsert_resource_core: "same_core db (upsert_resource r db)"
  by (simp add: upsert_resource_def Let_def)

lemma fold_resource_core: "same_core db (fold upsert_resource rs db)"
  by (induction rs arbitrary: db) (auto intro: same_core_trans upsert_resource_core)

lemma persistProvisionResult_core:
  assumes "persistProvisionResult flt rec v now db = Inr db'"
  shows "same_core db db'"
proof -
  let ?d = "db\<lparr>resources := snd (exec_delete (\<lambda>r. lr_lab_id r = rec_LabID rec) (resources db)),
    instances := snd (exec_delete (\<lambda>i. li_lab_id i = rec_LabID rec) (instances db))\<rparr>"
  obtain db1 where p: "persist_instances flt (rec_LabID rec) now (pv_Instances v) ?d = Inr db1"
    and db': "db' = fold upsert_resource (map (resource_of (rec_LabID rec) now)
       (provision_resources (rec_LabID rec) v)) db1"
    using assms by (auto simp: persistProvisionResult_def Let_def split: if_splits sum.splits)
  have "same_core db ?d" by simp
  then have "same_core db db1" by (rule same_core_trans) (rule persist_instances_core [OF p])
  then show ?thesis unfolding db' by (rule same_core_trans) (rule fold_resource_core)
qed

lemma mark_core [simp]: "same_core db (mark_instances l st now db)" "same_core db (mark_resources l st now db)"
  by (simp_all add: mark_instances_def mark_resources_def)

lemma persistWeights_core: "persistWeights flt l ws now db = Inr db' \<Longrightarrow> same_core db db'"
proof (induction ws arbitrary: db)
  case (Cons w ws)
  then obtain ins where "persistWeights flt l ws now (db\<lparr>instances := ins\<rparr>) = Inr db'"
    by (auto simp: Let_def split: if_splits prod.splits)
  then show ?case using Cons.IH same_core_instances(1) same_core_trans by blast
qed simp

text \<open>The lab is moved by one update of its row, after changes the machine does not see.\<close>

lemma finish_move:
  assumes "complete_tx flt bm cm app (completeOperationRecord flt rec st res ec em now) mv db = (e, db')"
    and app: "\<And>d. app db = Inr d \<Longrightarrow> abs_db d = abs_db db \<and> db_wf d \<and> operations d = operations db"
    and mv: "\<And>d. mv d = Inr db' \<Longrightarrow> \<exists>d'. same_core d d' \<and> update_session flt m (rec_LabID rec) src f d' = Inr db'"
    and st: "st \<in> {OpSucceeded, OpFailed}" and wf: "db_wf db" and iss: "issued rec db"
    and f: "\<And>s. ls_id (f s) = ls_id s" "\<And>s. ls_user_id (f s) = ls_user_id s"
      "\<And>s. ls_status s \<in> src \<Longrightarrow> finishes (rec_Action rec) (ls_status s) (ls_status (f s))"
  shows "refines db db'"
  using assms(1)
proof (cases rule: complete_tx_cases)
  case 1
  then show ?thesis using wf by (simp add: refines_same)
next
  case (2 db1 db2)
  note a = app [OF 2(1)]
  note r = completeOperationRecord_abs [OF 2(2) _ st]
  obtain d' where d': "same_core db2 d'" "update_session flt m (rec_LabID rec) src f d' = Inr db'"
    using mv [OF 2(3)] by blast
  have wf2: "db_wf d'" "abs_db d' = abs_db db2" using same_core_abs [OF d'(1)] r(2) a by simp_all
  obtain s where s: "find_session (rec_LabID rec) d' = Some s" "ls_status s \<in> src"
    "abs_db db' = set_status (rec_LabID rec) (ls_user_id s) (ls_status (f s)) (abs_db d')"
    using update_session_abs(1) [OF d'(2) wf2(1) f(1,2)] by blast
  have "sessions d' = sessions db1" using d'(1) r(3) a by (simp add: same_core_def)
  then have "abs_labs (sessions db1) (rec_LabID rec) = Some (ls_user_id s, ls_status s)"
    using s(1) labs_find [of d' "rec_LabID rec"] by simp
  then show ?thesis
    using finish_step [OF 2(2) st _ _ _ update_session_abs(2) [OF d'(2) wf2(1) f(1,2)] _ iss] a s f(3) wf2(2)
    by metis
qed

lemma finish_stay:
  assumes "complete_tx flt bm cm app (completeOperationRecord flt rec st res ec em now) Inr db = (e, db')"
    and app: "\<And>d. app db = Inr d \<Longrightarrow> abs_db d = abs_db db \<and> db_wf d \<and> operations d = operations db"
    and st: "st \<in> {OpSucceeded, OpFailed}" and wf: "db_wf db" and iss: "issued rec db"
    and inv: "lab_inv (abs_db db)" and f: "\<And>s. finishes (rec_Action rec) s s"
  shows "refines db db'"
  using assms(1)
proof (cases rule: complete_tx_cases)
  case 1
  then show ?thesis using wf by (simp add: refines_same)
next
  case (2 db1 db2)
  note a = app [OF 2(1)]
  have wf1: "db_wf db1" using a by simp
  note r = completeOperationRecord_abs [OF 2(2) wf1 st]
  obtain row where row: "row \<in> set (operations db)" "lo_id row = rec_ID rec" using r(1) a by metis
  then have "ops (abs_db db) (rec_ID rec) = Some (op_view row)" using wf by (auto simp: ops_Some)
  then have "labs (abs_db db) (oi_lab (op_view row)) \<noteq> None"
    using inv unfolding lab_inv_def table_inv_def by blast
  moreover have "oi_lab (op_view row) = rec_LabID rec" using row iss by (simp add: issued_def op_view_def)
  ultimately obtain u s where us: "labs (abs_db db) (rec_LabID rec) = Some (u, s)" by auto
  have "labs (abs_db db1) = labs (abs_db db)" using a by simp
  then have us1: "abs_labs (sessions db1) (rec_LabID rec) = Some (u, s)" using us by simp
  then have "abs_labs (sessions db2) (rec_LabID rec) = Some (u, s)" using r(3) by simp
  then have "abs_db db' = set_status (rec_LabID rec) u s (abs_db db2)"
    using 2(3) by (simp add: set_status_def abs_db_def fun_upd_idem)
  then have "\<exists>u s s'. abs_labs (sessions db1) (rec_LabID rec) = Some (u, s) \<and>
      finishes (rec_Action rec) s s' \<and> abs_db db' = set_status (rec_LabID rec) u s' (abs_db db2)"
    using us1 f by blast
  then show ?thesis using finish_step [OF 2(2) st _ _ _ _ _ iss] a r(2) 2(3) by simp
qed

lemma same_core_app:
  "same_core db d \<Longrightarrow> db_wf db \<Longrightarrow> abs_db d = abs_db db \<and> db_wf d \<and> operations d = operations db"
  using same_core_abs [of db d] by (simp add: same_core_def)

lemma provision_app:
  assumes "(if ec = [] then persistProvisionResult flt rec v now db else Inr db) = Inr d" "db_wf db"
  shows "abs_db d = abs_db db \<and> db_wf d \<and> operations d = operations db"
proof -
  have "same_core db d"
    using assms(1) persistProvisionResult_core [of flt rec v now db d] by (cases "ec = []") simp_all
  then show ?thesis using assms(2) by (rule same_core_app)
qed

lemma core_ex: "P d \<Longrightarrow> \<exists>d'. same_core d d' \<and> P d'"
  by (intro exI [of _ d]) simp

lemma mark_ex: "P (mark_resources l a now (mark_instances l b now d)) \<Longrightarrow> \<exists>d'. same_core d d' \<and> P d'"
  by (intro exI [of _ "mark_resources l a now (mark_instances l b now d)"])
    (simp add: same_core_trans [OF mark_core(1) mark_core(2)])

lemma end_status: "(if b then OpSucceeded else OpFailed) \<in> {OpSucceeded, OpFailed}"
  by simp

lemma CompleteProvision_step:
  assumes "CompleteProvision flt rec v ec em now db = (e, db')" "db_wf db" "issued rec db"
    "rec_Action rec = CREATE_LAB"
  shows "refines db db'"
proof (cases "ec = []")
  case True
  show ?thesis
    by (rule finish_move [OF assms(1) [unfolded CompleteProvision_def] provision_app _ end_status assms(2,3),
        where src = "{Preparing}" and m = "''transition provisioned lab''"
          and f = "\<lambda>s. s\<lparr>ls_status := Running, ls_mysql_db_name := Some (pv_DatabaseName v),
            ls_mysql_db_user := Some (pv_DatabaseUser v), ls_redis_enabled := (pv_Redis v \<noteq> None),
            ls_started_at := Some now, ls_last_effective_action_at := Some now, ls_updated_at := now\<rparr>"])
      (use assms(2,4) True core_ex in \<open>auto simp del: not_None_eq\<close>)
next
  case False
  show ?thesis
    by (rule finish_move [OF assms(1) [unfolded CompleteProvision_def] provision_app _ end_status assms(2,3),
        where src = "{Preparing}" and m = "''fail provisioned lab''"
          and f = "\<lambda>s. s\<lparr>ls_status := Failed, ls_updated_at := now\<rparr>"])
      (use assms(2,4) False core_ex in \<open>auto simp del: not_None_eq\<close>)
qed

lemma CompleteReset_step:
  assumes "CompleteReset flt rec v ec em now db = (e, db')" "db_wf db" "issued rec db"
    "rec_Action rec = RESET_LAB"
  shows "refines db db'"
proof (cases "ec = []")
  case True
  show ?thesis
    by (rule finish_move [OF assms(1) [unfolded CompleteReset_def] provision_app _ end_status assms(2,3),
        where src = "{Running, Expiring}" and m = "''complete reset lab transition''"
          and f = "\<lambda>s. s\<lparr>ls_status := Running, ls_mysql_db_name := Some (pv_DatabaseName v),
            ls_mysql_db_user := Some (pv_DatabaseUser v), ls_redis_enabled := (pv_Redis v \<noteq> None),
            ls_last_effective_action_at := Some now, ls_updated_at := now\<rparr>"])
      (use assms(2,4) True core_ex in \<open>auto simp del: not_None_eq\<close>)
next
  case False
  show ?thesis
    by (rule finish_move [OF assms(1) [unfolded CompleteReset_def] provision_app _ end_status assms(2,3),
        where src = "{Running, Expiring}" and m = "''fail reset lab transition''"
          and f = "\<lambda>s. s\<lparr>ls_status := Failed, ls_updated_at := now\<rparr>"])
      (use assms(2,4) False mark_ex in \<open>auto split: if_splits\<close>)
qed

lemma CompleteDestroy_step:
  assumes "CompleteDestroy flt rec ec em now db = (e, db')" "db_wf db" "issued rec db"
    "rec_Action rec = DESTROY_LAB"
  shows "refines db db'"
proof (cases "ec = []")
  case True
  show ?thesis
    by (rule finish_move [OF assms(1) [unfolded CompleteDestroy_def] _ _ end_status assms(2,3),
        where src = "{Terminating}" and m = "''complete destroy lab transition''"
          and f = "\<lambda>s. s\<lparr>ls_status := Terminated, ls_terminated_at := Some now,
            ls_termination_reason := (case ls_termination_reason s of
              None \<Rightarrow> Some ''user_requested'' | Some r \<Rightarrow> Some r), ls_updated_at := now\<rparr>"])
      (use assms(2,4) True mark_ex in \<open>auto split: if_splits\<close>)
next
  case False
  show ?thesis
    by (rule finish_move [OF assms(1) [unfolded CompleteDestroy_def] _ _ end_status assms(2,3),
        where src = "{Terminating}" and m = "''fail destroy lab transition''"
          and f = "\<lambda>s. s\<lparr>ls_status := Failed, ls_termination_reason := Some ''destroy_failed'',
            ls_updated_at := now\<rparr>"])
      (use assms(2,4) False mark_ex in \<open>auto split: if_splits\<close>)
qed

end
