(* ===== verification/Leases.thy ===== *)
theory Leases
  imports Persistence
begin

text \<open>
  What the operation queue guarantees to its workers,
  \<^verbatim>\<open>services/platform-api/internal/operation/repository.go\<close>: claims are made in the order of the queue
  and only on operations that wait or whose lease expired, a worker that lost its lease cannot
  complete the operation, and the result of a provision is
  what a snapshot shows.
\<close>

subsection \<open>Claims\<close>

lemma next_claim_Some:
  assumes "next_claim locked now db = Some r"
  shows "r \<in> set (operations db)" "claimable now r" "\<not> locked (lo_id r)"
    "\<And>q. q \<in> set (operations db) \<Longrightarrow> claimable now q \<Longrightarrow> \<not> locked (lo_id q) \<Longrightarrow>
       (lo_created_at r, lo_id r) \<le> (lo_created_at q, lo_id q)"
proof -
  let ?xs = "filter (\<lambda>r. claimable now r \<and> \<not> locked (lo_id r)) (operations db)"
  let ?f = "\<lambda>r. (lo_created_at r, lo_id r)"
  obtain rest where s: "sort_key ?f ?xs = r # rest"
    using assms by (auto simp: next_claim_def split: list.splits)
  have "r \<in> set (sort_key ?f ?xs)" by (simp only: s list.set_intros)
  then have "r \<in> set ?xs" by simp
  then show "r \<in> set (operations db)" "claimable now r" "\<not> locked (lo_id r)" by simp_all
  show "?f r \<le> ?f q" if "q \<in> set (operations db)" "claimable now q" "\<not> locked (lo_id q)" for q
    using sort_key_hd_least [OF s] that by simp
qed

lemma next_claim_None:
  "next_claim locked now db = None \<longleftrightarrow>
     (\<forall>q \<in> set (operations db). claimable now q \<longrightarrow> locked (lo_id q))"
proof -
  let ?xs = "filter (\<lambda>r. claimable now r \<and> \<not> locked (lo_id r)) (operations db)"
  let ?s = "sort_key (\<lambda>r. (lo_created_at r, lo_id r)) ?xs"
  have "next_claim locked now db = None \<longleftrightarrow> ?s = []" unfolding next_claim_def by (cases ?s) simp_all
  also have "\<dots> \<longleftrightarrow> ?xs = []" by (rule sort_key_Nil)
  finally show ?thesis by (auto simp: filter_empty_conv)
qed

lemma Claim_Inr:
  assumes "Claim flt locked owner now until db = (Inr rec, db')"
  obtains r where "next_claim locked now db = Some r" "rec_ID rec = lo_id r" "rec_LeaseOwner rec = owner"
    "operations db' = map (\<lambda>x. if lo_id x = lo_id r then x\<lparr>lo_status := OpClaimed,
       lo_lease_owner := Some owner, lo_lease_expires_at := Some until,
       lo_attempt_count := lo_attempt_count x + 1, lo_updated_at := now\<rparr> else x) (operations db)"
  using assms
  by (auto simp: Claim_def exec_update_def Let_def split: if_splits option.splits)

text \<open>
  A worker claims the oldest operation that waits or whose lease has expired, among those
  no other worker is claiming at the moment: never one whose lease still runs. When there is such
  an operation and the database does not fail, the claim succeeds, and it gives the worker a lease
  on it.
\<close>

theorem claim_oldest_free:
  assumes "distinct (map lo_id (operations db))"
    and "\<forall>m \<in> {''begin claim operation transaction'', ''select operation for claim'', ''claim operation'',
      ''commit claim operation''}. \<not> flt m"
    and "q \<in> set (operations db)" "claimable now q" "\<not> locked (lo_id q)"
  shows "\<exists>rec db' r. Claim flt locked owner now until db = (Inr rec, db') \<and> r \<in> set (operations db) \<and>
    rec_ID rec = lo_id r \<and> claimable now r \<and> (lo_created_at r, lo_id r) \<le> (lo_created_at q, lo_id q) \<and>
    (\<exists>x \<in> set (operations db'). lo_id x = lo_id r \<and> lo_status x = OpClaimed \<and>
       lo_lease_owner x = Some owner \<and> lo_lease_expires_at x = Some until)"
proof -
  obtain r where r: "next_claim locked now db = Some r"
    using assms(3-5) next_claim_None [of locked now db] by (metis not_None_eq)
  note n = next_claim_Some [OF r]
  let ?f = "\<lambda>x. x\<lparr>lo_status := OpClaimed, lo_lease_owner := Some owner, lo_lease_expires_at := Some until,
     lo_attempt_count := lo_attempt_count x + 1, lo_updated_at := now\<rparr>"
  have ne: "?f x \<noteq> x" for x :: operation_row
  proof
    assume "?f x = x"
    then have "lo_attempt_count (?f x) = lo_attempt_count x" by (rule arg_cong)
    then show False by simp
  qed
  have "filter (\<lambda>x. lo_id x = lo_id r \<and> ?f x \<noteq> x) (operations db) = [r]"
  proof -
    have "filter (\<lambda>x. lo_id x = lo_id r) (operations db) = [r]"
      using assms(1) n(1) by (rule distinct_key_filter)
    then show ?thesis using ne by (simp only: not_False_eq_True simp_thms)
  qed
  then have "fst (Claim flt locked owner now until db) \<noteq> Inl e" for e
    using assms(2) r by (simp add: Claim_def exec_update_def requireOneRow_def)
  then obtain rec db' where c: "Claim flt locked owner now until db = (Inr rec, db')"
    by (metis fst_conv obj_sumE surj_pair)
  then obtain r' where "next_claim locked now db = Some r'" "rec_ID rec = lo_id r'"
    and o: "operations db' = map (\<lambda>x. if lo_id x = lo_id r' then ?f x else x) (operations db)"
    by (rule Claim_Inr)
  then have "?f r \<in> set (operations db')" "rec_ID rec = lo_id r" using n(1) r by auto
  then show ?thesis using c n(1,2) n(4) [OF assms(3-5)]
    by (intro exI [of _ rec] exI [of _ db'] exI [of _ r] conjI bexI [of _ "?f r"]) simp_all
qed

subsection \<open>Completions\<close>

text \<open>The six ways an operation ends.\<close>

datatype completion = DoneProvision ProvisionResult | DoneReset ProvisionResult | DoneDestroy
  | DoneTopology TopologyResult | DoneCache CacheOpResult | DoneFailure

fun finish_with ::
  "completion \<Rightarrow> fault \<Rightarrow> Record \<Rightarrow> string \<Rightarrow> string \<Rightarrow> gotime \<Rightarrow> platform_db \<Rightarrow> lab_error option \<times> platform_db" where
  "finish_with (DoneProvision v) flt rec ec em now db = CompleteProvision flt rec v ec em now db"
| "finish_with (DoneReset v) flt rec ec em now db = CompleteReset flt rec v ec em now db"
| "finish_with DoneDestroy flt rec ec em now db = CompleteDestroy flt rec ec em now db"
| "finish_with (DoneTopology v) flt rec ec em now db = CompleteTopology flt rec v ec em now db"
| "finish_with (DoneCache v) flt rec ec em now db = CompleteCache flt rec v ec em now db"
| "finish_with DoneFailure flt rec ec em now db = CompleteFailure flt rec ec em now db"

definition leased :: "Record \<Rightarrow> platform_db \<Rightarrow> bool" where
  "leased rec db = (\<exists>x \<in> set (operations db). lo_id x = rec_ID rec \<and> lo_status x = OpRunning \<and>
     lo_lease_owner x = Some (rec_LeaseOwner rec))"

lemma exec_update_none: "\<forall>x \<in> set rows. \<not> P x \<Longrightarrow> exec_update P f rows = (0, rows)"
  by (induction rows) (auto simp: exec_update_def)

lemma not_leased_update:
  assumes "\<not> leased rec db"
  shows "exec_update (\<lambda>x. lo_id x = rec_ID rec \<and> lo_status x = OpRunning \<and>
      lo_lease_owner x = Some (rec_LeaseOwner rec)) f (operations db) = (0, operations db)"
  using assms by (intro exec_update_none) (auto simp: leased_def)

lemma completeOperationRecord_leased:
  assumes "completeOperationRecord flt rec st res ec em now db = Inr db'"
  shows "leased rec db"
proof (rule ccontr)
  assume "\<not> leased rec db"
  from assms not_leased_update [OF this] show False
    by (simp add: completeOperationRecord_def requireOneRow_def split: if_splits)
qed

lemma complete_tx_not_leased:
  assumes "\<And>d. app db = Inr d \<Longrightarrow> operations d = operations db" "\<not> leased rec db"
  shows "\<exists>e. complete_tx flt bm cm app (completeOperationRecord flt rec st res ec em now) mv db = (Some e, db)"
proof -
  have "\<not> leased rec d" if "app db = Inr d" for d using assms that by (simp add: leased_def)
  then have "\<exists>e. completeOperationRecord flt rec st res ec em now d = Inl e" if "app db = Inr d" for d
    using that completeOperationRecord_leased by (metis sum.exhaust)
  then show ?thesis by (fastforce simp: complete_tx_def split: sum.splits)
qed

lemma applied_operations:
  "(if ec = [] then persistProvisionResult flt rec v now db else Inr db) = Inr d \<Longrightarrow> operations d = operations db"
  "(if ec = [] then applyTopologyResult flt rec tv now db else Inr db) = Inr d \<Longrightarrow> operations d = operations db"
  "(if ec = [] then applyCacheResult flt rec cv now db else Inr db) = Inr d \<Longrightarrow> operations d = operations db"
  subgoal by (cases "ec = []") (auto dest: persistProvisionResult_core simp: same_core_def)
  subgoal
    by (cases "ec = []") (auto simp: applyTopologyResult_def update_session_def exec_update_def exec_delete_def
        same_core_def Let_def dest: persistWeights_core split: action.splits option.splits if_splits)
  subgoal
    by (cases "ec = []") (auto simp: applyCacheResult_def Let_def split: action.splits option.splits if_splits)
  done

lemma finish_not_leased:
  assumes "\<not> leased rec db"
  shows "\<exists>e. finish_with k flt rec ec em now db = (Some e, db)"
proof (cases k)
  case (DoneProvision v)
  then show ?thesis
    by (simp only: finish_with.simps CompleteProvision_def) (intro complete_tx_not_leased applied_operations assms; assumption)
next
  case (DoneReset v)
  then show ?thesis
    by (simp only: finish_with.simps CompleteReset_def) (intro complete_tx_not_leased applied_operations assms; assumption)
next
  case DoneDestroy
  then show ?thesis
    by (simp only: finish_with.simps CompleteDestroy_def) (intro complete_tx_not_leased assms; simp)
next
  case (DoneTopology v)
  then show ?thesis
    by (simp only: finish_with.simps CompleteTopology_def) (intro complete_tx_not_leased applied_operations assms; assumption)
next
  case (DoneCache v)
  then show ?thesis
    by (simp only: finish_with.simps CompleteCache_def) (intro complete_tx_not_leased applied_operations assms; assumption)
next
  case DoneFailure
  then show ?thesis
    using not_leased_update [OF assms] by (simp add: CompleteFailure_def requireOneRow_def)
qed

text \<open>
  Claim C18. A worker that lost its lease cannot complete the operation any more: once the operation
  is leased to another worker, every completion with the old record fails and changes nothing,
  neither the operation nor the lab.
\<close>

theorem stale_worker_fenced:
  assumes "distinct (map lo_id (operations db))" "x \<in> set (operations db)" "lo_id x = rec_ID rec"
    "lo_lease_owner x \<noteq> Some (rec_LeaseOwner rec)"
  shows "\<exists>e. finish_with k flt rec ec em now db = (Some e, db)"
proof (rule finish_not_leased)
  have "y = x" if "y \<in> set (operations db)" "lo_id y = rec_ID rec" for y
    using assms(1-3) that by (metis distinct_map inj_onD)
  then show "\<not> leased rec db" using assms(4) by (auto simp: leased_def)
qed

lemma update_session_operations: "update_session flt m l from f db = Inr db' \<Longrightarrow> operations db' = operations db"
  by (auto simp: update_session_def Let_def split: if_splits prod.splits)

lemma mark_operations [simp]:
  "operations (mark_instances l st now db) = operations db" "operations (mark_resources l st now db) = operations db"
  by (simp_all add: mark_instances_def mark_resources_def)

subsection \<open>Results\<close>

lemma completeOperationRecord_instances:
  "completeOperationRecord flt rec st res ec em now db = Inr db' \<Longrightarrow> instances db' = instances db \<and> sessions db' = sessions db"
  by (auto simp: completeOperationRecord_def exec_update_def split: if_splits option.splits)

text \<open>
  A cache action is recorded as successful only while its lab is \<open>Running\<close>: when the lab
  was moved to \<open>Expiring\<close> while the action ran, the completion fails, however often it is retried,
  and leaves the operation as it was.
\<close>

theorem cache_completion_needs_running:
  assumes "\<forall>s \<in> set (sessions db). ls_id s = rec_LabID rec \<longrightarrow> ls_status s \<noteq> Running"
  shows "\<exists>e. CompleteCache flt rec v [] em now db = (Some e, db)"
proof -
  obtain e db' where c: "CompleteCache flt rec v [] em now db = (e, db')" by fastforce
  from c [unfolded CompleteCache_def] show ?thesis
  proof (rule complete_tx_cases, goal_cases)
    case 1
    then show ?case using c by auto
  next
    case (2 d1 d2)
    have "sessions d1 = sessions db" using 2(1) by (auto simp: applyCacheResult_def Let_def
        split: action.splits option.splits if_splits)
    then have "\<forall>s \<in> set (sessions d2). \<not> (ls_id s = rec_LabID rec \<and> ls_status s \<in> {Running})"
      using assms completeOperationRecord_instances [OF 2(2)] by simp
    from exec_update_none [OF this] show ?case using 2(3) by (auto simp: update_session_def split: if_splits)
  qed
qed

lemma persist_instances_fresh:
  assumes "persist_instances flt l now ps db = Inr db'"
    "distinct (map pi_InstanceName ps)" "distinct (map pi_ContainerID ps)"
    "\<forall>p \<in> set ps. \<forall>i \<in> set (instances db). \<not> (li_lab_id i = l \<and> li_instance_name i = pi_InstanceName p) \<and>
       li_container_id i \<noteq> Some (pi_ContainerID p)"
  shows "instances db' = instances db @
    map (\<lambda>p. provisioned_row l p (valueOrDefault (pi_Status p) ''running'') now) ps"
  using assms
proof (induction ps arbitrary: db)
  case (Cons p ps)
  let ?row = "provisioned_row l p (valueOrDefault (pi_Status p) ''running'') now"
  have row: "li_lab_id ?row = l" "li_instance_name ?row = pi_InstanceName p"
    "li_container_id ?row = Some (pi_ContainerID p)" by (simp_all add: provisioned_row_def)
  have "\<not> name_taken ?row db" "\<not> container_taken ?row db"
    using Cons.prems(4) by (auto simp: name_taken_def instance_exists_def container_taken_def row)
  then have u: "upsert_instance ?row db = (if instance_check ?row then Some (db\<lparr>instances := instances db @ [?row]\<rparr>) else None)"
    by (simp add: upsert_instance_def)
  then have p: "persist_instances flt l now ps (db\<lparr>instances := instances db @ [?row]\<rparr>) = Inr db'"
    using Cons.prems(1) by (auto split: if_splits)
  have "\<forall>q \<in> set ps. \<forall>i \<in> set (instances (db\<lparr>instances := instances db @ [?row]\<rparr>)).
      \<not> (li_lab_id i = l \<and> li_instance_name i = pi_InstanceName q) \<and> li_container_id i \<noteq> Some (pi_ContainerID q)"
  proof (intro ballI)
    fix q i assume q: "q \<in> set ps" and i: "i \<in> set (instances (db\<lparr>instances := instances db @ [?row]\<rparr>))"
    have "pi_InstanceName q \<noteq> pi_InstanceName p" "pi_ContainerID q \<noteq> pi_ContainerID p"
      using q Cons.prems(2,3) by (auto simp: image_iff)
    then show "\<not> (li_lab_id i = l \<and> li_instance_name i = pi_InstanceName q) \<and> li_container_id i \<noteq> Some (pi_ContainerID q)"
      using i q row Cons.prems(4) by (cases "i = ?row") auto
  qed
  from Cons.IH [OF p _ _ this] show ?case using Cons.prems(2,3) by simp
qed simp

lemma upsert_resource_instances [simp]: "instances (fold upsert_resource rs db) = instances db"
  by (induction rs arbitrary: db) (simp_all add: upsert_resource_def Let_def)

lemma update_session_found:
  assumes "update_session flt m l src f db = Inr db'" "distinct (map ls_id (sessions db))" "\<And>s. ls_id (f s) = ls_id s"
  obtains s where "find_session l db = Some s" "ls_status s \<in> src" "find_session l db' = Some (f s)"
    "instances db' = instances db"
proof -
  let ?P = "\<lambda>s. ls_id s = l \<and> ls_status s \<in> src"
  have n: "length (filter (\<lambda>s. ?P s \<and> f s \<noteq> s) (sessions db)) = 1"
    and d: "db' = db\<lparr>sessions := map (\<lambda>s. if ?P s then f s else s) (sessions db)\<rparr>"
    using assms(1) by (auto simp: update_session_def exec_update_def split: if_splits)
  have "\<exists>s \<in> set (sessions db). ?P s"
  proof (rule ccontr)
    assume "\<not> ?thesis"
    then have "filter (\<lambda>s. ?P s \<and> f s \<noteq> s) (sessions db) = []" by (auto simp: filter_empty_conv)
    then show False using n by simp
  qed
  then obtain s where s: "s \<in> set (sessions db)" "?P s" by blast
  then have "find_session l db = Some s"
    using find_by_key [OF assms(2)] by (simp add: find_session_def)
  moreover have "find_session l db' = Some (f s)"
    using calculation s(2) find_update [of ls_id f l ?P "sessions db"] assms(3)
    by (simp add: d find_session_def)
  ultimately show ?thesis using that s(2) by (simp add: d)
qed

text \<open>
  What the orchestrator reports is what the platform shows: after a provision that was
  completed, the snapshot of the lab has it running and lists exactly the reported instances, in
  the order of their names, with the reported container, speed, capacity and weight, provided the
  orchestrator reports distinct names and containers that no other lab uses.
\<close>

theorem provision_snapshot:
  assumes c: "CompleteProvision flt rec v [] em now db = (None, db')"
    and wf: "distinct (map ls_id (sessions db))"
    and names: "distinct (map pi_InstanceName (pv_Instances v))" "distinct (map pi_ContainerID (pv_Instances v))"
    and fresh: "\<forall>p \<in> set (pv_Instances v). \<forall>i \<in> set (instances db). li_lab_id i \<noteq> rec_LabID rec \<longrightarrow>
      li_container_id i \<noteq> Some (pi_ContainerID p)"
    and s: "find_session (rec_LabID rec) db = Some s"
  shows "\<exists>sn. FindSnapshot (\<lambda>_. False) (rec_LabID rec) (ls_user_id s) db' = Inr sn \<and>
    se_Status (sn_Lab sn) = Running \<and> se_StartedAt (sn_Lab sn) = Some now \<and>
    sn_Instances sn = map scanInstance (sort_key li_instance_name
      (map (\<lambda>p. provisioned_row (rec_LabID rec) p (valueOrDefault (pi_Status p) ''running'') now) (pv_Instances v)))"
proof -
  let ?l = "rec_LabID rec"
  let ?d = "db\<lparr>resources := snd (exec_delete (\<lambda>r. lr_lab_id r = ?l) (resources db)),
    instances := snd (exec_delete (\<lambda>i. li_lab_id i = ?l) (instances db))\<rparr>"
  let ?rows = "map (\<lambda>p. provisioned_row ?l p (valueOrDefault (pi_Status p) ''running'') now) (pv_Instances v)"
  let ?f = "\<lambda>s. s\<lparr>ls_status := Running, ls_mysql_db_name := Some (pv_DatabaseName v),
     ls_mysql_db_user := Some (pv_DatabaseUser v), ls_redis_enabled := (pv_Redis v \<noteq> None),
     ls_started_at := Some now, ls_last_effective_action_at := Some now, ls_updated_at := now\<rparr>"
  obtain d1 d2 where d1: "persistProvisionResult flt rec v now db = Inr d1"
    and d2: "completeOperationRecord flt rec OpSucceeded (Some OtherResult) [] em now d1 = Inr d2"
    and u: "update_session flt ''transition provisioned lab'' ?l {Preparing} ?f d2 = Inr db'"
    using c unfolding CompleteProvision_def by (rule complete_tx_cases) simp_all
  obtain e where e: "persist_instances flt ?l now (pv_Instances v) ?d = Inr e" and i1: "instances d1 = instances e"
    using d1 by (auto simp: persistProvisionResult_def Let_def split: if_splits sum.splits)
  have "instances e = instances ?d @ ?rows"
    using persist_instances_fresh [OF e names] fresh by (simp add: exec_delete_def)
  moreover have "sessions d2 = sessions db" "instances d2 = instances e"
    using completeOperationRecord_instances [OF d2] persistProvisionResult_core [OF d1] i1
    by (simp_all add: same_core_def)
  moreover obtain s' where "find_session ?l d2 = Some s'" "find_session ?l db' = Some (?f s')" "instances db' = instances d2"
    using update_session_found [OF u] wf \<open>sessions d2 = sessions db\<close> by auto
  ultimately have "find_session ?l db' = Some (?f s)" "instances db' = instances ?d @ ?rows"
    using s by (simp_all add: find_session_def)
  moreover have "filter (\<lambda>i. li_lab_id i = ?l) (instances ?d @ ?rows) = ?rows"
    by (simp add: exec_delete_def provisioned_row_def filter_map comp_def filter_empty_conv)
  ultimately show ?thesis by (simp add: FindSnapshot_def Let_def scanSession_def)
qed

subsection \<open>Samples\<close>

definition leased_row :: "action \<Rightarrow> payload \<Rightarrow> string \<Rightarrow> operation_row" where
  "leased_row a pl owner = \<lparr>lo_id = 1, lo_operation_id = ''op-1'', lo_lab_id = ''lab-1'', lo_requested_by = 7,
     lo_action = a, lo_target_instance_id = None, lo_status = OpRunning, lo_payload = pl, lo_result = None,
     lo_error_code = None, lo_error_message = None, lo_lease_owner = Some owner,
     lo_lease_expires_at = Some 500, lo_attempt_count = 1, lo_created_at = 0, lo_updated_at = 100,
     lo_completed_at = None\<rparr>"

definition leased_db :: "Status \<Rightarrow> operation_row \<Rightarrow> platform_db" where
  "leased_db st r = \<lparr>users = [], courses = [], progress = [],
     sessions = [\<lparr>ls_id = ''lab-1'', ls_user_id = 7, ls_course_id = 2, ls_scenario_type = ''multi_level_cache'',
       ls_scenario_template_id = ''t'', ls_status = st, ls_balancing_mode = ''fixed'', ls_mysql_db_name = None,
       ls_mysql_db_user = None, ls_redis_enabled = False, ls_started_at = None,
       ls_last_effective_action_at = None, ls_terminated_at = None, ls_termination_reason = None,
       ls_created_at = 0, ls_updated_at = 0\<rparr>],
     instances = [], resources = [], operations = [r], next_operation = 2\<rparr>"

definition leased_record :: "operation_row \<Rightarrow> string \<Rightarrow> Record" where
  "leased_record r owner = \<lparr>rec_ID = lo_id r, rec_OperationID = lo_operation_id r, rec_LabID = lo_lab_id r,
     rec_RequestedBy = lo_requested_by r, rec_Action = lo_action r, rec_Payload = lo_payload r,
     rec_Status = OpClaimed, rec_LeaseOwner = owner, rec_LeaseExpires = 500, rec_AttemptCount = 1,
     rec_CreatedAt = 0\<rparr>"

definition create_row :: operation_row where
  "create_row = leased_row CREATE_LAB (CreatePayload 2 ''multi_level_cache'' ''t'' 1 True) ''w1''"

definition sample_result :: ProvisionResult where
  "sample_result = \<lparr>pv_LabID = ''lab-1'', pv_ScenarioTemplateID = ''t'', pv_DatabaseName = ''d'',
     pv_DatabaseUser = ''du'', pv_NetworkID = ''n'', pv_NetworkName = ''nn'',
     pv_Instances = [\<lparr>pi_InstanceName = ''app-1'', pi_ContainerID = ''c1'', pi_ContainerName = ''cn1'',
       pi_Status = ''running'', pi_CPULimitCores = 1, pi_MemoryLimitMB = 64, pi_PerformancePercent = 100,
       pi_ProcessingSpeed = 10, pi_MaxLoad = 100, pi_CurrentWeight = 100\<rparr>], pv_Redis = None\<rparr>"

theorem claim_oldest_free_witness:
  "\<exists>rec db'. Claim (\<lambda>_. False) (\<lambda>_. False) ''w2'' 600 900 (leased_db Preparing create_row) = (Inr rec, db')"
proof -
  have "distinct (map lo_id (operations (leased_db Preparing create_row)))"
    "\<forall>m \<in> {''begin claim operation transaction'', ''select operation for claim'', ''claim operation'',
      ''commit claim operation''}. \<not> (\<lambda>_. False) m"
    "create_row \<in> set (operations (leased_db Preparing create_row))" "claimable 600 create_row"
    "\<not> (\<lambda>_. False) (lo_id create_row)"
    by (simp_all add: leased_db_def create_row_def leased_row_def claimable_def)
  from claim_oldest_free [where db = "leased_db Preparing create_row" and q = create_row and now = 600 and locked = "\<lambda>_. False", OF this]
  show ?thesis by blast
qed

theorem stale_worker_fenced_witness:
  "\<exists>e. CompleteProvision (\<lambda>_. False) (leased_record create_row ''w2'') sample_result [] [] 300
     (leased_db Preparing create_row) = (Some e, leased_db Preparing create_row)"
proof -
  have "distinct (map lo_id (operations (leased_db Preparing create_row)))"
    "create_row \<in> set (operations (leased_db Preparing create_row))"
    "lo_id create_row = rec_ID (leased_record create_row ''w2'')"
    "lo_lease_owner create_row \<noteq> Some (rec_LeaseOwner (leased_record create_row ''w2''))"
    by (simp_all add: leased_db_def create_row_def leased_row_def leased_record_def)
  from stale_worker_fenced [OF this, of "DoneProvision sample_result"] show ?thesis by simp
qed

lemma sample_provision:
  "fst (CompleteProvision (\<lambda>_. False) (leased_record create_row ''w1'') sample_result [] [] 300
     (leased_db Preparing create_row)) = None"
  by code_simp

theorem cache_completion_needs_running_witness:
  "\<exists>e. CompleteCache (\<lambda>_. False) (leased_record (leased_row ADD_INSTANCE_L1 (ReasonPayload []) ''w1'') ''w1'')
     None [] [] 300 (leased_db Expiring (leased_row ADD_INSTANCE_L1 (ReasonPayload []) ''w1'')) =
     (Some e, leased_db Expiring (leased_row ADD_INSTANCE_L1 (ReasonPayload []) ''w1''))"
  by (rule cache_completion_needs_running) (simp add: leased_db_def)

theorem provision_snapshot_witness:
  "\<exists>db' sn. CompleteProvision (\<lambda>_. False) (leased_record create_row ''w1'') sample_result [] [] 300
       (leased_db Preparing create_row) = (None, db') \<and>
     FindSnapshot (\<lambda>_. False) ''lab-1'' 7 db' = Inr sn \<and> se_Status (sn_Lab sn) = Running \<and>
     map in_ContainerID (sn_Instances sn) = [''c1'']"
proof -
  obtain db' where p: "CompleteProvision (\<lambda>_. False) (leased_record create_row ''w1'') sample_result
      [] [] 300 (leased_db Preparing create_row) = (None, db')"
    using sample_provision by (metis prod.collapse)
  have l: "rec_LabID (leased_record create_row ''w1'') = ''lab-1''"
    by (simp add: leased_record_def create_row_def leased_row_def)
  have "distinct (map ls_id (sessions (leased_db Preparing create_row)))"
    "distinct (map pi_InstanceName (pv_Instances sample_result))"
    "distinct (map pi_ContainerID (pv_Instances sample_result))"
    "\<forall>q \<in> set (pv_Instances sample_result). \<forall>i \<in> set (instances (leased_db Preparing create_row)).
       li_lab_id i \<noteq> rec_LabID (leased_record create_row ''w1'') \<longrightarrow> li_container_id i \<noteq> Some (pi_ContainerID q)"
    "find_session (rec_LabID (leased_record create_row ''w1'')) (leased_db Preparing create_row) =
       Some (hd (sessions (leased_db Preparing create_row)))"
    by (simp_all add: leased_db_def sample_result_def find_session_def l)
  from provision_snapshot [OF p this] show ?thesis using p
    by (auto simp: l leased_db_def sample_result_def scanInstance_def provisioned_row_def)
qed

end
