(* ===== verification/Expiry.thy ===== *)
theory Expiry
  imports Persistence Requests
begin

text \<open>
  What the expiry of labs guarantees, \<^verbatim>\<open>services/platform-api/internal/lifecycle\<close>: one undisturbed
  pass brings every lab to the state its deadlines ask for, and what happens when the identifier
  of the system's own operation is already in use.
\<close>

subsection \<open>The state expiry asks for\<close>

definition expiry_deadline :: "lifecycle_config \<Rightarrow> gotime \<Rightarrow> gotime \<Rightarrow> gotime" where
  "expiry_deadline c started lastAction = min (lastAction + lf_IdleTimeout c) (started + lf_MaxDuration c)"

definition expiry_reason :: "lifecycle_config \<Rightarrow> gotime \<Rightarrow> gotime \<Rightarrow> string" where
  "expiry_reason c started lastAction =
     (if lastAction + lf_IdleTimeout c \<le> started + lf_MaxDuration c then ''idle_timeout'' else ''maximum_duration'')"

text \<open>The row of a lab after one pass, when \<open>busy\<close> says whether the lab has an active operation.\<close>

definition settled_row :: "gotime \<Rightarrow> lifecycle_config \<Rightarrow> bool \<Rightarrow> session_row \<Rightarrow> session_row" where
  "settled_row now c busy s =
     (case (ls_started_at s, ls_last_effective_action_at s) of
        (Some started, Some lastAction) \<Rightarrow>
          if ls_status s \<notin> {Running, Expiring} then s
          else if expiry_deadline c started lastAction \<le> now
          then (if busy then s else s\<lparr>ls_status := Terminating,
                  ls_termination_reason := Some (expiry_reason c started lastAction), ls_updated_at := now\<rparr>)
          else if expiry_deadline c started lastAction - lf_ExpiringLead c \<le> now
          then (if ls_status s = Running then s\<lparr>ls_status := Expiring, ls_updated_at := now\<rparr> else s)
          else if ls_status s = Expiring then s\<lparr>ls_status := Running, ls_updated_at := now\<rparr> else s
      | _ \<Rightarrow> s)"

lemma settled_row_id [simp]: "ls_id (settled_row now c b s) = ls_id s"
  by (auto simp: settled_row_def split: option.splits)

lemma evaluate_kind:
  "de_kind (evaluate now st (Some a) (Some b) c) =
     (if expiry_deadline c a b \<le> now then decisionTerminating
      else if expiry_deadline c a b - lf_ExpiringLead c \<le> now
      then (if st = Running then decisionExpiring else decisionNone)
      else if st = Expiring then decisionRunning else decisionNone)"
  "de_reason (evaluate now st (Some a) (Some b) c) = expiry_reason c a b"
  by (simp_all add: evaluate_def expiry_deadline_def expiry_reason_def Let_def min_def not_le)

lemma changed_status: "ls_status s \<noteq> st \<Longrightarrow> s\<lparr>ls_status := st, ls_updated_at := now\<rparr> \<noteq> s"
  "ls_status s \<noteq> st \<Longrightarrow> s\<lparr>ls_status := st, ls_termination_reason := r, ls_updated_at := now\<rparr> \<noteq> s"
  by (metis session_row.select_convs(6) session_row.surjective session_row.update_convs(6,14,16))+

lemma move_session_one:
  assumes "distinct (map ls_id (sessions db))" "s \<in> set (sessions db)" "ls_status s \<in> src" "f s \<noteq> s"
  shows "move_session (ls_id s) src f db =
    Inr (db\<lparr>sessions := map (\<lambda>x. if ls_id x = ls_id s then f s else x) (sessions db)\<rparr>)"
proof -
  have one: "x = s" if "x \<in> set (sessions db)" "ls_id x = ls_id s" for x
    using assms(1,2) that by (auto simp: distinct_map dest: inj_onD)
  then have m: "map (\<lambda>x. if ls_id x = ls_id s \<and> ls_status x \<in> src then f x else x) (sessions db) =
      map (\<lambda>x. if ls_id x = ls_id s then f s else x) (sessions db)"
    using assms(3) by (intro map_cong) auto
  have "filter (\<lambda>x. (ls_id x = ls_id s \<and> ls_status x \<in> src) \<and> f x \<noteq> x) (sessions db) =
      filter (\<lambda>x. ls_id x = ls_id s) (sessions db)"
    using one assms(3,4) by (intro filter_cong) auto
  then show ?thesis using m distinct_key_filter [OF assms(1,2)] by (simp add: move_session_def exec_update_def)
qed

lemma find_session_row:
  "distinct (map ls_id (sessions db)) \<Longrightarrow> s \<in> set (sessions db) \<Longrightarrow> find_session (ls_id s) db = Some s"
  by (simp add: find_session_def find_by_key)

abbreviation put_row :: "session_row \<Rightarrow> session_row list \<Rightarrow> session_row list" where
  "put_row s \<equiv> map (\<lambda>x. if ls_id x = ls_id s then s else x)"

text \<open>The decision for a lab that was started, and the three ways it changes the database.\<close>

lemma advanceOne_started:
  assumes "distinct (map ls_id (sessions db))" "s \<in> set (sessions db)"
    "ls_started_at s = Some a" "ls_last_effective_action_at s = Some b"
  shows "advanceOne (\<lambda>_. False) sha (ls_id s) now c db = atomically db
     (case de_kind (evaluate now (ls_status s) (Some a) (Some b) c) of
        decisionExpiring \<Rightarrow> advance_status (\<lambda>_. False) ''mark lab expiring'' ''commit expiring lab'' (ls_id s)
          (evaluate now (ls_status s) (Some a) (Some b) c) Running Expiring now db
      | decisionRunning \<Rightarrow> advance_status (\<lambda>_. False) ''restore lab running'' ''commit running lab'' (ls_id s)
          (evaluate now (ls_status s) (Some a) (Some b) c) Expiring Running now db
      | decisionTerminating \<Rightarrow>
          advance_terminating (\<lambda>_. False) sha (ls_id s) (ls_user_id s) (expiry_reason c a b) now db
      | decisionNone \<Rightarrow> Inr (None, db))"
  using find_session_row [OF assms(1,2)] assms(3,4)
  by (simp add: advanceOne_def Let_def evaluate_kind(2) cong: decisionKind.case_cong)

lemma advance_status_moves:
  assumes "distinct (map ls_id (sessions db))" "s \<in> set (sessions db)" "ls_status s = src" "src \<noteq> dst"
  shows "\<exists>t. advance_status (\<lambda>_. False) m n (ls_id s) d src dst now db =
    Inr (Some t, db\<lparr>sessions := put_row (s\<lparr>ls_status := dst, ls_updated_at := now\<rparr>) (sessions db)\<rparr>)"
  using move_session_one [OF assms(1,2), of "{src}" "\<lambda>s. s\<lparr>ls_status := dst, ls_updated_at := now\<rparr>"] assms(3,4)
  by (simp add: advance_status_def changed_status)

lemma advance_terminating_moves:
  fixes db :: platform_db and now :: gotime and reason :: string
  assumes "distinct (map ls_id (sessions db))" "s \<in> set (sessions db)" "ls_status s \<in> {Running, Expiring}"
    "find_operation (expirationOperationID sha (ls_id s)) db = None" "\<not> pending_operation (ls_id s) db"
  defines "row \<equiv> pending_row (next_operation db) (expirationOperationID sha (ls_id s)) (ls_id s) (ls_user_id s)
    DESTROY_LAB None (ReasonPayload reason) now"
  defines "s' \<equiv> s\<lparr>ls_status := Terminating, ls_termination_reason := Some reason, ls_updated_at := now\<rparr>"
  shows "\<exists>t. advance_terminating (\<lambda>_. False) sha (ls_id s) (ls_user_id s) reason now db =
    Inr (Some t, db\<lparr>sessions := put_row s' (sessions db), operations := operations db @ [row],
      next_operation := next_operation db + 1\<rparr>)"
proof -
  let ?f = "\<lambda>s. s\<lparr>ls_status := Terminating, ls_termination_reason := Some reason, ls_updated_at := now\<rparr>"
  let ?db = "db\<lparr>operations := operations db @ [row], next_operation := next_operation db + 1\<rparr>"
  have "?f s \<noteq> s" using assms(3) by (intro changed_status(2)) auto
  then have "move_session (ls_id s) {Running, Expiring} ?f ?db =
      Inr (?db\<lparr>sessions := map (\<lambda>x. if ls_id x = ls_id s then ?f s else x) (sessions ?db)\<rparr>)"
    using assms(1-3) by (intro move_session_one) simp_all
  moreover have "insert_operation (expirationOperationID sha (ls_id s)) (ls_id s) (ls_user_id s) DESTROY_LAB None
      (ReasonPayload reason) now db = Some (next_operation db, ?db)"
    using assms(4) by (simp add: insert_operation_def pending_row_def row_def)
  ultimately show ?thesis using assms(5) by (simp add: advance_terminating_def Let_def s'_def)
qed

text \<open>The rows one lab contributes to the queue: the destroy, if it terminates.\<close>

definition expiry_rows ::
  "(string \<Rightarrow> nat list) \<Rightarrow> gotime \<Rightarrow> session_row \<Rightarrow> session_row \<Rightarrow> nat \<Rightarrow> operation_row list" where
  "expiry_rows sha now s s' oid = (if ls_status s' = Terminating then
     [pending_row oid (expirationOperationID sha (ls_id s)) (ls_id s) (ls_user_id s) DESTROY_LAB None
       (ReasonPayload (the (ls_termination_reason s'))) now] else [])"

definition settled_db ::
  "(string \<Rightarrow> nat list) \<Rightarrow> gotime \<Rightarrow> session_row \<Rightarrow> session_row \<Rightarrow> platform_db \<Rightarrow> platform_db" where
  "settled_db sha now s s' db =
     (let rs = expiry_rows sha now s s' (next_operation db)
      in db\<lparr>sessions := put_row s' (sessions db), operations := operations db @ rs,
            next_operation := next_operation db + length rs\<rparr>)"

lemma settled_db_same:
  assumes "distinct (map ls_id (sessions db))" "s \<in> set (sessions db)" "ls_status s \<noteq> Terminating"
  shows "settled_db sha now s s db = db"
proof -
  have "put_row s (sessions db) = sessions db"
    using assms(1,2) by (intro map_idI) (auto simp: distinct_map dest: inj_onD)
  then show ?thesis using assms(3) by (simp add: settled_db_def expiry_rows_def)
qed

lemma advanceOne_settles:
  assumes wf: "distinct (map ls_id (sessions db))" and s: "s \<in> set (sessions db)"
    and st: "ls_status s \<in> {Running, Expiring}"
    and k: "find_operation (expirationOperationID sha (ls_id s)) db = None"
  shows "\<exists>t. advanceOne (\<lambda>_. False) sha (ls_id s) now c db =
    (Inr t, settled_db sha now s (settled_row now c (pending_operation (ls_id s) db) s) db)"
proof -
  have nt: "ls_status s \<noteq> Terminating" using st by auto
  note same = settled_db_same [OF wf s nt, of sha now]
  show ?thesis
  proof (cases "ls_started_at s = None \<or> ls_last_effective_action_at s = None")
    case True
    then have "settled_row now c (pending_operation (ls_id s) db) s = s"
      by (elim disjE) (simp_all add: settled_row_def split: option.split)
    then show ?thesis using True find_session_row [OF wf s] same by (simp add: advanceOne_def atomically_def)
  next
    case False
    then obtain a b where ab: "ls_started_at s = Some a" "ls_last_effective_action_at s = Some b" by auto
    note one = advanceOne_started [OF wf s ab, of sha now c] and row = settled_row_def [of now c _ s]
    let ?d = "expiry_deadline c a b"
    consider (expired) "?d \<le> now" "\<not> pending_operation (ls_id s) db"
      | (expiring) "now < ?d" "?d - lf_ExpiringLead c \<le> now" "ls_status s = Running"
      | (running) "now < ?d" "now < ?d - lf_ExpiringLead c" "ls_status s = Expiring"
      | (busy) "?d \<le> now" "pending_operation (ls_id s) db"
      | (still) "now < ?d" "?d - lf_ExpiringLead c \<le> now \<longleftrightarrow> ls_status s = Expiring"
      using st by (cases "?d \<le> now"; cases "?d - lf_ExpiringLead c \<le> now") auto
    then show ?thesis
    proof cases
      case busy
      then show ?thesis using st same by (auto simp: one row ab evaluate_kind advance_terminating_def atomically_def)
    next
      case still
      then show ?thesis using st same by (auto simp: one row ab evaluate_kind atomically_def)
    next
      case expiring
      then show ?thesis using advance_status_moves [OF wf s expiring(3), of Expiring "''mark lab expiring''" "''commit expiring lab''"
          "evaluate now Running (Some a) (Some b) c" now]
        by (auto simp: one row ab evaluate_kind atomically_def settled_db_def expiry_rows_def)
    next
      case running
      then show ?thesis using advance_status_moves [OF wf s running(3), of Running "''restore lab running''" "''commit running lab''"
          "evaluate now Expiring (Some a) (Some b) c" now]
        by (auto simp: one row ab evaluate_kind atomically_def settled_db_def expiry_rows_def)
    next
      case expired
      then show ?thesis using advance_terminating_moves [OF wf s st k expired(2), of "expiry_reason c a b" now] st
        by (auto simp: one row ab evaluate_kind atomically_def settled_db_def expiry_rows_def)
    qed
  qed
qed

subsection \<open>One pass\<close>

text \<open>How far a pass over the labs has come: the labs of \<open>seen\<close> are settled, the others untouched.\<close>

definition pass_inv ::
  "(string \<Rightarrow> nat list) \<Rightarrow> gotime \<Rightarrow> lifecycle_config \<Rightarrow> platform_db \<Rightarrow> string set \<Rightarrow> platform_db \<Rightarrow> bool" where
  "pass_inv sha now c db seen d = (
     sessions d = map (\<lambda>s. if ls_id s \<in> seen then settled_row now c (pending_operation (ls_id s) db) s else s)
       (sessions db) \<and>
     (\<forall>s \<in> set (sessions db). ls_id s \<notin> seen \<longrightarrow>
        pending_operation (ls_id s) d = pending_operation (ls_id s) db \<and>
        (ls_status s \<in> {Running, Expiring} \<longrightarrow> find_operation (expirationOperationID sha (ls_id s)) d = None)) \<and>
     (\<forall>s \<in> set (sessions db). ls_id s \<in> seen \<longrightarrow> ls_status s \<in> {Running, Expiring} \<longrightarrow>
        ls_status (settled_row now c (pending_operation (ls_id s) db) s) = Terminating \<longrightarrow>
        pending_operation (ls_id s) d))"

lemma pass_inv_step:
  assumes wf: "distinct (map ls_id (sessions db))"
    and inj: "\<forall>s \<in> set (sessions db). \<forall>t \<in> set (sessions db).
      {ls_status s, ls_status t} \<subseteq> {Running, Expiring} \<longrightarrow>
      same_key (expirationOperationID sha (ls_id s)) (expirationOperationID sha (ls_id t)) \<longrightarrow> ls_id s = ls_id t"
    and inv: "pass_inv sha now c db seen d" and s: "s \<in> set (sessions db)" "ls_id s \<notin> seen"
    and st: "ls_status s \<in> {Running, Expiring}"
  shows "\<exists>t d'. advanceOne (\<lambda>_. False) sha (ls_id s) now c d = (Inr t, d') \<and>
    pass_inv sha now c db (insert (ls_id s) seen) d'"
proof -
  have ses: "sessions d = map (\<lambda>s. if ls_id s \<in> seen then settled_row now c (pending_operation (ls_id s) db) s else s)
       (sessions db)"
    and p: "pending_operation (ls_id s) d = pending_operation (ls_id s) db"
    and k: "find_operation (expirationOperationID sha (ls_id s)) d = None"
    using inv s st unfolding pass_inv_def by blast+
  let ?g = "\<lambda>s. if ls_id s \<in> seen then settled_row now c (pending_operation (ls_id s) db) s else s"
  have "map ls_id (sessions d) = map ls_id (sessions db)" unfolding ses by simp
  then have wf': "distinct (map ls_id (sessions d))" using wf by simp
  have sd: "s \<in> set (sessions d)" using s unfolding ses by (force simp: image_iff)
  let ?s' = "settled_row now c (pending_operation (ls_id s) db) s"
  obtain t where a: "advanceOne (\<lambda>_. False) sha (ls_id s) now c d = (Inr t, settled_db sha now s ?s' d)"
    using advanceOne_settles [OF wf' sd st k, of now c] unfolding p by blast
  let ?rs = "expiry_rows sha now s ?s' (next_operation d)"
  let ?d' = "settled_db sha now s ?s' d"
  have d': "operations ?d' = operations d @ ?rs" "sessions ?d' = put_row ?s' (sessions d)"
    by (simp_all add: settled_db_def Let_def)
  have rows: "lo_lab_id r = ls_id s \<and> lo_operation_id r = expirationOperationID sha (ls_id s) \<and> lo_status r = OpPending"
    if "r \<in> set ?rs" for r
    using that by (auto simp: expiry_rows_def pending_row_def split: if_splits)
  have pend: "pending_operation l ?d' = pending_operation l d" if "l \<noteq> ls_id s" for l
    using that by (auto simp: pending_operation_def [of l] d'(1) dest!: rows)
  have "pass_inv sha now c db (insert (ls_id s) seen) ?d'"
    unfolding pass_inv_def
  proof (intro conjI ballI impI)
    have "x = s" if "x \<in> set (sessions db)" "ls_id x = ls_id s" for x
      using wf s(1) that by (auto simp: distinct_map dest: inj_onD)
    then have "put_row ?s' (map ?g (sessions db)) = map (\<lambda>x. if ls_id x \<in> insert (ls_id s) seen
        then settled_row now c (pending_operation (ls_id x) db) x else x) (sessions db)"
      using s(2) by auto
    then show "sessions ?d' = map (\<lambda>x. if ls_id x \<in> insert (ls_id s) seen
        then settled_row now c (pending_operation (ls_id x) db) x else x) (sessions db)"
      by (simp add: d'(2) ses)
  next
    fix x assume x: "x \<in> set (sessions db)" "ls_id x \<notin> insert (ls_id s) seen"
    then show "pending_operation (ls_id x) ?d' = pending_operation (ls_id x) db"
      using inv pend by (simp add: pass_inv_def)
    assume stx: "ls_status x \<in> {Running, Expiring}"
    have "find_operation (expirationOperationID sha (ls_id x)) d = None"
      using inv x stx unfolding pass_inv_def by blast
    moreover have "\<not> same_key (expirationOperationID sha (ls_id s)) (expirationOperationID sha (ls_id x))"
      using inj s(1) st stx x by (metis insertI1 insert_subset empty_subsetI)
    ultimately show "find_operation (expirationOperationID sha (ls_id x)) ?d' = None"
      using rows by (auto simp: find_operation_def find_None_iff d'(1))
  next
    fix x assume x: "x \<in> set (sessions db)" "ls_id x \<in> insert (ls_id s) seen" "ls_status x \<in> {Running, Expiring}"
      "ls_status (settled_row now c (pending_operation (ls_id x) db) x) = Terminating"
    show "pending_operation (ls_id x) ?d'"
    proof (cases "ls_id x = ls_id s")
      case True
      then have "x = s" using wf s x(1) by (auto simp: distinct_map dest: inj_onD)
      then show ?thesis using x(4)
        by (auto simp: pending_operation_def [of _ ?d'] d'(1) expiry_rows_def pending_row_def op_active_def)
    next
      case False
      then have "pending_operation (ls_id x) d" using inv x unfolding pass_inv_def by blast
      then show ?thesis using pend [OF False] by blast
    qed
  qed
  then show ?thesis using a by blast
qed

lemma advance_loop_settles:
  assumes "distinct (map ls_id (sessions db))"
    and "\<forall>s \<in> set (sessions db). \<forall>t \<in> set (sessions db).
      {ls_status s, ls_status t} \<subseteq> {Running, Expiring} \<longrightarrow>
      same_key (expirationOperationID sha (ls_id s)) (expirationOperationID sha (ls_id t)) \<longrightarrow> ls_id s = ls_id t"
    and "distinct ls" "set ls \<inter> seen = {}"
    and "\<forall>l \<in> set ls. \<exists>s \<in> set (sessions db). ls_id s = l \<and> ls_status s \<in> {Running, Expiring}"
    and "pass_inv sha now c db seen d"
  shows "\<exists>ts' d'. advance_loop (\<lambda>_. False) sha (\<lambda>_. id) now c ls ts d = ((None, ts'), d') \<and>
    pass_inv sha now c db (seen \<union> set ls) d'"
  using assms(3-6)
proof (induction ls arbitrary: seen d ts)
  case (Cons l ls)
  obtain s where s: "s \<in> set (sessions db)" "ls_id s = l" "ls_status s \<in> {Running, Expiring}"
    using Cons.prems(3) by auto
  obtain t d1 where d1: "advanceOne (\<lambda>_. False) sha l now c d = (Inr t, d1)" "pass_inv sha now c db (insert l seen) d1"
    using pass_inv_step [OF assms(1,2) Cons.prems(4) s(1) _ s(3)] s(2) Cons.prems(2) by auto
  have "set ls \<inter> insert l seen = {}" using Cons.prems(1,2) by auto
  from Cons.IH [OF _ this _ d1(2)] Cons.prems(1,3) show ?case
    using d1(1) by (cases t) auto
qed simp

text \<open>
  Claim C17. One undisturbed pass of the expiry brings every lab where its deadlines ask it to be: a
  running or expiring lab that is past its deadline and has no active operation is terminating,
  for the reason of the earlier deadline, with a destroy queued for it; one that is within the
  expiring lead is expiring; any other is running. No other lab is touched, and the pass does not
  stop early. For the labs that are running or expiring, the identifiers of the system's own destroy
  operations are assumed to be unused and distinct.
\<close>

theorem Advance_settles:
  assumes "validateConfig c = None" "distinct (map ls_id (sessions db))"
    and "\<forall>s \<in> set (sessions db). ls_status s \<in> {Running, Expiring} \<longrightarrow>
      find_operation (expirationOperationID sha (ls_id s)) db = None"
    and "\<forall>s \<in> set (sessions db). \<forall>t \<in> set (sessions db).
      {ls_status s, ls_status t} \<subseteq> {Running, Expiring} \<longrightarrow>
      same_key (expirationOperationID sha (ls_id s)) (expirationOperationID sha (ls_id t)) \<longrightarrow> ls_id s = ls_id t"
  shows "\<exists>ts db'. Advance (\<lambda>_. False) sha (\<lambda>_. id) now c db = ((None, ts), db') \<and>
    sessions db' = map (\<lambda>s. settled_row now c (pending_operation (ls_id s) db) s) (sessions db) \<and>
    (\<forall>s \<in> set (sessions db). ls_status s \<in> {Running, Expiring} \<longrightarrow>
       ls_status (settled_row now c (pending_operation (ls_id s) db) s) = Terminating \<longrightarrow>
       pending_operation (ls_id s) db')"
proof -
  let ?ls = "lifecycle_candidates db"
  let ?rows = "filter (\<lambda>s. ls_status s \<in> {Running, Expiring}) (sessions db)"
  have "distinct (map ls_id ?rows)" using assms(2) by (simp add: distinct_map_filter)
  then have d: "distinct ?ls" by (simp add: lifecycle_candidates_def distinct_map)
  have ls: "set ?ls = ls_id ` set ?rows" by (simp add: lifecycle_candidates_def)
  have "\<forall>l \<in> set ?ls. \<exists>s \<in> set (sessions db). ls_id s = l \<and> ls_status s \<in> {Running, Expiring}"
    unfolding ls by auto
  moreover have "pass_inv sha now c db {} db" using assms(3) by (simp add: pass_inv_def)
  ultimately
  obtain ts db' where a: "advance_loop (\<lambda>_. False) sha (\<lambda>_. id) now c ?ls [] db = ((None, ts), db')"
    and inv: "pass_inv sha now c db (set ?ls) db'"
    using advance_loop_settles [OF assms(2,4) d, of "{}" now c db "[]"] by auto
  have idle: "settled_row now c b s = s" if "ls_status s \<notin> {Running, Expiring}" for s b
    using that by (simp add: settled_row_def split: option.splits)
  have "ls_id s \<in> set ?ls \<longleftrightarrow> ls_status s \<in> {Running, Expiring}" if "s \<in> set (sessions db)" for s
    using that assms(2) by (auto simp: ls distinct_map dest: inj_onD)
  then show ?thesis using a inv assms(1) idle by (auto simp: Advance_def pass_inv_def)
qed

subsection \<open>Reserved identifiers\<close>

lemma validOperationID_expiry: "validOperationID (expirationOperationID sha l)"
proof -
  have "operation_chars (Suc i) (hex_EncodeToString bs)" for bs i
    using hex_chars by (intro operation_chars_plain) blast
  moreover have "length (hex_EncodeToString (take 16 (sha l))) \<le> 32" by (simp add: hex_length)
  ultimately show ?thesis
    by (simp add: expirationOperationID_def validOperationID_def is_lower_def is_upper_def is_digit_def)
qed

text \<open>
  Claim C37. The identifier of the system's destroy operation is not reserved: it passes the checks on
  the identifiers of users, and once an operation uses it, the expiry cannot terminate the lab
  any more: at whatever time and however often it tries, the lab is not moved to terminating.
\<close>

theorem expiry_blocked:
  assumes "find_operation (expirationOperationID sha l) db \<noteq> None" "advanceOne flt sha l now c db = (r, db')"
    "\<forall>s \<in> set (sessions db). ls_id s = l \<longrightarrow> ls_status s \<noteq> Terminating"
  shows "validOperationID (expirationOperationID sha l) \<and>
    (\<forall>s \<in> set (sessions db'). ls_id s = l \<longrightarrow> ls_status s \<noteq> Terminating)"
proof -
  have "\<forall>s \<in> set (sessions db'). ls_id s = l \<longrightarrow> ls_status s \<noteq> Terminating"
    using advanceOne_cases [OF assms(2)]
  proof cases
    case 1
    then show ?thesis using assms(3) by simp
  next
    case 3
    then show ?thesis using assms(1,3)
      by (auto simp: advance_terminating_def insert_operation_def Let_def split: if_splits)
  next
    case (2 m n d src dst t)
    from 2(1) have "sessions db' = map (\<lambda>s. if ls_id s = l \<and> ls_status s = src
        then s\<lparr>ls_status := dst, ls_updated_at := now\<rparr> else s) (sessions db)"
      by (auto simp: advance_status_def move_session_def exec_update_def split: if_splits)
    then have "\<exists>s \<in> set (sessions db). s' = s \<or> ls_status s' = dst" if "s' \<in> set (sessions db')" for s'
      using that by (auto split: if_splits)
    moreover have "dst \<noteq> Terminating" using 2(2) by blast
    ultimately show ?thesis using assms(3) by metis
  qed
  then show ?thesis using validOperationID_expiry by blast
qed

subsection \<open>Samples\<close>

definition sample_lifetime :: lifecycle_config where
  "sample_lifetime = \<lparr>lf_IdleTimeout = 600, lf_MaxDuration = 1800, lf_ExpiringLead = 60\<rparr>"

definition sample_sha :: "string \<Rightarrow> nat list" where
  "sample_sha l = map of_char l"

theorem Advance_settles_witness:
  "\<exists>db'. sessions db' = [(sample_session ''application_cluster'')\<lparr>ls_status := Terminating,
       ls_termination_reason := Some ''idle_timeout'', ls_updated_at := 2000\<rparr>] \<and> pending_operation sample_labID db' \<and>
     snd (Advance (\<lambda>_. False) sample_sha (\<lambda>_. id) 2000 sample_lifetime sample_cluster) = db'"
proof -
  have "validateConfig sample_lifetime = None" "distinct (map ls_id (sessions sample_cluster))"
    "\<forall>s \<in> set (sessions sample_cluster). ls_status s \<in> {Running, Expiring} \<longrightarrow>
      find_operation (expirationOperationID sample_sha (ls_id s)) sample_cluster = None"
    "\<forall>s \<in> set (sessions sample_cluster). \<forall>t \<in> set (sessions sample_cluster).
      {ls_status s, ls_status t} \<subseteq> {Running, Expiring} \<longrightarrow>
      same_key (expirationOperationID sample_sha (ls_id s)) (expirationOperationID sample_sha (ls_id t)) \<longrightarrow> ls_id s = ls_id t"
    by (simp_all add: validateConfig_def sample_lifetime_def sample_cluster_def find_operation_def)
  from Advance_settles [OF this, of 2000] show ?thesis
    by (auto simp: sample_cluster_def sample_session_def settled_row_def expiry_deadline_def expiry_reason_def
        sample_lifetime_def pending_operation_def)
qed

text \<open>A lab whose owner used the reserved identifier for a reset that has completed.\<close>

definition squatted :: platform_db where
  "squatted = (let db = snd (svc_Reset no_fault id 5000 7 sample_labID
       (expirationOperationID sample_sha sample_labID) sample_cluster)
     in db\<lparr>operations := map (\<lambda>r. r\<lparr>lo_status := OpSucceeded\<rparr>) (operations db)\<rparr>)"

theorem expiry_blocked_witness:
  "\<not> pending_operation sample_labID squatted \<and>
   ls_status (hd (sessions (snd (advanceOne no_fault sample_sha sample_labID 2000 sample_lifetime squatted)))) \<noteq> Terminating"
proof -
  let ?a = "advanceOne no_fault sample_sha sample_labID 2000 sample_lifetime squatted"
  have "find_operation (expirationOperationID sample_sha sample_labID) squatted \<noteq> None" by code_simp
  moreover obtain r db' where "?a = (r, db')" by fastforce
  moreover have "\<forall>s \<in> set (sessions squatted). ls_id s = sample_labID \<longrightarrow> ls_status s \<noteq> Terminating" by code_simp
  moreover have "sessions (snd ?a) \<noteq> []" "ls_id (hd (sessions (snd ?a))) = sample_labID" by code_simp+
  moreover have "\<not> pending_operation sample_labID squatted" by code_simp
  ultimately show ?thesis
    using expiry_blocked [of sample_sha sample_labID squatted no_fault 2000 sample_lifetime r db'] by simp
qed

end
