(* ===== verification/BalancerAlgorithm.thy ===== *)
theory BalancerAlgorithm
  imports OrderProcessor Topology
begin

text \<open>
  The adaptive weights, \<^verbatim>\<open>services/platform-api/internal/balancer/types.go\<close> and
  \<^verbatim>\<open>algorithm.go\<close>. A map of load ratios is an association list with 0 for an absent key. The digest
  of the fingerprints is the argument \<open>sha\<close>.
\<close>

record balancer_config =
  bc_SampleInterval :: duration
  bc_StableSamples :: int
  bc_MetricFreshness :: duration
  bc_EWMAAlpha :: rat
  bc_FailureBackoff :: "duration list"

definition DefaultConfig :: balancer_config where
  "DefaultConfig = \<lparr>bc_SampleInterval = 2 * Second, bc_StableSamples = 3,
     bc_MetricFreshness = 10 * Second, bc_EWMAAlpha = fl (1 / 2),
     bc_FailureBackoff = [4 * Second, 8 * Second, 16 * Second, 30 * Second]\<rparr>"

definition validate :: "balancer_config \<Rightarrow> lab_error option" where
  "validate c =
     (if bc_SampleInterval c \<le> 0 \<or> bc_StableSamples c \<le> 0 \<or> bc_MetricFreshness c \<le> 0 \<or>
         bc_EWMAAlpha c \<le> 0 \<or> bc_EWMAAlpha c > 1 \<or> bc_FailureBackoff c = []
      then Some (ErrText ''adaptive balancer config is invalid'')
      else if \<exists>d \<in> set (bc_FailureBackoff c). d \<le> 0
      then Some (ErrText ''adaptive balancer backoff is invalid'')
      else None)"

record BInstance =
  bi_ID :: string
  bi_ContainerID :: string
  bi_Status :: string
  bi_ProcessingSpeed :: int
  bi_MaxLoad :: int
  bi_CurrentWeight :: int

record BLab =
  bl_ID :: string
  bl_UserID :: nat
  bl_Instances :: "BInstance list"

record Adjustment =
  aj_OperationID :: string
  aj_LabID :: string
  aj_RequestedBy :: nat
  aj_TopologyFingerprint :: string
  aj_Weights :: "InstanceWeight list"

subsection \<open>Target weights\<close>

definition rat_at :: "(string \<times> rat) list \<Rightarrow> string \<Rightarrow> rat" where
  "rat_at m k = (case map_of m k of None \<Rightarrow> 0 | Some v \<Rightarrow> v)"

text \<open>The loop of Euclid.\<close>

function gcd_loop :: "int \<Rightarrow> int \<Rightarrow> int" where
  "gcd_loop left right = (if right = 0 then left else gcd_loop right (grem left right))"
  by pat_completeness auto

lemma grem_mod: "0 \<le> a \<Longrightarrow> 0 < b \<Longrightarrow> grem a b = a mod b"
  by (simp add: grem_def gquot_nonneg minus_mult_div_eq_mod)

lemma grem_abs: "\<bar>grem a b\<bar> = \<bar>a\<bar> mod \<bar>b\<bar>"
proof -
  have "grem a b = sgn a * (\<bar>a\<bar> - \<bar>b\<bar> * (\<bar>a\<bar> div \<bar>b\<bar>))"
    by (simp add: grem_def gquot_def right_diff_distrib mult_sgn_abs abs_sgn mult.assoc [symmetric])
  then show ?thesis by (cases "a = 0"; cases "b = 0") (simp_all add: minus_mult_div_eq_mod abs_mult)
qed

lemma grem_less: "b \<noteq> 0 \<Longrightarrow> \<bar>grem a b\<bar> < \<bar>b\<bar>"
  by (simp add: grem_abs)

termination gcd_loop
  by (relation "measure (\<lambda>(_, right). nat \<bar>right\<bar>)") (simp_all add: grem_less)

declare gcd_loop.simps [simp del]

definition greatestCommonDivisor :: "int \<Rightarrow> int \<Rightarrow> int" where
  "greatestCommonDivisor left right =
     gcd_loop (if left < 0 then - left else left) (if right < 0 then - right else right)"

text \<open>The first loop: the checks and the extreme and total ratios.\<close>

fun ratio_scan ::
  "(string \<times> rat) list \<Rightarrow> BInstance list \<Rightarrow> rat \<Rightarrow> rat \<Rightarrow> rat \<Rightarrow> (lab_error, rat \<times> rat \<times> rat) result" where
  "ratio_scan loadRatios [] mn mx acc = Inr (mn, mx, acc)"
| "ratio_scan loadRatios (i # ins) mn mx acc =
     (if bi_ID i = [] \<or> bi_ProcessingSpeed i \<le> 0 \<or> bi_MaxLoad i \<le> 0
      then Inl (ErrText ''adaptive instance load model is invalid'')
      else let ratio = rat_at loadRatios (bi_ID i)
      in if ratio < 0 \<or> ratio > 1 then Inl (ErrText ''adaptive instance load ratio is invalid'')
         else ratio_scan loadRatios ins (min mn ratio) (max mx ratio) (fl (acc + ratio)))"

definition correction :: "bool \<Rightarrow> rat \<Rightarrow> rat \<Rightarrow> rat" where
  "correction balanced averageRatio ratio =
     (if balanced then 1
      else min (fl (175 / 100)) (max (fl (25 / 100)) (fl (fl (1 + averageRatio) - ratio))))"

definition score :: "bool \<Rightarrow> rat \<Rightarrow> (string \<times> rat) list \<Rightarrow> BInstance \<Rightarrow> rat" where
  "score balanced averageRatio loadRatios i =
     fl (float64 (bi_ProcessingSpeed i) * correction balanced averageRatio (rat_at loadRatios (bi_ID i)))"

definition raw_weight :: "rat \<Rightarrow> rat \<Rightarrow> int" where
  "raw_weight maximumScore s = min 100 (max 1 (Round (fl (fl (s / maximumScore) * 100))))"

definition TargetWeights ::
  "BInstance list \<Rightarrow> (string \<times> rat) list \<Rightarrow> (lab_error, InstanceWeight list) result" where
  "TargetWeights ins loadRatios =
     (if ins = [] then Inl (ErrText ''adaptive instances are required'')
      else let values = sort_key bi_ID ins
      in case ratio_scan loadRatios values 1 0 0 of
           Inl e \<Rightarrow> Inl e
         | Inr (minimumRatio, maximumRatio, totalRatio) \<Rightarrow>
            (let averageRatio = fl (totalRatio / float64 (int (length values)));
                 balanced = (fl (maximumRatio - minimumRatio) \<le> fl (5 / 100));
                 scores = map (score balanced averageRatio loadRatios) values;
                 maximumScore = foldl max 0 scores;
                 weights = map (raw_weight maximumScore) scores;
                 divisor = foldl greatestCommonDivisor 0 weights
             in Inr (map (\<lambda>(i, w). \<lparr>iw_InstanceID = bi_ID i, iw_Weight = gquot w divisor\<rparr>)
                       (zip values weights))))"

subsection \<open>Fingerprints and comparisons\<close>

definition fingerprint_part :: "bool \<Rightarrow> BInstance \<Rightarrow> string" where
  "fingerprint_part includeWeight i =
     bi_ID i @ '':'' @ bi_ContainerID i @ '':'' @ bi_Status i @ '':'' @ Itoa (bi_ProcessingSpeed i) @
     '':'' @ Itoa (bi_MaxLoad i) @ (if includeWeight then '':'' @ Itoa (bi_CurrentWeight i) else []) @ ''|''"

definition fingerprint :: "(string \<Rightarrow> nat list) \<Rightarrow> bool \<Rightarrow> BInstance list \<Rightarrow> string" where
  "fingerprint sha includeWeight ins =
     hex_EncodeToString (sha (concat (map (fingerprint_part includeWeight) (sort_key bi_ID ins))))"

definition ConfigurationFingerprint :: "(string \<Rightarrow> nat list) \<Rightarrow> BInstance list \<Rightarrow> string" where
  "ConfigurationFingerprint sha ins = fingerprint sha False ins"

definition TopologyFingerprint :: "(string \<Rightarrow> nat list) \<Rightarrow> BInstance list \<Rightarrow> string" where
  "TopologyFingerprint sha ins = fingerprint sha True ins"

text \<open>The loop that collects weights into a map, shared by the three checks; \<open>bad\<close> is the test on a weight.\<close>

fun weight_map ::
  "(InstanceWeight \<Rightarrow> bool) \<Rightarrow> InstanceWeight list \<Rightarrow> (string \<times> int) list \<Rightarrow> (string \<times> int) list option" where
  "weight_map bad [] values = Some values"
| "weight_map bad (w # ws) values =
     (if iw_InstanceID w = [] \<or> bad w \<or> int_at values (iw_InstanceID w) \<noteq> 0 then None
      else weight_map bad ws (AList.update (iw_InstanceID w) (iw_Weight w) values))"

definition WeightsEqual :: "BInstance list \<Rightarrow> InstanceWeight list \<Rightarrow> bool" where
  "WeightsEqual ins weights =
     (if length ins \<noteq> length weights then False
      else case weight_map (\<lambda>_. False) weights [] of
        None \<Rightarrow> False
      | Some values \<Rightarrow> (\<forall>i \<in> set ins. int_at values (bi_ID i) = bi_CurrentWeight i))"

definition WeightsWithinShareThreshold :: "BInstance list \<Rightarrow> InstanceWeight list \<Rightarrow> bool" where
  "WeightsWithinShareThreshold ins weights =
     (if ins = [] \<or> length ins \<noteq> length weights then False
      else case weight_map (\<lambda>w. iw_Weight w \<le> 0) weights [] of
        None \<Rightarrow> False
      | Some targets \<Rightarrow>
          if \<exists>i \<in> set ins. bi_CurrentWeight i \<le> 0 \<or> int_at targets (bi_ID i) = 0 then False
          else let totalCurrent = sum_list (map bi_CurrentWeight ins);
                   totalTarget = sum_list (map iw_Weight weights)
          in \<forall>i \<in> set ins.
               \<not> \<bar>fl (fl (float64 (bi_CurrentWeight i) / float64 totalCurrent) -
                     fl (float64 (int_at targets (bi_ID i)) / float64 totalTarget))\<bar> \<ge> fl (3 / 100))"

subsection \<open>The divisor\<close>

lemma gcd_loop_gcd: "0 \<le> a \<Longrightarrow> 0 \<le> b \<Longrightarrow> gcd_loop a b = gcd a b"
proof (induction a b rule: gcd_loop.induct)
  case (1 a b)
  show ?case
  proof (cases "b = 0")
    case False
    then have "gcd_loop a b = gcd b (a mod b)"
      using 1 by (subst gcd_loop.simps) (simp add: grem_mod)
    then show ?thesis by (simp add: gcd.commute [of a] gcd_red_int [symmetric])
  qed (use 1 in \<open>simp add: gcd_loop.simps\<close>)
qed

lemma greatestCommonDivisor_gcd: "greatestCommonDivisor a b = gcd a b"
  by (simp add: greatestCommonDivisor_def gcd_loop_gcd)

lemma foldl_gcd: "0 \<le> d \<Longrightarrow> foldl greatestCommonDivisor d ws = gcd d (Gcd (set ws))"
  by (induction ws arbitrary: d) (simp_all add: greatestCommonDivisor_gcd gcd.assoc)

text \<open>Dividing positive numbers by their divisor leaves positive numbers without a common divisor.\<close>

lemma Gcd_divided:
  fixes A :: "int set"
  assumes "finite A" "A \<noteq> {}" "\<forall>a \<in> A. 0 < a"
  shows "0 < Gcd A" "Gcd ((\<lambda>a. a div Gcd A) ` A) = 1" "a \<in> A \<Longrightarrow> 1 \<le> a div Gcd A \<and> a div Gcd A \<le> a"
proof -
  let ?d = "Gcd A"
  have ne: "\<not> A \<subseteq> {0}" using assms(2,3) by fastforce
  then show d: "0 < ?d" using Gcd_int_greater_eq_0 [of A] Gcd_0_iff [of A] by linarith
  have "(\<lambda>x. ?d * x) ` ((\<lambda>a. a div ?d) ` A) = A" by (auto simp: image_image)
  then have "Gcd A = ?d * Gcd ((\<lambda>a. a div ?d) ` A)"
    using Gcd_mult [of ?d "(\<lambda>a. a div ?d) ` A"] d by simp
  then show "Gcd ((\<lambda>a. a div ?d) ` A) = 1" using d ne by simp
  show "1 \<le> a div ?d \<and> a div ?d \<le> a" if "a \<in> A"
  proof -
    have a: "0 < a" "?d dvd a" using that assms(3) by (auto simp: Gcd_dvd)
    then have "?d \<le> a" using zdvd_imp_le by blast
    then have "0 < a div ?d" using d by (simp add: pos_imp_zdiv_pos_iff)
    moreover have "a div ?d \<le> a div 1" using a(1) d by (intro zdiv_mono2) simp_all
    ultimately show ?thesis by simp
  qed
qed

subsection \<open>The target weights\<close>

definition valid_sample :: "(string \<times> rat) list \<Rightarrow> BInstance \<Rightarrow> bool" where
  "valid_sample lr i = (bi_ID i \<noteq> [] \<and> 0 < bi_ProcessingSpeed i \<and> 0 < bi_MaxLoad i \<and>
     0 \<le> rat_at lr (bi_ID i) \<and> rat_at lr (bi_ID i) \<le> 1)"

lemma ratio_scan_ok: "is_ok (ratio_scan lr ins mn mx acc) \<longleftrightarrow> (\<forall>i \<in> set ins. valid_sample lr i)"
  by (induction ins arbitrary: mn mx acc) (auto simp: valid_sample_def Let_def)

lemma raw_weight_bounds: "1 \<le> raw_weight m s \<and> raw_weight m s \<le> 100"
  by (auto simp: raw_weight_def)

lemma correction_bounds: "0 \<le> correction b avg r"
proof -
  have "0 \<le> fl (25 / 100)" "0 \<le> fl (175 / 100)" by (intro fl_nonneg; simp)+
  then show ?thesis by (simp add: correction_def le_max_iff_disj)
qed

lemma if_mono_le: "a \<le> c \<Longrightarrow> b \<le> d \<Longrightarrow> (if P then a else b) \<le> (if P then c else d)"
  by simp

lemma correction_antimono: "r \<le> r' \<Longrightarrow> correction b avg r' \<le> correction b avg r"
  unfolding correction_def by (intro if_mono_le min.mono max.mono fl_mono order_refl) simp_all

lemma score_mono:
  assumes "0 < bi_ProcessingSpeed i" "bi_ProcessingSpeed i \<le> bi_ProcessingSpeed j"
    "rat_at lr (bi_ID j) \<le> rat_at lr (bi_ID i)"
  shows "score b avg lr i \<le> score b avg lr j"
  unfolding score_def float64_def
  using assms correction_antimono [OF assms(3)] correction_bounds
  by (intro fl_mono mult_mono) (auto intro: fl_nonneg)

lemma raw_weight_mono: "0 \<le> m \<Longrightarrow> s \<le> t \<Longrightarrow> raw_weight m s \<le> raw_weight m t"
  unfolding raw_weight_def
  by (intro min.mono max.mono Round_mono fl_mono mult_right_mono divide_right_mono order_refl) simp_all

text \<open>The weights as one function of the instance.\<close>

lemma TargetWeights_shape:
  assumes "TargetWeights ins lr = Inr ws"
  obtains b avg m where "0 \<le> m"
    "ws = map (\<lambda>i. \<lparr>iw_InstanceID = bi_ID i, iw_Weight = raw_weight m (score b avg lr i) div
       Gcd ((\<lambda>i. raw_weight m (score b avg lr i)) ` set ins)\<rparr>) (sort_key bi_ID ins)"
    "ins \<noteq> []" "\<forall>i \<in> set ins. valid_sample lr i"
proof -
  let ?vs = "sort_key bi_ID ins"
  have ne: "ins \<noteq> []" using assms by (auto simp: TargetWeights_def)
  obtain mn mx acc where scan: "ratio_scan lr ?vs 1 0 0 = Inr (mn, mx, acc)"
    using assms ne by (auto simp: TargetWeights_def Let_def split: sum.splits)
  define avg where "avg = fl (acc / float64 (int (length ?vs)))"
  define b where "b = (fl (mx - mn) \<le> fl (5 / 100))"
  define m where "m = foldl max 0 (map (score b avg lr) ?vs)"
  let ?w = "\<lambda>i. raw_weight m (score b avg lr i)"
  have pos: "0 < Gcd (?w ` set ins)"
    using Gcd_divided(1) [of "?w ` set ins"] ne raw_weight_bounds by (force simp: Ball_def int_one_le_iff_zero_less)
  have d: "foldl greatestCommonDivisor 0 (map ?w ?vs) = Gcd (?w ` set ins)"
    using foldl_gcd [of 0 "map ?w ?vs"] by simp
  have q: "gquot (?w i) (Gcd (?w ` set ins)) = ?w i div Gcd (?w ` set ins)" for i
    using raw_weight_bounds [of m "score b avg lr i"] pos by (intro gquot_nonneg) simp_all
  have "ws = map (\<lambda>i. \<lparr>iw_InstanceID = bi_ID i, iw_Weight = ?w i div Gcd (?w ` set ins)\<rparr>) ?vs"
  proof -
    have z: "zip ?vs (map ?w ?vs) = map (\<lambda>i. (i, ?w i)) ?vs"
      by (simp add: zip_map2 zip_same_conv_map)
    have "TargetWeights ins lr = Inr (map (\<lambda>(i, w). \<lparr>iw_InstanceID = bi_ID i,
        iw_Weight = gquot w (foldl greatestCommonDivisor 0 (map ?w ?vs))\<rparr>) (zip ?vs (map ?w ?vs)))"
      using ne scan by (simp add: TargetWeights_def Let_def avg_def b_def m_def comp_def)
    then show ?thesis using assms by (simp add: d q z)
  qed
  moreover have "0 \<le> m" unfolding m_def by (rule foldl_max_ge)
  moreover have "\<forall>i \<in> set ins. valid_sample lr i" using scan ratio_scan_ok [of lr ?vs 1 0 0] by simp
  ultimately show thesis using that ne by blast
qed

lemma TargetWeights_good:
  assumes "ins \<noteq> []" "distinct (map bi_ID ins)" "\<forall>i \<in> set ins. valid_sample lr i"
  shows "\<exists>ws. TargetWeights ins lr = Inr ws \<and> map iw_InstanceID ws = sort (map bi_ID ins) \<and>
    weights_in_range ws \<and> Gcd (iw_Weight ` set ws) = 1 \<and>
    (\<forall>i \<in> set ins. \<forall>j \<in> set ins. bi_ProcessingSpeed i \<le> bi_ProcessingSpeed j \<and>
       rat_at lr (bi_ID j) \<le> rat_at lr (bi_ID i) \<longrightarrow>
       int_at (weight_pairs ws) (bi_ID i) \<le> int_at (weight_pairs ws) (bi_ID j))"
proof -
  let ?vs = "sort_key bi_ID ins"
  obtain t where "ratio_scan lr ?vs 1 0 0 = Inr t"
    using ratio_scan_ok [of lr ?vs 1 0 0] assms(3) by (auto simp: is_ok_iff)
  then obtain ws where ws: "TargetWeights ins lr = Inr ws"
    using assms(1) by (cases t) (simp add: TargetWeights_def Let_def)
  then obtain b avg m where m: "0 \<le> m" and shape: "ws = map (\<lambda>i. \<lparr>iw_InstanceID = bi_ID i,
      iw_Weight = raw_weight m (score b avg lr i) div
        Gcd ((\<lambda>i. raw_weight m (score b avg lr i)) ` set ins)\<rparr>) ?vs"
    by (rule TargetWeights_shape)
  let ?w = "\<lambda>i. raw_weight m (score b avg lr i)"
  let ?A = "?w ` set ins"
  have A: "finite ?A" "?A \<noteq> {}" "\<forall>a \<in> ?A. 0 < a"
    using assms(1) raw_weight_bounds by (auto simp: int_one_le_iff_zero_less [symmetric])
  note G = Gcd_divided [OF A]
  have "1 \<le> ?w i div Gcd ?A \<and> ?w i div Gcd ?A \<le> 100" if "i \<in> set ins" for i
    using G(3) [of "?w i"] raw_weight_bounds [of m "score b avg lr i"] that by auto
  then have range: "weights_in_range ws" by (auto simp: shape weights_in_range_def)
  have "iw_Weight ` set ws = (\<lambda>a. a div Gcd ?A) ` ?A" by (simp add: shape image_image)
  then have gcd: "Gcd (iw_Weight ` set ws) = 1" using G(2) by simp
  have ids: "map iw_InstanceID ws = sort (map bi_ID ins)"
    by (simp add: shape comp_def map_sort_key [unfolded comp_def])
  have at: "int_at (weight_pairs ws) (bi_ID i) = ?w i div Gcd ?A" if "i \<in> set ins" for i
  proof -
    have "(bi_ID i, ?w i div Gcd ?A) \<in> set (weight_pairs ws)"
      using that by (auto simp: shape weight_pairs_def)
    moreover have "distinct (map fst (weight_pairs ws))" using ids assms(2) by simp
    ultimately show ?thesis by (simp add: int_at_def)
  qed
  have "?w i div Gcd ?A \<le> ?w j div Gcd ?A"
    if "i \<in> set ins" "j \<in> set ins" "bi_ProcessingSpeed i \<le> bi_ProcessingSpeed j"
      "rat_at lr (bi_ID j) \<le> rat_at lr (bi_ID i)" for i j
    using that assms(3) G(1) by (intro zdiv_mono1 raw_weight_mono m score_mono) (auto simp: valid_sample_def)
  then show ?thesis using ws ids range gcd at by auto
qed
text \<open>
  Claim C21. For well-formed instances with distinct names and load ratios between 0 and 1,
  \<open>TargetWeights\<close> yields one weight per instance in the order of the names, each between 1 and 100,
  without a common divisor; of two instances the one that is at least as fast and at most as
  loaded gets at least the weight of the other.
\<close>

theorem TargetWeights_correct:
  assumes "ins \<noteq> []" "distinct (map bi_ID ins)" "\<forall>i \<in> set ins. valid_sample lr i"
  shows "\<exists>ws. TargetWeights ins lr = Inr ws \<and> map iw_InstanceID ws = sort (map bi_ID ins) \<and>
    weights_in_range ws \<and> Gcd (iw_Weight ` set ws) = 1 \<and>
    (\<forall>i \<in> set ins. \<forall>j \<in> set ins. bi_ProcessingSpeed i \<le> bi_ProcessingSpeed j \<and>
       rat_at lr (bi_ID j) \<le> rat_at lr (bi_ID i) \<longrightarrow>
       int_at (weight_pairs ws) (bi_ID i) \<le> int_at (weight_pairs ws) (bi_ID j))"
  using TargetWeights_good [OF assms] by blast

definition sample_instances :: "BInstance list" where
  "sample_instances =
     [\<lparr>bi_ID = ''app-1'', bi_ContainerID = ''c1'', bi_Status = ''running'', bi_ProcessingSpeed = 10,
       bi_MaxLoad = 100, bi_CurrentWeight = 100\<rparr>,
      \<lparr>bi_ID = ''app-2'', bi_ContainerID = ''c2'', bi_Status = ''running'', bi_ProcessingSpeed = 5,
       bi_MaxLoad = 50, bi_CurrentWeight = 100\<rparr>]"

theorem TargetWeights_correct_witness:
  "\<exists>ws. TargetWeights sample_instances [(''app-2'', 1)] = Inr ws \<and>
     map iw_InstanceID ws = [''app-1'', ''app-2''] \<and> weights_in_range ws \<and>
     Gcd (iw_Weight ` set ws) = 1"
proof -
  have "\<forall>i \<in> set sample_instances. valid_sample [(''app-2'', 1)] i" by code_simp
  moreover have "distinct (map bi_ID sample_instances)" "sample_instances \<noteq> []"
    "sort (map bi_ID sample_instances) = [''app-1'', ''app-2'']" by code_simp+
  ultimately show ?thesis using TargetWeights_correct [of sample_instances "[(''app-2'', 1)]"] by auto
qed

end
