(* ===== verification/BalancerRepository.thy ===== *)
theory BalancerRepository
  imports BalancerAlgorithm
begin

text \<open>
  The transactions of the balancer, \<^verbatim>\<open>services/platform-api/internal/balancer/repository.go\<close>, and the
  check of an adjustment by the worker, \<^verbatim>\<open>ValidateAdaptive\<close> of \<^verbatim>\<open>internal/operation/repository.go\<close>.
\<close>

record Operation =
  bo_OperationID :: string
  bo_Status :: op_status
  bo_ErrorCode :: string
  bo_ErrorMessage :: string
  bo_Skipped :: bool

definition adaptive_status :: "Status \<Rightarrow> bool" where
  "adaptive_status s = (s = Running \<or> s = Expiring)"

text \<open>A row of \<open>lab_instances\<close>; a null container identifier cannot be scanned into a string.\<close>

definition scan_binstance :: "instance_row \<Rightarrow> BInstance option" where
  "scan_binstance r = map_option (\<lambda>c. \<lparr>bi_ID = li_instance_name r, bi_ContainerID = c,
     bi_Status = li_status r, bi_ProcessingSpeed = li_processing_speed r, bi_MaxLoad = li_max_load r,
     bi_CurrentWeight = li_current_weight r\<rparr>) (li_container_id r)"

fun scan_all :: "('r \<Rightarrow> 'a option) \<Rightarrow> 'r list \<Rightarrow> 'a list option" where
  "scan_all f [] = Some []"
| "scan_all f (r # rs) = (case f r of None \<Rightarrow> None | Some x \<Rightarrow> map_option ((#) x) (scan_all f rs))"

subsection \<open>Adaptive labs\<close>

definition adaptive_rows :: "platform_db \<Rightarrow> (session_row \<times> instance_row) list" where
  "adaptive_rows db = sort_key (\<lambda>(s, i). (ls_id s, li_instance_name i))
     (concat (map (\<lambda>s. map (Pair s) (filter (\<lambda>i. li_lab_id i = ls_id s) (instances db)))
       (filter (\<lambda>s. ls_scenario_type s = ''application_cluster'' \<and> ls_balancing_mode s = ''adaptive'' \<and>
          adaptive_status (ls_status s)) (sessions db))))"

text \<open>The body of the loop over the rows: a new lab when the identifier changes.\<close>

definition add_row :: "BLab list \<Rightarrow> string \<times> nat \<times> BInstance \<Rightarrow> BLab list" where
  "add_row labs = (\<lambda>(labID, userID, i).
     let labs' = (if labs = [] \<or> bl_ID (last labs) \<noteq> labID
            then labs @ [\<lparr>bl_ID = labID, bl_UserID = userID, bl_Instances = []\<rparr>] else labs)
     in butlast labs' @ [(last labs')\<lparr>bl_Instances := bl_Instances (last labs') @ [i]\<rparr>])"

definition ListAdaptiveLabs :: "fault \<Rightarrow> platform_db \<Rightarrow> (lab_error, BLab list) result" where
  "ListAdaptiveLabs flt db =
     (if flt ''list adaptive labs'' then Inl (ErrDB ''list adaptive labs'')
      else case scan_all (\<lambda>(s, i). map_option (\<lambda>b. (ls_id s, ls_user_id s, b)) (scan_binstance i))
                  (adaptive_rows db) of
        None \<Rightarrow> Inl (ErrDB ''scan adaptive lab'')
      | Some rows \<Rightarrow>
          if flt ''iterate adaptive labs'' then Inl (ErrDB ''iterate adaptive labs'')
          else Inr (foldl add_row [] rows))"

definition lockInstances :: "fault \<Rightarrow> string \<Rightarrow> platform_db \<Rightarrow> (lab_error, BInstance list) result" where
  "lockInstances flt labID db =
     (if flt ''lock adaptive instances'' then Inl (ErrDB ''lock adaptive instances'')
      else case scan_all scan_binstance
                  (sort_key li_instance_name (filter (\<lambda>i. li_lab_id i = labID) (instances db))) of
        None \<Rightarrow> Inl (ErrDB ''scan adaptive instance'')
      | Some ins \<Rightarrow> if flt ''iterate adaptive instances'' then Inl (ErrDB ''iterate adaptive instances'')
                    else Inr ins)"

subsection \<open>Adjustments\<close>

definition validateAdjustmentWeights :: "BInstance list \<Rightarrow> InstanceWeight list \<Rightarrow> lab_error option" where
  "validateAdjustmentWeights ins weights =
     (if length ins \<noteq> length weights then Some ErrStale
      else case weight_map (\<lambda>w. iw_Weight w < 1 \<or> iw_Weight w > 100) weights [] of
        None \<Rightarrow> Some ErrStale
      | Some values \<Rightarrow>
          if \<exists>i \<in> set ins. int_at values (bi_ID i) = 0 then Some ErrStale else None)"

definition encodeAdjustmentPayload :: "Adjustment \<Rightarrow> payload" where
  "encodeAdjustmentPayload a = AdjustmentPayload
     \<lparr>ad_ExpectedMode = ''adaptive'', ad_TopologyFingerprint = aj_TopologyFingerprint a,
      ad_Servers = map (\<lambda>w. \<lparr>sv_InstanceName = iw_InstanceID w, sv_Weight = iw_Weight w\<rparr>) (aj_Weights a),
      ad_Weights = aj_Weights a\<rparr>"

definition adjustment_locked ::
  "fault \<Rightarrow> (string \<Rightarrow> nat list) \<Rightarrow> Adjustment \<Rightarrow> gotime \<Rightarrow> platform_db \<Rightarrow>
   (lab_error, Operation \<times> platform_db) result" where
  "adjustment_locked flt sha a now db =
     (if flt ''begin adaptive adjustment'' then Inl (ErrDB ''begin adaptive adjustment'')
      else if flt ''lock adaptive lab'' then Inl (ErrDB ''lock adaptive lab'')
      else case find_session (aj_LabID a) db of
        None \<Rightarrow> Inl ErrStale
      | Some s \<Rightarrow>
          if ls_user_id s \<noteq> aj_RequestedBy a \<or> ls_scenario_type s \<noteq> ''application_cluster'' \<or>
             ls_balancing_mode s \<noteq> ''adaptive'' \<or> \<not> adaptive_status (ls_status s)
          then Inl ErrStale
          else if flt ''check adaptive operation queue'' then Inl (ErrDB ''check adaptive operation queue'')
          else if pending_operation (aj_LabID a) db then Inl ErrBusy
          else case lockInstances flt (aj_LabID a) db of
            Inl e \<Rightarrow> Inl e
          | Inr ins \<Rightarrow>
              if TopologyFingerprint sha ins \<noteq> aj_TopologyFingerprint a then Inl ErrStale
              else case validateAdjustmentWeights ins (aj_Weights a) of
                Some e \<Rightarrow> Inl e
              | None \<Rightarrow>
                  if WeightsEqual ins (aj_Weights a) then Inl ErrNoChange
                  else case insert_operation (aj_OperationID a) (aj_LabID a) (aj_RequestedBy a)
                         APPLY_ADAPTIVE_WEIGHTS None (encodeAdjustmentPayload a) now db of
                    None \<Rightarrow> Inl (ErrDB ''insert adaptive adjustment'')
                  | Some (oid, db1) \<Rightarrow>
                      if flt ''insert adaptive adjustment'' then Inl (ErrDB ''insert adaptive adjustment'')
                      else if flt ''read adaptive adjustment id''
                      then Inl (ErrDB ''read adaptive adjustment id'')
                      else if flt ''commit adaptive adjustment'' then Inl (ErrDB ''commit adaptive adjustment'')
                      else Inr (\<lparr>bo_OperationID = aj_OperationID a, bo_Status = OpPending,
                                 bo_ErrorCode = [], bo_ErrorMessage = [], bo_Skipped = False\<rparr>, db1))"

definition EnqueueAdjustment ::
  "fault \<Rightarrow> (string \<Rightarrow> nat list) \<Rightarrow> Adjustment \<Rightarrow> gotime \<Rightarrow> platform_db \<Rightarrow>
   (lab_error, Operation) result \<times> platform_db" where
  "EnqueueAdjustment flt sha a now db =
     (if aj_OperationID a = [] \<or> aj_LabID a = [] \<or> aj_RequestedBy a = 0 \<or>
         aj_TopologyFingerprint a = [] \<or> aj_Weights a = []
      then (Inl ErrStale, db)
      else atomically db (adjustment_locked flt sha a now db))"

definition string_of :: "string option \<Rightarrow> string" where
  "string_of s = (case s of None \<Rightarrow> [] | Some v \<Rightarrow> v)"

definition FindAdjustment :: "fault \<Rightarrow> string \<Rightarrow> platform_db \<Rightarrow> (lab_error, Operation) result" where
  "FindAdjustment flt operationID db =
     (if flt ''find adaptive adjustment'' then Inl (ErrDB ''find adaptive adjustment'')
      else case find (\<lambda>r. same_key (lo_operation_id r) operationID \<and>
                  lo_action r = APPLY_ADAPTIVE_WEIGHTS) (operations db) of
        None \<Rightarrow> Inl (ErrDB ''find adaptive adjustment'')
      | Some r \<Rightarrow> Inr \<lparr>bo_OperationID = lo_operation_id r, bo_Status = lo_status r,
          bo_ErrorCode = string_of (lo_error_code r), bo_ErrorMessage = string_of (lo_error_message r),
          bo_Skipped = (lo_result r = Some SkippedResult)\<rparr>)"

text \<open>The check the worker makes before it applies an adjustment, in a read-only transaction.\<close>

definition ValidateAdaptive ::
  "fault \<Rightarrow> (string \<Rightarrow> nat list) \<Rightarrow> action \<Rightarrow> string \<Rightarrow> string \<Rightarrow> platform_db \<Rightarrow> (lab_error, bool) result" where
  "ValidateAdaptive flt sha act labID topologyFingerprint db =
     (if flt ''begin adaptive validation'' then Inl (ErrDB ''begin adaptive validation'')
      else if flt ''load adaptive validation lab'' then Inl (ErrDB ''load adaptive validation lab'')
      else case find_session labID db of
        None \<Rightarrow> Inr False
      | Some s \<Rightarrow>
          if act \<noteq> APPLY_ADAPTIVE_WEIGHTS \<or> ls_scenario_type s \<noteq> ''application_cluster'' \<or>
             ls_balancing_mode s \<noteq> ''adaptive'' \<or> \<not> adaptive_status (ls_status s)
          then Inr False
          else if flt ''load adaptive validation instances''
          then Inl (ErrDB ''load adaptive validation instances'')
          else case scan_all scan_binstance
                 (sort_key li_instance_name (filter (\<lambda>i. li_lab_id i = labID) (instances db))) of
            None \<Rightarrow> Inl (ErrDB ''scan adaptive validation instance'')
          | Some ins \<Rightarrow>
              if flt ''iterate adaptive validation instances''
              then Inl (ErrDB ''iterate adaptive validation instances'')
              else if flt ''commit adaptive validation'' then Inl (ErrDB ''commit adaptive validation'')
              else Inr (TopologyFingerprint sha ins = topologyFingerprint))"

subsection \<open>Checks of an adjustment\<close>

lemma scan_all_iff: "scan_all f rs = Some xs \<longleftrightarrow> map f rs = map Some xs"
  by (induction rs arbitrary: xs) (auto split: option.splits)

text \<open>The collected map, for tests that refuse the weight 0.\<close>

lemma weight_map_eq:
  assumes "\<forall>(k, v) \<in> set m. v \<noteq> 0" "\<And>w. \<not> bad w \<Longrightarrow> iw_Weight w \<noteq> 0"
  shows "weight_map bad ws m = (if (\<forall>w \<in> set ws. iw_InstanceID w \<noteq> [] \<and> \<not> bad w) \<and>
    distinct (map iw_InstanceID ws) \<and> iw_InstanceID ` set ws \<inter> fst ` set m = {}
    then Some (m @ weight_pairs ws) else None)"
  using assms(1)
proof (induction ws arbitrary: m)
  case (Cons w ws)
  show ?case
  proof (cases "iw_InstanceID w = [] \<or> bad w \<or> iw_InstanceID w \<in> fst ` set m")
    case True
    then show ?thesis using int_at_nonzero [OF Cons.prems] by auto
  next
    case False
    then have "weight_map bad (w # ws) m = weight_map bad ws (m @ [(iw_InstanceID w, iw_Weight w)])"
      using int_at_nonzero [OF Cons.prems] by (simp add: AList_update_append)
    moreover have "\<forall>(k, v) \<in> set (m @ [(iw_InstanceID w, iw_Weight w)]). v \<noteq> 0"
      using False Cons.prems assms(2) by auto
    ultimately show ?thesis using Cons.IH False by auto
  qed
qed simp

lemma validateAdjustmentWeights_ok:
  assumes "weights_in_range ws" "distinct (map bi_ID ins)" "map iw_InstanceID ws = sort (map bi_ID ins)"
    "\<forall>i \<in> set ins. bi_ID i \<noteq> []"
  shows "validateAdjustmentWeights ins ws = None"
proof -
  have len: "length ins = length ws" using assms(3) by (metis length_map length_sort)
  have ids: "iw_InstanceID ` set ws = bi_ID ` set ins" using assms(3) by (metis set_map set_sort)
  have d: "distinct (map iw_InstanceID ws)" using assms(2,3) by simp
  have pos: "\<forall>(k, v) \<in> set (weight_pairs ws). v \<noteq> 0"
    using assms(1) by (auto simp: weights_in_range_def weight_pairs_def)
  have ne: "iw_InstanceID w \<noteq> [] \<and> 1 \<le> iw_Weight w \<and> iw_Weight w \<le> 100" if "w \<in> set ws" for w
    using that ids assms(1,4) unfolding weights_in_range_def by (metis imageE image_eqI)
  have "weight_map (\<lambda>w. iw_Weight w < 1 \<or> iw_Weight w > 100) ws [] = Some (weight_pairs ws)"
    using ne d by (subst weight_map_eq) (auto simp: not_less)
  moreover have "int_at (weight_pairs ws) (bi_ID i) \<noteq> 0" if "i \<in> set ins" for i
    using int_at_nonzero [OF pos] that ids by auto
  ultimately show ?thesis using len by (auto simp: validateAdjustmentWeights_def)
qed

lemma TargetWeights_accepted:
  assumes "TargetWeights ins lr = Inr ws" "distinct (map bi_ID ins)"
  shows "validateAdjustmentWeights ins ws = None" "ws \<noteq> []"
proof -
  have v: "\<forall>i \<in> set ins. valid_sample lr i" "ins \<noteq> []"
    using assms(1) by (auto elim: TargetWeights_shape)
  note t = TargetWeights_good [OF v(2) assms(2) v(1)]
  show "validateAdjustmentWeights ins ws = None"
    using t assms v(1) by (intro validateAdjustmentWeights_ok) (auto simp: valid_sample_def)
  show "ws \<noteq> []" using assms(1) v(2) by (auto elim!: TargetWeights_shape simp: sort_key_Nil)
qed

text \<open>What the queue holds after an adjustment was inserted.\<close>

lemma adjustment_inserted:
  assumes "insert_operation k l u APPLY_ADAPTIVE_WEIGHTS t pl now db = Some (oid, db')" "\<And>m. \<not> flt m"
  shows "FindAdjustment flt k db' = Inr \<lparr>bo_OperationID = k, bo_Status = OpPending, bo_ErrorCode = [],
      bo_ErrorMessage = [], bo_Skipped = False\<rparr>"
    "sessions db' = sessions db" "instances db' = instances db"
proof -
  have new: "\<And>r. r \<in> set (operations db) \<Longrightarrow> \<not> same_key (lo_operation_id r) k"
    using assms(1) by (auto simp: insert_operation_def find_operation_def find_None_iff split: if_splits)
  then have "find (\<lambda>r. same_key (lo_operation_id r) k \<and> lo_action r = APPLY_ADAPTIVE_WEIGHTS)
      (operations db) = None"
    by (auto simp: find_None_iff)
  then show "FindAdjustment flt k db' = Inr \<lparr>bo_OperationID = k, bo_Status = OpPending, bo_ErrorCode = [],
      bo_ErrorMessage = [], bo_Skipped = False\<rparr>"
    using assms by (auto simp: insert_operation_def FindAdjustment_def find_append same_key_def
        string_of_def split: if_splits)
  show "sessions db' = sessions db" "instances db' = instances db"
    using assms(1) by (auto simp: insert_operation_def split: if_splits)
qed

text \<open>
  Weights computed from the instances of an idle adaptive lab are accepted: either they are
  the weights the lab has, and nothing changes, or the adjustment is enqueued, \<open>FindAdjustment\<close>
  reports it as pending, and the check before its application agrees that the topology is the one
  that was sampled.
\<close>

theorem adjustment_enqueued:
  assumes "\<And>m. \<not> flt m" "find_session l db = Some s" "ls_scenario_type s = ''application_cluster''"
    "ls_balancing_mode s = ''adaptive''" "adaptive_status (ls_status s)" "\<not> pending_operation l db"
    "lockInstances flt l db = Inr ins" "distinct (map bi_ID ins)" "TargetWeights ins lr = Inr ws"
    "find_operation k db = None" "k \<noteq> []" "l \<noteq> []" "ls_user_id s \<noteq> 0" "\<And>x. sha x \<noteq> []"
  shows "let a = \<lparr>aj_OperationID = k, aj_LabID = l, aj_RequestedBy = ls_user_id s,
       aj_TopologyFingerprint = TopologyFingerprint sha ins, aj_Weights = ws\<rparr>
    in EnqueueAdjustment flt sha a now db = (Inl ErrNoChange, db) \<and> WeightsEqual ins ws \<or>
      (\<exists>r db'. EnqueueAdjustment flt sha a now db = (Inr r, db') \<and> bo_Status r = OpPending \<and>
         FindAdjustment flt k db' = Inr r \<and>
         ValidateAdaptive flt sha APPLY_ADAPTIVE_WEIGHTS l (TopologyFingerprint sha ins) db' = Inr True)"
proof -
  define a where "a = \<lparr>aj_OperationID = k, aj_LabID = l, aj_RequestedBy = ls_user_id s,
       aj_TopologyFingerprint = TopologyFingerprint sha ins, aj_Weights = ws\<rparr>"
  note t = TargetWeights_accepted [OF assms(9,8)]
  have fp: "TopologyFingerprint sha ins \<noteq> []"
  proof -
    have "length (TopologyFingerprint sha ins) \<noteq> 0"
      unfolding TopologyFingerprint_def fingerprint_def hex_length using assms(14) by simp
    then show ?thesis by auto
  qed
  obtain oid db' where i: "insert_operation k l (ls_user_id s) APPLY_ADAPTIVE_WEIGHTS None
      (encodeAdjustmentPayload a) now db = Some (oid, db')"
    using assms(10) by (simp add: insert_operation_def)
  note ins = adjustment_inserted [OF i assms(1)]
  have scan: "scan_all scan_binstance
      (sort_key li_instance_name (filter (\<lambda>i. li_lab_id i = l) (instances db'))) = Some ins"
    using assms(1,7) ins(3) by (simp add: lockInstances_def split: option.splits)
  have v: "ValidateAdaptive flt sha APPLY_ADAPTIVE_WEIGHTS l (TopologyFingerprint sha ins) db' = Inr True"
    using assms(1-5) scan ins(2) by (simp add: ValidateAdaptive_def find_session_def)
  have "EnqueueAdjustment flt sha a now db =
      (if WeightsEqual ins ws then (Inl ErrNoChange, db) else
        (Inr \<lparr>bo_OperationID = k, bo_Status = OpPending, bo_ErrorCode = [], bo_ErrorMessage = [],
          bo_Skipped = False\<rparr>, db'))"
    using assms(1-7) assms(11-13) t fp i
    by (simp add: EnqueueAdjustment_def adjustment_locked_def a_def [symmetric])
      (simp add: a_def atomically_def)
  then show ?thesis unfolding a_def [symmetric] Let_def using v ins(1) by (cases "WeightsEqual ins ws") auto
qed

definition sample_adaptive_db :: platform_db where
  "sample_adaptive_db = \<lparr>users = [], courses = [], progress = [],
     sessions = [\<lparr>ls_id = ''lab-1'', ls_user_id = 7, ls_course_id = 1,
       ls_scenario_type = ''application_cluster'', ls_scenario_template_id = ''t'', ls_status = Running,
       ls_balancing_mode = ''adaptive'', ls_mysql_db_name = None, ls_mysql_db_user = None,
       ls_redis_enabled = False, ls_started_at = Some 1, ls_last_effective_action_at = Some 1,
       ls_terminated_at = None, ls_termination_reason = None, ls_created_at = 1, ls_updated_at = 1\<rparr>],
     instances = map (\<lambda>b. \<lparr>li_lab_id = ''lab-1'', li_instance_name = bi_ID b,
       li_container_id = Some (bi_ContainerID b), li_status = bi_Status b, li_cpu_limit_cores = 1,
       li_memory_limit_mb = 64, li_performance_percent = 100,
       li_processing_speed = bi_ProcessingSpeed b, li_max_load = bi_MaxLoad b,
       li_current_weight = bi_CurrentWeight b, li_created_at = 1, li_updated_at = 1\<rparr>) sample_instances,
     resources = [], operations = [], next_operation = 1\<rparr>"

lemma sample_target: "(\<And>k. rat_at lr k = 0) \<Longrightarrow> TargetWeights sample_instances lr =
    Inr [\<lparr>iw_InstanceID = ''app-1'', iw_Weight = 2\<rparr>, \<lparr>iw_InstanceID = ''app-2'', iw_Weight = 1\<rparr>]"
proof -
  assume rat: "\<And>k. rat_at lr k = 0"
  have n: "fl 10 = 10" "fl 5 = 5" "fl 100 = 100" "fl 50 = 50" "fl 1 = 1"
    using fl_of_int [of 10] fl_of_int [of 5] fl_of_int [of 100] fl_of_int [of 50] fl_of_int [of 1] by simp_all
  have h: "fl (1 / 2) = 1 / 2" using fl_dyadic [of 1 "-1"] by (simp add: power_int_minus)
  have b: "0 \<le> fl (1 / 20)" by (intro fl_nonneg) simp
  have r: "Round 100 = 100" "Round 50 = 50" using Round_of_int [of 100] Round_of_int [of 50] by simp_all
  have g: "foldl greatestCommonDivisor 0 [100, 50] = 50" by (simp add: greatestCommonDivisor_gcd)
  have q: "gquot 100 50 = 2" "gquot 50 50 = 1" by code_simp+
  have v: "sort_key bi_ID sample_instances = sample_instances" by code_simp
  have scan: "ratio_scan lr sample_instances 1 0 0 = Inr (0, 0, 0)"
    by (simp add: sample_instances_def rat)
  have score: "map (score True avg lr) sample_instances = [10, 5]" for avg
    by (simp add: sample_instances_def score_def correction_def float64_def n)
  have w: "map (raw_weight (foldl max 0 [10, 5])) [10, 5] = [100, 50]"
    by (simp add: raw_weight_def n h r)
  have bal: "(fl (0 - 0) \<le> fl (5 / 100)) = True" using b by simp
  have "TargetWeights sample_instances lr =
      Inr (map (\<lambda>(i, w). \<lparr>iw_InstanceID = bi_ID i, iw_Weight = gquot w (foldl greatestCommonDivisor 0 [100, 50])\<rparr>)
        (zip sample_instances [100, 50]))"
    unfolding TargetWeights_def v scan Let_def sum.case prod.case bal score w
    by (simp only: sample_instances_def list.distinct if_False)
  then show ?thesis unfolding g by (simp add: sample_instances_def q)
qed

theorem adjustment_enqueued_witness:
  "\<exists>r db'. EnqueueAdjustment (\<lambda>_. False) (\<lambda>_. [1])
       \<lparr>aj_OperationID = ''balancer-1'', aj_LabID = ''lab-1'', aj_RequestedBy = 7,
        aj_TopologyFingerprint = TopologyFingerprint (\<lambda>_. [1]) sample_instances,
        aj_Weights = [\<lparr>iw_InstanceID = ''app-1'', iw_Weight = 2\<rparr>, \<lparr>iw_InstanceID = ''app-2'', iw_Weight = 1\<rparr>]\<rparr>
       5 sample_adaptive_db = (Inr r, db') \<and> bo_Status r = OpPending \<and>
     FindAdjustment (\<lambda>_. False) ''balancer-1'' db' = Inr r"
proof -
  let ?s = "hd (sessions sample_adaptive_db)" and ?ws = "[\<lparr>iw_InstanceID = ''app-1'', iw_Weight = 2\<rparr>,
    \<lparr>iw_InstanceID = ''app-2'', iw_Weight = 1\<rparr>]"
  have i: "lockInstances (\<lambda>_. False) ''lab-1'' sample_adaptive_db = Inr sample_instances"
    and p: "\<not> pending_operation ''lab-1'' sample_adaptive_db" and d: "distinct (map bi_ID sample_instances)"
    and f: "find_operation ''balancer-1'' sample_adaptive_db = None"
    and w: "WeightsEqual sample_instances ?ws = False"
    by code_simp+
  have s: "find_session ''lab-1'' sample_adaptive_db = Some ?s"
    "ls_scenario_type ?s = ''application_cluster''" "ls_balancing_mode ?s = ''adaptive''"
    "adaptive_status (ls_status ?s)" and u: "ls_user_id ?s = 7"
    by (simp_all add: sample_adaptive_db_def find_session_def adaptive_status_def)
  show ?thesis
    using adjustment_enqueued [where flt = "\<lambda>_. False" and sha = "\<lambda>_. [1]" and now = 5,
        OF _ s p i d sample_target [of "[]"] f, unfolded Let_def w u] by (auto simp: rat_at_def)
qed

end
