(* ===== verification/PlatformMachine.thy ===== *)
theory PlatformMachine
  imports Persistence BalancerRepository
begin

text \<open>
  The platform as one transition system over its database and the records its workers hold:
  requests of users, adjustments of the balancer, claims, completions and the expiry of labs, in
  any order. Every step is a step of the machine of theory \<open>LabMachine\<close> or leaves its state alone.
\<close>

subsection \<open>The remaining completions\<close>

lemma set_status_same:
  "find_session l db = Some s \<Longrightarrow> set_status l (ls_user_id s) (ls_status s) (abs_db db) = abs_db db"
  by (simp add: set_status_def labs_find abs_db_def fun_upd_idem)

lemma balancing_mode_app:
  assumes "update_session flt m l from (\<lambda>s. s\<lparr>ls_balancing_mode := b, ls_updated_at := now\<rparr>) db = Inr d"
    "db_wf db"
  shows "abs_db d = abs_db db \<and> db_wf d \<and> operations d = operations db"
proof -
  note u = update_session_abs [OF assms]
  have "abs_db d = abs_db db" using u(1) set_status_same by auto
  then show ?thesis using u(2,3) by simp
qed

lemma topology_app:
  assumes "(if ec = [] then applyTopologyResult flt rec v now db else Inr db) = Inr d" "db_wf db"
  shows "abs_db d = abs_db db \<and> db_wf d \<and> operations d = operations db"
proof (cases "ec = [] \<and> rec_Action rec = SET_BALANCING_MODE")
  case True
  then have "update_session flt ''persist balancing mode'' (rec_LabID rec) {Running, Expiring}
      (\<lambda>s. s\<lparr>ls_balancing_mode := tpr_BalancingMode v, ls_updated_at := now\<rparr>) db = Inr d"
    using assms(1) by (auto simp: applyTopologyResult_def split: if_splits)
  then show ?thesis by (rule balancing_mode_app) (rule assms(2))
next
  case False
  have "same_core db d"
  proof (cases "ec = []")
    case True
    then show ?thesis
      using assms(1) False persistWeights_core [of flt "rec_LabID rec" "tpr_Weights v" now db d]
      by (cases "rec_Action rec")
        (auto simp: applyTopologyResult_def Let_def split: if_splits option.splits prod.splits)
  qed (use assms(1) in simp)
  then show ?thesis using assms(2) by (rule same_core_app)
qed

text \<open>The actions whose completion may leave the lab in its state.\<close>

definition settled_action :: "action \<Rightarrow> bool" where
  "settled_action a = (a \<notin> {CREATE_LAB, RESET_LAB, DESTROY_LAB})"

lemma settled_finishes: "settled_action a \<Longrightarrow> finishes a s s"
  by (cases a) (auto simp: settled_action_def)

lemma settled_running: "settled_action a \<Longrightarrow> s \<in> {Running, Expiring} \<Longrightarrow> finishes a s Running"
  by (cases a) (auto simp: settled_action_def)

lemma CompleteTopology_step:
  assumes "CompleteTopology flt rec v ec em now db = (e, db')" "db_wf db" "issued rec db"
    "settled_action (rec_Action rec)" "lab_inv (abs_db db)"
  shows "refines db db'"
proof (cases "ec = [] \<and> rec_Action rec \<noteq> APPLY_ADAPTIVE_WEIGHTS")
  case True
  show ?thesis
    by (rule finish_move [OF assms(1) [unfolded CompleteTopology_def] topology_app _ end_status assms(2,3),
        where src = "{Running, Expiring}" and m = "''update topology lab activity''"
          and f = "\<lambda>s. s\<lparr>ls_status := Running, ls_last_effective_action_at := Some now,
            ls_updated_at := now\<rparr>"])
      (use assms(2,4) True core_ex settled_running in auto)
next
  case False
  note tx = assms(1) [unfolded CompleteTopology_def if_not_P [OF False]]
  show ?thesis
    by (rule finish_stay [OF tx topology_app end_status assms(2,3,5)])
      (use assms(2,4) settled_finishes in auto)
qed

lemma cache_app:
  assumes "(if ec = [] then applyCacheResult flt rec v now db else Inr db) = Inr d" "db_wf db"
  shows "abs_db d = abs_db db \<and> db_wf d \<and> operations d = operations db"
proof -
  have "same_core db d"
    using assms(1)
    by (cases "rec_Action rec")
      (auto simp: applyCacheResult_def Let_def split: if_splits option.splits)
  then show ?thesis using assms(2) by (rule same_core_app)
qed

lemma CompleteCache_step:
  assumes "CompleteCache flt rec v ec em now db = (e, db')" "db_wf db" "issued rec db"
    "settled_action (rec_Action rec)" "lab_inv (abs_db db)"
  shows "refines db db'"
proof (cases "ec = []")
  case True
  show ?thesis
    by (rule finish_move [OF assms(1) [unfolded CompleteCache_def] cache_app _ end_status assms(2,3),
        where src = "{Running}" and m = "''update cache lab activity''"
          and f = "\<lambda>s. s\<lparr>ls_redis_enabled := (if rec_Action rec = ADD_SESSION_REDIS then True
               else if rec_Action rec = REMOVE_SESSION_REDIS then False else ls_redis_enabled s),
             ls_last_effective_action_at := Some now, ls_updated_at := now\<rparr>"])
      (use assms(2,4) True core_ex settled_finishes in \<open>auto split: if_splits\<close>)
next
  case False
  have tx: "complete_tx flt ''begin complete cache transaction'' ''commit cache action''
      (\<lambda>db. if ec = [] then applyCacheResult flt rec v now db else Inr db)
      (completeOperationRecord flt rec (if ec = [] then OpSucceeded else OpFailed)
        (if ec = [] then Some OtherResult else None) ec em now) Inr db = (e, db')"
    using assms(1) False by (simp add: CompleteCache_def)
  show ?thesis
    by (rule finish_stay [OF tx cache_app end_status assms(2,3,5)])
      (use assms(2,4) settled_finishes in auto)
qed

lemma CompleteFailure_step:
  assumes "CompleteFailure flt rec ec em now db = (e, db')" "db_wf db" "issued rec db"
    "settled_action (rec_Action rec)" "lab_inv (abs_db db)"
  shows "refines db db'"
proof -
  let ?f = "\<lambda>x. x\<lparr>lo_status := OpFailed, lo_error_code := Some ec, lo_error_message := Some em,
    lo_lease_owner := None, lo_lease_expires_at := None, lo_completed_at := Some now,
    lo_updated_at := now\<rparr>"
  let ?P = "\<lambda>x. lo_id x = rec_ID rec \<and> lo_status x = OpRunning \<and>
    lo_lease_owner x = Some (rec_LeaseOwner rec)"
  obtain n ops' where ex: "exec_update ?P ?f (operations db) = (n, ops')" by fastforce
  have ops': "ops' = map (\<lambda>x. if ?P x then ?f x else x) (operations db)"
    using ex by (simp add: exec_update_def)
  consider "db' = db" | "db' = db\<lparr>operations := ops'\<rparr>"
    using assms(1) ex by (auto simp: CompleteFailure_def split: if_splits)
  then show ?thesis
  proof cases
    case 1
    then show ?thesis using assms(2) by (simp add: refines_same)
  next
    case 2
    show ?thesis
    proof (cases "\<exists>r \<in> set (operations db). ?P r")
      case False
      then have "ops' = operations db" unfolding ops' by (intro map_idI) auto
      then show ?thesis using 2 assms(2) by (simp add: refines_same)
    next
      case True
      then obtain r where r: "r \<in> set (operations db)" "?P r" by blast
      have "filter (\<lambda>x. ?P x \<and> ?f x \<noteq> x) (operations db) = filter (\<lambda>x. x = r) (operations db)"
      proof (rule filter_cong)
        fix x assume "x \<in> set (operations db)"
        then have "lo_id x = rec_ID rec \<Longrightarrow> x = r"
          using r assms(2) ops_inj by metis
        moreover have "?f r \<noteq> r"
        proof
          assume "?f r = r"
          then have "lo_status (?f r) = lo_status r" by simp
          then show False using r(2) by simp
        qed
        ultimately show "(?P x \<and> ?f x \<noteq> x) = (x = r)" using r by blast
      qed simp
      moreover have "distinct (operations db)" using assms(2) by (auto simp: db_wf_def distinct_map)
      ultimately have n: "n = 1"
        using ex r(1) by (simp add: exec_update_def distinct_length_filter)
      have f: "lo_id (?f r) = lo_id r \<and> op_view (?f r) = (op_view r)\<lparr>oi_active := False\<rparr>" for r
        by (simp add: op_view_def op_active_def)
      obtain q where q: "q \<in> set (operations db)" "lo_id q = rec_ID rec" "oi_active (op_view q)"
        "abs_db db' = end_op (rec_ID rec) (op_view q) (abs_db db)" and wf: "db_wf db'"
        using end_ops_abs [OF ex n f assms(2)] 2 by blast
      have o: "ops (abs_db db) (rec_ID rec) = Some (op_view q)" using q assms(2) by (auto simp: ops_Some)
      then obtain u s where us: "labs (abs_db db) (oi_lab (op_view q)) = Some (u, s)"
        using assms(5) unfolding lab_inv_def table_inv_def by fastforce
      have "oi_action (op_view q) = rec_Action rec" using q assms(3) by (simp add: issued_def op_view_def)
      then have "lab_step (abs_db db) (end_op (rec_ID rec) (op_view q)
          (set_status (oi_lab (op_view q)) u s (abs_db db)))"
        using o q(3) us settled_finishes assms(4) by (intro lab_step.finish) simp_all
      moreover have "set_status (oi_lab (op_view q)) u s (abs_db db) = abs_db db"
        using us by (simp add: set_status_def abs_db_def fun_upd_idem)
      ultimately show ?thesis using q(4) wf by (simp add: refines_step)
    qed
  qed
qed


subsection \<open>Adjustments of the balancer\<close>

lemma adjustment_locked_step:
  assumes "adjustment_locked flt sha a now db = Inr (r, db')" "db_wf db"
  shows "refines db db'"
proof -
  obtain s oid pl where s: "find_session (aj_LabID a) db = Some s" "adaptive_status (ls_status s)"
    "\<not> pending_operation (aj_LabID a) db"
    and i: "insert_operation (aj_OperationID a) (aj_LabID a) (aj_RequestedBy a) APPLY_ADAPTIVE_WEIGHTS
      None pl now db = Some (oid, db')"
    using assms(1) by (auto simp: adjustment_locked_def split: if_splits option.splits sum.splits)
  have "enqueues APPLY_ADAPTIVE_WEIGHTS (ls_status s) (ls_status s)"
    using s(2) by (auto simp: adaptive_status_def)
  then show ?thesis using enqueue_same_step [OF i assms(2) s(1,3)] by simp
qed

lemma EnqueueAdjustment_step:
  assumes "EnqueueAdjustment flt sha a now db = (r, db')" "db_wf db"
  shows "refines db db'"
  using assms adjustment_locked_step [of flt sha a now db]
  by (auto simp: EnqueueAdjustment_def atomically_def refines_same split: if_splits sum.splits prod.splits)

subsection \<open>The transition system\<close>

text \<open>
  The state is the database and the records handed out by \<open>Claim\<close>. A completion is called with
  a record that was handed out, by the function the worker chooses for its action. The present
  instant, the outcome of the orchestrator, the faults and the choice of rows that other
  transactions lock are arbitrary.
\<close>

record platform =
  pf_db :: platform_db
  pf_held :: "Record set"

definition topology_action :: "action \<Rightarrow> bool" where
  "topology_action a = (a \<in> {ADD_INSTANCE, REMOVE_INSTANCE, SET_INSTANCE_PERFORMANCE,
     SET_INSTANCE_WEIGHTS, SET_BALANCING_MODE, APPLY_ADAPTIVE_WEIGHTS})"

inductive platform_step :: "platform \<Rightarrow> platform \<Rightarrow> bool" where
  p_create: "svc_Create flt id quota clock bytes u c k (pf_db p) = (r, db') \<Longrightarrow>
    platform_step p (p\<lparr>pf_db := db'\<rparr>)"
| p_reset: "svc_Reset flt id clock u l k (pf_db p) = (r', db') \<Longrightarrow>
    platform_step p (p\<lparr>pf_db := db'\<rparr>)"
| p_terminate: "svc_Terminate flt id clock u l k (pf_db p) = (r', db') \<Longrightarrow>
    platform_step p (p\<lparr>pf_db := db'\<rparr>)"
| p_action: "svc_Action flt id quota clock u l input (pf_db p) = (r', db') \<Longrightarrow>
    platform_step p (p\<lparr>pf_db := db'\<rparr>)"
| p_adjust: "EnqueueAdjustment flt sha a now (pf_db p) = (r'', db') \<Longrightarrow>
    platform_step p (p\<lparr>pf_db := db'\<rparr>)"
| p_expiry: "advanceOne flt sha l now c' (pf_db p) = (t, db') \<Longrightarrow>
    platform_step p (p\<lparr>pf_db := db'\<rparr>)"
| p_claim: "Claim flt locked w now until (pf_db p) = (Inr rec, db') \<Longrightarrow>
    platform_step p \<lparr>pf_db = db', pf_held = insert rec (pf_held p)\<rparr>"
| p_mark: "rec \<in> pf_held p \<Longrightarrow> MarkRunning flt rec now until (pf_db p) = (e, db') \<Longrightarrow>
    platform_step p (p\<lparr>pf_db := db'\<rparr>)"
| p_provision: "rec \<in> pf_held p \<Longrightarrow> rec_Action rec = CREATE_LAB \<Longrightarrow>
    CompleteProvision flt rec v ec em now (pf_db p) = (e, db') \<Longrightarrow>
    platform_step p (p\<lparr>pf_db := db'\<rparr>)"
| p_reset_done: "rec \<in> pf_held p \<Longrightarrow> rec_Action rec = RESET_LAB \<Longrightarrow>
    CompleteReset flt rec v ec em now (pf_db p) = (e, db') \<Longrightarrow>
    platform_step p (p\<lparr>pf_db := db'\<rparr>)"
| p_destroy_done: "rec \<in> pf_held p \<Longrightarrow> rec_Action rec = DESTROY_LAB \<Longrightarrow>
    CompleteDestroy flt rec ec em now (pf_db p) = (e, db') \<Longrightarrow>
    platform_step p (p\<lparr>pf_db := db'\<rparr>)"
| p_topology: "rec \<in> pf_held p \<Longrightarrow> topology_action (rec_Action rec) \<Longrightarrow>
    CompleteTopology flt rec tv ec em now (pf_db p) = (e, db') \<Longrightarrow>
    platform_step p (p\<lparr>pf_db := db'\<rparr>)"
| p_cache: "rec \<in> pf_held p \<Longrightarrow> isCacheAction (rec_Action rec) \<Longrightarrow>
    CompleteCache flt rec cv ec em now (pf_db p) = (e, db') \<Longrightarrow>
    platform_step p (p\<lparr>pf_db := db'\<rparr>)"
| p_failure: "rec \<in> pf_held p \<Longrightarrow> settled_action (rec_Action rec) \<Longrightarrow>
    CompleteFailure flt rec ec em now (pf_db p) = (e, db') \<Longrightarrow>
    platform_step p (p\<lparr>pf_db := db'\<rparr>)"

definition platform_initial :: "platform \<Rightarrow> bool" where
  "platform_initial p = (sessions (pf_db p) = [] \<and> operations (pf_db p) = [] \<and> pf_held p = {})"

inductive platform_reachable :: "platform \<Rightarrow> bool" where
  p_start: "platform_initial p \<Longrightarrow> platform_reachable p"
| p_step: "platform_reachable p \<Longrightarrow> platform_step p q \<Longrightarrow> platform_reachable q"

definition held_ok :: "Record \<Rightarrow> lab_state \<Rightarrow> bool" where
  "held_ok rec st = (\<exists>i. ops st (rec_ID rec) = Some i \<and> oi_lab i = rec_LabID rec \<and>
     oi_action i = rec_Action rec)"

definition platform_inv :: "platform \<Rightarrow> bool" where
  "platform_inv p = (db_wf (pf_db p) \<and> lab_inv (abs_db (pf_db p)) \<and>
     (\<forall>rec \<in> pf_held p. held_ok rec (abs_db (pf_db p))))"

lemma held_issued: "held_ok rec (abs_db db) \<Longrightarrow> db_wf db \<Longrightarrow> issued rec db"
  using ops_inj by (fastforce simp: held_ok_def issued_def ops_Some op_view_def)

lemma held_ok_step:
  assumes "refines db db'" "lab_inv (abs_db db)" "held_ok rec (abs_db db)"
  shows "held_ok rec (abs_db db')"
proof (cases "abs_db db' = abs_db db")
  case True
  then show ?thesis using assms(3) by simp
next
  case False
  then have step: "lab_step (abs_db db) (abs_db db')" using assms(1) by (simp add: refines_def)
  obtain i where i: "ops (abs_db db) (rec_ID rec) = Some i" "oi_lab i = rec_LabID rec"
    "oi_action i = rec_Action rec"
    using assms(3) unfolding held_ok_def by blast
  show ?thesis using step_op [OF step assms(2) i(1)] i(2,3) unfolding held_ok_def by metis
qed

lemma platform_invD:
  assumes "platform_inv p"
  shows "db_wf (pf_db p)" "lab_inv (abs_db (pf_db p))" "rec \<in> pf_held p \<Longrightarrow> issued rec (pf_db p)"
  using assms held_issued by (auto simp: platform_inv_def)

lemma platform_inv_refines:
  assumes "platform_inv p" "refines (pf_db p) db'"
  shows "platform_inv (p\<lparr>pf_db := db'\<rparr>)"
  using assms(1) refines_inv [OF assms(2)] held_ok_step [OF assms(2)] assms(2)
  unfolding platform_inv_def by (simp add: refines_def)

lemma svc_Create_step:
  assumes "svc_Create flt id q clock bs u c k db = (r, db')" "db_wf db"
  shows "refines db db'"
proof (cases "db' = db")
  case True
  then show ?thesis using assms(2) by (simp add: refines_same)
next
  case False
  then obtain l where "newLabID bs = Inr l"
    "lab_Create flt id u c k l q (Truncate clock Microsecond) db = (r, db')"
    using assms(1) by (auto simp: svc_Create_def split: if_splits option.splits sum.splits)
  moreover from this have "l \<noteq> []" by (auto simp: newLabID_def split: option.splits)
  ultimately show ?thesis using lab_Create_step assms(2) False by fastforce
qed

lemma svc_Reset_step:
  assumes "svc_Reset flt id clock u l k db = (r, db')" "db_wf db"
  shows "refines db db'"
  using assms EnqueueAction_step [of flt id u l k RESET_LAB "[]" "Truncate clock Microsecond" db r db']
  by (auto simp: svc_Reset_def refines_same split: if_splits)

lemma svc_Terminate_step:
  assumes "svc_Terminate flt id clock u l k db = (r, db')" "db_wf db"
  shows "refines db db'"
  using assms EnqueueAction_step [of flt id u l k DESTROY_LAB "''user_requested''"
      "Truncate clock Microsecond" db r db']
  by (auto simp: svc_Terminate_def refines_same split: if_splits)

lemma svc_Action_step:
  assumes "svc_Action flt id q clock u l input db = (r, db')" "db_wf db"
  shows "refines db db'"
  using assms
    EnqueueCacheAction_step [of flt id u l input "Truncate clock Microsecond" db r db']
    EnqueueTopologyAction_step [of flt id u l input q "Truncate clock Microsecond" db r db']
  by (auto simp: svc_Action_def refines_same split: if_splits)

lemma settled_kinds: "topology_action a \<Longrightarrow> settled_action a" "isCacheAction a \<Longrightarrow> settled_action a"
  by (auto simp: topology_action_def isCacheAction_def settled_action_def)

text \<open>The record \<open>Claim\<close> returns agrees with the row it leased.\<close>

lemma Claim_held:
  assumes "Claim flt locked w now until db = (Inr rec, db')" "db_wf db"
  shows "held_ok rec (abs_db db')"
proof -
  obtain row where row: "next_claim locked now db = Some row" and rec: "rec_ID rec = lo_id row"
    "rec_LabID rec = lo_lab_id row" "rec_Action rec = lo_action row"
    using assms(1) by (auto simp: Claim_def Let_def split: if_splits option.splits prod.splits)
  have "ops (abs_db db) (lo_id row) = Some (op_view row)"
    using next_claim_in [OF row] assms(2) by (auto simp: ops_Some)
  then show ?thesis using Claim_step(1) [OF assms] rec by (auto simp: held_ok_def op_view_def)
qed

lemmas transaction_steps = svc_Create_step svc_Reset_step svc_Terminate_step svc_Action_step
  EnqueueAdjustment_step advanceOne_step CompleteProvision_step CompleteReset_step CompleteDestroy_step
  CompleteTopology_step CompleteCache_step CompleteFailure_step

lemma MarkRunning_refines: "MarkRunning flt rec now until db = (r, db') \<Longrightarrow> db_wf db \<Longrightarrow> refines db db'"
  using MarkRunning_step by (simp add: refines_def)

text \<open>Every step of the platform is a step of the machine or none.\<close>

lemma platform_step_refines:
  assumes "platform_step p q" "platform_inv p"
  shows "refines (pf_db p) (pf_db q)"
  using assms(1) platform_invD [OF assms(2)]
proof (cases rule: platform_step.cases)
  case (p_claim flt locked w now until rec db')
  then show ?thesis using Claim_step platform_invD(1) [OF assms(2)] by (simp add: refines_def)
qed (simp_all add: transaction_steps MarkRunning_refines settled_kinds platform_invD [OF assms(2)])

lemma platform_inv_step:
  assumes "platform_step p q" "platform_inv p"
  shows "platform_inv q"
  using assms(1)
proof (cases rule: platform_step.cases)
  case (p_claim flt locked w now until rec db')
  then show ?thesis
    using Claim_step [OF p_claim(2)] Claim_held [OF p_claim(2)] assms(2) by (simp add: platform_inv_def)
qed (use platform_inv_refines [OF assms(2) platform_step_refines [OF assms], simplified] in simp_all)

lemma platform_inv_reachable: "platform_reachable p \<Longrightarrow> platform_inv p"
proof (induction rule: platform_reachable.induct)
  case (p_start p)
  then show ?case
    by (auto simp: platform_initial_def platform_inv_def db_wf_def initial_def abs_labs_def abs_ops_def
        intro!: lab_inv_initial)
qed (rule platform_inv_step)


subsection \<open>A concrete run\<close>

definition demo_quota :: Quota where
  "demo_quota = \<lparr>q_MaxActiveLabs = 5, q_MaxTemporaryContainers = 8, q_MaxInstancesPerLab = 4\<rparr>"

definition demo_db :: platform_db where
  "demo_db = \<lparr>users = [\<lparr>us_id = 7, us_username = ''ada'', us_password_hash = [], us_status = ''active''\<rparr>],
     courses = [\<lparr>co_id = 1, co_slug = ''application-cluster'', co_status = ''active''\<rparr>,
       \<lparr>co_id = 2, co_slug = ''multi-level-cache'', co_status = ''active''\<rparr>],
     progress = [], sessions = [], instances = [], resources = [], operations = [],
     next_operation = 1\<rparr>"

definition no_faults :: fault where
  "no_faults m = False"

definition bytes :: "nat \<Rightarrow> nat list option" where
  "bytes b = Some (replicate 16 b)"

text \<open>A lab is created, its provisioning fails, and the user creates another lab.\<close>

definition demo1 :: platform_db where
  "demo1 = snd (svc_Create no_faults id demo_quota 1000 (bytes 1) 7 1 ''op-1'' demo_db)"

definition demo_claim :: "platform_db \<Rightarrow> Record option \<times> platform_db" where
  "demo_claim db = (case Claim no_faults (\<lambda>_. False) ''w'' 2000 9000 db of
     (Inr rec, db') \<Rightarrow> (Some rec, db') | (Inl _, db') \<Rightarrow> (None, db'))"

definition demo_rec :: Record where
  "demo_rec = the (fst (demo_claim demo1))"

definition demo2 :: platform_db where
  "demo2 = snd (MarkRunning no_faults demo_rec 2000 9000 (snd (demo_claim demo1)))"

definition demo3 :: platform_db where
  "demo3 = snd (CompleteProvision no_faults demo_rec zero_provision ''E'' ''failed'' 3000 demo2)"

definition demo4 :: platform_db where
  "demo4 = snd (svc_Create no_faults id demo_quota 4000 (bytes 2) 7 1 ''op-2'' demo3)"

definition demo_lab :: string where
  "demo_lab = ''lab-'' @ hex_EncodeToString (replicate 16 1)"

definition demo5 :: platform_db where
  "demo5 = snd (svc_Terminate no_faults id 5000 7 demo_lab ''op-3'' demo4)"

lemma demo_statuses:
  "map ls_status (sessions demo1) = [Preparing]"
  "map ls_status (sessions demo4) = [Failed, Preparing]"
  "map ls_status (sessions demo5) = [Terminating, Preparing]"
  "map ls_user_id (sessions demo5) = [7, 7]"
  by code_simp+


lemma demo_reachable:
  "platform_reachable \<lparr>pf_db = demo1, pf_held = {}\<rparr>"
  "\<exists>h. platform_reachable \<lparr>pf_db = demo5, pf_held = h\<rparr>"
  "platform_reachable \<lparr>pf_db = demo2, pf_held = {demo_rec}\<rparr>"
proof -
  have 0: "platform_reachable \<lparr>pf_db = demo_db, pf_held = {}\<rparr>"
    by (rule p_start) (simp add: platform_initial_def demo_db_def)
  show 1: "platform_reachable \<lparr>pf_db = demo1, pf_held = {}\<rparr>"
    using p_step [OF 0 p_create [of no_faults demo_quota 1000 "bytes 1" 7 1 "''op-1''"]]
    by (simp add: demo1_def) (metis prod.collapse)
  have c: "Claim no_faults (\<lambda>_. False) ''w'' 2000 9000 demo1 = (Inr demo_rec, snd (demo_claim demo1))"
  proof -
    have "isl (fst (Claim no_faults (\<lambda>_. False) ''w'' 2000 9000 demo1)) = False" by code_simp
    then show ?thesis
      by (cases "Claim no_faults (\<lambda>_. False) ''w'' 2000 9000 demo1"; cases "fst (Claim no_faults (\<lambda>_. False) ''w'' 2000 9000 demo1)")
        (simp_all add: demo_rec_def demo_claim_def)
  qed
  have a: "rec_Action demo_rec = CREATE_LAB" by code_simp
  have 2: "platform_reachable \<lparr>pf_db = snd (demo_claim demo1), pf_held = {demo_rec}\<rparr>"
    using p_step [OF 1 p_claim [of no_faults "\<lambda>_. False" "''w''" 2000 9000]] c by simp
  show 3: "platform_reachable \<lparr>pf_db = demo2, pf_held = {demo_rec}\<rparr>"
    using p_step [OF 2 p_mark [of demo_rec _ no_faults 2000 9000]]
    by (simp add: demo2_def) (metis prod.collapse)
  have 4: "platform_reachable \<lparr>pf_db = demo3, pf_held = {demo_rec}\<rparr>"
    using p_step [OF 3 p_provision [of demo_rec _ no_faults zero_provision "''E''" "''failed''" 3000]] a
    by (simp add: demo3_def) (metis prod.collapse)
  have 5: "platform_reachable \<lparr>pf_db = demo4, pf_held = {demo_rec}\<rparr>"
    using p_step [OF 4 p_create [of no_faults demo_quota 4000 "bytes 2" 7 1 "''op-2''"]]
    by (simp add: demo4_def) (metis prod.collapse)
  show "\<exists>h. platform_reachable \<lparr>pf_db = demo5, pf_held = h\<rparr>"
    using p_step [OF 5 p_terminate [of no_faults 5000 7 demo_lab "''op-3''"]]
    by (simp add: demo5_def) (metis prod.collapse)
qed

end
