(* ===== verification/BalancerController.thy ===== *)
theory BalancerController
  imports BalancerRepository
begin

text \<open>
  The adaptive controller, \<^verbatim>\<open>services/platform-api/internal/balancer/controller.go\<close> and \<^verbatim>\<open>view.go\<close>:
  the metrics observed from the traffic, their smoothing, and the loop that proposes adjustments.
  The fields under the mutex are the record \<open>Controller\<close>; each critical section is one function of
  it. The instants the clock returns and the random bytes of identifiers are arguments.
\<close>

datatype control_status = NoStatus | StatusConverging | StatusStable | StatusDegraded

type_synonym ViewError = "string \<times> string"

record controlState =
  cs_configurationFingerprint :: string
  cs_configurationSamples :: int
  cs_stableSamples :: int
  cs_status :: control_status
  cs_targetWeights :: "InstanceWeight list"
  cs_operationID :: string
  cs_failureCount :: int
  cs_nextRetry :: gotime
  cs_lastError :: "ViewError option"

definition zero_control :: controlState where
  "zero_control = \<lparr>cs_configurationFingerprint = [], cs_configurationSamples = 0, cs_stableSamples = 0,
     cs_status = NoStatus, cs_targetWeights = [], cs_operationID = [], cs_failureCount = 0,
     cs_nextRetry = 0, cs_lastError = None\<rparr>"

record metricState =
  ms_currentLoad :: rat
  ms_containerID :: string
  ms_processingSpeed :: int
  ms_maxLoad :: int
  ms_observedAt :: gotime
  ms_smoothed :: rat
  ms_smoothedAt :: gotime
  ms_lastDropped :: gotime

definition zero_metric :: metricState where
  "zero_metric = \<lparr>ms_currentLoad = 0, ms_containerID = [], ms_processingSpeed = 0, ms_maxLoad = 0,
     ms_observedAt = 0, ms_smoothed = 0, ms_smoothedAt = 0, ms_lastDropped = 0\<rparr>"

record Controller =
  ctl_config :: balancer_config
  ctl_states :: "(string \<times> controlState) list"
  ctl_metrics :: "(string \<times> (string \<times> metricState) list) list"

definition NewController :: "balancer_config \<Rightarrow> (lab_error, Controller) result" where
  "NewController config =
     (case validate config of
        Some e \<Rightarrow> Inl e
      | None \<Rightarrow> Inr \<lparr>ctl_config = config, ctl_states = [], ctl_metrics = []\<rparr>)"

definition state_of :: "Controller \<Rightarrow> string \<Rightarrow> controlState" where
  "state_of c labID = (case map_of (ctl_states c) labID of None \<Rightarrow> zero_control | Some s \<Rightarrow> s)"

definition metrics_of :: "Controller \<Rightarrow> string \<Rightarrow> (string \<times> metricState) list" where
  "metrics_of c labID = (case map_of (ctl_metrics c) labID of None \<Rightarrow> [] | Some m \<Rightarrow> m)"

definition saveState :: "string \<Rightarrow> controlState \<Rightarrow> Controller \<Rightarrow> Controller" where
  "saveState labID state c = c\<lparr>ctl_states := AList.update labID state (ctl_states c)\<rparr>"

subsection \<open>Metrics\<close>

definition estimateMetric :: "metricState \<Rightarrow> gotime \<Rightarrow> rat \<times> rat" where
  "estimateMetric m now =
     (if ms_processingSpeed m \<le> 0 \<or> ms_maxLoad m \<le> 0 \<or> IsZero (ms_observedAt m) then (0, 0)
      else let elapsedSeconds = (if now > ms_observedAt m then Seconds (Sub now (ms_observedAt m)) else 0);
               load = max 0 (fl (ms_currentLoad m - fl (float64 (ms_processingSpeed m) * elapsedSeconds)))
      in (load, fl (load / float64 (ms_maxLoad m))))"

definition Observe :: "string \<Rightarrow> Instance \<Rightarrow> TrafficBatchResult \<Rightarrow> Controller \<Rightarrow> Controller" where
  "Observe labID i result c =
     (let state = tr_InstanceState result; target = tr_TargetInstanceID result in
      if labID = [] \<or> target = [] \<or> in_ID i \<noteq> target \<or> in_ContainerID i = [] \<or>
         in_ProcessingSpeed i \<noteq> is_ProcessingSpeed state \<or> in_MaxLoad i \<noteq> is_MaxLoad state \<or>
         is_ProcessingSpeed state \<le> 0 \<or> is_MaxLoad state \<le> 0 \<or> is_CurrentLoad state < 0 \<or>
         is_CurrentLoad state > float64 (is_MaxLoad state) \<or> IsZero (is_ObservedAt state)
      then c
      else let ms = metrics_of c labID;
               metric = (case map_of ms target of None \<Rightarrow> zero_metric | Some m \<Rightarrow> m)
      in if \<not> IsZero (ms_observedAt metric) \<and> is_ObservedAt state < ms_observedAt metric
         then c\<lparr>ctl_metrics := AList.update labID ms (ctl_metrics c)\<rparr>
         else let metric' = metric\<lparr>ms_currentLoad := is_CurrentLoad state,
                    ms_containerID := in_ContainerID i, ms_processingSpeed := is_ProcessingSpeed state,
                    ms_maxLoad := is_MaxLoad state, ms_observedAt := is_ObservedAt state,
                    ms_lastDropped := (if tr_DroppedUnits result > 0 then is_ObservedAt state
                      else ms_lastDropped metric)\<rparr>
         in c\<lparr>ctl_metrics := AList.update labID (AList.update target metric' ms) (ctl_metrics c)\<rparr>)"

definition same_model :: "metricState \<Rightarrow> BInstance \<Rightarrow> bool" where
  "same_model m i = (ms_containerID m = bi_ContainerID i \<and>
     ms_processingSpeed m = bi_ProcessingSpeed i \<and> ms_maxLoad m = bi_MaxLoad i)"

definition sample_metric :: "rat \<Rightarrow> gotime \<Rightarrow> (string \<times> metricState) list \<Rightarrow> BInstance \<Rightarrow> metricState" where
  "sample_metric alpha now ms i =
     (let metric = (case map_of ms (bi_ID i) of
            Some m \<Rightarrow> if same_model m i then m
              else zero_metric\<lparr>ms_containerID := bi_ContainerID i,
                     ms_processingSpeed := bi_ProcessingSpeed i, ms_maxLoad := bi_MaxLoad i,
                     ms_observedAt := now\<rparr>
          | None \<Rightarrow> zero_metric\<lparr>ms_containerID := bi_ContainerID i,
                     ms_processingSpeed := bi_ProcessingSpeed i, ms_maxLoad := bi_MaxLoad i,
                     ms_observedAt := now\<rparr>);
          ratio = snd (estimateMetric metric now);
          smoothed = (if IsZero (ms_smoothedAt metric) then ratio
            else fl (fl (alpha * ratio) + fl (fl (1 - alpha) * ms_smoothed metric)))
      in metric\<lparr>ms_smoothed := (if ratio = 0 \<and> smoothed < fl (5 / 10000) then 0 else smoothed),
                ms_smoothedAt := now\<rparr>)"

fun sample_metrics ::
  "rat \<Rightarrow> gotime \<Rightarrow> BInstance list \<Rightarrow> (string \<times> metricState) list \<Rightarrow> (string \<times> rat) list \<Rightarrow>
   (string \<times> metricState) list \<times> (string \<times> rat) list" where
  "sample_metrics alpha now [] ms ratios = (ms, ratios)"
| "sample_metrics alpha now (i # ins) ms ratios =
     (let m = sample_metric alpha now ms i
      in sample_metrics alpha now ins (AList.update (bi_ID i) m ms)
           (AList.update (bi_ID i) (ms_smoothed m) ratios))"

definition sampleLoadRatios ::
  "string \<Rightarrow> BInstance list \<Rightarrow> gotime \<Rightarrow> Controller \<Rightarrow> (string \<times> rat) list \<times> Controller" where
  "sampleLoadRatios labID ins now c =
     (let (ms, ratios) = sample_metrics (bc_EWMAAlpha (ctl_config c)) now ins (metrics_of c labID) []
      in (ratios, c\<lparr>ctl_metrics := AList.update labID ms (ctl_metrics c)\<rparr>))"

subsection \<open>Sampling a lab\<close>

text \<open>The list of delays is not empty in a controller that \<open>NewController\<close> returned.\<close>

definition backoff :: "balancer_config \<Rightarrow> int \<Rightarrow> duration" where
  "backoff config failureCount =
     (let n = int (length (bc_FailureBackoff config));
          index = (if failureCount - 1 < 0 then 0 else failureCount - 1);
          index' = (if index \<ge> n then n - 1 else index)
      in bc_FailureBackoff config ! nat index')"

definition eligibleInstances :: "BInstance list \<Rightarrow> bool" where
  "eligibleInstances ins = (ins \<noteq> [] \<and>
     (\<forall>i \<in> set ins. \<not> (bi_ID i = [] \<or> bi_Status i \<noteq> ''running'' \<or> bi_ContainerID i = [] \<or>
        bi_ProcessingSpeed i \<le> 0 \<or> bi_MaxLoad i \<le> 0 \<or> bi_CurrentWeight i \<le> 0)))"

definition newOperationID :: "nat list option \<Rightarrow> (lab_error, string) result" where
  "newOperationID bs = (case bs of None \<Rightarrow> Inl (ErrText ''generate adaptive operation id'')
     | Some bs \<Rightarrow> Inr (''balancer-'' @ hex_EncodeToString bs))"

definition reset_sampling :: "controlState \<Rightarrow> controlState" where
  "reset_sampling st = st\<lparr>cs_configurationFingerprint := [], cs_configurationSamples := 0,
     cs_stableSamples := 0, cs_status := StatusConverging, cs_targetWeights := []\<rparr>"

text \<open>
  The first part of \<open>sampleLab\<close>: the outcome of the adjustment in flight. \<open>Inl\<close> is a return, with
  the state to save if any; \<open>Inr\<close> goes on with a state.
\<close>

definition poll_adjustment ::
  "balancer_config \<Rightarrow> fault \<Rightarrow> gotime \<Rightarrow> platform_db \<Rightarrow> controlState \<Rightarrow>
   (controlState option \<times> lab_error option) + controlState" where
  "poll_adjustment config flt now db st =
     (if cs_operationID st = [] then Inr st
      else case FindAdjustment flt (cs_operationID st) db of
        Inl e \<Rightarrow> Inl (None, Some (ErrText ''load adaptive adjustment''))
      | Inr op \<Rightarrow>
         (case bo_Status op of
            OpSucceeded \<Rightarrow>
             (let st1 = st\<lparr>cs_operationID := [], cs_failureCount := 0, cs_nextRetry := 0,
                           cs_lastError := None\<rparr>
              in Inl (Some (if bo_Skipped op
                   then st1\<lparr>cs_configurationSamples := 0, cs_stableSamples := 0,
                            cs_status := StatusConverging\<rparr>
                   else st1\<lparr>cs_stableSamples := bc_StableSamples config, cs_status := StatusStable\<rparr>), None))
          | OpFailed \<Rightarrow>
              Inr (st\<lparr>cs_operationID := [], cs_failureCount := cs_failureCount st + 1,
                      cs_nextRetry := now + backoff config (cs_failureCount st + 1),
                      cs_status := StatusDegraded,
                      cs_lastError := Some (bo_ErrorCode op, bo_ErrorMessage op)\<rparr>)
          | _ \<Rightarrow> Inl (Some (st\<lparr>cs_status := StatusConverging\<rparr>), None)))"

text \<open>The counting of samples with one configuration.\<close>

definition count_sample ::
  "balancer_config \<Rightarrow> string \<Rightarrow> InstanceWeight list \<Rightarrow> controlState \<Rightarrow> controlState" where
  "count_sample config fp target st =
     (if fp \<noteq> cs_configurationFingerprint st
      then st\<lparr>cs_configurationFingerprint := fp, cs_configurationSamples := 1, cs_stableSamples := 0,
              cs_failureCount := 0, cs_nextRetry := 0, cs_lastError := None, cs_targetWeights := target\<rparr>
      else if cs_configurationSamples st < bc_StableSamples config
      then st\<lparr>cs_configurationSamples := cs_configurationSamples st + 1, cs_targetWeights := target\<rparr>
      else st\<lparr>cs_targetWeights := target\<rparr>)"

definition within_threshold :: "balancer_config \<Rightarrow> controlState \<Rightarrow> controlState" where
  "within_threshold config st =
     (let n = (if cs_stableSamples st < bc_StableSamples config then cs_stableSamples st + 1
               else cs_stableSamples st)
      in st\<lparr>cs_stableSamples := n,
            cs_status := (if n \<ge> bc_StableSamples config then StatusStable else StatusConverging),
            cs_failureCount := 0, cs_nextRetry := 0, cs_lastError := None\<rparr>)"

text \<open>The state after the call of \<open>EnqueueAdjustment\<close>, and the error \<open>sampleLab\<close> returns.\<close>

definition after_enqueue ::
  "balancer_config \<Rightarrow> gotime \<Rightarrow> (lab_error, Operation) result \<Rightarrow> controlState \<Rightarrow>
   controlState \<times> lab_error option" where
  "after_enqueue config now r st =
     (case r of
        Inr op \<Rightarrow> (st\<lparr>cs_operationID := bo_OperationID op, cs_status := StatusConverging\<rparr>, None)
      | Inl e \<Rightarrow>
          if e = ErrBusy then (st\<lparr>cs_status := StatusConverging\<rparr>, None)
          else if e = ErrNoChange
          then (st\<lparr>cs_status := StatusStable, cs_stableSamples := bc_StableSamples config\<rparr>, None)
          else if e = ErrStale
          then (st\<lparr>cs_configurationSamples := 0, cs_stableSamples := 0,
                   cs_status := StatusConverging\<rparr>, None)
          else (st\<lparr>cs_failureCount := cs_failureCount st + 1,
                   cs_nextRetry := now + backoff config (cs_failureCount st + 1),
                   cs_status := StatusDegraded,
                   cs_lastError := Some (''BALANCER_UNAVAILABLE'', ''adaptive adjustment could not be queued'')\<rparr>,
                Some (ErrText ''enqueue adaptive adjustment'')))"

text \<open>
  \<open>sampleLab\<close>. Other transactions may run between the poll and the insertion, which is \<open>other\<close>; the
  traffic may be observed at any time, which does not touch what is read here.
\<close>

definition sampleLab ::
  "fault \<Rightarrow> (platform_db \<Rightarrow> platform_db) \<Rightarrow> (string \<Rightarrow> nat list) \<Rightarrow> nat list option \<Rightarrow> BLab \<Rightarrow> gotime \<Rightarrow>
   Controller \<times> platform_db \<Rightarrow> lab_error option \<times> Controller \<times> platform_db" where
  "sampleLab flt other sha bs lab now = (\<lambda>(c, db).
     let config = ctl_config c; labID = bl_ID lab; ins = bl_Instances lab in
     case poll_adjustment config flt now db (state_of c labID) of
       Inl (None, e) \<Rightarrow> (e, c, db)
     | Inl (Some st, e) \<Rightarrow> (e, saveState labID st c, db)
     | Inr st \<Rightarrow>
         if \<not> eligibleInstances ins then (None, saveState labID (reset_sampling st) c, db)
         else let (loadRatios, c1) = sampleLoadRatios labID ins now c
         in case TargetWeights ins loadRatios of
           Inl _ \<Rightarrow> (None, saveState labID (reset_sampling st) c1, db)
         | Inr target \<Rightarrow>
            (let st1 = count_sample config (ConfigurationFingerprint sha ins) target st in
             if cs_configurationSamples st1 < bc_StableSamples config
             then (None, saveState labID (st1\<lparr>cs_status := StatusConverging\<rparr>) c1, db)
             else if WeightsWithinShareThreshold ins target
             then (None, saveState labID (within_threshold config st1) c1, db)
             else let st2 = st1\<lparr>cs_stableSamples := 0\<rparr>
             in if \<not> IsZero (cs_nextRetry st2) \<and> now < cs_nextRetry st2
                then (None, saveState labID (st2\<lparr>cs_status := StatusDegraded\<rparr>) c1, db)
                else case newOperationID bs of
                  Inl e \<Rightarrow> (Some e, c1, db)
                | Inr operationID \<Rightarrow>
                   (case EnqueueAdjustment flt sha
                          \<lparr>aj_OperationID = operationID, aj_LabID = labID, aj_RequestedBy = bl_UserID lab,
                           aj_TopologyFingerprint = TopologyFingerprint sha ins, aj_Weights = target\<rparr>
                          now (other db) of
                      (r, db') \<Rightarrow>
                       (case after_enqueue config now r st2 of
                          (st3, e) \<Rightarrow> (e, saveState labID st3 c1, db')))))"

subsection \<open>A pass over the labs\<close>

definition drainTime :: "metricState \<Rightarrow> duration" where
  "drainTime m = \<lfloor>fl (of_int \<lceil>fl (float64 (ms_maxLoad m) / float64 (ms_processingSpeed m))\<rceil> * float64 Second)\<rfloor>"

definition drained :: "duration \<Rightarrow> gotime \<Rightarrow> metricState \<Rightarrow> bool" where
  "drained freshness now m = (fst (estimateMetric m now) = 0 \<and> \<not> IsZero (ms_observedAt m) \<and>
     \<not> ms_observedAt m > now \<and> Sub now (ms_observedAt m) > drainTime m + freshness)"

definition prune :: "string list \<Rightarrow> gotime \<Rightarrow> Controller \<Rightarrow> Controller" where
  "prune seen now c = c\<lparr>ctl_states := filter (\<lambda>(labID, _). labID \<in> set seen) (ctl_states c),
     ctl_metrics := filter (\<lambda>(_, ms). ms \<noteq> [])
       (map (\<lambda>(labID, ms). (labID, filter (\<lambda>(_, m). \<not> drained (bc_MetricFreshness (ctl_config c)) now m) ms))
         (ctl_metrics c))\<rparr>"

text \<open>What the environment supplies for one lab of a pass.\<close>

record sample_env =
  sv_fault :: fault
  sv_other :: "platform_db \<Rightarrow> platform_db"
  sv_bytes :: "nat list option"
  sv_clock :: gotime

fun sample_labs ::
  "(string \<Rightarrow> nat list) \<Rightarrow> (nat \<Rightarrow> sample_env) \<Rightarrow> nat \<Rightarrow> BLab list \<Rightarrow> Controller \<times> platform_db \<Rightarrow>
   Controller \<times> platform_db" where
  "sample_labs sha env n [] cd = cd"
| "sample_labs sha env n (lab # labs) cd =
     sample_labs sha env (Suc n) labs
       (snd (sampleLab (sv_fault (env n)) (sv_other (env n)) sha (sv_bytes (env n)) lab
         (Truncate (sv_clock (env n)) Microsecond) cd))"

definition sample :: "fault \<Rightarrow> (string \<Rightarrow> nat list) \<Rightarrow> (nat \<Rightarrow> sample_env) \<Rightarrow> gotime \<Rightarrow>
   Controller \<times> platform_db \<Rightarrow> Controller \<times> platform_db" where
  "sample flt sha env now cd =
     (case ListAdaptiveLabs flt (snd cd) of
        Inl _ \<Rightarrow> cd
      | Inr labs \<Rightarrow>
         (case sample_labs sha env 0 labs cd of
            (c, db) \<Rightarrow> (prune (map bl_ID labs) now c, db)))"

subsection \<open>The view of a lab\<close>

record BalancerSnapshot =
  bs_Status :: control_status
  bs_TargetWeights :: "InstanceWeight list"
  bs_SmoothedLoads :: "(string \<times> rat) list"
  bs_CapacityNotice :: string
  bs_LastError :: "ViewError option"

definition freshAt :: "gotime \<Rightarrow> gotime \<Rightarrow> duration \<Rightarrow> bool" where
  "freshAt now value freshness = (\<not> IsZero value \<and> \<not> value > now \<and> Sub now value \<le> freshness)"

definition view_loadState :: "rat \<Rightarrow> string" where
  "view_loadState loadRatio =
     (if loadRatio \<le> fl (3 / 10) then ''idle''
      else if loadRatio \<le> fl (7 / 10) then ''normal''
      else if loadRatio < 1 then ''high'' else ''overloaded'')"

definition sampled_metric :: "(string \<times> metricState) list \<Rightarrow> BInstance \<Rightarrow> metricState option" where
  "sampled_metric ms i = (case map_of ms (bi_ID i) of
     None \<Rightarrow> None
   | Some m \<Rightarrow> if IsZero (ms_smoothedAt m) \<or> \<not> same_model m i then None else Some m)"

definition View :: "string \<Rightarrow> BInstance list \<Rightarrow> gotime \<Rightarrow> Controller \<Rightarrow> BalancerSnapshot" where
  "View labID ins now c =
     (let state = (case map_of (ctl_states c) labID of
            Some st \<Rightarrow> st
          | None \<Rightarrow> zero_control\<lparr>cs_status := StatusConverging,
              cs_targetWeights := (case TargetWeights ins [] of Inl _ \<Rightarrow> [] | Inr ws \<Rightarrow> ws)\<rparr>);
          ms = metrics_of c labID;
          sampled = List.map_filter (\<lambda>i. map_option (Pair (bi_ID i)) (sampled_metric ms i)) ins;
          allSampled = (ins \<noteq> [] \<and> (\<forall>i \<in> set ins. sampled_metric ms i \<noteq> None));
          overloaded = (\<exists>(_, m) \<in> set sampled. ms_smoothed m \<ge> 1 \<or>
            freshAt now (ms_lastDropped m) (bc_MetricFreshness (ctl_config c)));
          allUnderused = (allSampled \<and> (\<forall>(_, m) \<in> set sampled. \<not> ms_smoothed m \<ge> fl (2 / 10)))
      in \<lparr>bs_Status = (if cs_status state = NoStatus then StatusConverging else cs_status state),
          bs_TargetWeights = cs_targetWeights state,
          bs_SmoothedLoads = sort_key fst (map (\<lambda>(k, m). (k, roundThree (ms_smoothed m))) sampled),
          bs_CapacityNotice = (if overloaded then ''cluster_overloaded''
            else if allSampled \<and> allUnderused then ''cluster_underused'' else []),
          bs_LastError = cs_lastError state\<rparr>)"

definition binstance_of :: "Instance \<Rightarrow> BInstance" where
  "binstance_of i = \<lparr>bi_ID = in_ID i, bi_ContainerID = in_ContainerID i, bi_Status = in_Status i,
     bi_ProcessingSpeed = in_ProcessingSpeed i, bi_MaxLoad = in_MaxLoad i,
     bi_CurrentWeight = in_CurrentWeight i\<rparr>"

definition decorate_instance :: "(string \<times> metricState) list \<Rightarrow> gotime \<Rightarrow> Instance \<Rightarrow> Instance" where
  "decorate_instance ms now i =
     (case map_of ms (in_ID i) of
        None \<Rightarrow> i
      | Some m \<Rightarrow>
          if \<not> same_model m (binstance_of i) then i
          else let (load, ratio) = estimateMetric m now
          in i\<lparr>in_CurrentLoad := roundThree load, in_LoadRatio := roundThree ratio,
               in_LoadState := view_loadState (roundThree ratio), in_ObservedAt := now\<rparr>)"

text \<open>\<open>DecorateSnapshot\<close>: the snapshot and its field \<open>Balancer\<close>. The clock is read a second time in \<open>View\<close>.\<close>

definition DecorateSnapshot ::
  "gotime \<Rightarrow> gotime \<Rightarrow> Controller \<Rightarrow> Snapshot \<Rightarrow> Snapshot \<times> BalancerSnapshot option" where
  "DecorateSnapshot clock1 clock2 c s =
     (let now = Truncate clock1 Microsecond;
          s' = s\<lparr>sn_Instances := map (decorate_instance (metrics_of c (se_ID (sn_Lab s))) now) (sn_Instances s)\<rparr>
      in (s', if se_BalancingMode (sn_Lab s) \<noteq> ''adaptive'' then None
              else Some (View (se_ID (sn_Lab s)) (map binstance_of (sn_Instances s')) clock2 c)))"

subsection \<open>Smoothing\<close>

text \<open>A weighted mean of ratios, rounded after each operation, is a ratio.\<close>

lemma ewma_unit:
  assumes "0 < alpha" "alpha \<le> 1" "fl alpha = alpha" "0 \<le> r" "r \<le> 1" "0 \<le> s" "s \<le> 1"
  shows "0 \<le> fl (fl (alpha * r) + fl (fl (1 - alpha) * s))"
    "fl (fl (alpha * r) + fl (fl (1 - alpha) * s)) \<le> 1"
proof -
  have a: "0 \<le> fl (1 - alpha)" using assms(2) by (intro fl_nonneg) simp
  show "0 \<le> fl (fl (alpha * r) + fl (fl (1 - alpha) * s))"
    using assms a by (intro fl_nonneg add_nonneg_nonneg mult_nonneg_nonneg) simp_all
  have "fl (alpha * r) \<le> alpha"
    using fl_mono [of "alpha * r" alpha] assms mult_left_le [of r alpha] by simp
  moreover have "fl (fl (1 - alpha) * s) \<le> 1 - alpha + 1 / 2 ^ 53"
  proof -
    let ?t = "fl (1 - alpha) * s"
    have f: "fl (1 - alpha) \<le> 1 - alpha + 1 / 2 ^ 54" "fl (1 - alpha) \<le> 1"
      using assms fl_mono [of "1 - alpha" 1] fl_error_unit [of "1 - alpha"] by simp_all
    have t: "0 \<le> ?t" "?t \<le> fl (1 - alpha)" using a assms(6,7) mult_left_le [of s "fl (1 - alpha)"] by simp_all
    have "fl ?t \<le> ?t + 1 / 2 ^ 54"
      using fl_error_unit [of ?t] t f(2) by (cases "?t = 1") auto
    then show ?thesis using t f(1) by simp
  qed
  ultimately have "fl (fl (alpha * r) + fl (fl (1 - alpha) * s)) \<le> fl (1 + 1 / 2 ^ 53)"
    by (intro fl_mono) linarith
  then show "fl (fl (alpha * r) + fl (fl (1 - alpha) * s)) \<le> 1" by (simp only: fl_above_one)
qed

subsection \<open>The invariant of the controller\<close>

definition metric_ok :: "metricState \<Rightarrow> bool" where
  "metric_ok m = (0 < ms_processingSpeed m \<and> 0 < ms_maxLoad m \<and> 0 \<le> ms_currentLoad m \<and>
     ms_currentLoad m \<le> float64 (ms_maxLoad m) \<and> 0 \<le> ms_smoothed m \<and> ms_smoothed m \<le> 1)"

definition control_ok :: "balancer_config \<Rightarrow> controlState \<Rightarrow> bool" where
  "control_ok config st = (0 \<le> cs_configurationSamples st \<and>
     cs_configurationSamples st \<le> bc_StableSamples config \<and> 0 \<le> cs_stableSamples st \<and>
     cs_stableSamples st \<le> bc_StableSamples config \<and> 0 \<le> cs_failureCount st \<and>
     weights_in_range (cs_targetWeights st))"

definition config_ok :: "balancer_config \<Rightarrow> bool" where
  "config_ok config = (validate config = None \<and> fl (bc_EWMAAlpha config) = bc_EWMAAlpha config)"

definition controller_ok :: "Controller \<Rightarrow> bool" where
  "controller_ok c = (config_ok (ctl_config c) \<and> wf_map (ctl_states c) \<and> wf_map (ctl_metrics c) \<and>
     (\<forall>(l, st) \<in> set (ctl_states c). control_ok (ctl_config c) st) \<and>
     (\<forall>(l, ms) \<in> set (ctl_metrics c). wf_map ms \<and> (\<forall>(k, m) \<in> set ms. metric_ok m)))"

lemma config_okD:
  assumes "config_ok config"
  shows "0 < bc_EWMAAlpha config" "bc_EWMAAlpha config \<le> 1" "0 < bc_StableSamples config"
    "bc_FailureBackoff config \<noteq> []" "\<forall>d \<in> set (bc_FailureBackoff config). 0 < d"
  using assms by (auto simp: config_ok_def validate_def split: if_splits)

lemma float64_nonneg: "0 \<le> n \<Longrightarrow> 0 \<le> float64 n"
  unfolding float64_def by (intro fl_nonneg) simp

lemma estimateMetric_unit:
  assumes "metric_ok m"
  shows "0 \<le> fst (estimateMetric m now)" "fst (estimateMetric m now) \<le> float64 (ms_maxLoad m)"
    "0 \<le> snd (estimateMetric m now)" "snd (estimateMetric m now) \<le> 1"
proof -
  let ?e = "if now > ms_observedAt m then Seconds (Sub now (ms_observedAt m)) else 0"
  let ?d = "fl (float64 (ms_processingSpeed m) * ?e)"
  let ?load = "max 0 (fl (ms_currentLoad m - ?d))"
  have "0 \<le> ?e" by (auto intro!: Seconds_nonneg Sub_nonneg)
  then have d: "0 \<le> ?d"
    using assms by (intro fl_nonneg mult_nonneg_nonneg float64_nonneg) (simp_all add: metric_ok_def)
  have l: "ms_currentLoad m \<le> float64 (ms_maxLoad m)" and pos: "0 \<le> float64 (ms_maxLoad m)"
    using assms by (simp_all add: metric_ok_def float64_nonneg)
  have "fl (ms_currentLoad m - ?d) \<le> fl (float64 (ms_maxLoad m))" using l d by (intro fl_mono) linarith
  then have load: "?load \<le> float64 (ms_maxLoad m)" using pos by (simp add: float64_def fl_idem)
  show "0 \<le> fst (estimateMetric m now)" by (simp add: estimateMetric_def Let_def)
  show "fst (estimateMetric m now) \<le> float64 (ms_maxLoad m)"
    using load pos by (simp add: estimateMetric_def Let_def metric_ok_def)
  have "0 \<le> ?load / float64 (ms_maxLoad m)" "?load / float64 (ms_maxLoad m) \<le> 1"
    using load pos by (auto simp: divide_le_eq_1)
  then show "0 \<le> snd (estimateMetric m now)" "snd (estimateMetric m now) \<le> 1"
    using f64.rnd_unit [of "?load / float64 (ms_maxLoad m)"] by (auto simp: estimateMetric_def Let_def)
qed

lemma metrics_of_ok:
  assumes "controller_ok c"
  shows "wf_map (metrics_of c l)" "map_of (metrics_of c l) k = Some m \<Longrightarrow> metric_ok m"
  using assms
  by (auto simp: controller_ok_def metrics_of_def split: option.splits dest!: map_of_SomeD)

lemma AList_update_set: "(k', v') \<in> set (AList.update k v m) \<Longrightarrow> wf_map m \<Longrightarrow>
    (k', v') = (k, v) \<or> (k', v') \<in> set m"
  by (metis map_of_SomeD map_of_in_set map_of_update fun_upd_apply option.inject wf_map_update)

lemma put_metrics_ok:
  assumes "controller_ok c" "wf_map ms" "\<forall>(k, m) \<in> set ms. metric_ok m"
  shows "controller_ok (c\<lparr>ctl_metrics := AList.update l ms (ctl_metrics c)\<rparr>)"
  using assms AList_update_set [of _ _ l ms "ctl_metrics c"] by (fastforce simp: controller_ok_def)

lemma Observe_ok:
  assumes "controller_ok c"
  shows "controller_ok (Observe l i r c)"
proof -
  let ?ms = "metrics_of c l" and ?t = "tr_TargetInstanceID r" and ?s = "tr_InstanceState r"
  note ms = metrics_of_ok [OF assms]
  have old: "\<forall>(k, m) \<in> set ?ms. metric_ok m" using ms map_of_in_set by fastforce
  have upd: "controller_ok (c\<lparr>ctl_metrics := AList.update l (AList.update ?t m ?ms) (ctl_metrics c)\<rparr>)"
    if "metric_ok m" for m
    using that old ms(1) AList_update_set [of _ _ ?t m ?ms] assms by (intro put_metrics_ok) fastforce+
  have sm: "0 \<le> ms_smoothed m \<and> ms_smoothed m \<le> 1"
    if "m = (case map_of ?ms ?t of None \<Rightarrow> zero_metric | Some m \<Rightarrow> m)" for m
    using that ms(2) by (auto simp: zero_metric_def metric_ok_def split: option.splits)
  show ?thesis
    unfolding Observe_def Let_def
    using assms put_metrics_ok [OF assms ms(1) old] sm
    by (auto simp: not_le not_less intro!: upd) (auto simp: metric_ok_def)
qed

lemma sample_metric_ok:
  assumes "config_ok config" "\<And>k m. map_of ms k = Some m \<Longrightarrow> metric_ok m"
    "0 < bi_ProcessingSpeed i" "0 < bi_MaxLoad i"
  shows "metric_ok (sample_metric (bc_EWMAAlpha config) now ms i)"
proof -
  define fresh where "fresh = zero_metric\<lparr>ms_containerID := bi_ContainerID i,
    ms_processingSpeed := bi_ProcessingSpeed i, ms_maxLoad := bi_MaxLoad i, ms_observedAt := now\<rparr>"
  define m where "m = (case map_of ms (bi_ID i) of Some m \<Rightarrow> if same_model m i then m else fresh | None \<Rightarrow> fresh)"
  let ?r = "snd (estimateMetric m now)"
  define sm where "sm = (if IsZero (ms_smoothedAt m) then ?r else fl (fl (bc_EWMAAlpha config * ?r) +
    fl (fl (1 - bc_EWMAAlpha config) * ms_smoothed m)))"
  have "metric_ok fresh"
    using assms(3,4) by (simp add: fresh_def zero_metric_def metric_ok_def float64_nonneg)
  then have m: "metric_ok m" using assms(2) by (auto simp: m_def split: option.splits)
  have "0 \<le> sm \<and> sm \<le> 1"
    unfolding sm_def using estimateMetric_unit [OF m] m assms(1) config_okD [OF assms(1)]
    by (auto simp: metric_ok_def config_ok_def intro!: ewma_unit)
  moreover have "sample_metric (bc_EWMAAlpha config) now ms i =
      m\<lparr>ms_smoothed := (if ?r = 0 \<and> sm < fl (5 / 10000) then 0 else sm), ms_smoothedAt := now\<rparr>"
    unfolding sample_metric_def Let_def fresh_def [symmetric] m_def [symmetric] sm_def [symmetric] ..
  ultimately show ?thesis using m by (simp add: metric_ok_def)
qed

lemma sample_metrics_ok:
  assumes "config_ok config" "wf_map ms" "\<And>k m. map_of ms k = Some m \<Longrightarrow> metric_ok m"
    "\<forall>i \<in> set ins. 0 < bi_ProcessingSpeed i \<and> 0 < bi_MaxLoad i"
    "sample_metrics (bc_EWMAAlpha config) now ins ms rs = (ms', rs')"
    "\<And>k v. map_of rs k = Some v \<Longrightarrow> 0 \<le> v \<and> v \<le> 1"
  shows "wf_map ms' \<and> (\<forall>k m. map_of ms' k = Some m \<longrightarrow> metric_ok m) \<and>
    (\<forall>k v. map_of rs' k = Some v \<longrightarrow> 0 \<le> v \<and> v \<le> 1)"
  using assms(2-6)
proof (induction ins arbitrary: ms rs)
  case (Cons i ins)
  let ?m = "sample_metric (bc_EWMAAlpha config) now ms i"
  have m: "metric_ok ?m" using Cons.prems assms(1) by (intro sample_metric_ok) auto
  show ?case
  proof (rule Cons.IH)
    show "wf_map (AList.update (bi_ID i) ?m ms)" using Cons.prems(1) by simp
    show "metric_ok x" if "map_of (AList.update (bi_ID i) ?m ms) k = Some x" for k x
      using that m Cons.prems(2) by (auto split: if_splits)
    show "0 \<le> v \<and> v \<le> 1" if "map_of (AList.update (bi_ID i) (ms_smoothed ?m) rs) k = Some v" for k v
      using that m Cons.prems(5) by (auto simp: metric_ok_def split: if_splits)
  qed (use Cons.prems(3,4) in \<open>simp_all add: Let_def\<close>)
qed auto

lemma sampleLoadRatios_ok:
  assumes "controller_ok c" "eligibleInstances ins" "sampleLoadRatios l ins now c = (rs, c')"
  shows "controller_ok c'" "\<forall>i \<in> set ins. valid_sample rs i" "ctl_config c' = ctl_config c"
    "ctl_states c' = ctl_states c"
proof -
  obtain ms where s: "sample_metrics (bc_EWMAAlpha (ctl_config c)) now ins (metrics_of c l) [] = (ms, rs)"
    and c': "c' = c\<lparr>ctl_metrics := AList.update l ms (ctl_metrics c)\<rparr>"
    using assms(3) by (auto simp: sampleLoadRatios_def split: prod.splits)
  have e: "\<forall>i \<in> set ins. 0 < bi_ProcessingSpeed i \<and> 0 < bi_MaxLoad i \<and> bi_ID i \<noteq> []"
    using assms(2) by (auto simp: eligibleInstances_def)
  have r: "wf_map ms \<and> (\<forall>k m. map_of ms k = Some m \<longrightarrow> metric_ok m) \<and>
      (\<forall>k v. map_of rs k = Some v \<longrightarrow> 0 \<le> v \<and> v \<le> 1)"
    using assms(1) metrics_of_ok [OF assms(1)] e
    by (intro sample_metrics_ok [OF _ _ _ _ s]) (auto simp: controller_ok_def)
  then show "controller_ok c'" unfolding c'
    using assms(1) map_of_in_set by (intro put_metrics_ok) fastforce+
  show "\<forall>i \<in> set ins. valid_sample rs i"
    using r e by (auto simp: valid_sample_def rat_at_def split: option.splits)
  show "ctl_config c' = ctl_config c" "ctl_states c' = ctl_states c" unfolding c' by simp_all
qed

lemma TargetWeights_range:
  assumes "TargetWeights ins lr = Inr ws"
  shows "weights_in_range ws"
proof -
  obtain b avg m where s: "ws = map (\<lambda>i. \<lparr>iw_InstanceID = bi_ID i, iw_Weight = raw_weight m (score b avg lr i) div
       Gcd ((\<lambda>i. raw_weight m (score b avg lr i)) ` set ins)\<rparr>) (sort_key bi_ID ins)" and ne: "ins \<noteq> []"
    using assms by (rule TargetWeights_shape)
  let ?w = "\<lambda>i. raw_weight m (score b avg lr i)"
  have "1 \<le> ?w i div Gcd (?w ` set ins) \<and> ?w i div Gcd (?w ` set ins) \<le> ?w i" if "i \<in> set ins" for i
    using that ne raw_weight_bounds
    by (intro Gcd_divided(3)) (auto simp: int_one_le_iff_zero_less [symmetric])
  then show ?thesis
    unfolding s weights_in_range_def using raw_weight_bounds by (fastforce intro: order_trans)
qed

lemma state_of_ok: "controller_ok c \<Longrightarrow> control_ok (ctl_config c) (state_of c l)"
  using config_okD(3) [of "ctl_config c"]
  by (auto simp: controller_ok_def state_of_def zero_control_def control_ok_def weights_in_range_def
      split: option.splits dest!: map_of_SomeD)

lemma saveState_ok:
  assumes "controller_ok c" "control_ok (ctl_config c) st"
  shows "controller_ok (saveState l st c)"
  using assms AList_update_set [of _ _ l st "ctl_states c"]
  by (fastforce simp: controller_ok_def saveState_def)

lemma control_steps_ok:
  assumes "config_ok config" "control_ok config st"
  shows "poll_adjustment config flt now db st = Inr st' \<Longrightarrow> control_ok config st'"
    "poll_adjustment config flt now db st = Inl (Some st', e) \<Longrightarrow> control_ok config st'"
    "control_ok config (reset_sampling st)"
    "weights_in_range ws \<Longrightarrow> control_ok config (count_sample config fp ws st)"
    "control_ok config (within_threshold config st)"
    "after_enqueue config now r st = (st', e) \<Longrightarrow> control_ok config st'"
    "control_ok config (st\<lparr>cs_stableSamples := 0\<rparr>)" "control_ok config (st\<lparr>cs_status := v\<rparr>)"
  using assms(2) config_okD(3) [OF assms(1)]
  by (auto simp: control_ok_def poll_adjustment_def reset_sampling_def count_sample_def within_threshold_def
      after_enqueue_def weights_in_range_def Let_def split: if_splits sum.splits op_status.splits)

lemma sampleLab_ok:
  assumes "controller_ok c" "sampleLab flt other sha bs lab now (c, db) = (e, c', db')"
  shows "controller_ok c'" "ctl_config c' = ctl_config c"
proof -
  let ?config = "ctl_config c" and ?l = "bl_ID lab" and ?ins = "bl_Instances lab"
  note cfg = assms(1) [unfolded controller_ok_def, THEN conjunct1]
  note steps = control_steps_ok [OF cfg]
  note poll = steps(1,2) [OF state_of_ok [OF assms(1)]]
  show "ctl_config c' = ctl_config c"
    using assms(2)
    by (auto simp: sampleLab_def saveState_def sampleLoadRatios_def Let_def
        split: sum.splits option.splits prod.splits if_splits)
  show "controller_ok c'"
  proof (cases "poll_adjustment ?config flt now db (state_of c ?l)")
    case (Inl x)
    then show ?thesis using assms poll(2)
      by (auto simp: sampleLab_def split: option.splits prod.splits intro!: saveState_ok)
  next
    case (Inr st)
    note st = poll(1) [OF Inr]
    show ?thesis
    proof (cases "eligibleInstances ?ins")
      case False
      then show ?thesis using assms Inr st steps(3)
        by (auto simp: sampleLab_def split: prod.splits intro!: saveState_ok)
    next
      case True
      obtain rs c1 where s: "sampleLoadRatios ?l ?ins now c = (rs, c1)" by fastforce
      note c1 = sampleLoadRatios_ok [OF assms(1) True s]
      have save: "controller_ok (saveState ?l x c1)" if "control_ok ?config x" for x
        using that c1 by (intro saveState_ok) simp_all
      show ?thesis
      proof (cases "TargetWeights ?ins rs")
        case Inl2: (Inl x)
        then show ?thesis using assms(2) Inr True s save steps(3) [OF st]
          by (auto simp: sampleLab_def)
      next
        case Inr2: (Inr ws)
        let ?st1 = "count_sample ?config (ConfigurationFingerprint sha ?ins) ws st"
        have st1: "control_ok ?config ?st1" by (intro steps(4) st TargetWeights_range [OF Inr2])
        note st2 = steps(7) [OF st1]
        show ?thesis
          using assms(2) Inr True s Inr2 c1(1) save steps(5,8) [OF st1] steps(8) [OF st2] steps(6) [OF st2]
          by (auto simp: sampleLab_def Let_def split: if_splits sum.splits prod.splits)
      qed
    qed
  qed
qed

lemma sample_labs_ok:
  "controller_ok (fst cd) \<Longrightarrow> controller_ok (fst (sample_labs sha env n labs cd))"
proof (induction labs arbitrary: n cd)
  case (Cons lab labs)
  obtain c db where cd: "cd = (c, db)" by fastforce
  obtain e c' db' where s: "sampleLab (sv_fault (env n)) (sv_other (env n)) sha (sv_bytes (env n)) lab
      (Truncate (sv_clock (env n)) Microsecond) (c, db) = (e, c', db')" by (metis prod.exhaust)
  have "controller_ok c" using Cons.prems cd by simp
  then have "controller_ok c'" by (rule sampleLab_ok(1) [OF _ s])
  then have "controller_ok (fst (sample_labs sha env (Suc n) labs (c', db')))" by (intro Cons.IH) simp
  then show ?case by (simp only: sample_labs.simps cd s snd_conv)
qed simp

lemma prune_ok: "controller_ok c \<Longrightarrow> controller_ok (prune seen now c)"
proof -
  assume c: "controller_ok c"
  let ?f = "\<lambda>ms :: (string \<times> metricState) list. filter (\<lambda>(_, m). \<not> drained (bc_MetricFreshness (ctl_config c)) now m) ms"
  have "wf_map (map (\<lambda>(l, ms). (l, ?f ms)) (ctl_metrics c))"
    using c by (simp add: controller_ok_def wf_map_def keys_def comp_def case_prod_beta)
  then show ?thesis using c by (fastforce simp: controller_ok_def prune_def)
qed

lemma sample_ok: "controller_ok (fst cd) \<Longrightarrow> controller_ok (fst (sample flt sha env now cd))"
  using sample_labs_ok [of cd sha env 0]
  by (auto simp: sample_def split: sum.splits prod.splits intro!: prune_ok) (metis fst_conv)

text \<open>
  The states a controller goes through: results of the traffic and passes over the labs, in any
  order and over any contents of the database.
\<close>

inductive controller_run :: "balancer_config \<Rightarrow> Controller \<Rightarrow> bool" for config where
  run_new: "NewController config = Inr c \<Longrightarrow> controller_run config c"
| run_observe: "controller_run config c \<Longrightarrow> controller_run config (Observe l i r c)"
| run_sample: "controller_run config c \<Longrightarrow> sample flt sha env now (c, db) = (c', db') \<Longrightarrow>
    controller_run config c'"

lemma controller_run_ok:
  assumes "controller_run config c" "fl (bc_EWMAAlpha config) = bc_EWMAAlpha config"
  shows "controller_ok c"
  using assms(1)
proof induction
  case (run_new c)
  then show ?case using assms(2)
    by (auto simp: NewController_def controller_ok_def config_ok_def split: option.splits)
next
  case (run_sample c flt sha env now db c' db')
  then show ?case using sample_ok [of "(c, db)" flt sha env now] by simp
qed (rule Observe_ok)

text \<open>
  Claim C20. Whatever traffic is observed and whatever the passes of the balancer meet, the metrics of
  the controller stay physical: every recorded load lies between 0 and the maximal load, every
  smoothed ratio between 0 and 1, and the counters and target weights of every lab stay within their
  ranges. In particular the smoothing in floating point never leaves the unit interval, for any
  configuration that \<open>NewController\<close> accepts.
\<close>

theorem controller_invariant:
  assumes "controller_run config c" "fl (bc_EWMAAlpha config) = bc_EWMAAlpha config"
  shows "(\<forall>l k m. map_of (metrics_of c l) k = Some m \<longrightarrow>
      0 \<le> ms_currentLoad m \<and> ms_currentLoad m \<le> float64 (ms_maxLoad m) \<and>
      0 \<le> ms_smoothed m \<and> ms_smoothed m \<le> 1) \<and>
    (\<forall>l st. map_of (ctl_states c) l = Some st \<longrightarrow>
      0 \<le> cs_configurationSamples st \<and> cs_configurationSamples st \<le> bc_StableSamples (ctl_config c) \<and>
      0 \<le> cs_stableSamples st \<and> cs_stableSamples st \<le> bc_StableSamples (ctl_config c) \<and>
      0 \<le> cs_failureCount st \<and> weights_in_range (cs_targetWeights st))"
proof -
  note ok = controller_run_ok [OF assms]
  have "metric_ok m" if "map_of (metrics_of c l) k = Some m" for l k m
    using metrics_of_ok(2) [OF ok that] .
  moreover have "control_ok (ctl_config c) st" if "map_of (ctl_states c) l = Some st" for l st
    using ok that by (auto simp: controller_ok_def dest!: map_of_SomeD)
  ultimately show ?thesis unfolding metric_ok_def control_ok_def by blast
qed

definition sample_result :: TrafficBatchResult where
  "sample_result = \<lparr>tr_BatchID = ''b'', tr_LabID = ''lab-1'', tr_Status = ''completed'', tr_OccurredAt = 5,
     tr_Path = [], tr_TargetInstanceID = ''app-1'', tr_ReceivedUnits = 60, tr_AcceptedUnits = 60,
     tr_DroppedUnits = 0, tr_InstanceState = \<lparr>is_ProcessingSpeed = 10, is_MaxLoad = 100,
       is_CurrentLoad = 60, is_LoadRatio = 3 / 5, is_LoadState = ''normal'', is_ObservedAt = 5\<rparr>,
     tr_Cache = None\<rparr>"

definition sample_target :: Instance where
  "sample_target = \<lparr>in_ID = ''app-1'', in_Name = ''app-1'', in_ContainerID = ''c1'', in_Status = ''running'',
     in_CPULimitCores = 1, in_MemoryLimitMB = 64, in_PerformancePercent = 100, in_ProcessingSpeed = 10,
     in_MaxLoad = 100, in_CurrentWeight = 100, in_CurrentLoad = 0, in_LoadRatio = 0, in_LoadState = ''idle'',
     in_ObservedAt = 0\<rparr>"

definition sample_controller :: Controller where
  "sample_controller = Observe ''lab-1'' sample_target sample_result
     \<lparr>ctl_config = DefaultConfig, ctl_states = [], ctl_metrics = []\<rparr>"

lemma fl_half: "fl (1 / 2) = 1 / 2"
  using fl_dyadic [of 1 "- 1"] by (simp add: power_int_minus)

lemma sample_controller_run: "controller_run DefaultConfig sample_controller"
  unfolding sample_controller_def
  by (intro run_observe run_new)
    (simp add: NewController_def validate_def DefaultConfig_def fl_half)

theorem controller_invariant_witness:
  "\<exists>m. map_of (metrics_of sample_controller ''lab-1'') ''app-1'' = Some m \<and>
     0 \<le> ms_currentLoad m \<and> ms_currentLoad m \<le> float64 (ms_maxLoad m) \<and> ms_smoothed m \<le> 1"
proof -
  have "float64 100 = 100" using float64_int [of 100] by simp
  then have "map_of (metrics_of sample_controller ''lab-1'') ''app-1'' \<noteq> None"
    by (simp add: sample_controller_def Observe_def sample_result_def sample_target_def metrics_of_def
        zero_metric_def IsZero_def Let_def)
  moreover have "fl (bc_EWMAAlpha DefaultConfig) = bc_EWMAAlpha DefaultConfig"
    by (simp add: DefaultConfig_def fl_half)
  ultimately show ?thesis using controller_invariant [OF sample_controller_run] by blast
qed

subsection \<open>When adjustments are proposed\<close>

lemma state_of_save [simp]: "state_of (saveState l st c) l = st"
  by (simp add: state_of_def saveState_def)

text \<open>A new row in the queue: what \<open>EnqueueAdjustment\<close> established.\<close>

lemma EnqueueAdjustment_changes:
  assumes "EnqueueAdjustment flt sha a now db = (r, db')" "db' \<noteq> db"
  shows "\<not> pending_operation (aj_LabID a) db" "\<exists>x. r = Inr x \<and> bo_OperationID x = aj_OperationID a"
    "\<exists>s. find_session (aj_LabID a) db = Some s \<and> adaptive_status (ls_status s)"
  using assms
  by (auto simp: EnqueueAdjustment_def adjustment_locked_def atomically_def
      split: if_splits option.splits sum.splits prod.splits)

text \<open>
  The controller inserts an adjustment only if the lab has no active operation, its own last
  adjustment is over, every instance is up, the same configuration was sampled as often as the
  configuration asks, and the delay after a failure has passed; the adjustment it inserted is the
  one it tracks from then on.
\<close>

theorem sampleLab_guarded:
  assumes "sampleLab flt other sha bs lab now (c, db) = (e, c', db')" "db' \<noteq> db" "db' \<noteq> other db"
  shows "\<not> pending_operation (bl_ID lab) (other db) \<and> eligibleInstances (bl_Instances lab) \<and>
    (cs_operationID (state_of c (bl_ID lab)) = [] \<or>
     (\<exists>op. FindAdjustment flt (cs_operationID (state_of c (bl_ID lab))) db = Inr op \<and> bo_Status op = OpFailed)) \<and>
    bc_StableSamples (ctl_config c) \<le> cs_configurationSamples (state_of c' (bl_ID lab)) \<and>
    (cs_nextRetry (state_of c' (bl_ID lab)) = 0 \<or> cs_nextRetry (state_of c' (bl_ID lab)) \<le> now) \<and>
    newOperationID bs = Inr (cs_operationID (state_of c' (bl_ID lab)))"
proof -
  let ?l = "bl_ID lab" and ?ins = "bl_Instances lab" and ?config = "ctl_config c"
  obtain st where st: "poll_adjustment ?config flt now db (state_of c ?l) = Inr st"
    using assms(1,2) by (auto simp: sampleLab_def Let_def split: sum.splits option.splits prod.splits)
  have el: "eligibleInstances ?ins" using assms(1,2) st by (auto simp: sampleLab_def Let_def split: if_splits)
  obtain rs c1 where s: "sampleLoadRatios ?l ?ins now c = (rs, c1)" by fastforce
  obtain ws where ws: "TargetWeights ?ins rs = Inr ws"
    using assms(1,2) st el s by (auto simp: sampleLab_def Let_def split: sum.splits)
  define st1 where "st1 = count_sample ?config (ConfigurationFingerprint sha ?ins) ws st"
  have run: "sampleLab flt other sha bs lab now (c, db) =
      (if cs_configurationSamples st1 < bc_StableSamples ?config
       then (None, saveState ?l (st1\<lparr>cs_status := StatusConverging\<rparr>) c1, db)
       else if WeightsWithinShareThreshold ?ins ws then (None, saveState ?l (within_threshold ?config st1) c1, db)
       else if \<not> IsZero (cs_nextRetry st1) \<and> now < cs_nextRetry st1
       then (None, saveState ?l (st1\<lparr>cs_stableSamples := 0, cs_status := StatusDegraded\<rparr>) c1, db)
       else case newOperationID bs of Inl e \<Rightarrow> (Some e, c1, db)
         | Inr k \<Rightarrow> (case EnqueueAdjustment flt sha \<lparr>aj_OperationID = k, aj_LabID = ?l,
              aj_RequestedBy = bl_UserID lab, aj_TopologyFingerprint = TopologyFingerprint sha ?ins,
              aj_Weights = ws\<rparr> now (other db) of (r, db') \<Rightarrow>
             (case after_enqueue ?config now r (st1\<lparr>cs_stableSamples := 0\<rparr>) of
                (st3, e) \<Rightarrow> (e, saveState ?l st3 c1, db'))))"
    unfolding st1_def by (simp add: sampleLab_def Let_def st el s ws)
  have g: "bc_StableSamples ?config \<le> cs_configurationSamples st1"
    "cs_nextRetry st1 = 0 \<or> cs_nextRetry st1 \<le> now"
    using assms(1,2) unfolding run by (auto simp: IsZero_def split: if_splits)
  obtain k r st3 where k: "newOperationID bs = Inr k"
    and q: "EnqueueAdjustment flt sha \<lparr>aj_OperationID = k, aj_LabID = ?l, aj_RequestedBy = bl_UserID lab,
        aj_TopologyFingerprint = TopologyFingerprint sha ?ins, aj_Weights = ws\<rparr> now (other db) = (r, db')"
    and a: "after_enqueue ?config now r (st1\<lparr>cs_stableSamples := 0\<rparr>) = (st3, e)" "c' = saveState ?l st3 c1"
    using assms(1,2) unfolding run by (auto split: if_splits sum.splits prod.splits)
  note ch = EnqueueAdjustment_changes [OF q assms(3)]
  obtain x where x: "r = Inr x" "bo_OperationID x = k" using ch(2) by auto
  have st3: "st3 = st1\<lparr>cs_stableSamples := 0, cs_operationID := k, cs_status := StatusConverging\<rparr>"
    using a(1) x by (simp add: after_enqueue_def)
  have "cs_operationID (state_of c ?l) = [] \<or>
     (\<exists>op. FindAdjustment flt (cs_operationID (state_of c ?l)) db = Inr op \<and> bo_Status op = OpFailed)"
    using st by (auto simp: poll_adjustment_def Let_def split: if_splits sum.splits op_status.splits)
  then show ?thesis using ch(1) el g k by (simp add: a(2) st3)
qed

end
