(* ===== verification/Json.thy ===== *)
theory Json
  imports Database
begin

text \<open>
  The values an orchestrator answers with. The field \<open>Result\<close> of a response has the Go type \<open>any\<close>:
  it is whatever JSON value the orchestrator sent, and the code encodes it again and decodes it into
  a struct. The functions below are what \<open>json.Unmarshal\<close> does for the field types the structs use;
  \<open>None\<close> is its error. The members of an object are in the order of their decoding.
\<close>

datatype json = JNull | JBool bool | JNum rat | JStr string | JArr "json list"
  | JObj "(string \<times> json) list"

text \<open>
  The members of a value that is decoded into a struct: \<open>null\<close> leaves the struct as it is, another
  value that is not an object is an error.
\<close>

fun members :: "json \<Rightarrow> (string \<times> json) list option" where
  "members (JObj ms) = Some ms"
| "members JNull = Some []"
| "members _ = None"

text \<open>The values for a field; keys match without regard to case.\<close>

definition values_of :: "string \<Rightarrow> (string \<times> json) list \<Rightarrow> json list" where
  "values_of k ms = map snd (filter (\<lambda>(k', _). same_key k' k) ms)"

text \<open>A field is decoded from each of its values in turn; \<open>step\<close> yields the new value of the field.\<close>

fun decode_field :: "('a \<Rightarrow> json \<Rightarrow> 'a option) \<Rightarrow> 'a \<Rightarrow> json list \<Rightarrow> 'a option" where
  "decode_field step x [] = Some x"
| "decode_field step x (v # vs) = (case step x v of None \<Rightarrow> None | Some y \<Rightarrow> decode_field step y vs)"

fun string_step :: "string \<Rightarrow> json \<Rightarrow> string option" where
  "string_step x JNull = Some x"
| "string_step x (JStr s) = Some s"
| "string_step x _ = None"

fun float_step :: "rat \<Rightarrow> json \<Rightarrow> rat option" where
  "float_step x JNull = Some x"
| "float_step x (JNum r) = Some r"
| "float_step x _ = None"

fun int_step :: "int \<Rightarrow> json \<Rightarrow> int option" where
  "int_step x JNull = Some x"
| "int_step x (JNum r) = (if r = of_int \<lfloor>r\<rfloor> \<and> - (2 ^ 63) \<le> \<lfloor>r\<rfloor> \<and> \<lfloor>r\<rfloor> < 2 ^ 63 then Some \<lfloor>r\<rfloor> else None)"
| "int_step x _ = None"

text \<open>A slice of structs and a pointer to a struct; \<open>dec\<close> decodes one struct.\<close>

fun decode_all :: "(json \<Rightarrow> 'a option) \<Rightarrow> json list \<Rightarrow> 'a list option" where
  "decode_all dec [] = Some []"
| "decode_all dec (v # vs) =
     (case dec v of None \<Rightarrow> None | Some x \<Rightarrow> map_option ((#) x) (decode_all dec vs))"

fun slice_step :: "(json \<Rightarrow> 'a option) \<Rightarrow> 'a list \<Rightarrow> json \<Rightarrow> 'a list option" where
  "slice_step dec x JNull = Some []"
| "slice_step dec x (JArr vs) = decode_all dec vs"
| "slice_step dec x _ = None"

fun pointer_step :: "(json \<Rightarrow> 'a option) \<Rightarrow> 'a option \<Rightarrow> json \<Rightarrow> 'a option option" where
  "pointer_step dec x JNull = Some None"
| "pointer_step dec x v = map_option Some (dec v)"

definition string_field :: "string \<Rightarrow> (string \<times> json) list \<Rightarrow> string option" where
  "string_field k ms = decode_field string_step [] (values_of k ms)"

definition float_field :: "string \<Rightarrow> (string \<times> json) list \<Rightarrow> rat option" where
  "float_field k ms = decode_field float_step 0 (values_of k ms)"

definition int_field :: "string \<Rightarrow> (string \<times> json) list \<Rightarrow> int option" where
  "int_field k ms = decode_field int_step 0 (values_of k ms)"

end
