(* ===== verification/Worker.thy ===== *)
theory Worker
  imports Json PlatformMachine Leases
begin

text \<open>
  The worker, \<^verbatim>\<open>services/platform-api/internal/operation/worker.go\<close>, and the messages of
  \<^verbatim>\<open>internal/protocol/command.go\<close>: it claims an operation, sends commands to the orchestrator and
  completes the operation with what they returned.

  The orchestrator, the lab applications, the clock, the source of identifiers and the other
  processes on the database are the record \<open>worker_env\<close> of functions on a state \<open>'w\<close> of the outside
  world and the database: an exchange may take any time, during which other processes change the
  database. \<open>we_pause\<close> is what they do between two steps of the worker that exchange nothing. The
  contexts of the code bound the time of an exchange; a context that ends is an exchange that fails,
  and \<open>we_cancelled\<close> is the test on the context in \<open>removeInstance\<close>.
\<close>

subsection \<open>Messages\<close>

text \<open>The payload of a command, one constructor per encoder of the worker.\<close>

datatype cmd_payload =
    StoredPayload payload
  | EmptyPayload
  | RedisPayload string
  | CreateInstancePayload string string int
  | DeleteInstancePayload string
  | CapacityPayload string string int int
  | UpstreamPayload "topologyServer list"

record Command =
  cm_CommandType :: string
  cm_CommandID :: string
  cm_OperationID :: string
  cm_LabID :: string
  cm_RequestedBy :: string
  cm_Payload :: cmd_payload

record CommandResponse =
  rp_CommandID :: string
  rp_OperationID :: string
  rp_Status :: string
  rp_Result :: json
  rp_Error :: json

text \<open>\<open>commandError\<close>: the code and the message of an error value that is an object with such members.\<close>

definition string_member :: "string \<Rightarrow> json \<Rightarrow> string \<Rightarrow> string" where
  "string_member k v dflt =
     (case v of
        JObj ms \<Rightarrow> (case map_of ms k of Some (JStr s) \<Rightarrow> if s \<noteq> [] then s else dflt | _ \<Rightarrow> dflt)
      | _ \<Rightarrow> dflt)"

definition commandError :: "json \<Rightarrow> string \<times> string" where
  "commandError v = (string_member ''code'' v ''ORCHESTRATOR_COMMAND_FAILED'',
     string_member ''message'' v ''orchestrator command failed'')"

definition decode_instance_struct :: "json \<Rightarrow> ProvisionInstance option" where
  "decode_instance_struct v =
     (case members v of
        None \<Rightarrow> None
      | Some ms \<Rightarrow>
         (case (string_field ''instanceName'' ms, string_field ''containerId'' ms,
                string_field ''containerName'' ms, string_field ''status'' ms,
                float_field ''cpuLimitCores'' ms, int_field ''memoryLimitMb'' ms,
                int_field ''performancePercent'' ms, int_field ''processingSpeed'' ms,
                int_field ''maxLoad'' ms, int_field ''currentWeight'' ms) of
            (Some n, Some c, Some cn, Some st, Some cpu, Some mem, Some pp, Some sp, Some ml, Some cw) \<Rightarrow>
              Some \<lparr>pi_InstanceName = n, pi_ContainerID = c, pi_ContainerName = cn, pi_Status = st,
                    pi_CPULimitCores = cpu, pi_MemoryLimitMB = mem, pi_PerformancePercent = pp,
                    pi_ProcessingSpeed = sp, pi_MaxLoad = ml, pi_CurrentWeight = cw\<rparr>
          | _ \<Rightarrow> None))"

definition instance_complete :: "ProvisionInstance \<Rightarrow> bool" where
  "instance_complete i = (\<not> (pi_InstanceName i = [] \<or> pi_ContainerID i = [] \<or> pi_ContainerName i = [] \<or>
     pi_CPULimitCores i \<le> 0 \<or> pi_MemoryLimitMB i \<le> 0 \<or> pi_PerformancePercent i \<le> 0 \<or>
     pi_ProcessingSpeed i \<le> 0 \<or> pi_MaxLoad i \<le> 0 \<or> pi_CurrentWeight i \<le> 0))"

definition decodeProvisionInstance :: "json \<Rightarrow> ProvisionInstance option" where
  "decodeProvisionInstance v =
     (case decode_instance_struct v of
        None \<Rightarrow> None | Some i \<Rightarrow> if instance_complete i then Some i else None)"

definition decode_redis_struct :: "json \<Rightarrow> ProvisionRedis option" where
  "decode_redis_struct v =
     (case members v of
        None \<Rightarrow> None
      | Some ms \<Rightarrow>
         (case (string_field ''containerId'' ms, string_field ''containerName'' ms, string_field ''status'' ms) of
            (Some c, Some cn, Some st) \<Rightarrow>
              Some \<lparr>rd_ContainerID = c, rd_ContainerName = cn, rd_Status = st\<rparr>
          | _ \<Rightarrow> None))"

definition decode_provision_struct :: "json \<Rightarrow> ProvisionResult option" where
  "decode_provision_struct v =
     (case members v of
        None \<Rightarrow> None
      | Some ms \<Rightarrow>
         (case (string_field ''labId'' ms, string_field ''scenarioTemplateId'' ms,
                string_field ''databaseName'' ms, string_field ''databaseUser'' ms,
                string_field ''networkId'' ms, string_field ''networkName'' ms,
                decode_field (slice_step decode_instance_struct) [] (values_of ''instances'' ms),
                decode_field (pointer_step decode_redis_struct) None (values_of ''redis'' ms)) of
            (Some l, Some t, Some dn, Some du, Some ni, Some nn, Some ins, Some rd) \<Rightarrow>
              Some \<lparr>pv_LabID = l, pv_ScenarioTemplateID = t, pv_DatabaseName = dn, pv_DatabaseUser = du,
                    pv_NetworkID = ni, pv_NetworkName = nn, pv_Instances = ins, pv_Redis = rd\<rparr>
          | _ \<Rightarrow> None))"

definition decodeProvisionResult :: "json \<Rightarrow> ProvisionResult option" where
  "decodeProvisionResult v =
     (case decode_provision_struct v of
        None \<Rightarrow> None
      | Some r \<Rightarrow>
          if pv_LabID r = [] \<or> pv_DatabaseName r = [] \<or> pv_DatabaseUser r = [] \<or> pv_NetworkID r = [] \<or>
             pv_NetworkName r = [] \<or> pv_Instances r = []
          then None
          else if \<exists>i \<in> set (pv_Instances r). \<not> instance_complete i then None
          else Some r)"

definition validateProvisionIdentity :: "Record \<Rightarrow> ProvisionResult \<Rightarrow> bool" where
  "validateProvisionIdentity record r = (\<not> (pv_LabID r \<noteq> rec_LabID record \<or>
     payload_template (rec_Payload record) = [] \<or>
     pv_ScenarioTemplateID r \<noteq> payload_template (rec_Payload record)))"

subsection \<open>The payload of an operation, as the worker decodes it\<close>

record topologyPayload =
  wp_ScenarioTemplateID :: string
  wp_InstanceName :: string
  wp_PerformancePercent :: int
  wp_PreviousPerformancePercent :: int
  wp_Servers :: "topologyServer list"
  wp_PreviousServers :: "topologyServer list"
  wp_ExpectedMode :: string
  wp_TopologyFingerprint :: string
  wp_Weights :: "InstanceWeight list"
  wp_BalancingMode :: "string option"

definition decode_payload :: "payload \<Rightarrow> topologyPayload" where
  "decode_payload p =
     (let base = \<lparr>wp_ScenarioTemplateID = payload_template p, wp_InstanceName = [], wp_PerformancePercent = 0,
            wp_PreviousPerformancePercent = 0, wp_Servers = [], wp_PreviousServers = [],
            wp_ExpectedMode = [], wp_TopologyFingerprint = [],
            wp_Weights = elems (ai_Weights (payload_request p)),
            wp_BalancingMode = ai_BalancingMode (payload_request p)\<rparr>
      in case p of
        TopologyPayload t \<Rightarrow> base\<lparr>wp_InstanceName := tp_InstanceName t,
          wp_PerformancePercent := tp_PerformancePercent t,
          wp_PreviousPerformancePercent := tp_PreviousPerformancePercent t,
          wp_Servers := elems (tp_Servers t), wp_PreviousServers := elems (tp_PreviousServers t)\<rparr>
      | AdjustmentPayload a \<Rightarrow> base\<lparr>wp_Servers := ad_Servers a, wp_ExpectedMode := ad_ExpectedMode a,
          wp_TopologyFingerprint := ad_TopologyFingerprint a\<rparr>
      | _ \<Rightarrow> base)"

subsection \<open>The surroundings of a worker\<close>

record WorkerConfig =
  wc_Owner :: string
  wc_PollInterval :: duration
  wc_LeaseDuration :: duration
  wc_CommandTimeout :: duration

definition newWorker :: "WorkerConfig \<Rightarrow> lab_error option" where
  "newWorker config =
     (if wc_Owner config = [] \<or> wc_PollInterval config \<le> 0 \<or> wc_LeaseDuration config \<le> 0 \<or>
         wc_CommandTimeout config \<le> 0
      then Some (ErrText ''operation worker config is invalid'')
      else if wc_LeaseDuration config \<le> wc_CommandTimeout config
      then Some (ErrText ''operation lease duration must exceed command timeout'')
      else None)"

record 'w worker_env =
  we_config :: WorkerConfig
  we_cacheRuntime :: bool
  we_sha :: "string \<Rightarrow> nat list"
  we_now :: "'w \<Rightarrow> gotime"
  we_fault :: "'w \<Rightarrow> fault"
  we_locked :: "'w \<Rightarrow> nat \<Rightarrow> bool"
  we_bytes :: "'w \<Rightarrow> nat list option"
  we_cancelled :: "'w \<Rightarrow> bool"
  we_pause :: "platform_db \<times> 'w \<Rightarrow> platform_db \<times> 'w"
  we_execute :: "Command \<Rightarrow> platform_db \<times> 'w \<Rightarrow> CommandResponse option \<times> platform_db \<times> 'w"
  we_setL1 :: "string \<Rightarrow> string \<Rightarrow> bool \<Rightarrow> platform_db \<times> 'w \<Rightarrow> bool \<times> platform_db \<times> 'w"

type_synonym 'w wstate = "platform_db \<times> 'w"

definition newCommandID :: "nat list option \<Rightarrow> (lab_error, string) result" where
  "newCommandID bs = (case bs of None \<Rightarrow> Inl (ErrText ''generate command id'')
     | Some bs \<Rightarrow> Inr (''cmd-'' @ hex_EncodeToString bs))"

definition instant :: "'w worker_env \<Rightarrow> 'w \<Rightarrow> gotime" where
  "instant env w = Truncate (we_now env w) Microsecond"

text \<open>A completion, at the instant and with the faults of that moment.\<close>

definition finish ::
  "'w worker_env \<Rightarrow> (fault \<Rightarrow> gotime \<Rightarrow> platform_db \<Rightarrow> lab_error option \<times> platform_db) \<Rightarrow> 'w wstate \<Rightarrow>
   lab_error option \<times> 'w wstate" where
  "finish env tx s =
     (case we_pause env s of (db, w) \<Rightarrow>
      (case tx (we_fault env w) (instant env w) db of (e, db') \<Rightarrow> (e, db', w)))"

definition command_of :: "Record \<Rightarrow> string \<Rightarrow> string \<Rightarrow> cmd_payload \<Rightarrow> Command" where
  "command_of record commandType commandID payload =
     \<lparr>cm_CommandType = commandType, cm_CommandID = commandID, cm_OperationID = rec_OperationID record,
      cm_LabID = rec_LabID record, cm_RequestedBy = digits (rec_RequestedBy record), cm_Payload = payload\<rparr>"

text \<open>\<open>executeTopologyCommand\<close>; \<open>None\<close> is an error.\<close>

definition executeTopologyCommand ::
  "'w worker_env \<Rightarrow> Record \<Rightarrow> string \<Rightarrow> cmd_payload \<Rightarrow> 'w wstate \<Rightarrow> CommandResponse option \<times> 'w wstate" where
  "executeTopologyCommand env record commandType payload s =
     (case newCommandID (we_bytes env (snd s)) of
        Inl _ \<Rightarrow> (None, s)
      | Inr commandID \<Rightarrow> we_execute env (command_of record commandType commandID payload) s)"

text \<open>\<open>applyTopologyServers\<close>: whether it succeeded.\<close>

definition applyTopologyServers ::
  "'w worker_env \<Rightarrow> Record \<Rightarrow> topologyServer list \<Rightarrow> 'w wstate \<Rightarrow> bool \<times> 'w wstate" where
  "applyTopologyServers env record servers s =
     (case executeTopologyCommand env record ''APPLY_LAB_UPSTREAM'' (UpstreamPayload servers) s of
        (r, s') \<Rightarrow> (case r of None \<Rightarrow> False | Some x \<Rightarrow> rp_Status x = ''succeeded'', s'))"

definition completeTopologyFailure ::
  "'w worker_env \<Rightarrow> Record \<Rightarrow> string \<Rightarrow> string \<Rightarrow> 'w wstate \<Rightarrow> lab_error option \<times> 'w wstate" where
  "completeTopologyFailure env record code message =
     finish env (\<lambda>flt now. CompleteTopology flt record zero_topology code message now)"

definition completeTopologySuccess ::
  "'w worker_env \<Rightarrow> Record \<Rightarrow> TopologyResult \<Rightarrow> 'w wstate \<Rightarrow> lab_error option \<times> 'w wstate" where
  "completeTopologySuccess env record v =
     finish env (\<lambda>flt now. CompleteTopology flt record v [] [] now)"

subsection \<open>Topology actions\<close>

definition addInstance ::
  "'w worker_env \<Rightarrow> Record \<Rightarrow> topologyPayload \<Rightarrow> 'w wstate \<Rightarrow> lab_error option \<times> 'w wstate" where
  "addInstance env record p s =
     (case executeTopologyCommand env record ''CREATE_APP_INSTANCE''
            (CreateInstancePayload (wp_ScenarioTemplateID p) (wp_InstanceName p) (wp_PerformancePercent p)) s of
        (None, s1) \<Rightarrow> completeTopologyFailure env record ''ORCHESTRATOR_UNAVAILABLE''
                        ''application instance could not be created'' s1
      | (Some r, s1) \<Rightarrow>
          if rp_Status r \<noteq> ''succeeded''
          then completeTopologyFailure env record (fst (commandError (rp_Error r))) (snd (commandError (rp_Error r))) s1
          else case decodeProvisionInstance (rp_Result r) of
            None \<Rightarrow> completeTopologyFailure env record ''ORCHESTRATOR_RESPONSE_INCOMPLETE''
                      ''application instance result is invalid'' s1
          | Some i \<Rightarrow>
             (case applyTopologyServers env record (wp_Servers p) s1 of
                (False, s2) \<Rightarrow>
                 (case executeTopologyCommand env record ''DELETE_APP_INSTANCE''
                         (DeleteInstancePayload (wp_InstanceName p)) s2 of
                    (_, s3) \<Rightarrow> completeTopologyFailure env record ''NGINX_CONFIG_INVALID''
                                 ''application upstream could not be applied'' s3)
              | (True, s2) \<Rightarrow> completeTopologySuccess env record (zero_topology\<lparr>tpr_Instance := Some i\<rparr>) s2))"

definition removeInstance ::
  "'w worker_env \<Rightarrow> Record \<Rightarrow> topologyPayload \<Rightarrow> 'w wstate \<Rightarrow> lab_error option \<times> 'w wstate" where
  "removeInstance env record p s =
     (case applyTopologyServers env record (wp_Servers p) s of
        (False, s1) \<Rightarrow> completeTopologyFailure env record ''NGINX_CONFIG_INVALID''
                         ''application upstream could not be applied'' s1
      | (True, s1) \<Rightarrow>
         (let s2 = we_pause env s1 in
          if we_cancelled env (snd s2)
          then (Some (ErrText ''context canceled''),
                snd (applyTopologyServers env record (wp_PreviousServers p) s2))
          else case executeTopologyCommand env record ''DELETE_APP_INSTANCE''
                      (DeleteInstancePayload (wp_InstanceName p)) s2 of
            (None, s3) \<Rightarrow>
              completeTopologyFailure env record ''ORCHESTRATOR_UNAVAILABLE''
                ''application instance could not be removed''
                (snd (applyTopologyServers env record (wp_PreviousServers p) s3))
          | (Some r, s3) \<Rightarrow>
              if rp_Status r \<noteq> ''succeeded''
              then completeTopologyFailure env record (fst (commandError (rp_Error r)))
                     (snd (commandError (rp_Error r)))
                     (snd (applyTopologyServers env record (wp_PreviousServers p) s3))
              else completeTopologySuccess env record
                     (zero_topology\<lparr>tpr_RemovedInstanceID := wp_InstanceName p\<rparr>) s3))"

definition setInstancePerformance ::
  "'w worker_env \<Rightarrow> Record \<Rightarrow> topologyPayload \<Rightarrow> 'w wstate \<Rightarrow> lab_error option \<times> 'w wstate" where
  "setInstancePerformance env record p s =
     (case executeTopologyCommand env record ''UPDATE_APP_CAPACITY''
            (CapacityPayload (wp_ScenarioTemplateID p) (wp_InstanceName p) (wp_PerformancePercent p)
              (wp_PreviousPerformancePercent p)) s of
        (None, s1) \<Rightarrow> completeTopologyFailure env record ''ORCHESTRATOR_UNAVAILABLE''
                        ''application performance could not be updated'' s1
      | (Some r, s1) \<Rightarrow>
          if rp_Status r \<noteq> ''succeeded''
          then completeTopologyFailure env record (fst (commandError (rp_Error r))) (snd (commandError (rp_Error r))) s1
          else case decodeProvisionInstance (rp_Result r) of
            None \<Rightarrow> completeTopologyFailure env record ''ORCHESTRATOR_RESPONSE_INCOMPLETE''
                      ''application performance result is invalid'' s1
          | Some i \<Rightarrow>
             (case applyTopologyServers env record (wp_Servers p) s1 of
                (False, s2) \<Rightarrow>
                 (case executeTopologyCommand env record ''UPDATE_APP_CAPACITY''
                         (CapacityPayload (wp_ScenarioTemplateID p) (wp_InstanceName p)
                           (wp_PreviousPerformancePercent p) (wp_PerformancePercent p)) s2 of
                    (_, s3) \<Rightarrow> completeTopologyFailure env record ''NGINX_CONFIG_INVALID''
                                 ''application upstream could not be refreshed''
                                 (snd (applyTopologyServers env record (wp_PreviousServers p) s3)))
              | (True, s2) \<Rightarrow> completeTopologySuccess env record (zero_topology\<lparr>tpr_Instance := Some i\<rparr>) s2))"

definition setInstanceWeights ::
  "'w worker_env \<Rightarrow> Record \<Rightarrow> topologyPayload \<Rightarrow> 'w wstate \<Rightarrow> lab_error option \<times> 'w wstate" where
  "setInstanceWeights env record p s =
     (case applyTopologyServers env record (wp_Servers p) s of
        (False, s1) \<Rightarrow> completeTopologyFailure env record ''NGINX_CONFIG_INVALID''
                         ''application weights could not be applied'' s1
      | (True, s1) \<Rightarrow> completeTopologySuccess env record (zero_topology\<lparr>tpr_Weights := wp_Weights p\<rparr>) s1)"

definition setBalancingMode ::
  "'w worker_env \<Rightarrow> Record \<Rightarrow> topologyPayload \<Rightarrow> 'w wstate \<Rightarrow> lab_error option \<times> 'w wstate" where
  "setBalancingMode env record p s =
     (case wp_BalancingMode p of
        None \<Rightarrow> completeTopologyFailure env record ''INVALID_OPERATION''
                  ''balancing mode operation payload is invalid'' s
      | Some m \<Rightarrow> completeTopologySuccess env record (zero_topology\<lparr>tpr_BalancingMode := m\<rparr>) s)"

definition applyAdaptiveWeights ::
  "'w worker_env \<Rightarrow> Record \<Rightarrow> topologyPayload \<Rightarrow> 'w wstate \<Rightarrow> lab_error option \<times> 'w wstate" where
  "applyAdaptiveWeights env record p s =
     (if wp_ExpectedMode p \<noteq> ''adaptive'' \<or> wp_TopologyFingerprint p = [] \<or> wp_Servers p = [] \<or>
         length (wp_Weights p) \<noteq> length (wp_Servers p)
      then completeTopologyFailure env record ''INVALID_OPERATION''
             ''adaptive weight operation payload is invalid'' s
      else let s1 = we_pause env s in
        case ValidateAdaptive (we_fault env (snd s1)) (we_sha env) (rec_Action record) (rec_LabID record)
               (wp_TopologyFingerprint p) (fst s1) of
          Inl _ \<Rightarrow> completeTopologyFailure env record ''INTERNAL_ERROR''
                     ''adaptive topology could not be validated'' s1
        | Inr valid \<Rightarrow>
            if \<not> valid then completeTopologySuccess env record (zero_topology\<lparr>tpr_Skipped := True\<rparr>) s1
            else case applyTopologyServers env record (wp_Servers p) s1 of
              (False, s2) \<Rightarrow> completeTopologyFailure env record ''NGINX_CONFIG_INVALID''
                               ''adaptive application weights could not be applied'' s2
            | (True, s2) \<Rightarrow> completeTopologySuccess env record (zero_topology\<lparr>tpr_Weights := wp_Weights p\<rparr>) s2)"

definition processTopology ::
  "'w worker_env \<Rightarrow> Record \<Rightarrow> 'w wstate \<Rightarrow> lab_error option \<times> 'w wstate" where
  "processTopology env record s =
     (let p = decode_payload (rec_Payload record) in
      case rec_Action record of
        ADD_INSTANCE \<Rightarrow> addInstance env record p s
      | REMOVE_INSTANCE \<Rightarrow> removeInstance env record p s
      | SET_INSTANCE_PERFORMANCE \<Rightarrow> setInstancePerformance env record p s
      | SET_INSTANCE_WEIGHTS \<Rightarrow> setInstanceWeights env record p s
      | SET_BALANCING_MODE \<Rightarrow> setBalancingMode env record p s
      | APPLY_ADAPTIVE_WEIGHTS \<Rightarrow> applyAdaptiveWeights env record p s
      | _ \<Rightarrow> completeTopologyFailure env record ''ACTION_NOT_SUPPORTED'' ''topology action is not supported'' s)"

subsection \<open>Cache actions\<close>

definition completeCache ::
  "'w worker_env \<Rightarrow> Record \<Rightarrow> CacheOpResult \<Rightarrow> string \<Rightarrow> string \<Rightarrow> 'w wstate \<Rightarrow> lab_error option \<times> 'w wstate" where
  "completeCache env record v code message =
     finish env (\<lambda>flt now. CompleteCache flt record v code message now)"

definition completeCacheFailure ::
  "'w worker_env \<Rightarrow> Record \<Rightarrow> string \<Rightarrow> string \<Rightarrow> 'w wstate \<Rightarrow> lab_error option \<times> 'w wstate" where
  "completeCacheFailure env record code message = completeCache env record None code message"

definition cache_L1 ::
  "'w worker_env \<Rightarrow> Record \<Rightarrow> 'w wstate \<Rightarrow> lab_error option \<times> 'w wstate" where
  "cache_L1 env record s =
     (let target = ai_TargetInstanceID (payload_request (rec_Payload record)) in
      if \<not> we_cacheRuntime env \<or> target = None \<or> target = Some []
      then completeCacheFailure env record ''CACHE_UNAVAILABLE'' ''cache instance control is unavailable'' s
      else case we_setL1 env (rec_LabID record) (the target) (rec_Action record = ADD_INSTANCE_L1) s of
        (False, s1) \<Rightarrow> completeCacheFailure env record ''CACHE_UNAVAILABLE''
                         ''cache instance could not be updated'' s1
      | (True, s1) \<Rightarrow> completeCache env record None [] [] s1)"

definition cache_redis ::
  "'w worker_env \<Rightarrow> Record \<Rightarrow> 'w wstate \<Rightarrow> lab_error option \<times> 'w wstate" where
  "cache_redis env record s =
     (let add = (rec_Action record = ADD_SESSION_REDIS) in
      case newCommandID (we_bytes env (snd s)) of
        Inl _ \<Rightarrow> completeCacheFailure env record ''INTERNAL_ERROR'' ''cache command could not be prepared'' s
      | Inr commandID \<Rightarrow>
         (case we_execute env (if add
                then command_of record ''CREATE_SESSION_REDIS'' commandID
                       (RedisPayload (payload_template (rec_Payload record)))
                else command_of record ''DELETE_SESSION_REDIS'' commandID EmptyPayload) s of
            (None, s1) \<Rightarrow> completeCacheFailure env record ''ORCHESTRATOR_UNAVAILABLE''
                            ''Redis operation could not be completed'' s1
          | (Some r, s1) \<Rightarrow>
              if rp_Status r \<noteq> ''succeeded''
              then completeCacheFailure env record (fst (commandError (rp_Error r)))
                     (snd (commandError (rp_Error r))) s1
              else if \<not> add then completeCache env record None [] [] s1
              else case decode_redis_struct (rp_Result r) of
                None \<Rightarrow> completeCacheFailure env record ''ORCHESTRATOR_RESPONSE_INCOMPLETE''
                          ''Redis result is invalid'' s1
              | Some rd \<Rightarrow>
                  if rd_ContainerID rd = [] \<or> rd_ContainerName rd = []
                  then completeCacheFailure env record ''ORCHESTRATOR_RESPONSE_INCOMPLETE''
                         ''Redis result is invalid'' s1
                  else completeCache env record (Some (rd\<lparr>rd_Status := ''ready''\<rparr>)) [] [] s1))"

definition processCache ::
  "'w worker_env \<Rightarrow> Record \<Rightarrow> 'w wstate \<Rightarrow> lab_error option \<times> 'w wstate" where
  "processCache env record s =
     (if payload_template (rec_Payload record) = []
      then completeCacheFailure env record ''INVALID_OPERATION'' ''cache operation payload is invalid'' s
      else if rec_Action record = REMOVE_INSTANCE_L1 \<or> rec_Action record = ADD_INSTANCE_L1
      then cache_L1 env record s
      else cache_redis env record s)"

subsection \<open>Provisioning, resetting and destroying\<close>

definition commandTypeForAction :: "action \<Rightarrow> string option" where
  "commandTypeForAction a =
     (case a of CREATE_LAB \<Rightarrow> Some ''PROVISION_LAB'' | RESET_LAB \<Rightarrow> Some ''RESET_LAB''
      | DESTROY_LAB \<Rightarrow> Some ''DESTROY_LAB'' | _ \<Rightarrow> None)"

definition completeFailure ::
  "'w worker_env \<Rightarrow> Record \<Rightarrow> string \<Rightarrow> string \<Rightarrow> 'w wstate \<Rightarrow> lab_error option \<times> 'w wstate" where
  "completeFailure env record code message =
     (case rec_Action record of
        CREATE_LAB \<Rightarrow> finish env (\<lambda>flt now. CompleteProvision flt record zero_provision code message now)
      | RESET_LAB \<Rightarrow> finish env (\<lambda>flt now. CompleteReset flt record zero_provision code message now)
      | DESTROY_LAB \<Rightarrow> finish env (\<lambda>flt now. CompleteDestroy flt record code message now)
      | _ \<Rightarrow> finish env (\<lambda>flt now. CompleteFailure flt record code message now))"

definition completeSuccess ::
  "'w worker_env \<Rightarrow> Record \<Rightarrow> json \<Rightarrow> 'w wstate \<Rightarrow> lab_error option \<times> 'w wstate" where
  "completeSuccess env record result =
     (if rec_Action record = CREATE_LAB \<or> rec_Action record = RESET_LAB
      then (case decodeProvisionResult result of
          None \<Rightarrow> completeFailure env record ''ORCHESTRATOR_RESPONSE_INCOMPLETE''
                    ''orchestrator provision result is invalid''
        | Some v \<Rightarrow>
            if \<not> validateProvisionIdentity record v
            then completeFailure env record ''ORCHESTRATOR_RESPONSE_INCOMPLETE''
                   ''orchestrator provision result is invalid''
            else if rec_Action record = CREATE_LAB
            then finish env (\<lambda>flt now. CompleteProvision flt record v [] [] now)
            else finish env (\<lambda>flt now. CompleteReset flt record v [] [] now))
      else if rec_Action record = DESTROY_LAB
      then finish env (\<lambda>flt now. CompleteDestroy flt record [] [] now)
      else finish env (\<lambda>flt now. CompleteFailure flt record ''ACTION_NOT_SUPPORTED''
             ''operation action is not supported by this worker'' now))"

definition process_lab ::
  "'w worker_env \<Rightarrow> Record \<Rightarrow> 'w wstate \<Rightarrow> lab_error option \<times> 'w wstate" where
  "process_lab env record s =
     (case commandTypeForAction (rec_Action record) of
        None \<Rightarrow> finish env (\<lambda>flt now. CompleteFailure flt record ''ACTION_NOT_SUPPORTED''
                  ''operation action is not supported by this worker'' now) s
      | Some commandType \<Rightarrow>
         (case newCommandID (we_bytes env (snd s)) of
            Inl _ \<Rightarrow> completeFailure env record ''INTERNAL_ERROR'' ''generate command id'' s
          | Inr commandID \<Rightarrow>
             (case we_execute env (command_of record commandType commandID (StoredPayload (rec_Payload record))) s of
                (None, s1) \<Rightarrow> completeFailure env record ''ORCHESTRATOR_UNAVAILABLE''
                                ''orchestrator command could not be completed'' s1
              | (Some r, s1) \<Rightarrow>
                  if rp_Status r = ''succeeded'' then completeSuccess env record (rp_Result r) s1
                  else if rp_Status r = ''failed'' \<or> rp_Status r = ''rejected''
                  then completeFailure env record (fst (commandError (rp_Error r)))
                         (snd (commandError (rp_Error r))) s1
                  else completeFailure env record ''ORCHESTRATOR_RESPONSE_INCOMPLETE''
                         ''orchestrator did not return a final command result'' s1)))"

definition isTopologyAction :: "action \<Rightarrow> bool" where
  "isTopologyAction a = (a = ADD_INSTANCE \<or> a = REMOVE_INSTANCE \<or> a = SET_INSTANCE_PERFORMANCE \<or>
     a = SET_INSTANCE_WEIGHTS \<or> a = SET_BALANCING_MODE \<or> a = APPLY_ADAPTIVE_WEIGHTS)"

definition process_record ::
  "'w worker_env \<Rightarrow> Record \<Rightarrow> 'w wstate \<Rightarrow> lab_error option \<times> 'w wstate" where
  "process_record env record =
     (if isTopologyAction (rec_Action record) then processTopology env record
      else if isCacheAction (rec_Action record) then processCache env record
      else process_lab env record)"

definition processOne :: "'w worker_env \<Rightarrow> 'w wstate \<Rightarrow> (bool \<times> lab_error option) \<times> 'w wstate" where
  "processOne env = (\<lambda>(db, w).
     let now = instant env w; lease = now + wc_LeaseDuration (we_config env) in
     case Claim (we_fault env w) (we_locked env w) (wc_Owner (we_config env)) now lease db of
       (Inl e, db1) \<Rightarrow> ((False, if e = ErrNoPending then None else Some e), db1, w)
     | (Inr record, db1) \<Rightarrow>
        (case we_pause env (db1, w) of (db2, w2) \<Rightarrow>
         (case MarkRunning (we_fault env w2) record now lease db2 of
            (Some e, db3) \<Rightarrow> ((True, Some e), db3, w2)
          | (None, db3) \<Rightarrow>
             (case process_record env record (db3, w2) of (e, s) \<Rightarrow> ((True, e), s)))))"

end
