(* ===== verification/WorkerRuns.thy ===== *)
theory WorkerRuns
  imports Worker
begin

text \<open>
  What a round of the worker guarantees, \<^verbatim>\<open>services/platform-api/internal/operation/worker.go\<close>: it
  ends with one completion that fits the action, it keeps the platform within its reachable states
  whatever the orchestrator answers, a failed command is recorded as such, and topology changes that
  fail half-way are taken back.
\<close>

subsection \<open>The shape of a run\<close>

text \<open>What happens outside the worker while it processes an operation.\<close>

inductive exchange :: "'w worker_env \<Rightarrow> 'w wstate \<Rightarrow> 'w wstate \<Rightarrow> bool" for env where
  ex_none: "exchange env s s"
| ex_pause: "exchange env s s1 \<Longrightarrow> exchange env s (we_pause env s1)"
| ex_execute: "exchange env s s1 \<Longrightarrow> exchange env s (snd (we_execute env c s1))"
| ex_setL1: "exchange env s s1 \<Longrightarrow> exchange env s (snd (we_setL1 env l i b s1))"

text \<open>The completion that fits an action.\<close>

fun fits :: "completion \<Rightarrow> action \<Rightarrow> bool" where
  "fits (DoneProvision v) a = (a = CREATE_LAB)"
| "fits (DoneReset v) a = (a = RESET_LAB)"
| "fits DoneDestroy a = (a = DESTROY_LAB)"
| "fits (DoneTopology v) a = topology_action a"
| "fits (DoneCache v) a = isCacheAction a"
| "fits DoneFailure a = settled_action a"

text \<open>One completion, after some exchanges, or none because the worker was stopped.\<close>

definition ends :: "'w worker_env \<Rightarrow> Record \<Rightarrow> 'w wstate \<Rightarrow> lab_error option \<times> 'w wstate \<Rightarrow> bool" where
  "ends env record s out =
     ((\<exists>k ec em s1. exchange env s s1 \<and> fits k (rec_Action record) \<and>
        out = finish env (\<lambda>flt now. finish_with k flt record ec em now) s1) \<or>
      (\<exists>s1. exchange env s s1 \<and> out = (Some (ErrText ''context canceled''), s1)))"

lemma finish_with_fun:
  "finish_with (DoneProvision v) flt rec ec em = CompleteProvision flt rec v ec em"
  "finish_with (DoneReset v) flt rec ec em = CompleteReset flt rec v ec em"
  "finish_with DoneDestroy flt rec ec em = CompleteDestroy flt rec ec em"
  "finish_with (DoneTopology tv) flt rec ec em = CompleteTopology flt rec tv ec em"
  "finish_with (DoneCache cv) flt rec ec em = CompleteCache flt rec cv ec em"
  "finish_with DoneFailure flt rec ec em = CompleteFailure flt rec ec em"
  by (simp_all add: fun_eq_iff)

lemma ends_finish: "exchange env s s1 \<Longrightarrow> fits k (rec_Action rec) \<Longrightarrow>
    ends env rec s (finish env (\<lambda>flt now. finish_with k flt rec ec em now) s1)"
  unfolding ends_def by blast

lemmas ends_finishes = ends_finish [of _ _ _ "DoneProvision v" for v, unfolded fits.simps finish_with_fun]
  ends_finish [of _ _ _ "DoneReset v" for v, unfolded fits.simps finish_with_fun]
  ends_finish [of _ _ _ DoneDestroy, unfolded fits.simps finish_with_fun]
  ends_finish [of _ _ _ "DoneTopology v" for v, unfolded fits.simps finish_with_fun]
  ends_finish [of _ _ _ "DoneCache v" for v, unfolded fits.simps finish_with_fun]
  ends_finish [of _ _ _ DoneFailure, unfolded fits.simps finish_with_fun]

text \<open>One rule per construct of the code, so that a handler is followed from its first exchange on.\<close>

named_theorems run_rules \<open>how a run of the worker continues\<close>

lemma run_execute [run_rules]:
  assumes "\<And>r s2. exchange env s s2 \<Longrightarrow> ends env rec s (f r s2)" "exchange env s s1"
  shows "ends env rec s (case we_execute env c s1 of (r, s2) \<Rightarrow> f r s2)"
  using assms ex_execute [OF assms(2), of c] by (cases "we_execute env c s1") simp

lemma run_setL1 [run_rules]:
  assumes "\<And>r s2. exchange env s s2 \<Longrightarrow> ends env rec s (f r s2)" "exchange env s s1"
  shows "ends env rec s (case we_setL1 env l i b s1 of (r, s2) \<Rightarrow> f r s2)"
  using assms ex_setL1 [OF assms(2), of l i b] by (cases "we_setL1 env l i b s1") simp

lemma exchange_command: "exchange env s s1 \<Longrightarrow> exchange env s (snd (executeTopologyCommand env rec ct p s1))"
  by (auto simp: executeTopologyCommand_def split: sum.splits intro: ex_execute)

lemma exchange_apply: "exchange env s s1 \<Longrightarrow> exchange env s (snd (applyTopologyServers env rec servers s1))"
  using exchange_command [of env s s1] by (simp add: applyTopologyServers_def split_beta)

lemma run_command [run_rules]:
  assumes "\<And>r s2. exchange env s s2 \<Longrightarrow> ends env rec s (f r s2)" "exchange env s s1"
  shows "ends env rec s (case executeTopologyCommand env rec' ct p s1 of (r, s2) \<Rightarrow> f r s2)"
  using assms exchange_command [OF assms(2), of rec' ct p] by (cases "executeTopologyCommand env rec' ct p s1") simp

lemma run_apply [run_rules]:
  assumes "\<And>r s2. exchange env s s2 \<Longrightarrow> ends env rec s (f r s2)" "exchange env s s1"
  shows "ends env rec s (case applyTopologyServers env rec' servers s1 of (r, s2) \<Rightarrow> f r s2)"
  using assms exchange_apply [OF assms(2), of rec' servers] by (cases "applyTopologyServers env rec' servers s1") simp

lemma run_option [run_rules]:
  assumes "ends env rec s a" "\<And>x. ends env rec s (b x)"
  shows "ends env rec s (case v of None \<Rightarrow> a | Some x \<Rightarrow> b x)"
  using assms by (cases v) simp_all

lemma run_sum [run_rules]:
  assumes "\<And>x. ends env rec s (a x)" "\<And>x. ends env rec s (b x)"
  shows "ends env rec s (case v of Inl x \<Rightarrow> a x | Inr x \<Rightarrow> b x)"
  using assms by (cases v) simp_all

lemma run_bool [run_rules]:
  assumes "ends env rec s a" "ends env rec s b"
  shows "ends env rec s (case v of True \<Rightarrow> a | False \<Rightarrow> b)"
  using assms by (cases v) simp_all

lemma run_if [run_rules]:
  assumes "P \<Longrightarrow> ends env rec s a" "\<not> P \<Longrightarrow> ends env rec s b"
  shows "ends env rec s (if P then a else b)"
  using assms by simp

lemma run_cancelled [run_rules]:
  "exchange env s s1 \<Longrightarrow> ends env rec s (Some (ErrText ''context canceled''), s1)"
  unfolding ends_def by blast

lemma run_completions [run_rules]:
  "exchange env s s1 \<Longrightarrow> topology_action (rec_Action rec) \<Longrightarrow>
     ends env rec s (completeTopologyFailure env rec ec em s1)"
  "exchange env s s1 \<Longrightarrow> topology_action (rec_Action rec) \<Longrightarrow>
     ends env rec s (completeTopologySuccess env rec v s1)"
  "exchange env s s1 \<Longrightarrow> isCacheAction (rec_Action rec) \<Longrightarrow>
     ends env rec s (completeCacheFailure env rec ec em s1)"
  "exchange env s s1 \<Longrightarrow> isCacheAction (rec_Action rec) \<Longrightarrow>
     ends env rec s (completeCache env rec cv ec em s1)"
  by (simp_all add: completeTopologyFailure_def completeTopologySuccess_def completeCacheFailure_def
      completeCache_def ends_finishes)

lemma run_completeFailure [run_rules]:
  "exchange env s s1 \<Longrightarrow> ends env rec s (completeFailure env rec ec em s1)"
  by (cases "rec_Action rec") (simp_all add: completeFailure_def ends_finishes settled_action_def)

lemma run_completeSuccess [run_rules]:
  "exchange env s s1 \<Longrightarrow> ends env rec s (completeSuccess env rec v s1)"
  by (auto simp: completeSuccess_def ends_finishes settled_action_def run_completeFailure split: option.splits)

lemmas exchanges = ex_none ex_pause exchange_apply exchange_command

lemma ends_topology:
  assumes "topology_action (rec_Action rec)"
  shows "ends env rec s (addInstance env rec p s)" "ends env rec s (removeInstance env rec p s)"
    "ends env rec s (setInstancePerformance env rec p s)" "ends env rec s (setInstanceWeights env rec p s)"
    "ends env rec s (setBalancingMode env rec p s)" "ends env rec s (applyAdaptiveWeights env rec p s)"
  unfolding addInstance_def removeInstance_def setInstancePerformance_def setInstanceWeights_def
    setBalancingMode_def applyAdaptiveWeights_def Let_def
  by (intro run_rules exchanges assms; (assumption | intro exchanges)?)+

lemma ends_processTopology:
  assumes "topology_action (rec_Action rec)"
  shows "ends env rec s (processTopology env rec s)"
  using ends_topology [OF assms, of env s "decode_payload (rec_Payload rec)"] assms
  by (cases "rec_Action rec") (simp_all add: processTopology_def topology_action_def)

lemma ends_processCache:
  assumes "isCacheAction (rec_Action rec)"
  shows "ends env rec s (processCache env rec s)"
  unfolding processCache_def cache_L1_def cache_redis_def Let_def
  by (intro run_rules exchanges assms; assumption?)

lemma ends_process_lab: "ends env rec s (process_lab env rec s)"
proof (cases "commandTypeForAction (rec_Action rec)")
  case None
  then have "settled_action (rec_Action rec)"
    by (cases "rec_Action rec") (simp_all add: commandTypeForAction_def settled_action_def)
  then show ?thesis using None by (simp add: process_lab_def ends_finishes ex_none)
next
  case (Some ct)
  then show ?thesis unfolding process_lab_def by simp (intro run_rules exchanges; assumption?)
qed

lemma ends_process_record: "ends env rec s (process_record env rec s)"
proof -
  have "isTopologyAction a = topology_action a" for a by (auto simp: isTopologyAction_def topology_action_def)
  then show ?thesis
    by (simp add: process_record_def ends_processTopology ends_processCache ends_process_lab)
qed

subsection \<open>A worker as a part of the platform\<close>

text \<open>Steps of the platform lead from one database to another, for whoever holds the records \<open>rs\<close>.\<close>

definition leads :: "Record set \<Rightarrow> platform_db \<Rightarrow> platform_db \<Rightarrow> bool" where
  "leads rs db db' = (\<forall>h. rs \<subseteq> h \<longrightarrow>
     (\<exists>h'. h \<subseteq> h' \<and> platform_step\<^sup>*\<^sup>* \<lparr>pf_db = db, pf_held = h\<rparr> \<lparr>pf_db = db', pf_held = h'\<rparr>))"

text \<open>The surroundings change the database only by steps of the platform.\<close>

definition hosted :: "'w worker_env \<Rightarrow> bool" where
  "hosted env = (\<forall>s. leads {} (fst s) (fst (we_pause env s)) \<and>
     (\<forall>c. leads {} (fst s) (fst (snd (we_execute env c s)))) \<and>
     (\<forall>l i b. leads {} (fst s) (fst (snd (we_setL1 env l i b s)))))"

lemma leads_refl: "leads rs db db"
  unfolding leads_def by blast

lemma leads_trans: "leads rs db db1 \<Longrightarrow> leads rs' db1 db2 \<Longrightarrow> rs' \<subseteq> rs \<Longrightarrow> leads rs db db2"
  unfolding leads_def by (meson order_trans rtranclp_trans)

lemma leads_mono: "leads rs db db' \<Longrightarrow> rs \<subseteq> rs' \<Longrightarrow> leads rs' db db'"
  unfolding leads_def by blast

lemma leads_step:
  assumes "\<And>h. rs \<subseteq> h \<Longrightarrow> platform_step \<lparr>pf_db = db, pf_held = h\<rparr> \<lparr>pf_db = db', pf_held = h\<rparr>"
  shows "leads rs db db'"
  unfolding leads_def using assms by blast

lemma exchange_leads:
  assumes "exchange env s s'" "hosted env"
  shows "leads {} (fst s) (fst s')"
  using assms(1)
proof induction
  case (ex_pause s1)
  then show ?case using assms(2) leads_trans unfolding hosted_def by blast
next
  case (ex_execute s1 c)
  then show ?case using assms(2) leads_trans unfolding hosted_def by blast
next
  case (ex_setL1 s1 l i b)
  then show ?case using assms(2) leads_trans unfolding hosted_def by blast
qed (rule leads_refl)

lemma platform_update: "\<lparr>pf_db = db, pf_held = h\<rparr>\<lparr>pf_db := db'\<rparr> = \<lparr>pf_db = db', pf_held = h\<rparr>"
  by simp

lemma completion_leads:
  assumes "finish_with k flt rec ec em now db = (e, db')" "fits k (rec_Action rec)"
  shows "leads {rec} db db'"
proof (rule leads_step)
  fix h assume h: "{rec} \<subseteq> h"
  let ?p = "\<lparr>pf_db = db, pf_held = h\<rparr>"
  have "platform_step ?p (?p\<lparr>pf_db := db'\<rparr>)"
  proof (cases k)
    case (DoneProvision v)
    then show ?thesis using assms h by (intro p_provision [of rec]) simp_all
  next
    case (DoneReset v)
    then show ?thesis using assms h by (intro p_reset_done [of rec]) simp_all
  next
    case DoneDestroy
    then show ?thesis using assms h by (intro p_destroy_done [of rec]) simp_all
  next
    case (DoneTopology v)
    then show ?thesis using assms h by (intro p_topology [of rec]) simp_all
  next
    case (DoneCache v)
    then show ?thesis using assms h by (intro p_cache [of rec]) simp_all
  next
    case DoneFailure
    then show ?thesis using assms h by (intro p_failure [of rec]) simp_all
  qed
  then show "platform_step ?p \<lparr>pf_db = db', pf_held = h\<rparr>" by simp
qed

lemma ends_leads:
  assumes "ends env rec s (e, s')" "hosted env"
  shows "leads {rec} (fst s) (fst s')"
proof -
  consider k ec em s1 where "exchange env s s1" "fits k (rec_Action rec)"
      "(e, s') = finish env (\<lambda>flt now. finish_with k flt rec ec em now) s1"
    | "exchange env s s'" using assms(1) unfolding ends_def by blast
  then show ?thesis
  proof cases
    case 1
    obtain db w where p: "we_pause env s1 = (db, w)" by fastforce
    have "leads {} (fst s) db"
      using exchange_leads [OF ex_pause [OF 1(1)] assms(2)] p by simp
    moreover have "leads {rec} db (fst s')"
      using 1(2,3) p completion_leads by (fastforce simp: finish_def split: prod.splits)
    ultimately show ?thesis by (blast intro: leads_trans leads_mono)
  next
    case 2
    then show ?thesis using exchange_leads [OF _ assms(2)] leads_mono by blast
  qed
qed

lemma processOne_leads:
  assumes "processOne env (db, w) = (r, s')" "hosted env"
  shows "leads {} db (fst s')"
proof -
  let ?now = "instant env w"
  let ?lease = "?now + wc_LeaseDuration (we_config env)"
  obtain c db1 where claim: "Claim (we_fault env w) (we_locked env w) (wc_Owner (we_config env)) ?now ?lease db = (c, db1)"
    by fastforce
  show ?thesis
  proof (cases c)
    case (Inl e)
    then have "db1 = db"
      using claim by (auto simp: Claim_def Let_def split: if_splits option.splits prod.splits)
    then show ?thesis using assms(1) claim Inl by (auto simp: processOne_def Let_def leads_refl)
  next
    case (Inr rec)
    obtain db2 w2 where p: "we_pause env (db1, w) = (db2, w2)" by fastforce
    obtain m db3 where mark: "MarkRunning (we_fault env w2) rec ?now ?lease db2 = (m, db3)" by fastforce
    have l2: "leads {} db1 db2" using assms(2) p unfolding hosted_def by (metis fst_conv)
    have l3: "leads {rec} db2 db3"
    proof (rule leads_step)
      fix h assume "{rec} \<subseteq> h"
      then show "platform_step \<lparr>pf_db = db2, pf_held = h\<rparr> \<lparr>pf_db = db3, pf_held = h\<rparr>"
        using p_mark [of rec "\<lparr>pf_db = db2, pf_held = h\<rparr>" "we_fault env w2" ?now ?lease m db3] mark by simp
    qed
    have l4: "leads {rec} db3 (fst s')"
    proof (cases m)
      case None
      then obtain e where "process_record env rec (db3, w2) = (e, s')"
        using assms(1) claim Inr p mark by (auto simp: processOne_def Let_def split: prod.splits)
      then show ?thesis using ends_leads [OF _ assms(2)] ends_process_record by (metis fst_conv)
    next
      case (Some e)
      then show ?thesis
        using assms(1) claim Inr p mark by (auto simp: processOne_def Let_def leads_refl)
    qed
    have l: "leads {rec} db1 (fst s')"
      by (meson l2 l3 l4 leads_mono leads_trans empty_subsetI order_refl)
    have "\<exists>h'. h \<subseteq> h' \<and> platform_step\<^sup>*\<^sup>* \<lparr>pf_db = db, pf_held = h\<rparr> \<lparr>pf_db = fst s', pf_held = h'\<rparr>" for h
    proof -
      have st: "platform_step \<lparr>pf_db = db, pf_held = h\<rparr> \<lparr>pf_db = db1, pf_held = insert rec h\<rparr>"
        using p_claim [of "we_fault env w" "we_locked env w" "wc_Owner (we_config env)" ?now ?lease
            "\<lparr>pf_db = db, pf_held = h\<rparr>" rec db1] claim Inr by simp
      obtain h' where "insert rec h \<subseteq> h'"
        "platform_step\<^sup>*\<^sup>* \<lparr>pf_db = db1, pf_held = insert rec h\<rparr> \<lparr>pf_db = fst s', pf_held = h'\<rparr>"
        using l unfolding leads_def by blast
      then show ?thesis using st by (meson converse_rtranclp_into_rtranclp insert_subset)
    qed
    then show ?thesis unfolding leads_def by blast
  qed
qed

lemma reachable_steps: "platform_step\<^sup>*\<^sup>* p q \<Longrightarrow> platform_reachable p \<Longrightarrow> platform_reachable q"
  by (induction rule: rtranclp_induct) (auto intro: p_step)

text \<open>
  Claim C6. A worker is a part of the platform: if the orchestrator, the lab applications and the other
  processes change the database only as the platform does, then one round of the worker, from the
  claim to the completion and whatever the orchestrator answers, ends in a state the platform
  reaches. What holds in every reachable state therefore holds after every round of every worker.
\<close>

theorem processOne_reachable:
  assumes "platform_reachable \<lparr>pf_db = db, pf_held = h\<rparr>" "hosted env"
    "processOne env (db, w) = (r, db', w')"
  shows "\<exists>h'. h \<subseteq> h' \<and> platform_reachable \<lparr>pf_db = db', pf_held = h'\<rparr>"
proof -
  have "leads {} db db'" using processOne_leads [OF assms(3,2)] by simp
  then obtain h' where "h \<subseteq> h'" "platform_step\<^sup>*\<^sup>* \<lparr>pf_db = db, pf_held = h\<rparr> \<lparr>pf_db = db', pf_held = h'\<rparr>"
    unfolding leads_def by blast
  then show ?thesis using reachable_steps assms(1) by blast
qed

text \<open>A worker next to an orchestrator that cannot be reached, with the database to itself.\<close>

definition down_env :: "unit worker_env" where
  "down_env = \<lparr>we_config = \<lparr>wc_Owner = ''w'', wc_PollInterval = Second, wc_LeaseDuration = 60 * Second,
       wc_CommandTimeout = 30 * Second\<rparr>, we_cacheRuntime = True, we_sha = (\<lambda>_. [1]), we_now = (\<lambda>_. 2000),
     we_fault = (\<lambda>_ _. False), we_locked = (\<lambda>_ _. False), we_bytes = (\<lambda>_. Some [1]),
     we_cancelled = (\<lambda>_. False), we_pause = id, we_execute = (\<lambda>_ s. (None, s)),
     we_setL1 = (\<lambda>_ _ _ s. (False, s))\<rparr>"

theorem processOne_reachable_witness:
  "\<exists>h db'. processOne down_env (demo1, ()) = ((True, None), db', ()) \<and>
     platform_reachable \<lparr>pf_db = db', pf_held = h\<rparr> \<and> map ls_status (sessions db') = [Failed]"
proof -
  have h: "hosted down_env" by (simp add: hosted_def down_env_def leads_refl)
  have r: "fst (processOne down_env (demo1, ())) = (True, None)"
    "map ls_status (sessions (fst (snd (processOne down_env (demo1, ()))))) = [Failed]"
    by code_simp+
  obtain db' where p: "processOne down_env (demo1, ()) = ((True, None), db', ())"
    using r(1) by (metis (full_types) old.unit.exhaust prod.collapse)
  then show ?thesis using processOne_reachable [OF demo_reachable(1) h p] r(2) by auto
qed

subsection \<open>Failures are recorded\<close>

lemma exec_update_one:
  assumes "distinct (map key rows)" "x \<in> set rows" "\<And>y. y \<in> set rows \<Longrightarrow> P y \<Longrightarrow> key y = key x" "P x" "f x \<noteq> x"
  shows "exec_update P f rows = (1, map (\<lambda>r. if P r then f r else r) rows)"
proof -
  have "filter (\<lambda>r. P r \<and> f r \<noteq> r) rows = filter (\<lambda>r. key r = key x) rows"
  proof (rule filter_cong)
    fix y assume y: "y \<in> set rows"
    have "y = x" if "key y = key x" using assms(1,2) y that by (metis distinct_map inj_onD)
    then show "(P y \<and> f y \<noteq> y) = (key y = key x)" using assms(3-5) y by blast
  qed simp
  then show ?thesis using distinct_key_filter [OF assms(1,2)] by (simp add: exec_update_def)
qed

lemma record_failed:
  assumes "leased rec db" "db_wf db" "\<not> flt ''complete lab operation''"
  shows "\<exists>ops. completeOperationRecord flt rec OpFailed None ec em now db = Inr (db\<lparr>operations := ops\<rparr>) \<and>
    (\<exists>x \<in> set ops. lo_id x = rec_ID rec \<and> lo_status x = OpFailed \<and> lo_error_code x = nullif ec)"
proof -
  let ?P = "\<lambda>x. lo_id x = rec_ID rec \<and> lo_status x = OpRunning \<and> lo_lease_owner x = Some (rec_LeaseOwner rec)"
  let ?f = "\<lambda>x. x\<lparr>lo_status := OpFailed, lo_result := None, lo_error_code := nullif ec,
    lo_error_message := nullif em, lo_lease_owner := None, lo_lease_expires_at := None,
    lo_completed_at := Some now, lo_updated_at := now\<rparr>"
  obtain x where x: "x \<in> set (operations db)" "?P x" using assms(1) unfolding leased_def by blast
  have "?f x \<noteq> x"
  proof
    assume "?f x = x"
    then have "lo_status (?f x) = lo_status x" by simp
    then show False using x(2) by simp
  qed
  then have u: "exec_update ?P ?f (operations db) = (1, map (\<lambda>r. if ?P r then ?f r else r) (operations db))"
    using x assms(2) by (intro exec_update_one [of lo_id]) (auto simp: db_wf_def)
  define ops where "ops = map (\<lambda>r. if ?P r then ?f r else r) (operations db)"
  have "?f x \<in> set ops" unfolding ops_def using x by force
  moreover have "completeOperationRecord flt rec OpFailed None ec em now db = Inr (db\<lparr>operations := ops\<rparr>)"
    using assms(3) u by (simp add: completeOperationRecord_def requireOneRow_def ops_def)
  moreover have "lo_id (?f x) = rec_ID rec" "lo_status (?f x) = OpFailed" "lo_error_code (?f x) = nullif ec"
    using x(2) by simp_all
  ultimately show ?thesis by blast
qed

lemma update_session_forward:
  assumes "find_session l db = Some s" "distinct (map ls_id (sessions db))" "ls_status s \<in> src" "f s \<noteq> s"
    "\<not> flt m" "\<And>s. ls_id (f s) = ls_id s"
  shows "\<exists>d. update_session flt m l src f db = Inr d \<and> find_session l d = Some (f s) \<and> operations d = operations db"
proof -
  let ?P = "\<lambda>s. ls_id s = l \<and> ls_status s \<in> src"
  have s: "s \<in> set (sessions db)" "ls_id s = l" using session_in [OF assms(1)] by simp_all
  have "exec_update ?P f (sessions db) = (1, map (\<lambda>s. if ?P s then f s else s) (sessions db))"
    using assms s by (intro exec_update_one [of ls_id]) auto
  then have u: "update_session flt m l src f db = Inr (db\<lparr>sessions := map (\<lambda>s. if ?P s then f s else s) (sessions db)\<rparr>)"
    using assms(5) by (simp add: update_session_def)
  obtain t where "find_session l db = Some t"
    "find_session l (db\<lparr>sessions := map (\<lambda>s. if ?P s then f s else s) (sessions db)\<rparr>) = Some (f t)"
    by (rule update_session_found [OF u assms(2,6)])
  then show ?thesis using u assms(1) by simp
qed

lemma mark_sessions [simp]:
  "sessions (mark_instances l st now db) = sessions db" "sessions (mark_resources l st now db) = sessions db"
  "find_session k (mark_instances l st now db) = find_session k db"
  "find_session k (mark_resources l st now db) = find_session k db"
  by (simp_all add: mark_instances_def mark_resources_def find_session_def)

lemma failed_changes:
  assumes "ls_status s \<noteq> Failed"
  shows "s\<lparr>ls_status := Failed, ls_updated_at := n\<rparr> \<noteq> s"
    "s\<lparr>ls_status := Failed, ls_termination_reason := t, ls_updated_at := n\<rparr> \<noteq> s"
proof -
  have "ls_status (s\<lparr>ls_status := Failed, ls_updated_at := n\<rparr>) \<noteq> ls_status s"
    "ls_status (s\<lparr>ls_status := Failed, ls_termination_reason := t, ls_updated_at := n\<rparr>) \<noteq> ls_status s"
    using assms by simp_all
  then show "s\<lparr>ls_status := Failed, ls_updated_at := n\<rparr> \<noteq> s"
    "s\<lparr>ls_status := Failed, ls_termination_reason := t, ls_updated_at := n\<rparr> \<noteq> s" by metis+
qed

text \<open>A failure of an operation that builds or tears down a lab.\<close>

lemma failure_completes:
  assumes "leased rec db" "db_wf db" "\<And>m. \<not> flt m" "find_session (rec_LabID rec) db = Some s" "ec \<noteq> []"
  shows "ls_status s = Preparing \<Longrightarrow> \<exists>d. CompleteProvision flt rec v ec em now db = (None, d) \<and>
      (\<exists>x \<in> set (operations d). lo_id x = rec_ID rec \<and> lo_status x = OpFailed \<and> lo_error_code x = Some ec) \<and>
      map_option ls_status (find_session (rec_LabID rec) d) = Some Failed"
    "ls_status s \<in> {Running, Expiring} \<Longrightarrow> \<exists>d. CompleteReset flt rec v ec em now db = (None, d) \<and>
      (\<exists>x \<in> set (operations d). lo_id x = rec_ID rec \<and> lo_status x = OpFailed \<and> lo_error_code x = Some ec) \<and>
      map_option ls_status (find_session (rec_LabID rec) d) = Some Failed"
    "ls_status s = Terminating \<Longrightarrow> \<exists>d. CompleteDestroy flt rec ec em now db = (None, d) \<and>
      (\<exists>x \<in> set (operations d). lo_id x = rec_ID rec \<and> lo_status x = OpFailed \<and> lo_error_code x = Some ec) \<and>
      map_option ls_status (find_session (rec_LabID rec) d) = Some Failed"
proof -
  obtain ops where r: "completeOperationRecord flt rec OpFailed None ec em now db = Inr (db\<lparr>operations := ops\<rparr>)"
    and x: "\<exists>x \<in> set ops. lo_id x = rec_ID rec \<and> lo_status x = OpFailed \<and> lo_error_code x = Some ec"
    using record_failed [where flt = flt and ec = ec and em = em and now = now, OF assms(1,2,3)] assms(5) by (auto simp: nullif_def)
  have f: "find_session (rec_LabID rec) (db\<lparr>operations := ops\<rparr>) = Some s" using assms(4) by (simp add: find_session_def)
  have dist: "distinct (map ls_id (sessions db))" using assms(2) by (simp add: db_wf_def)
  show "\<exists>d. CompleteProvision flt rec v ec em now db = (None, d) \<and>
      (\<exists>x \<in> set (operations d). lo_id x = rec_ID rec \<and> lo_status x = OpFailed \<and> lo_error_code x = Some ec) \<and>
      map_option ls_status (find_session (rec_LabID rec) d) = Some Failed" if st: "ls_status s = Preparing"
  proof -
    obtain d where "update_session flt ''fail provisioned lab'' (rec_LabID rec) {Preparing}
        (\<lambda>s. s\<lparr>ls_status := Failed, ls_updated_at := now\<rparr>) (db\<lparr>operations := ops\<rparr>) = Inr d"
      "find_session (rec_LabID rec) d = Some (s\<lparr>ls_status := Failed, ls_updated_at := now\<rparr>)" "operations d = ops"
      using update_session_forward [OF f, where src = "{Preparing}" and flt = flt and m = "''fail provisioned lab''"
          and f = "\<lambda>s. s\<lparr>ls_status := Failed, ls_updated_at := now\<rparr>"] st dist assms(3)
      by (auto simp: failed_changes)
    then show ?thesis using assms(3,5) r x by (simp add: CompleteProvision_def complete_tx_def)
  qed
  show "\<exists>d. CompleteReset flt rec v ec em now db = (None, d) \<and>
      (\<exists>x \<in> set (operations d). lo_id x = rec_ID rec \<and> lo_status x = OpFailed \<and> lo_error_code x = Some ec) \<and>
      map_option ls_status (find_session (rec_LabID rec) d) = Some Failed" if st: "ls_status s \<in> {Running, Expiring}"
  proof -
    let ?d = "mark_resources (rec_LabID rec) ''unknown'' now (mark_instances (rec_LabID rec) ''unknown'' now (db\<lparr>operations := ops\<rparr>))"
    obtain d where "update_session flt ''fail reset lab transition'' (rec_LabID rec) {Running, Expiring}
        (\<lambda>s. s\<lparr>ls_status := Failed, ls_updated_at := now\<rparr>) ?d = Inr d"
      "find_session (rec_LabID rec) d = Some (s\<lparr>ls_status := Failed, ls_updated_at := now\<rparr>)" "operations d = ops"
      using update_session_forward [where l = "rec_LabID rec" and db = ?d and s = s and src = "{Running, Expiring}"
          and flt = flt and m = "''fail reset lab transition''"
          and f = "\<lambda>s. s\<lparr>ls_status := Failed, ls_updated_at := now\<rparr>"] f st dist assms(3)
      by (auto simp: failed_changes)
    then show ?thesis using assms(3,5) r x by (simp add: CompleteReset_def complete_tx_def)
  qed
  show "\<exists>d. CompleteDestroy flt rec ec em now db = (None, d) \<and>
      (\<exists>x \<in> set (operations d). lo_id x = rec_ID rec \<and> lo_status x = OpFailed \<and> lo_error_code x = Some ec) \<and>
      map_option ls_status (find_session (rec_LabID rec) d) = Some Failed" if st: "ls_status s = Terminating"
  proof -
    let ?d = "mark_resources (rec_LabID rec) ''unknown'' now (mark_instances (rec_LabID rec) ''unknown'' now (db\<lparr>operations := ops\<rparr>))"
    let ?f = "\<lambda>s. s\<lparr>ls_status := Failed, ls_termination_reason := Some ''destroy_failed'', ls_updated_at := now\<rparr>"
    obtain d where "update_session flt ''fail destroy lab transition'' (rec_LabID rec) {Terminating} ?f ?d = Inr d"
      "find_session (rec_LabID rec) d = Some (?f s)" "operations d = ops"
      using update_session_forward [where l = "rec_LabID rec" and db = ?d and s = s and src = "{Terminating}"
          and flt = flt and m = "''fail destroy lab transition''" and f = ?f] f st dist assms(3)
      by (auto simp: failed_changes)
    then show ?thesis using assms(3,5) r x by (simp add: CompleteDestroy_def complete_tx_def)
  qed
qed

text \<open>An error answer is never taken for a success, whose error code is empty.\<close>

lemma commandError_code: "fst (commandError v) \<noteq> []"
  by (auto simp: commandError_def string_member_def split: json.splits option.splits)

text \<open>Surroundings that leave the database alone, without faults, in which every command fails.\<close>

definition failing :: "'w worker_env \<Rightarrow> bool" where
  "failing env = ((\<forall>w m. \<not> we_fault env w m) \<and> (\<forall>s. fst (we_pause env s) = fst s) \<and>
     (\<forall>c s. fst (snd (we_execute env c s)) = fst s \<and>
        (case fst (we_execute env c s) of None \<Rightarrow> True | Some r \<Rightarrow> rp_Status r \<noteq> ''succeeded'')))"

lemma process_lab_failing:
  assumes "failing env" "rec_Action rec \<in> {CREATE_LAB, RESET_LAB, DESTROY_LAB}"
  shows "\<exists>ec em w'. ec \<noteq> [] \<and> process_lab env rec (db, w) = completeFailure env rec ec em (db, w')"
proof -
  obtain ct where ct: "commandTypeForAction (rec_Action rec) = Some ct"
    using assms(2) by (auto simp: commandTypeForAction_def)
  show ?thesis
  proof (cases "newCommandID (we_bytes env w)")
    case (Inl e)
    then show ?thesis using ct
      by (intro exI [of _ "''INTERNAL_ERROR''"] exI [of _ "''generate command id''"] exI [of _ w])
        (simp add: process_lab_def)
  next
    case (Inr k)
    let ?c = "command_of rec ct k (StoredPayload (rec_Payload rec))"
    obtain r db' w' where x: "we_execute env ?c (db, w) = (r, db', w')" by (metis prod.exhaust)
    have q: "db' = db" "\<And>a. r = Some a \<Longrightarrow> rp_Status a \<noteq> ''succeeded''"
    proof -
      have "fst (snd (we_execute env ?c (db, w))) = fst (db, w) \<and>
          (case fst (we_execute env ?c (db, w)) of None \<Rightarrow> True | Some r \<Rightarrow> rp_Status r \<noteq> ''succeeded'')"
        using assms(1) unfolding failing_def by blast
      then show "db' = db" "\<And>a. r = Some a \<Longrightarrow> rp_Status a \<noteq> ''succeeded''" using x by simp_all
    qed
    show ?thesis
    proof (cases r)
      case None
      then show ?thesis using ct Inr x q(1)
        by (intro exI [of _ "''ORCHESTRATOR_UNAVAILABLE''"]
            exI [of _ "''orchestrator command could not be completed''"] exI [of _ w']) (simp add: process_lab_def)
    next
      case (Some a)
      show ?thesis
      proof (cases "rp_Status a = ''failed'' \<or> rp_Status a = ''rejected''")
        case True
        then show ?thesis using ct Inr x q Some commandError_code [of "rp_Error a"]
          by (intro exI [of _ "fst (commandError (rp_Error a))"] exI [of _ "snd (commandError (rp_Error a))"]
              exI [of _ w']) (simp add: process_lab_def)
      next
        case False
        then show ?thesis using ct Inr x q Some
          by (intro exI [of _ "''ORCHESTRATOR_RESPONSE_INCOMPLETE''"]
              exI [of _ "''orchestrator did not return a final command result''"] exI [of _ w'])
            (simp add: process_lab_def)
      qed
    qed
  qed
qed

lemma completeFailure_recorded:
  assumes "failing env" "leased rec db" "db_wf db" "find_session (rec_LabID rec) db = Some s" "ec \<noteq> []"
    "rec_Action rec \<in> {CREATE_LAB, RESET_LAB, DESTROY_LAB}" "serves (rec_Action rec) (ls_status s)"
  shows "\<exists>db' w'. completeFailure env rec ec em (db, w) = (None, db', w') \<and>
    (\<exists>x \<in> set (operations db'). lo_id x = rec_ID rec \<and> lo_status x = OpFailed \<and> lo_error_code x = Some ec) \<and>
    map_option ls_status (find_session (rec_LabID rec) db') = Some Failed"
proof -
  obtain w1 where p: "we_pause env (db, w) = (db, w1)"
    using assms(1) unfolding failing_def by (metis fst_conv prod.collapse)
  have flt: "\<And>m. \<not> we_fault env w1 m" using assms(1) by (simp add: failing_def)
  note f = failure_completes [where flt = "we_fault env w1" and em = em and now = "instant env w1", OF assms(2,3) flt assms(4,5)]
  let ?out = "\<lambda>d. (\<exists>x \<in> set (operations d). lo_id x = rec_ID rec \<and> lo_status x = OpFailed \<and>
      lo_error_code x = Some ec) \<and> map_option ls_status (find_session (rec_LabID rec) d) = Some Failed"
  have "\<exists>d. completeFailure env rec ec em (db, w) = (None, d, w1) \<and> ?out d"
  proof (cases "rec_Action rec")
    case CREATE_LAB
    then obtain d where "CompleteProvision (we_fault env w1) rec zero_provision ec em (instant env w1) db = (None, d)"
      "?out d" using f(1) [of zero_provision] assms(7) by auto
    then show ?thesis using CREATE_LAB by (intro exI [of _ d]) (simp add: completeFailure_def finish_def p)
  next
    case RESET_LAB
    then obtain d where "CompleteReset (we_fault env w1) rec zero_provision ec em (instant env w1) db = (None, d)"
      "?out d" using f(2) [of zero_provision] assms(7) by auto
    then show ?thesis using RESET_LAB by (intro exI [of _ d]) (simp add: completeFailure_def finish_def p)
  next
    case DESTROY_LAB
    then obtain d where "CompleteDestroy (we_fault env w1) rec ec em (instant env w1) db = (None, d)"
      "?out d" using f(3) assms(7) by auto
    then show ?thesis using DESTROY_LAB by (intro exI [of _ d]) (simp add: completeFailure_def finish_def p)
  qed (use assms(6) in auto)
  then show ?thesis by blast
qed

lemma execute_failing:
  assumes "failing env"
  shows "\<exists>r w'. we_execute env c (db, w) = (r, db, w') \<and> (\<forall>a. r = Some a \<longrightarrow> rp_Status a \<noteq> ''succeeded'')"
proof -
  obtain r db' w' where x: "we_execute env c (db, w) = (r, db', w')" by (metis prod.exhaust)
  have "fst (snd (we_execute env c (db, w))) = fst (db, w) \<and>
      (case fst (we_execute env c (db, w)) of None \<Rightarrow> True | Some r \<Rightarrow> rp_Status r \<noteq> ''succeeded'')"
    using assms unfolding failing_def by blast
  then show ?thesis using x by auto
qed

lemma topology_command_failing:
  assumes "failing env"
  shows "\<exists>r w'. executeTopologyCommand env rec ct p (db, w) = (r, db, w') \<and> (\<forall>a. r = Some a \<longrightarrow> rp_Status a \<noteq> ''succeeded'')"
  using execute_failing [OF assms] by (auto simp: executeTopologyCommand_def split: sum.splits)

lemma servers_failing:
  assumes "failing env"
  shows "\<exists>w'. applyTopologyServers env rec ss (db, w) = (False, db, w')"
proof -
  obtain r w' where x: "executeTopologyCommand env rec ''APPLY_LAB_UPSTREAM'' (UpstreamPayload ss) (db, w) = (r, db, w')"
    "\<forall>a. r = Some a \<longrightarrow> rp_Status a \<noteq> ''succeeded''" using topology_command_failing [OF assms] by blast
  then show ?thesis by (auto simp: applyTopologyServers_def split: option.splits)
qed

text \<open>The actions on a running lab that are carried out by a command.\<close>

definition commanded_actions :: "action set" where
  "commanded_actions = {ADD_INSTANCE, REMOVE_INSTANCE, SET_INSTANCE_PERFORMANCE, SET_INSTANCE_WEIGHTS,
     ADD_SESSION_REDIS, REMOVE_SESSION_REDIS}"

definition ends_as :: "'w worker_env \<Rightarrow> Record \<Rightarrow> platform_db \<Rightarrow> lab_error option \<times> 'w wstate \<Rightarrow> bool" where
  "ends_as env rec db out = (\<exists>ec em w'. ec \<noteq> [] \<and>
     (out = completeTopologyFailure env rec ec em (db, w') \<or> out = completeCacheFailure env rec ec em (db, w')))"

lemma ends_as_topology: "ec \<noteq> [] \<Longrightarrow> ends_as env rec db (completeTopologyFailure env rec ec em (db, w'))"
  by (auto simp: ends_as_def)

lemma ends_as_cache: "ec \<noteq> [] \<Longrightarrow> ends_as env rec db (completeCacheFailure env rec ec em (db, w'))"
  by (auto simp: ends_as_def)

lemma topology_failing:
  assumes "failing env"
  shows "ends_as env rec db (addInstance env rec p (db, w))" "ends_as env rec db (removeInstance env rec p (db, w))"
    "ends_as env rec db (setInstancePerformance env rec p (db, w))" "ends_as env rec db (setInstanceWeights env rec p (db, w))"
proof -
  obtain w1 where s: "applyTopologyServers env rec (wp_Servers p) (db, w) = (False, db, w1)"
    using servers_failing [OF assms] by blast
  show "ends_as env rec db (removeInstance env rec p (db, w))" "ends_as env rec db (setInstanceWeights env rec p (db, w))"
    by (simp_all add: removeInstance_def setInstanceWeights_def s ends_as_topology)
  obtain r w2 where c: "executeTopologyCommand env rec ''CREATE_APP_INSTANCE''
      (CreateInstancePayload (wp_ScenarioTemplateID p) (wp_InstanceName p) (wp_PerformancePercent p)) (db, w) = (r, db, w2)"
    "\<forall>a. r = Some a \<longrightarrow> rp_Status a \<noteq> ''succeeded''" using topology_command_failing [OF assms] by blast
  then show "ends_as env rec db (addInstance env rec p (db, w))"
    by (cases r) (simp_all add: addInstance_def ends_as_topology commandError_code)
  obtain r w2 where c: "executeTopologyCommand env rec ''UPDATE_APP_CAPACITY''
      (CapacityPayload (wp_ScenarioTemplateID p) (wp_InstanceName p) (wp_PerformancePercent p) (wp_PreviousPerformancePercent p))
      (db, w) = (r, db, w2)"
    "\<forall>a. r = Some a \<longrightarrow> rp_Status a \<noteq> ''succeeded''" using topology_command_failing [OF assms] by blast
  then show "ends_as env rec db (setInstancePerformance env rec p (db, w))"
    by (cases r) (simp_all add: setInstancePerformance_def ends_as_topology commandError_code)
qed

lemma redis_failing:
  assumes "failing env"
  shows "ends_as env rec db (cache_redis env rec (db, w))"
proof (cases "newCommandID (we_bytes env w)")
  case (Inl e)
  then show ?thesis by (simp add: cache_redis_def Let_def ends_as_cache)
next
  case (Inr k)
  obtain r w1 where x: "we_execute env (if rec_Action rec = ADD_SESSION_REDIS
      then command_of rec ''CREATE_SESSION_REDIS'' k (RedisPayload (payload_template (rec_Payload rec)))
      else command_of rec ''DELETE_SESSION_REDIS'' k EmptyPayload) (db, w) = (r, db, w1)"
    "\<forall>a. r = Some a \<longrightarrow> rp_Status a \<noteq> ''succeeded''" using execute_failing [OF assms] by blast
  then show ?thesis by (cases r) (simp_all add: cache_redis_def Let_def Inr ends_as_cache commandError_code)
qed

lemma process_record_failing:
  assumes "failing env" "rec_Action rec \<in> commanded_actions"
  shows "ends_as env rec db (process_record env rec (db, w))"
  using assms(2) topology_failing [OF assms(1), where rec = rec] redis_failing [OF assms(1), where rec = rec]
  by (auto simp: commanded_actions_def process_record_def isTopologyAction_def isCacheAction_def processTopology_def
      processCache_def Let_def ends_as_cache)

lemma ends_as_recorded:
  assumes "ends_as env rec db out" "failing env" "leased rec db" "db_wf db"
  shows "\<exists>db' w'. out = (None, db', w') \<and>
    (\<exists>x \<in> set (operations db'). lo_id x = rec_ID rec \<and> lo_status x = OpFailed \<and>
       lo_error_code x \<noteq> None \<and> lo_error_code x \<noteq> Some []) \<and> sessions db' = sessions db"
proof -
  obtain ec em w where o: "ec \<noteq> []"
    "out = completeTopologyFailure env rec ec em (db, w) \<or> out = completeCacheFailure env rec ec em (db, w)"
    using assms(1) by (auto simp: ends_as_def)
  obtain w1 where p: "we_pause env (db, w) = (db, w1)"
    using assms(2) unfolding failing_def by (metis fst_conv prod.collapse)
  have flt: "\<And>m. \<not> we_fault env w1 m" using assms(2) by (simp add: failing_def)
  obtain ops where r: "completeOperationRecord (we_fault env w1) rec OpFailed None ec em (instant env w1) db = Inr (db\<lparr>operations := ops\<rparr>)"
    and x: "\<exists>x \<in> set ops. lo_id x = rec_ID rec \<and> lo_status x = OpFailed \<and> lo_error_code x = Some ec"
    using record_failed [where flt = "we_fault env w1" and ec = ec and em = em and now = "instant env w1", OF assms(3,4) flt] o(1)
    by (auto simp: nullif_def)
  have "out = (None, db\<lparr>operations := ops\<rparr>, w1)"
    using o flt r by (auto simp: completeTopologyFailure_def completeCacheFailure_def completeCache_def finish_def p
        CompleteTopology_def CompleteCache_def complete_tx_def)
  then show ?thesis using x o(1) by fastforce
qed

text \<open>The part of a round before the operation is carried out: the claim and the mark.\<close>

lemma claimed_and_marked:
  assumes "platform_reachable \<lparr>pf_db = db, pf_held = h\<rparr>" "failing env"
    "Claim (we_fault env w) (we_locked env w) (wc_Owner (we_config env)) (instant env w)
       (instant env w + wc_LeaseDuration (we_config env)) db = (Inr rec, db1)"
  shows "\<exists>db3 w2. processOne env (db, w) = (case process_record env rec (db3, w2) of (e, st) \<Rightarrow> ((True, e), st)) \<and>
    leased rec db3 \<and> db_wf db3 \<and> sessions db3 = sessions db \<and>
    (\<exists>s. find_session (rec_LabID rec) db3 = Some s \<and> serves (rec_Action rec) (ls_status s))"
proof -
  let ?now = "instant env w" and ?until = "instant env w + wc_LeaseDuration (we_config env)"
  have r1: "platform_reachable \<lparr>pf_db = db1, pf_held = insert rec h\<rparr>"
    using p_step [OF assms(1) p_claim] assms(3) by simp
  note i1 = platform_invD [OF platform_inv_reachable [OF r1], simplified]
  obtain w2 where p: "we_pause env (db1, w) = (db1, w2)"
    using assms(2) unfolding failing_def by (metis fst_conv prod.collapse)
  let ?P = "\<lambda>x. lo_id x = rec_ID rec \<and> lo_status x = OpClaimed \<and> lo_lease_owner x = Some (rec_LeaseOwner rec)"
  let ?f = "\<lambda>x. x\<lparr>lo_status := OpRunning, lo_lease_expires_at := Some ?until, lo_updated_at := ?now\<rparr>"
  obtain x where x: "x \<in> set (operations db1)" "?P x"
  proof -
    obtain r where "next_claim (we_locked env w) ?now db = Some r" "rec_ID rec = lo_id r"
      "rec_LeaseOwner rec = wc_Owner (we_config env)"
      "operations db1 = map (\<lambda>x. if lo_id x = lo_id r then x\<lparr>lo_status := OpClaimed,
         lo_lease_owner := Some (wc_Owner (we_config env)), lo_lease_expires_at := Some ?until,
         lo_attempt_count := lo_attempt_count x + 1, lo_updated_at := ?now\<rparr> else x) (operations db)"
      using assms(3) by (rule Claim_Inr)
    then show thesis using that next_claim_Some(1) by fastforce
  qed
  have "?f x \<noteq> x"
  proof
    assume "?f x = x"
    then have "lo_status (?f x) = lo_status x" by simp
    then show False using x(2) by simp
  qed
  then have "exec_update ?P ?f (operations db1) = (1, map (\<lambda>r. if ?P r then ?f r else r) (operations db1))"
    using x i1(1) by (intro exec_update_one [of lo_id]) (auto simp: db_wf_def)
  then have m: "MarkRunning (we_fault env w2) rec ?now ?until db1 =
      (None, db1\<lparr>operations := map (\<lambda>r. if ?P r then ?f r else r) (operations db1)\<rparr>)"
    using assms(2) by (simp add: MarkRunning_def requireOneRow_def failing_def)
  define db3 where "db3 = db1\<lparr>operations := map (\<lambda>r. if ?P r then ?f r else r) (operations db1)\<rparr>"
  have y: "?f x \<in> set (operations db3)" unfolding db3_def using x by force
  then have leased: "leased rec db3" using x(2) unfolding leased_def by (intro bexI [of _ "?f x"]) simp_all
  have "platform_reachable \<lparr>pf_db = db3, pf_held = insert rec h\<rparr>"
    using p_step [OF r1 p_mark [of rec]] m unfolding db3_def by simp
  note i3 = platform_invD [OF platform_inv_reachable [OF this], simplified]
  have row: "lo_lab_id (?f x) = rec_LabID rec" "lo_action (?f x) = rec_Action rec"
    using i3(3) [of rec] y x(2) unfolding issued_def by simp_all
  have o: "ops (abs_db db3) (rec_ID rec) = Some (op_view (?f x))"
    unfolding abs_db_simps ops_Some [OF i3(1)] using y x(2) by (intro bexI [of _ "?f x"]) simp_all
  have act: "oi_active (op_view (?f x))" "oi_lab (op_view (?f x)) = rec_LabID rec"
    "oi_action (op_view (?f x)) = rec_Action rec"
    using row by (simp_all add: op_view_def op_active_def)
  obtain u st where lab: "labs (abs_db db3) (rec_LabID rec) = Some (u, st)" "serves (rec_Action rec) st"
    using i3(2) o act unfolding lab_inv_def table_inv_def serve_inv_def
    by (metis option.exhaust prod.exhaust)
  then obtain s where s: "find_session (rec_LabID rec) db3 = Some s" "ls_status s = st"
    by (auto simp: labs_find)
  have "sessions db1 = sessions db"
    using assms(3) by (auto simp: Claim_def exec_update_def Let_def split: if_splits option.splits)
  then have "sessions db3 = sessions db" by (simp add: db3_def)
  moreover have "processOne env (db, w) = (case process_record env rec (db3, w2) of (e, st) \<Rightarrow> ((True, e), st))"
    using assms(3) p m unfolding db3_def by (simp add: processOne_def Let_def)
  ultimately show ?thesis using leased i3(1) s lab(2) by blast
qed

text \<open>
  Claim C7. A failed command is recorded: in every reachable state, with a database that works and no
  other process interfering, when the orchestrator cannot be reached or does not report success, the
  round of the worker ends without an error and the operation has failed with an error code. An operation
  that creates, resets or destroys its lab leaves the lab failed; one that changes the instances, their
  performance or weights, or the Redis of a lab leaves the labs as they were.
\<close>

theorem failed_command_recorded:
  assumes "platform_reachable \<lparr>pf_db = db, pf_held = h\<rparr>" "failing env"
    "Claim (we_fault env w) (we_locked env w) (wc_Owner (we_config env)) (instant env w)
       (instant env w + wc_LeaseDuration (we_config env)) db = (Inr rec, db1)"
    "rec_Action rec \<in> {CREATE_LAB, RESET_LAB, DESTROY_LAB, ADD_INSTANCE, REMOVE_INSTANCE, SET_INSTANCE_PERFORMANCE,
       SET_INSTANCE_WEIGHTS, ADD_SESSION_REDIS, REMOVE_SESSION_REDIS}"
  shows "\<exists>db' w'. processOne env (db, w) = ((True, None), db', w') \<and>
    (\<exists>x \<in> set (operations db'). lo_id x = rec_ID rec \<and> lo_status x = OpFailed \<and>
       lo_error_code x \<noteq> None \<and> lo_error_code x \<noteq> Some []) \<and>
    (if rec_Action rec \<in> {CREATE_LAB, RESET_LAB, DESTROY_LAB}
     then map_option ls_status (find_session (rec_LabID rec) db') = Some Failed
     else sessions db' = sessions db)"
proof -
  obtain db3 w2 s where run: "processOne env (db, w) = (case process_record env rec (db3, w2) of (e, st) \<Rightarrow> ((True, e), st))"
    and l: "leased rec db3" "db_wf db3" "sessions db3 = sessions db"
    and s: "find_session (rec_LabID rec) db3 = Some s" "serves (rec_Action rec) (ls_status s)"
    using claimed_and_marked [OF assms(1-3)] by blast
  show ?thesis
  proof (cases "rec_Action rec \<in> {CREATE_LAB, RESET_LAB, DESTROY_LAB}")
    case True
    obtain ec em w3 where q: "ec \<noteq> []" "process_lab env rec (db3, w2) = completeFailure env rec ec em (db3, w3)"
      using process_lab_failing [OF assms(2) True] by blast
    obtain db' w' where c: "completeFailure env rec ec em (db3, w3) = (None, db', w')"
      "\<exists>x \<in> set (operations db'). lo_id x = rec_ID rec \<and> lo_status x = OpFailed \<and> lo_error_code x = Some ec"
      "map_option ls_status (find_session (rec_LabID rec) db') = Some Failed"
      using completeFailure_recorded [OF assms(2) l(1,2) s(1) q(1) True s(2)] by blast
    have "process_record env rec (db3, w2) = (None, db', w')"
      using q(2) c(1) True by (auto simp: process_record_def isTopologyAction_def isCacheAction_def)
    then have "processOne env (db, w) = ((True, None), db', w')" by (simp add: run)
    moreover have "\<exists>x \<in> set (operations db'). lo_id x = rec_ID rec \<and> lo_status x = OpFailed \<and>
        lo_error_code x \<noteq> None \<and> lo_error_code x \<noteq> Some []"
      using c(2) q(1) by force
    ultimately show ?thesis using c(3) True by auto
  next
    case False
    then have "rec_Action rec \<in> commanded_actions" using assms(4) by (auto simp: commanded_actions_def)
    from ends_as_recorded [OF process_record_failing [OF assms(2) this] assms(2) l(1,2), of w2]
    obtain db' w' where "process_record env rec (db3, w2) = (None, db', w')"
      "\<exists>x \<in> set (operations db'). lo_id x = rec_ID rec \<and> lo_status x = OpFailed \<and>
         lo_error_code x \<noteq> None \<and> lo_error_code x \<noteq> Some []" "sessions db' = sessions db3" by blast
    then show ?thesis using False run l(3) by (intro exI [of _ db'] exI [of _ w']) auto
  qed
qed

theorem failed_command_recorded_witness:
  "\<exists>db'. processOne down_env (demo1, ()) = ((True, None), db', ()) \<and>
     map_option ls_status (find_session demo_lab db') = Some Failed"
proof -
  have f: "failing down_env" by (simp add: failing_def down_env_def)
  have c: "\<not> isl (fst (Claim (we_fault down_env ()) (we_locked down_env ()) (wc_Owner (we_config down_env))
      (instant down_env ()) (instant down_env () + wc_LeaseDuration (we_config down_env)) demo1))"
    by code_simp
  define claim where "claim = Claim (we_fault down_env ()) (we_locked down_env ()) (wc_Owner (we_config down_env))
      (instant down_env ()) (instant down_env () + wc_LeaseDuration (we_config down_env)) demo1"
  have "rec_Action (projr (fst (Claim (we_fault down_env ()) (we_locked down_env ()) (wc_Owner (we_config down_env))
      (instant down_env ()) (instant down_env () + wc_LeaseDuration (we_config down_env)) demo1))) = CREATE_LAB"
    "rec_LabID (projr (fst (Claim (we_fault down_env ()) (we_locked down_env ()) (wc_Owner (we_config down_env))
      (instant down_env ()) (instant down_env () + wc_LeaseDuration (we_config down_env)) demo1))) = demo_lab"
    by code_simp+
  then obtain rec db1 where r: "claim = (Inr rec, db1)" "rec_Action rec = CREATE_LAB" "rec_LabID rec = demo_lab"
    using c unfolding claim_def [symmetric] by (metis isl_def prod.collapse sum.collapse(2))
  show ?thesis
    using failed_command_recorded [OF demo_reachable(1) f r(1) [unfolded claim_def]] r(2,3) by auto
qed

subsection \<open>Compensation\<close>

definition answered :: "CommandResponse option \<Rightarrow> bool" where
  "answered r = (case r of None \<Rightarrow> False | Some x \<Rightarrow> rp_Status x = ''succeeded'')"

text \<open>A success that describes an instance completely.\<close>

definition usable :: "CommandResponse option \<Rightarrow> bool" where
  "usable r = (case r of None \<Rightarrow> False
     | Some x \<Rightarrow> rp_Status x = ''succeeded'' \<and> decodeProvisionInstance (rp_Result x) \<noteq> None)"

text \<open>The same surroundings with a log of the payloads sent and the answers to them.\<close>

type_synonym command_log = "(cmd_payload \<times> CommandResponse option) list"

definition logged :: "'w worker_env \<Rightarrow> ('w \<times> command_log) worker_env" where
  "logged env = \<lparr>we_config = we_config env, we_cacheRuntime = we_cacheRuntime env, we_sha = we_sha env,
     we_now = (\<lambda>(w, l). we_now env w), we_fault = (\<lambda>(w, l). we_fault env w),
     we_locked = (\<lambda>(w, l). we_locked env w), we_bytes = (\<lambda>(w, l). we_bytes env w),
     we_cancelled = (\<lambda>(w, l). we_cancelled env w),
     we_pause = (\<lambda>(db, w, l). case we_pause env (db, w) of (db', w') \<Rightarrow> (db', w', l)),
     we_execute = (\<lambda>c (db, w, l). case we_execute env c (db, w) of
        (r, db', w') \<Rightarrow> (r, db', w', l @ [(cm_Payload c, r)])),
     we_setL1 = (\<lambda>lab i b (db, w, l). case we_setL1 env lab i b (db, w) of (ok, db', w') \<Rightarrow> (ok, db', w', l))\<rparr>"

definition log_of :: "'e \<times> platform_db \<times> 'w \<times> command_log \<Rightarrow> command_log" where
  "log_of out = snd (snd (snd out))"

lemma log_command:
  assumes "\<And>w. we_bytes env w \<noteq> None"
  shows "\<exists>r s'. executeTopologyCommand (logged env) rec ct p (db, w, l) = (r, s') \<and>
    snd (snd s') = l @ [(p, r)]"
  using assms [of w]
  by (auto simp: executeTopologyCommand_def newCommandID_def logged_def command_of_def split: option.splits prod.splits)

lemma log_pause [simp]: "snd (snd (we_pause (logged env) s)) = snd (snd s)"
  by (cases s) (simp add: logged_def split: prod.splits)

lemma log_finish [simp]: "log_of (finish (logged env) tx s) = snd (snd s)"
  by (simp add: finish_def log_of_def split_beta)

lemma log_of_Pair [simp]: "log_of (e, s) = snd (snd s)"
  by (simp add: log_of_def)

lemma log_completions [simp]:
  "log_of (completeTopologyFailure (logged env) rec ec em s) = snd (snd s)"
  "log_of (completeTopologySuccess (logged env) rec v s) = snd (snd s)"
  by (simp_all add: completeTopologyFailure_def completeTopologySuccess_def)

lemma log_execute:
  assumes "\<And>w. we_bytes env w \<noteq> None" "executeTopologyCommand (logged env) rec ct p s = (r, s')"
  shows "snd (snd s') = snd (snd s) @ [(p, r)]"
  using log_command [OF assms(1), where rec = rec and ct = ct and p = p and db = "fst s" and w = "fst (snd s)" and l = "snd (snd s)"]
    assms(2) by simp

lemma log_apply:
  assumes "\<And>w. we_bytes env w \<noteq> None" "applyTopologyServers (logged env) rec ss s = (b, s')"
  shows "\<exists>r. b = answered r \<and> snd (snd s') = snd (snd s) @ [(UpstreamPayload ss, r)]"
  using assms(2) log_execute [OF assms(1)]
  by (auto simp: applyTopologyServers_def answered_def split: prod.splits)

lemma log_apply_snd:
  assumes "\<And>w. we_bytes env w \<noteq> None"
  shows "\<exists>r. snd (snd (snd (applyTopologyServers (logged env) rec ss s))) = snd (snd s) @ [(UpstreamPayload ss, r)]"
  using log_apply [OF assms] by (metis prod.collapse)

text \<open>
  The sequences of commands of the three handlers that change more than the gateway, by what was answered to
  each command. Removing an instance takes it out of the routes first; when the worker was cancelled after
  that, or the deletion fails, the routes from before are applied.
\<close>

definition removal_log :: "topologyPayload \<Rightarrow> lab_error option \<Rightarrow> command_log \<Rightarrow> bool" where
  "removal_log p e sent = (\<exists>r1 r2 r3.
     let unroute = (UpstreamPayload (wp_Servers p), r1); delete = (DeleteInstancePayload (wp_InstanceName p), r2);
         restore = (UpstreamPayload (wp_PreviousServers p), r3)
     in if \<not> answered r1 then sent = [unroute]
        else e = Some (ErrText ''context canceled'') \<and> sent = [unroute, restore] \<or>
          sent = (if answered r2 then [unroute, delete] else [unroute, delete, restore]))"

text \<open>A new instance that cannot be routed to is deleted.\<close>

definition addition_log :: "topologyPayload \<Rightarrow> command_log \<Rightarrow> bool" where
  "addition_log p sent = (\<exists>r1 r2 r3.
     let create = (CreateInstancePayload (wp_ScenarioTemplateID p) (wp_InstanceName p) (wp_PerformancePercent p), r1);
         route = (UpstreamPayload (wp_Servers p), r2)
     in case (usable r1, answered r2) of
          (False, _) \<Rightarrow> sent = [create]
        | (True, True) \<Rightarrow> sent = [create, route]
        | (True, False) \<Rightarrow> sent = [create, route, (DeleteInstancePayload (wp_InstanceName p), r3)])"

text \<open>A change of performance after which the routes cannot be refreshed is reversed, and so are the routes.\<close>

definition performance_log :: "topologyPayload \<Rightarrow> command_log \<Rightarrow> bool" where
  "performance_log p sent = (\<exists>r1 r2 r3 r4.
     let cap = CapacityPayload (wp_ScenarioTemplateID p) (wp_InstanceName p);
         change = (cap (wp_PerformancePercent p) (wp_PreviousPerformancePercent p), r1);
         route = (UpstreamPayload (wp_Servers p), r2)
     in case (usable r1, answered r2) of
          (False, _) \<Rightarrow> sent = [change]
        | (True, True) \<Rightarrow> sent = [change, route]
        | (True, False) \<Rightarrow> sent = [change, route, (cap (wp_PreviousPerformancePercent p) (wp_PerformancePercent p), r3),
            (UpstreamPayload (wp_PreviousServers p), r4)])"

lemma removeInstance_log:
  assumes ids: "\<And>w. we_bytes env w \<noteq> None"
  shows "removal_log p (fst (removeInstance (logged env) rec p (db, w, []))) (log_of (removeInstance (logged env) rec p (db, w, [])))"
proof -
  obtain b1 s1 where a: "applyTopologyServers (logged env) rec (wp_Servers p) (db, w, []) = (b1, s1)"
    by (metis prod.exhaust)
  obtain r1 where l1: "b1 = answered r1" "snd (snd s1) = [(UpstreamPayload (wp_Servers p), r1)]"
    using log_apply [OF ids a] by auto
  let ?s2 = "we_pause (logged env) s1"
  obtain r2 s3 where d: "executeTopologyCommand (logged env) rec ''DELETE_APP_INSTANCE''
      (DeleteInstancePayload (wp_InstanceName p)) ?s2 = (r2, s3)" by (metis prod.exhaust)
  note l3 = log_execute [OF ids d, simplified]
  obtain r3 where r3: "snd (snd (snd (applyTopologyServers (logged env) rec (wp_PreviousServers p) ?s2))) =
      snd (snd ?s2) @ [(UpstreamPayload (wp_PreviousServers p), r3)]" using log_apply_snd [OF ids] by blast
  obtain r4 where r4: "snd (snd (snd (applyTopologyServers (logged env) rec (wp_PreviousServers p) s3))) =
      snd (snd s3) @ [(UpstreamPayload (wp_PreviousServers p), r4)]" using log_apply_snd [OF ids] by blast
  show ?thesis
  proof (cases "answered r1 \<and> we_cancelled (logged env) (snd ?s2)")
    case True
    then show ?thesis unfolding removal_log_def using l1 r3
      by (intro exI [of _ r1] exI [of _ r2] exI [of _ r3]) (simp add: removeInstance_def a Let_def)
  next
    case False
    then show ?thesis unfolding removal_log_def
      by (intro exI [of _ r1] exI [of _ r2] exI [of _ r4], cases "answered r1"; cases r2)
        (use l1 l3 r4 in \<open>auto simp: removeInstance_def a d Let_def answered_def\<close>)
  qed
qed

lemma addInstance_log:
  assumes ids: "\<And>w. we_bytes env w \<noteq> None"
  shows "addition_log p (log_of (addInstance (logged env) rec p (db, w, [])))"
proof -
  let ?cr = "CreateInstancePayload (wp_ScenarioTemplateID p) (wp_InstanceName p) (wp_PerformancePercent p)"
  obtain r1 s1 where c: "executeTopologyCommand (logged env) rec ''CREATE_APP_INSTANCE'' ?cr (db, w, []) = (r1, s1)"
    by (metis prod.exhaust)
  note l1 = log_execute [OF ids c, simplified]
  obtain b2 s2 where a: "applyTopologyServers (logged env) rec (wp_Servers p) s1 = (b2, s2)" by (metis prod.exhaust)
  obtain r2 where l2: "b2 = answered r2" "snd (snd s2) = snd (snd s1) @ [(UpstreamPayload (wp_Servers p), r2)]"
    using log_apply [OF ids a] by blast
  obtain r3 s3 where d: "executeTopologyCommand (logged env) rec ''DELETE_APP_INSTANCE''
      (DeleteInstancePayload (wp_InstanceName p)) s2 = (r3, s3)" by (metis prod.exhaust)
  note l3 = log_execute [OF ids d]
  show ?thesis unfolding addition_log_def
    by (rule exI [of _ r1], rule exI [of _ r2], rule exI [of _ r3], cases r1; cases "answered r2")
      (use l1 l2 l3 in \<open>auto simp: addInstance_def c a d usable_def Let_def split: option.splits bool.splits\<close>)
qed

lemma setInstancePerformance_log:
  assumes ids: "\<And>w. we_bytes env w \<noteq> None"
  shows "performance_log p (log_of (setInstancePerformance (logged env) rec p (db, w, [])))"
proof -
  let ?cap = "CapacityPayload (wp_ScenarioTemplateID p) (wp_InstanceName p)"
  obtain r1 s1 where c: "executeTopologyCommand (logged env) rec ''UPDATE_APP_CAPACITY''
      (?cap (wp_PerformancePercent p) (wp_PreviousPerformancePercent p)) (db, w, []) = (r1, s1)"
    by (metis prod.exhaust)
  note l1 = log_execute [OF ids c, simplified]
  obtain b2 s2 where a: "applyTopologyServers (logged env) rec (wp_Servers p) s1 = (b2, s2)" by (metis prod.exhaust)
  obtain r2 where l2: "b2 = answered r2" "snd (snd s2) = snd (snd s1) @ [(UpstreamPayload (wp_Servers p), r2)]"
    using log_apply [OF ids a] by blast
  obtain r3 s3 where d: "executeTopologyCommand (logged env) rec ''UPDATE_APP_CAPACITY''
      (?cap (wp_PreviousPerformancePercent p) (wp_PerformancePercent p)) s2 = (r3, s3)" by (metis prod.exhaust)
  note l3 = log_execute [OF ids d]
  obtain r4 where l4: "snd (snd (snd (applyTopologyServers (logged env) rec (wp_PreviousServers p) s3))) =
      snd (snd s3) @ [(UpstreamPayload (wp_PreviousServers p), r4)]" using log_apply_snd [OF ids] by blast
  show ?thesis unfolding performance_log_def
    by (rule exI [of _ r1], rule exI [of _ r2], rule exI [of _ r3], rule exI [of _ r4], cases r1; cases "answered r2")
      (use l1 l2 l3 l4 in \<open>auto simp: setInstancePerformance_def c a d usable_def Let_def split: option.splits bool.splits\<close>)
qed

text \<open>
  Claim C8. Topology changes are compensated: the commands that a handler sends are determined by the
  answers. An instance is taken out of the routes before it is deleted, and is routed to again when its
  deletion fails or the worker is cancelled in between; a new instance that cannot be routed to is
  deleted; a new performance whose routes cannot be refreshed is taken back, and so are the
  routes. The exception, which is part of the statement, is an answer that reports success and does
  not describe the instance: the handler stops there, and nothing is taken back.
\<close>

theorem topology_compensated:
  assumes "\<And>w. we_bytes env w \<noteq> None"
  shows "removal_log p (fst (removeInstance (logged env) rec p (db, w, []))) (log_of (removeInstance (logged env) rec p (db, w, []))) \<and>
    addition_log p (log_of (addInstance (logged env) rec p (db, w, []))) \<and>
    performance_log p (log_of (setInstancePerformance (logged env) rec p (db, w, [])))"
  using removeInstance_log [OF assms] addInstance_log [OF assms] setInstancePerformance_log [OF assms] by blast

definition demo_payload :: topologyPayload where
  "demo_payload = decode_payload (CachePayload \<lparr>ca_ScenarioTemplateID = ''t'', ca_Request = zero_input\<rparr>)"

text \<open>An orchestrator that creates an instance and refuses every change of the routes.\<close>

definition created :: CommandResponse where
  "created = \<lparr>rp_CommandID = [], rp_OperationID = [], rp_Status = ''succeeded'', rp_Result = JObj [
     (''instanceName'', JStr ''app-2''), (''containerId'', JStr ''c''), (''containerName'', JStr ''n''), (''status'', JStr ''running''),
     (''cpuLimitCores'', JNum 1), (''memoryLimitMb'', JNum 128), (''performancePercent'', JNum 100),
     (''processingSpeed'', JNum 20), (''maxLoad'', JNum 100), (''currentWeight'', JNum 100)], rp_Error = JNull\<rparr>"

definition unroutable_env :: "unit worker_env" where
  "unroutable_env = down_env\<lparr>we_execute := (\<lambda>c s. (if cm_CommandType c = ''CREATE_APP_INSTANCE'' then Some created else None, s))\<rparr>"

theorem topology_compensated_witness:
  "usable (Some created) \<and> \<not> answered None \<and>
   (\<exists>r. log_of (addInstance (logged unroutable_env) demo_rec demo_payload (demo2, (), [])) =
     [(CreateInstancePayload (wp_ScenarioTemplateID demo_payload) (wp_InstanceName demo_payload) (wp_PerformancePercent demo_payload),
         Some created),
      (UpstreamPayload (wp_Servers demo_payload), None), (DeleteInstancePayload (wp_InstanceName demo_payload), r)])"
proof -
  let ?log = "log_of (addInstance (logged unroutable_env) demo_rec demo_payload (demo2, (), []))"
  have u: "usable (Some created)" by code_simp
  have b: "\<And>w. we_bytes unroutable_env w \<noteq> None" by (simp add: unroutable_env_def down_env_def)
  have "addition_log demo_payload ?log" using topology_compensated [OF b] by blast
  moreover have "map snd ?log = [Some created, None, None]" by code_simp
  ultimately show ?thesis using u
    by (auto simp: addition_log_def Let_def answered_def split: bool.splits)
qed

end
