(* ===== verification/Eviction.thy ===== *)
theory Eviction
  imports Float64
begin

text \<open>
  The tables of the two rate limiters, \<^verbatim>\<open>internal/traffic/limiter.go\<close> and
  \<^verbatim>\<open>internal/auth/limiter.go\<close>: Go maps that hold at most a fixed number of entries and, when
  full, give up the entry whose last use is the oldest. The scan for that entry is the same loop
  in both. The contract is the locale \<open>eviction\<close>, interpreted by each limiter on its own
  definitions.
\<close>

text \<open>
  The loop over the map: the first key is taken because no key was chosen yet, which the code
  recognises by the zero value of the key type.
\<close>

fun scan_oldest :: "'k \<Rightarrow> ('e \<Rightarrow> gotime) \<Rightarrow> ('k \<times> 'e) list \<Rightarrow> 'k \<Rightarrow> gotime \<Rightarrow> 'k" where
  "scan_oldest zero last_use [] oldestKey oldest = oldestKey"
| "scan_oldest zero last_use ((k, e) # es) oldestKey oldest =
     (if oldestKey = zero \<or> last_use e < oldest then scan_oldest zero last_use es k (last_use e)
      else scan_oldest zero last_use es oldestKey oldest)"

lemma scan_oldest_started:
  assumes "zero \<notin> set (keys es)" "k \<noteq> zero"
  shows "scan_oldest zero f es k t = k \<and> (\<forall>(k', e') \<in> set es. t \<le> f e') \<or>
    (\<exists>e. (scan_oldest zero f es k t, e) \<in> set es \<and> f e \<le> t \<and> (\<forall>(k', e') \<in> set es. f e \<le> f e'))"
  using assms
proof (induction es arbitrary: k t)
  case (Cons p es)
  obtain a e where p: "p = (a, e)" by fastforce
  have z: "zero \<notin> set (keys es)" "a \<noteq> zero" using Cons.prems by (auto simp: keys_def p)
  show ?case
  proof (cases "f e < t")
    case True
    then have "scan_oldest zero f (p # es) k t = scan_oldest zero f es a (f e)" by (simp add: p)
    moreover have "(a, e) \<in> set (p # es)" by (simp add: p)
    ultimately show ?thesis using Cons.IH [OF z, of "f e"] True
      by (elim disjE exE conjE) (intro disjI2 exI [of _ e] exI conjI, auto simp: p)
  next
    case False
    then have "scan_oldest zero f (p # es) k t = scan_oldest zero f es k t" using Cons.prems(2) by (simp add: p)
    then show ?thesis using Cons.IH [OF z(1) Cons.prems(2), of t] False by (auto simp: p)
  qed
qed simp

lemma scan_oldest_least:
  assumes "zero \<notin> set (keys es)" "es \<noteq> []"
  shows "\<exists>e. (scan_oldest zero f es zero t, e) \<in> set es \<and> (\<forall>(k', e') \<in> set es. f e \<le> f e')"
proof -
  obtain a e es' where es: "es = (a, e) # es'" using assms(2) by (cases es) auto
  then show ?thesis using assms scan_oldest_started [of zero es' a f "f e"] by (force simp: keys_def)
qed

subsection \<open>The contract\<close>

text \<open>Storing an entry in a table that holds at most \<open>m\<close> of them.\<close>

definition store_bounded ::
  "(('k \<times> 'e) list \<Rightarrow> ('k \<times> 'e) list) \<Rightarrow> int \<Rightarrow> 'k \<Rightarrow> 'e \<Rightarrow> ('k \<times> 'e) list \<Rightarrow> ('k \<times> 'e) list" where
  "store_bounded evict m k e es =
     AList.update k e (if map_of es k = None \<and> int (length es) \<ge> m then evict es else es)"

definition bounded_table :: "'k \<Rightarrow> int \<Rightarrow> ('k \<times> 'e) list \<Rightarrow> bool" where
  "bounded_table zero m es = (wf_map es \<and> zero \<notin> set (keys es) \<and> int (length es) \<le> m)"

locale eviction =
  fixes zero :: 'k and last_use :: "'e \<Rightarrow> gotime" and evict :: "('k \<times> 'e) list \<Rightarrow> ('k \<times> 'e) list"
  assumes evict_oldest: "wf_map es \<Longrightarrow> zero \<notin> set (keys es) \<Longrightarrow> es \<noteq> [] \<Longrightarrow>
    \<exists>k e. (k, e) \<in> set es \<and> evict es = AList.delete k es \<and> (\<forall>(k', e') \<in> set es. last_use e \<le> last_use e')"
begin

lemma store_ok:
  assumes "bounded_table zero m es" "1 \<le> m" "k \<noteq> zero"
  shows "bounded_table zero m (store_bounded evict m k e es)"
proof (cases "map_of es k = None \<and> int (length es) \<ge> m")
  case True
  then have ne: "es \<noteq> []" using assms(2) by auto
  obtain k' e' where d: "(k', e') \<in> set es" "evict es = AList.delete k' es"
    using evict_oldest [OF _ _ ne] assms(1) by (auto simp: bounded_table_def)
  then have "k' \<in> set (keys es)" by (force simp: keys_def)
  then have l: "length (evict es) = length es - 1" "length es \<noteq> 0"
    using assms(1) ne by (auto simp: bounded_table_def d length_delete)
  have "set (keys (evict es)) \<subseteq> set (keys es)" by (auto simp: d keys_def set_delete)
  then show ?thesis
    using True assms l unfolding store_bounded_def bounded_table_def
    by (auto simp: keys_update length_update d)
next
  case False
  then show ?thesis
    using assms unfolding store_bounded_def bounded_table_def
    by (auto simp: keys_update length_update map_of_None_keys)
qed

text \<open>An entry is given up only for a new key, and only when no other entry is older.\<close>

lemma store_keeps:
  assumes "bounded_table zero m es" "k' \<noteq> k" "map_of es k' = Some e'"
    and "map_of es k \<noteq> None \<or> int (length es) < m \<or> (\<exists>(k2, e2) \<in> set es. last_use e2 < last_use e')"
  shows "map_of (store_bounded evict m k e es) k' = Some e'"
proof (cases "map_of es k = None \<and> int (length es) \<ge> m")
  case True
  have w: "wf_map es" "zero \<notin> set (keys es)" using assms(1) by (simp_all add: bounded_table_def)
  have ne: "es \<noteq> []" using assms(3) by auto
  obtain k0 e0 where d: "(k0, e0) \<in> set es" "evict es = AList.delete k0 es"
    "\<forall>(k2, e2) \<in> set es. last_use e0 \<le> last_use e2"
    using evict_oldest [OF w ne] by auto
  have "k0 \<noteq> k'"
    using True assms(3,4) d map_of_in_set [OF w(1) d(1)] by (auto simp: not_less [symmetric])
  then show ?thesis using True assms(2,3) by (simp add: store_bounded_def d)
next
  case False
  then show ?thesis using assms(2,3) unfolding store_bounded_def by (simp only: if_False map_of_update) simp
qed

lemma store_entries:
  assumes "bounded_table zero m es" "1 \<le> m" "(k', e') \<in> set (store_bounded evict m k e es)"
  shows "(k', e') = (k, e) \<or> (k', e') \<in> set es"
proof -
  let ?es = "if map_of es k = None \<and> int (length es) \<ge> m then evict es else es"
  have w: "wf_map es" "zero \<notin> set (keys es)" using assms(1) by (simp_all add: bounded_table_def)
  have sub: "wf_map ?es \<and> set ?es \<subseteq> set es"
  proof (cases "map_of es k = None \<and> int (length es) \<ge> m")
    case True
    then have "es \<noteq> []" using assms(2) by auto
    then obtain k0 where "evict es = AList.delete k0 es" using evict_oldest [OF w] by auto
    then show ?thesis using True w by (auto simp: set_delete)
  next
    case False
    then show ?thesis using w by (simp only: if_False) simp
  qed
  have "(k', e') \<in> set (AList.update k e ?es)" using assms(3) by (simp add: store_bounded_def)
  then have "map_of (AList.update k e ?es) k' = Some e'" using sub by (intro map_of_in_set) simp_all
  then show ?thesis using sub by (auto simp: fun_upd_apply split: if_splits dest!: map_of_SomeD)
qed

lemma store_finds: "map_of (store_bounded evict m k e es) k = Some e"
  by (simp add: store_bounded_def)

end

end
