(* ===== verification/TrafficLimiter.thy ===== *)
theory TrafficLimiter
  imports Eviction
begin

text \<open>
  The rate limit of the traffic of a user, \<^verbatim>\<open>services/platform-api/internal/traffic/limiter.go\<close>: a
  token bucket for each user in a bounded table. The instant the clock returns is an argument of
  \<open>Allow\<close>. The number of requests a user is granted in a window is bounded by the burst and the
  rate, up to the rounding of the floating point numbers that hold the tokens.
\<close>

record limiterEntry =
  le_tokens :: rat
  le_updated :: gotime
  le_lastSeen :: gotime

record traffic_limiter =
  tl_rate :: rat
  tl_burst :: rat
  tl_maxEntries :: int
  tl_entries :: "(nat \<times> limiterEntry) list"

definition NewLimiter :: "int \<Rightarrow> int \<Rightarrow> int \<Rightarrow> traffic_limiter" where
  "NewLimiter ratePerSecond burst maxEntries =
     \<lparr>tl_rate = float64 ratePerSecond, tl_burst = float64 burst, tl_maxEntries = maxEntries, tl_entries = []\<rparr>"

definition evictOldest :: "(nat \<times> limiterEntry) list \<Rightarrow> (nat \<times> limiterEntry) list" where
  "evictOldest entries = AList.delete (scan_oldest 0 le_lastSeen entries 0 0) entries"

definition Allow :: "gotime \<Rightarrow> nat \<Rightarrow> traffic_limiter \<Rightarrow> bool \<times> traffic_limiter" where
  "Allow now userID l =
     (if userID = 0 \<or> tl_rate l \<le> 0 \<or> tl_burst l \<le> 0 \<or> tl_maxEntries l \<le> 0 then (False, l)
      else let (entry, entries) = (case map_of (tl_entries l) userID of
              Some e \<Rightarrow> (e, tl_entries l)
            | None \<Rightarrow> (\<lparr>le_tokens = tl_burst l, le_updated = now, le_lastSeen = 0\<rparr>,
                if int (length (tl_entries l)) \<ge> tl_maxEntries l then evictOldest (tl_entries l)
                else tl_entries l));
          tokens = min (tl_burst l)
            (fl (le_tokens entry + fl (Seconds (Sub now (le_updated entry)) * tl_rate l)));
          allowed = (tokens \<ge> 1);
          tokens' = (if allowed then fl (tokens - 1) else tokens)
      in (allowed, l\<lparr>tl_entries := AList.update userID
            \<lparr>le_tokens = tokens', le_updated = now, le_lastSeen = now\<rparr> entries\<rparr>))"

interpretation traffic_table: eviction "0 :: nat" le_lastSeen evictOldest
proof unfold_locales
  fix es :: "(nat \<times> limiterEntry) list"
  assume "wf_map es" "0 \<notin> set (keys es)" "es \<noteq> []"
  then show "\<exists>k e. (k, e) \<in> set es \<and> evictOldest es = AList.delete k es \<and>
      (\<forall>(k', e') \<in> set es. le_lastSeen e \<le> le_lastSeen e')"
    using scan_oldest_least [of 0 es le_lastSeen 0] unfolding evictOldest_def by blast
qed

subsection \<open>One call\<close>

definition entry_of :: "gotime \<Rightarrow> traffic_limiter \<Rightarrow> nat \<Rightarrow> limiterEntry" where
  "entry_of now l u = (case map_of (tl_entries l) u of
     Some e \<Rightarrow> e | None \<Rightarrow> \<lparr>le_tokens = tl_burst l, le_updated = now, le_lastSeen = 0\<rparr>)"

definition refilled :: "gotime \<Rightarrow> traffic_limiter \<Rightarrow> nat \<Rightarrow> rat" where
  "refilled now l u = min (tl_burst l) (fl (le_tokens (entry_of now l u) +
     fl (Seconds (Sub now (le_updated (entry_of now l u))) * tl_rate l)))"

definition spent :: "rat \<Rightarrow> rat" where
  "spent tokens = (if tokens \<ge> 1 then fl (tokens - 1) else tokens)"

text \<open>
  A limiter with integral parameters: the tokens are within the burst, and no bucket is from the
  future.
\<close>

definition limiter_ok :: "int \<Rightarrow> int \<Rightarrow> gotime \<Rightarrow> traffic_limiter \<Rightarrow> bool" where
  "limiter_ok rate burst now l = (tl_rate l = of_int rate \<and> tl_burst l = of_int burst \<and>
     bounded_table 0 (tl_maxEntries l) (tl_entries l) \<and>
     (\<forall>(u, e) \<in> set (tl_entries l). 0 \<le> le_tokens e \<and> le_tokens e \<le> of_int burst \<and> le_updated e \<le> now))"

lemma Allow_eq:
  assumes "u \<noteq> 0" "0 < tl_rate l" "0 < tl_burst l" "0 < tl_maxEntries l"
  shows "Allow now u l = (refilled now l u \<ge> 1,
    l\<lparr>tl_entries := store_bounded evictOldest (tl_maxEntries l) u
       \<lparr>le_tokens = spent (refilled now l u), le_updated = now, le_lastSeen = now\<rparr> (tl_entries l)\<rparr>)"
  using assms
  by (auto simp: Allow_def refilled_def entry_of_def spent_def store_bounded_def Let_def split: option.splits)

lemma Allow_refused: "u = 0 \<or> \<not> 0 < tl_rate l \<or> \<not> 0 < tl_burst l \<or> \<not> 0 < tl_maxEntries l \<Longrightarrow>
    Allow now u l = (False, l)"
  by (auto simp: Allow_def)

lemma entry_of_ok:
  assumes "limiter_ok rate burst t l" "t \<le> now" "0 \<le> burst"
  shows "0 \<le> le_tokens (entry_of now l u)" "le_tokens (entry_of now l u) \<le> of_int burst"
    "le_updated (entry_of now l u) \<le> now"
  using assms by (fastforce simp: limiter_ok_def entry_of_def split: option.splits dest!: map_of_SomeD)+

lemma refilled_bounds:
  assumes "limiter_ok rate burst t l" "t \<le> now" "0 \<le> burst" "0 \<le> rate"
  shows "0 \<le> refilled now l u" "refilled now l u \<le> of_int burst"
proof -
  have "0 \<le> Seconds (Sub now (le_updated (entry_of now l u)))"
    using entry_of_ok(3) [OF assms(1-3)] by (intro Seconds_nonneg Sub_nonneg)
  then show "0 \<le> refilled now l u"
    using assms entry_of_ok(1) [OF assms(1-3)]
    by (auto simp: refilled_def limiter_ok_def intro!: fl_nonneg add_nonneg_nonneg mult_nonneg_nonneg)
  show "refilled now l u \<le> of_int burst" using assms by (simp add: refilled_def limiter_ok_def)
qed

lemma spent_bounds:
  assumes "0 \<le> x" "x \<le> of_int b" "\<bar>b\<bar> \<le> 2 ^ 53"
  shows "0 \<le> spent x" "spent x \<le> of_int b"
proof -
  show "0 \<le> spent x" using assms by (auto simp: spent_def intro!: fl_nonneg)
  have "x - 1 \<le> of_int b" using assms by linarith
  then show "spent x \<le> of_int b" using assms f64.rnd_le_int [of "x - 1" b] by (auto simp: spent_def)
qed

lemma Allow_ok:
  assumes "limiter_ok rate burst t l" "t \<le> now" "burst \<le> 2 ^ 53"
  shows "limiter_ok rate burst now (snd (Allow now u l))"
proof (cases "u = 0 \<or> \<not> 0 < tl_rate l \<or> \<not> 0 < tl_burst l \<or> \<not> 0 < tl_maxEntries l")
  case True
  then show ?thesis using assms by (force simp: Allow_refused limiter_ok_def)
next
  case False
  have rb: "0 < rate" "0 < burst" using False assms(1) by (auto simp: limiter_ok_def)
  let ?e = "\<lparr>le_tokens = spent (refilled now l u), le_updated = now, le_lastSeen = now\<rparr>"
  let ?es = "store_bounded evictOldest (tl_maxEntries l) u ?e (tl_entries l)"
  have b: "bounded_table 0 (tl_maxEntries l) (tl_entries l)" using assms(1) by (simp add: limiter_ok_def)
  have t: "bounded_table 0 (tl_maxEntries l) ?es" using traffic_table.store_ok [OF b] False by simp
  have "\<forall>(u', e') \<in> set ?es. (u', e') = (u, ?e) \<or> (u', e') \<in> set (tl_entries l)"
    using traffic_table.store_entries [OF b, of _ _ u ?e] False by auto
  moreover have "0 \<le> le_tokens ?e" "le_tokens ?e \<le> of_int burst"
    using spent_bounds [of "refilled now l u" burst] refilled_bounds [OF assms(1,2)] rb assms(3) by auto
  moreover have "tl_rate l = of_int rate" "tl_burst l = of_int burst" using assms(1) by (simp_all add: limiter_ok_def)
  ultimately show ?thesis
    using t assms(1,2) False unfolding limiter_ok_def by (subst (1 2 3 4 5) Allow_eq) (auto, force+)
qed

text \<open>
  The share of a refill that rounding may add, with a rate and a burst of at most \<open>2 ^ k\<close>.
\<close>

lemma Seconds_upper:
  assumes "0 \<le> d" "of_int d / 1000000000 < (2 :: rat) ^ k" "k \<le> 53"
  shows "Seconds d \<le> of_int d / 1000000000 + 2 * 2 ^ k / 2 ^ 54" "Seconds d \<le> 2 ^ k"
proof -
  let ?s = "d div Second" and ?n = "d mod Second"
  have q: "gquot d Second = ?s" "grem d Second = ?n"
    using assms(1) by (simp_all add: gquot_nonneg grem_def minus_mult_div_eq_mod)
  have "of_int d < (2 :: rat) ^ k * 1000000000" using assms(2) by (simp add: divide_less_eq)
  then have "(of_int d :: rat) < of_int (2 ^ k * 1000000000)" by simp
  then have "d < 2 ^ k * 1000000000" by (simp only: of_int_less_iff)
  then have s: "0 \<le> ?s" "?s < 2 ^ k" using assms(1) by (auto simp: div_less_iff_less_mult pos_imp_zdiv_nonneg_iff)
  have k: "(2 :: int) ^ k \<le> 2 ^ 53" using assms(3) by (intro power_increasing) simp_all
  have n: "0 \<le> ?n" "?n < 1000000000" by simp_all
  have fs: "float64 ?s = of_int ?s" "float64 ?n = of_int ?n" using s n k by (auto intro!: float64_int)
  let ?f = "of_int ?n / 1000000000 :: rat"
  have f: "0 \<le> ?f" "?f < 1" using n by (simp_all add: divide_less_eq)
  have "fl ?f \<le> 1" using f f64.rnd_le_int [of ?f 1] by simp
  moreover have "(of_int ?s :: rat) + 1 \<le> 2 ^ k" proof -
    have "of_int (?s + 1) \<le> (of_int (2 ^ k) :: rat)" using s(2) unfolding of_int_le_iff by linarith
    then show ?thesis by simp
  qed
  ultimately have le: "of_int ?s + fl ?f \<le> 2 ^ k" by linarith
  moreover have ge: "0 \<le> of_int ?s + fl ?f" using s f fl_nonneg [of ?f] by simp
  ultimately have e: "Seconds d \<le> of_int ?s + fl ?f + 2 ^ k / 2 ^ 54"
    unfolding Seconds_def q fs using assms(3) by (intro fl_error_upto)
  have "fl ?f \<le> ?f + 1 / 2 ^ 54" using f by (intro fl_error_unit)
  moreover have "(1 :: rat) / 2 ^ 54 \<le> 2 ^ k / 2 ^ 54" by (intro divide_right_mono) simp_all
  moreover have "of_int ?s + ?f = (of_int d :: rat) / 1000000000"
  proof -
    have "(of_int d :: rat) = of_int ?s * 1000000000 + of_int ?n"
      using arg_cong [OF div_mult_mod_eq [of d Second, symmetric], of "of_int :: int \<Rightarrow> rat"]
      by (simp only: of_int_add of_int_mult of_int_numeral)
    then show ?thesis by (simp add: add_divide_distrib)
  qed
  ultimately show "Seconds d \<le> of_int d / 1000000000 + 2 * 2 ^ k / 2 ^ 54" using e by linarith
  show "Seconds d \<le> 2 ^ k"
    using f64.rnd_le_int [of "of_int ?s + fl ?f" "2 ^ k"] le k unfolding Seconds_def q fs by simp
qed

lemma refilled_upper:
  assumes l: "limiter_ok rate burst t l" and t: "t \<le> now" and rb: "0 < rate" "0 < burst"
    and k: "rate \<le> 2 ^ k" "burst \<le> 2 ^ k" "k \<le> 20"
  shows "refilled now l u \<le> le_tokens (entry_of now l u) +
    of_int rate * of_int (now - le_updated (entry_of now l u)) / 1000000000 + 5 * 2 ^ (2 * k) / 2 ^ 54"
proof -
  let ?e = "entry_of now l u"
  let ?d = "Sub now (le_updated ?e)" and ?E = "(2 :: rat) ^ (2 * k) / 2 ^ 54"
  let ?r = "of_int rate * (of_int ?d / 1000000000) :: rat"
  note e = entry_of_ok [OF l t, of u]
  have eb: "0 \<le> le_tokens ?e" "le_tokens ?e \<le> of_int burst" "le_updated ?e \<le> now" using e rb by simp_all
  have d: "0 \<le> ?d" "?d \<le> now - le_updated ?e" using eb(3) by (simp_all add: Sub_def)
  have par: "tl_rate l = of_int rate" "tl_burst l = of_int burst" using l by (simp_all add: limiter_ok_def)
  have "(of_int rate :: rat) \<le> of_int (2 ^ k)" "(of_int burst :: rat) \<le> of_int (2 ^ k)"
    using k(1,2) by (simp_all only: of_int_le_iff)
  then have kr: "of_int rate \<le> (2 :: rat) ^ k" "of_int burst \<le> (2 :: rat) ^ k" by simp_all
  have "(of_int ?d :: rat) \<le> of_int (now - le_updated ?e)" using d(2) by (simp only: of_int_le_iff)
  then have r: "0 \<le> ?r" "?r \<le> of_int rate * of_int (now - le_updated ?e) / 1000000000"
    using d(1) rb(1) unfolding times_divide_eq_right
    by (auto intro!: divide_right_mono mult_left_mono divide_nonneg_pos mult_nonneg_nonneg simp del: of_int_diff)
  have E: "0 \<le> ?E" by simp
  have "refilled now l u \<le> le_tokens ?e + ?r + 5 * ?E"
  proof (cases "?r < of_int burst")
    case False
    have "refilled now l u \<le> of_int burst" using par by (simp add: refilled_def)
    also have "... \<le> le_tokens ?e + ?r + 5 * ?E" using False eb(1) E by linarith
    finally show ?thesis .
  next
    case True
    have q: "0 \<le> of_int ?d / (1000000000 :: rat)" using d by simp
    have "of_int ?d / 1000000000 \<le> ?r" using mult_right_mono [of 1 "of_int rate" "of_int ?d / 1000000000 :: rat"] rb q by simp
    then have "of_int ?d / 1000000000 < (2 :: rat) ^ k" using True kr by linarith
    then have S: "Seconds ?d \<le> of_int ?d / 1000000000 + 2 * 2 ^ k / 2 ^ 54" "Seconds ?d \<le> 2 ^ k" "0 \<le> Seconds ?d"
      using Seconds_upper [OF d(1)] Seconds_nonneg [OF d(1)] k(3) by simp_all
    let ?p = "Seconds ?d * of_int rate :: rat"
    have kk: "(2 :: rat) ^ (2 * k) = 2 ^ k * 2 ^ k" by (simp add: power_add mult_2)
    have p: "0 \<le> ?p" "?p \<le> 2 ^ (2 * k)" unfolding kk using S rb kr by (auto intro!: mult_mono)
    have "?p \<le> (of_int ?d / 1000000000 + 2 * 2 ^ k / 2 ^ 54) * of_int rate"
      using S(1) rb by (intro mult_right_mono) simp_all
    also have "... = ?r + of_int rate * (2 * 2 ^ k / 2 ^ 54)" by (simp add: algebra_simps)
    also have "... \<le> ?r + 2 ^ k * (2 * 2 ^ k / 2 ^ 54)" using kr by (intro add_left_mono mult_right_mono) simp_all
    finally have p1: "?p \<le> ?r + 2 * ?E" unfolding kk by simp
    have fp: "fl ?p \<le> ?p + ?E" "fl ?p \<le> 2 ^ (2 * k)"
    proof -
      show "fl ?p \<le> ?p + ?E" using p k(3) by (intro fl_error_upto) simp_all
      have "(2 :: int) ^ (2 * k) \<le> 2 ^ 53" using k(3) by (intro power_increasing) simp_all
      then show "fl ?p \<le> 2 ^ (2 * k)" using f64.rnd_le_int [of ?p "2 ^ (2 * k)"] p by simp
    qed
    let ?s = "le_tokens ?e + fl ?p"
    have "(2 :: rat) ^ k \<le> 2 ^ (2 * k)" by (intro power_increasing) simp_all
    then have "?s \<le> 2 ^ (2 * k) + 2 ^ (2 * k)" "0 \<le> ?s"
      using fp(2) eb(1,2) kr(2) fl_nonneg [OF p(1)] by linarith+
    then have "?s \<le> 2 ^ (2 * k + 1)" "0 \<le> ?s" by simp_all
    then have "fl ?s \<le> ?s + 2 ^ (2 * k + 1) / 2 ^ 54" using k(3) by (intro fl_error_upto) simp_all
    then have "fl ?s \<le> ?s + 2 * ?E" by simp
    moreover have "refilled now l u \<le> fl ?s" unfolding refilled_def par by simp
    ultimately show ?thesis using p1 fp(1) by linarith
  qed
  then show ?thesis using r(2) by simp
qed

subsection \<open>A sequence of calls\<close>

fun Allow_run :: "(nat \<times> gotime) list \<Rightarrow> traffic_limiter \<Rightarrow> bool list \<times> traffic_limiter" where
  "Allow_run [] l = ([], l)"
| "Allow_run ((u, now) # calls) l =
     (let (a, l1) = Allow now u l; (answers, l2) = Allow_run calls l1 in (a # answers, l2))"

definition granted :: "nat \<Rightarrow> (nat \<times> gotime) list \<Rightarrow> bool list \<Rightarrow> nat" where
  "granted u calls answers = length (filter (\<lambda>((v, _), a). v = u \<and> a) (zip calls answers))"

text \<open>What a bucket would hold at an instant, were it refilled without rounding.\<close>

definition potential :: "traffic_limiter \<Rightarrow> nat \<Rightarrow> gotime \<Rightarrow> rat" where
  "potential l u t = min (tl_burst l) (le_tokens (entry_of t l u) +
     tl_rate l * of_int (t - le_updated (entry_of t l u)) / 1000000000)"

lemma potential_time:
  assumes "t \<le> t'" "0 \<le> tl_rate l"
  shows "potential l u t' \<le> potential l u t + tl_rate l * of_int (t' - t) / 1000000000"
proof (cases "map_of (tl_entries l) u")
  case None
  have "0 \<le> tl_rate l * of_int (t' - t) / 1000000000" using assms by simp
  then show ?thesis by (simp add: potential_def entry_of_def None del: of_int_diff)
next
  case (Some e)
  have "0 \<le> tl_rate l * of_int (t' - t) / 1000000000" using assms by simp
  moreover have "tl_rate l * of_int (t' - le_updated e) / 1000000000 =
      tl_rate l * of_int (t - le_updated e) / 1000000000 + tl_rate l * of_int (t' - t) / 1000000000"
    by (simp add: algebra_simps add_divide_distrib diff_divide_distrib)
  ultimately show ?thesis unfolding potential_def entry_of_def Some option.case by linarith
qed

lemma spent_upper:
  assumes "0 \<le> x" "x \<le> 2 ^ k" "k \<le> 53"
  shows "of_bool (x \<ge> 1) + spent x \<le> x + 2 ^ k / 2 ^ 54"
proof (cases "x \<ge> 1")
  case True
  then have "fl (x - 1) \<le> x - 1 + 2 ^ k / 2 ^ 54" using assms by (intro fl_error_upto) simp_all
  then show ?thesis using True by (simp add: spent_def)
qed (simp add: spent_def)

lemma Allow_own:
  assumes l: "limiter_ok rate burst t l" and t: "t \<le> now" and rb: "0 < rate" "0 < burst"
    and k: "rate \<le> 2 ^ k" "burst \<le> 2 ^ k" "k \<le> 20" and u: "u \<noteq> 0" and m: "0 < tl_maxEntries l"
  shows "of_bool (fst (Allow now u l)) + potential (snd (Allow now u l)) u now \<le>
    potential l u now + 6 * 2 ^ (2 * k) / 2 ^ 54"
proof -
  let ?x = "refilled now l u" and ?E = "(2 :: rat) ^ (2 * k) / 2 ^ 54"
  have par: "tl_rate l = of_int rate" "tl_burst l = of_int burst" using l by (simp_all add: limiter_ok_def)
  have A: "Allow now u l = (?x \<ge> 1, l\<lparr>tl_entries := store_bounded evictOldest (tl_maxEntries l) u
       \<lparr>le_tokens = spent ?x, le_updated = now, le_lastSeen = now\<rparr> (tl_entries l)\<rparr>)"
    using u rb m by (intro Allow_eq) (simp_all add: par)
  have x: "0 \<le> ?x" "?x \<le> of_int burst" using refilled_bounds [OF l t] rb by simp_all
  have "(of_int burst :: rat) \<le> of_int (2 ^ k)" using k(2) by (simp only: of_int_le_iff)
  then have "(of_int burst :: rat) \<le> 2 ^ k" by simp
  then have "?x \<le> 2 ^ k" using x(2) by linarith
  then have "of_bool (?x \<ge> 1) + spent ?x \<le> ?x + 2 ^ k / 2 ^ 54" using x(1) k(3) by (intro spent_upper) simp_all
  moreover have "(2 :: rat) ^ k / 2 ^ 54 \<le> ?E" by (intro divide_right_mono power_increasing) simp_all
  moreover have "?x \<le> potential l u now + 5 * ?E"
  proof -
    have "0 \<le> ?E" by simp
    then show ?thesis using refilled_upper [OF l t rb k, of u] x(2) unfolding potential_def par by linarith
  qed
  moreover have "potential (snd (Allow now u l)) u now \<le> spent ?x"
    unfolding A potential_def entry_of_def by (simp add: traffic_table.store_finds)
  ultimately show ?thesis unfolding A fst_conv by linarith
qed

lemma Allow_room:
  assumes b: "bounded_table 0 (tl_maxEntries l) (tl_entries l)"
    and U: "finite U" "set (keys (tl_entries l)) \<subseteq> U" "v \<in> U" "int (card U) \<le> tl_maxEntries l"
  shows "set (keys (tl_entries (snd (Allow now v l)))) \<subseteq> U"
    "u \<noteq> v \<Longrightarrow> map_of (tl_entries (snd (Allow now v l))) u = map_of (tl_entries l) u"
proof -
  have c: "length (tl_entries l) = card (set (keys (tl_entries l)))"
    using b by (simp add: bounded_table_def wf_map_def distinct_card) (simp add: keys_def)
  have room: "int (length (tl_entries l)) < tl_maxEntries l" if "map_of (tl_entries l) v = None"
  proof -
    have "set (keys (tl_entries l)) \<subset> U" using U that by (auto simp: map_of_None_keys)
    then have "card (set (keys (tl_entries l))) < card U" using U(1) by (rule psubset_card_mono [rotated])
    then show ?thesis using U(4) c by simp
  qed
  have "snd (Allow now v l) = l \<or> (\<exists>e. tl_entries (snd (Allow now v l)) = AList.update v e (tl_entries l))"
    using room by (auto simp: Allow_def Let_def split: option.splits)
  then show "set (keys (tl_entries (snd (Allow now v l)))) \<subseteq> U"
    "u \<noteq> v \<Longrightarrow> map_of (tl_entries (snd (Allow now v l))) u = map_of (tl_entries l) u"
    using U by (auto simp: keys_update)
qed

lemma Allow_config [simp]:
  "tl_rate (snd (Allow now u l)) = tl_rate l" "tl_burst (snd (Allow now u l)) = tl_burst l"
  "tl_maxEntries (snd (Allow now u l)) = tl_maxEntries l"
  by (simp_all add: Allow_def Let_def split: option.splits)

lemma granted_Cons: "granted u ((v, t) # calls) (a # answers) = of_bool (v = u \<and> a) + granted u calls answers"
  by (simp add: granted_def)

lemma Allow_run_Cons: "Allow_run ((v, t) # calls) l =
    (fst (Allow t v l) # fst (Allow_run calls (snd (Allow t v l))), snd (Allow_run calls (snd (Allow t v l))))"
  by (simp add: case_prod_beta Let_def)

definition sequence_ok :: "nat set \<Rightarrow> gotime \<Rightarrow> (nat \<times> gotime) list \<Rightarrow> bool" where
  "sequence_ok U t calls = (fst ` set calls \<subseteq> U \<and> sorted (t # map snd calls))"

definition room_for :: "nat set \<Rightarrow> traffic_limiter \<Rightarrow> bool" where
  "room_for U l = (finite U \<and> set (keys (tl_entries l)) \<subseteq> U \<and> int (card U) \<le> tl_maxEntries l)"

lemma Allow_room_for:
  assumes "limiter_ok rate burst t l" "room_for U l" "v \<in> U"
  shows "room_for U (snd (Allow now v l))"
    "u \<noteq> v \<Longrightarrow> potential (snd (Allow now v l)) u now = potential l u now"
  using assms Allow_room(1) [of l U v now] Allow_room(2) [of l U v u now]
  by (auto simp: room_for_def limiter_ok_def potential_def entry_of_def split: option.splits)

lemma Allow_run_ok:
  assumes "limiter_ok rate burst t l" "room_for U l" "sequence_ok U t calls" "burst \<le> 2 ^ 53"
  shows "limiter_ok rate burst (last (t # map snd calls)) (snd (Allow_run calls l)) \<and>
    room_for U (snd (Allow_run calls l))"
  using assms
proof (induction calls arbitrary: t l)
  case (Cons c calls)
  obtain v now where c: "c = (v, now)" by fastforce
  have v: "v \<in> U" "t \<le> now" "sequence_ok U now calls" using Cons.prems(3) by (auto simp: sequence_ok_def c)
  show ?case
    using Cons.IH [OF Allow_ok [OF Cons.prems(1) v(2) Cons.prems(4)]
        Allow_room_for(1) [OF Cons.prems(1,2) v(1)] v(3) Cons.prems(4)]
    unfolding c Allow_run_Cons by simp
qed simp

lemma granted_bound:
  assumes "limiter_ok rate burst t l" "room_for U l" "sequence_ok U t calls" "\<forall>(v, now) \<in> set calls. now \<le> t1"
    and "0 < rate" "0 < burst" "rate \<le> 2 ^ k" "burst \<le> 2 ^ k" "k \<le> 20" "t \<le> t1"
  shows "of_nat (granted u calls (fst (Allow_run calls l))) \<le>
    potential l u t + of_int rate * of_int (t1 - t) / 1000000000 +
    of_nat (length calls) * (6 * 2 ^ (2 * k) / 2 ^ 54)"
  using assms
proof (induction calls arbitrary: t l)
  case Nil
  have "0 \<le> le_tokens (entry_of t l u)" "le_updated (entry_of t l u) \<le> t"
    using entry_of_ok [OF Nil(1), of t u] Nil(6) by simp_all
  then have "0 \<le> potential l u t"
    using Nil(1,5,6) by (auto simp: potential_def limiter_ok_def intro!: divide_nonneg_pos mult_nonneg_nonneg add_nonneg_nonneg simp del: of_int_diff)
  moreover have "0 \<le> (of_int rate * of_int (t1 - t) / 1000000000 :: rat)" using Nil(5,10) by simp
  ultimately show ?case by (simp add: granted_def)
next
  case (Cons c calls)
  note l = Cons.prems(1) and rb = Cons.prems(5,6) and k = Cons.prems(7-9)
  obtain v now where c: "c = (v, now)" by fastforce
  have v: "v \<in> U" "t \<le> now" "sequence_ok U now calls" "\<forall>(v, now) \<in> set calls. now \<le> t1" "now \<le> t1"
    using Cons.prems(3,4) by (auto simp: sequence_ok_def c)
  let ?l = "snd (Allow now v l)" and ?E = "6 * (2 :: rat) ^ (2 * k) / 2 ^ 54"
  have par: "tl_rate l = of_int rate" "tl_burst l = of_int burst" using l by (simp_all add: limiter_ok_def)
  have "(2 :: int) ^ k \<le> 2 ^ 53" using k(3) by (intro power_increasing) simp_all
  then have b: "burst \<le> 2 ^ 53" using k(2) by linarith
  have IH: "of_nat (granted u calls (fst (Allow_run calls ?l))) \<le>
      potential ?l u now + of_int rate * of_int (t1 - now) / 1000000000 + of_nat (length calls) * ?E"
    using Cons.IH [OF Allow_ok [OF l v(2) b] Allow_room_for(1) [OF l Cons.prems(2) v(1)] v(3,4) rb k v(5)] .
  have step: "of_bool (v = u \<and> fst (Allow now v l)) + potential ?l u now \<le> potential l u now + ?E"
  proof (cases "v = u")
    case True
    show ?thesis
    proof (cases "u = 0 \<or> \<not> 0 < tl_maxEntries l")
      case True
      then have "Allow now u l = (False, l)" by (intro Allow_refused) auto
      then show ?thesis using \<open>v = u\<close> by simp
    next
      case False
      then show ?thesis using Allow_own [OF l v(2) rb k, of u] \<open>v = u\<close> by simp
    qed
  next
    case False
    then show ?thesis using Allow_room_for(2) [OF l Cons.prems(2) v(1)] by simp
  qed
  have "potential l u now \<le> potential l u t + of_int rate * of_int (now - t) / 1000000000"
    using potential_time [OF v(2), of l u] rb by (simp add: par del: of_int_diff)
  moreover have "(of_int rate * of_int (t1 - t) :: rat) / 1000000000 =
      of_int rate * of_int (now - t) / 1000000000 + of_int rate * of_int (t1 - now) / 1000000000"
    by (simp add: algebra_simps add_divide_distrib diff_divide_distrib)
  moreover have "of_nat (granted u (c # calls) (fst (Allow_run (c # calls) l))) =
      (of_bool (v = u \<and> fst (Allow now v l)) + of_nat (granted u calls (fst (Allow_run calls ?l))) :: rat)"
    unfolding c Allow_run_Cons fst_conv granted_Cons by simp
  moreover have "of_nat (length (c # calls)) * ?E = ?E + of_nat (length calls) * ?E"
    by (simp add: algebra_simps)
  ultimately show ?case using IH step by linarith
qed

subsection \<open>The rate\<close>

lemma sorted_calls:
  assumes "sorted (map snd (earlier @ calls))" "calls \<noteq> []"
  shows "sequence_ok (fst ` set (earlier @ calls)) (snd (hd (earlier @ calls))) earlier"
    "sequence_ok (fst ` set (earlier @ calls)) (snd (hd calls)) calls"
    "last (snd (hd (earlier @ calls)) # map snd earlier) \<le> snd (hd calls)"
    "snd (hd calls) \<le> snd (last calls)" "\<forall>(v, now) \<in> set calls. now \<le> snd (last calls)"
proof -
  show "sequence_ok (fst ` set (earlier @ calls)) (snd (hd (earlier @ calls))) earlier"
    using assms by (cases earlier) (auto simp: sequence_ok_def sorted_append)
  show "sequence_ok (fst ` set (earlier @ calls)) (snd (hd calls)) calls"
    using assms by (cases calls) (auto simp: sequence_ok_def sorted_append)
  show "last (snd (hd (earlier @ calls)) # map snd earlier) \<le> snd (hd calls)"
    using assms by (cases earlier rule: rev_cases; cases calls) (auto simp: sorted_append)
  have le: "\<forall>c \<in> set calls. snd c \<le> snd (last calls)"
    using assms by (cases calls rule: rev_cases) (auto simp: sorted_append)
  then show "snd (hd calls) \<le> snd (last calls)" using assms(2) by simp
  show "\<forall>(v, now) \<in> set calls. now \<le> snd (last calls)" using le by auto
qed

text \<open>
  Claim C28. In any window of a history of requests, served in the order of their instants, a user
  is granted at most the burst and what the rate yields over the window; the floating point
  arithmetic of the bucket can add no more than \<open>2 ^ (2 * k) / 2 ^ 51\<close> of a request for each
  request of the window, when rate and burst are at most \<open>2 ^ k\<close>. The table must have had room
  for the users of the history, since a user whose bucket was given up starts with a full one.
\<close>

theorem traffic_rate_bounded:
  assumes "0 < rate" "0 < burst" "rate \<le> 2 ^ k" "burst \<le> 2 ^ k" "k \<le> 20"
    and "sorted (map snd (earlier @ calls))" "calls \<noteq> []"
    and "int (card (fst ` set (earlier @ calls))) \<le> maxEntries"
    and "Allow_run earlier (NewLimiter rate burst maxEntries) = (answers, l)"
  shows "of_nat (granted u calls (fst (Allow_run calls l))) \<le>
    (of_int burst + of_int rate * of_int (snd (last calls) - snd (hd calls)) / 1000000000 +
     of_nat (length calls) * 2 ^ (2 * k) / 2 ^ 51 :: rat)"
proof -
  let ?U = "fst ` set (earlier @ calls)" and ?l0 = "NewLimiter rate burst maxEntries"
  let ?t = "snd (hd (earlier @ calls))" and ?t' = "snd (hd calls)" and ?t1 = "snd (last calls)"
  have "(2 :: int) ^ k \<le> 2 ^ 53" using assms(5) by (intro power_increasing) simp_all
  then have b: "burst \<le> 2 ^ 53" "rate \<le> 2 ^ 53" using assms(3,4) by linarith+
  have l0: "limiter_ok rate burst ?t ?l0" "room_for ?U ?l0"
    using assms(1,2,8) b by (auto simp: limiter_ok_def room_for_def NewLimiter_def float64_int
        bounded_table_def keys_def)
  have s: "sequence_ok ?U ?t earlier" "sequence_ok ?U ?t' calls" "last (?t # map snd earlier) \<le> ?t'" "?t' \<le> ?t1"
    "\<forall>(v, now) \<in> set calls. now \<le> ?t1"
    using sorted_calls [of earlier calls] assms(6,7) by auto
  have l: "limiter_ok rate burst (last (?t # map snd earlier)) l" "room_for ?U l"
    using Allow_run_ok [OF l0 s(1) b(1)] assms(9) by simp_all
  have l': "limiter_ok rate burst ?t' l" using l(1) s(3) by (fastforce simp: limiter_ok_def)
  have "potential l u ?t' \<le> of_int burst" using l' by (simp add: potential_def limiter_ok_def)
  moreover have "of_nat (length calls) * (6 * 2 ^ (2 * k) / 2 ^ 54) \<le> (of_nat (length calls) * 2 ^ (2 * k) / 2 ^ 51 :: rat)"
    by simp
  ultimately show ?thesis
    using granted_bound [OF l' l(2) s(2,5) assms(1-5) s(4), of u] by linarith
qed

text \<open>With a rate of two and a burst of three a user is granted at most five requests in a second.\<close>

theorem traffic_rate_bounded_witness:
  "granted 7 [(7, 10), (7, 10), (8, 10), (7, 10), (7, 20), (7, 500000010), (7, 1000000010), (7, 1000000010)]
     (fst (Allow_run [(7, 10), (7, 10), (8, 10), (7, 10), (7, 20), (7, 500000010), (7, 1000000010), (7, 1000000010)]
       (NewLimiter 2 3 2))) \<le> 5"
proof -
  let ?calls = "[(7, 10), (7, 10), (8, 10), (7, 10), (7, 20), (7, 500000010), (7, 1000000010), (7, 1000000010)] :: (nat \<times> gotime) list"
  have "fst ` set ?calls = {7, 8}" by auto
  then have c: "card (fst ` set ?calls) = 2" by simp
  have "of_nat (granted 7 ?calls (fst (Allow_run ?calls (NewLimiter 2 3 2)))) \<le>
    (of_int 3 + of_int 2 * of_int (snd (last ?calls) - snd (hd ?calls)) / 1000000000 +
     of_nat (length ?calls) * 2 ^ (2 * 2) / 2 ^ 51 :: rat)"
    using c by (intro traffic_rate_bounded [where earlier = "[]" and maxEntries = 2]) simp_all
  then have "of_nat (granted 7 ?calls (fst (Allow_run ?calls (NewLimiter 2 3 2)))) < (6 :: rat)" by simp
  then show ?thesis by simp
qed

end
