(* ===== verification/Traffic.thy ===== *)
theory Traffic
  imports TrafficLimiter BalancerController Requests
begin

text \<open>
  The traffic of a lab, \<^verbatim>\<open>services/platform-api/internal/traffic/service.go\<close>: a batch of requests is
  checked, counted against the limit of the user, sent to the lab through its gateway, and the
  answer is checked before it is shown and observed by the balancer. The reader of labs and the
  gateway are arguments; the gateway works on a state of the network, of any type, so that a
  request that is not sent leaves it unchanged.
\<close>

datatype traffic_error = ErrInvalidTraffic | ErrTrafficNotFound | ErrTrafficNotRunning | ErrRateLimited
  | ErrUnavailable string | ErrLoadTrafficLab lab_error

type_synonym 'n gateway =
  "string \<Rightarrow> TrafficBatchRequest \<Rightarrow> 'n \<Rightarrow> (string, TrafficBatchResult) result \<times> 'n"

definition batch_char :: "char \<Rightarrow> bool" where
  "batch_char c = (is_lower c \<or> is_upper c \<or> is_digit c \<or> c = CHR ''-'' \<or> c = CHR ''_'')"

definition validBatch :: "TrafficBatchRequest \<Rightarrow> bool" where
  "validBatch request =
     (if length (rq_BatchID request) < 4 \<or> length (rq_BatchID request) > 64 \<or>
         TrimSpace (rq_BatchID request) \<noteq> rq_BatchID request \<or> rq_ProductID request = 0 \<or>
         rq_RequestUnits request < 1 \<or> rq_RequestUnits request > 100
      then False else list_all batch_char (rq_BatchID request))"

text \<open>The package has a \<open>validLabID\<close> of its own, with the loop of the one in \<^verbatim>\<open>internal/lab\<close>.\<close>

definition traffic_validLabID :: "string \<Rightarrow> bool" where
  "traffic_validLabID value = (if length value < 4 \<or> length value > 64 then False else lab_chars 0 value)"

fun findInstance :: "Instance list \<Rightarrow> string \<Rightarrow> Instance option" where
  "findInstance [] instanceID = None"
| "findInstance (i # is) instanceID = (if in_ID i = instanceID then Some i else findInstance is instanceID)"

definition valid_trace_step :: "CacheTraceStep \<Rightarrow> bool" where
  "valid_trace_step step = (ct_Layer step \<in> {''l1'', ''redis'', ''mysql''} \<and>
     ct_Result step \<in> {''hit'', ''miss'', ''disabled'', ''not_found'', ''unavailable''})"

definition valid_cache_product :: "TrafficBatchRequest \<Rightarrow> CacheResult \<Rightarrow> bool" where
  "valid_cache_product request value =
     (if cr_Outcome value = ''found''
      then (case cr_Product value of
          None \<Rightarrow> False
        | Some p \<Rightarrow> \<not> (cp_ID p \<noteq> rq_ProductID request \<or> cp_Name p = [] \<or> cp_Category p = [] \<or> cp_Version p \<le> 0))
      else cr_Product value = None)"

definition validCacheResult :: "TrafficBatchRequest \<Rightarrow> TrafficBatchResult \<Rightarrow> bool" where
  "validCacheResult request result =
     (case tr_Cache result of
        None \<Rightarrow> False
      | Some value \<Rightarrow>
          if cr_ActualLookupCount value \<noteq> 1 \<or> IsZero (cr_ObservedAt value) \<or>
             cr_ObservedAt value \<noteq> tr_OccurredAt result \<or> cr_SimulatedLatencyMS value \<le> 0 \<or>
             length (cr_Trace value) = 0 \<or> length (cr_Trace value) > 3
          then False
          else if cr_ResolvedBy value \<notin> {''l1'', ''redis'', ''mysql'', ''degraded''} \<or>
             (cr_Outcome value \<noteq> ''found'' \<and> cr_Outcome value \<noteq> ''not_found'')
          then False
          else if \<not> valid_cache_product request value then False
          else list_all valid_trace_step (cr_Trace value))"

text \<open>The parts of \<open>validResult\<close>, in its order.\<close>

definition valid_counts :: "Snapshot \<Rightarrow> TrafficBatchRequest \<Rightarrow> TrafficBatchResult \<Rightarrow> bool" where
  "valid_counts snapshot request result =
     (\<not> (tr_BatchID result \<noteq> rq_BatchID request \<or> tr_LabID result \<noteq> se_ID (sn_Lab snapshot) \<or>
         IsZero (tr_OccurredAt result) \<or> tr_ReceivedUnits result \<noteq> rq_RequestUnits request \<or>
         tr_AcceptedUnits result < 0 \<or> tr_DroppedUnits result < 0 \<or>
         tr_AcceptedUnits result + tr_DroppedUnits result \<noteq> tr_ReceivedUnits result \<or>
         is_ProcessingSpeed (tr_InstanceState result) \<le> 0 \<or> is_MaxLoad (tr_InstanceState result) \<le> 0 \<or>
         is_CurrentLoad (tr_InstanceState result) < 0 \<or>
         is_CurrentLoad (tr_InstanceState result) > float64 (is_MaxLoad (tr_InstanceState result)) \<or>
         IsZero (is_ObservedAt (tr_InstanceState result)) \<or>
         is_ObservedAt (tr_InstanceState result) \<noteq> tr_OccurredAt result))"

definition expectedRatio :: "InstanceState \<Rightarrow> rat" where
  "expectedRatio s = fl (of_int (Round (fl (fl (is_CurrentLoad s / float64 (is_MaxLoad s)) * 1000))) / 1000)"

definition ratio_agrees :: "InstanceState \<Rightarrow> bool" where
  "ratio_agrees s = (\<not> \<bar>fl (is_LoadRatio s - expectedRatio s)\<bar> > fl (1 / 1000))"

definition valid_status :: "TrafficBatchResult \<Rightarrow> bool" where
  "valid_status result =
     (tr_Status result = ''accepted'' \<and> tr_AcceptedUnits result > 0 \<and> tr_DroppedUnits result = 0 \<or>
      tr_Status result = ''partially_accepted'' \<and> tr_AcceptedUnits result > 0 \<and> tr_DroppedUnits result > 0 \<or>
      tr_Status result = ''dropped'' \<and> tr_AcceptedUnits result = 0 \<and> tr_DroppedUnits result > 0)"

definition valid_load_state :: "string \<Rightarrow> bool" where
  "valid_load_state s = (s \<in> {''idle'', ''normal'', ''high'', ''overloaded'', ''unavailable''})"

definition reported_by :: "TrafficBatchResult \<Rightarrow> Instance \<Rightarrow> bool" where
  "reported_by result i = (in_ID i = tr_TargetInstanceID result \<and>
     in_ProcessingSpeed i = is_ProcessingSpeed (tr_InstanceState result) \<and>
     in_MaxLoad i = is_MaxLoad (tr_InstanceState result))"

definition validResult :: "Snapshot \<Rightarrow> TrafficBatchRequest \<Rightarrow> TrafficBatchResult \<Rightarrow> bool" where
  "validResult snapshot request result =
     (if \<not> valid_counts snapshot request result then False
      else if \<not> ratio_agrees (tr_InstanceState result) then False
      else if \<not> valid_status result \<or> \<not> valid_load_state (is_LoadState (tr_InstanceState result)) then False
      else if (if se_ScenarioType (sn_Lab snapshot) = ''multi_level_cache''
               then \<not> validCacheResult request result else tr_Cache result \<noteq> None) then False
      else list_ex (reported_by result) (sn_Instances snapshot))"

definition zero_instance :: Instance where
  "zero_instance = \<lparr>in_ID = [], in_Name = [], in_ContainerID = [], in_Status = [], in_CPULimitCores = 0,
     in_MemoryLimitMB = 0, in_PerformancePercent = 0, in_ProcessingSpeed = 0, in_MaxLoad = 0,
     in_CurrentWeight = 0, in_CurrentLoad = 0, in_LoadRatio = 0, in_LoadState = [], in_ObservedAt = 0\<rparr>"

text \<open>
  \<open>Submit\<close>: the limiter, the controller that observes the answer, if one was given to
  \<open>NewService\<close>, and the network are the state.
\<close>

definition traffic_Submit ::
  "(string \<Rightarrow> nat \<Rightarrow> (lab_error, Snapshot) result) \<Rightarrow> 'n gateway \<Rightarrow> gotime \<Rightarrow> nat \<Rightarrow> string \<Rightarrow>
   TrafficBatchRequest \<Rightarrow> traffic_limiter \<times> Controller option \<times> 'n \<Rightarrow>
   (traffic_error, TrafficBatchResult) result \<times> traffic_limiter \<times> Controller option \<times> 'n" where
  "traffic_Submit labs client now userID labID request = (\<lambda>(limiter, observer, net).
     if userID = 0 \<or> \<not> traffic_validLabID labID \<or> \<not> validBatch request
     then (Inl ErrInvalidTraffic, limiter, observer, net)
     else let (allowed, limiter') = Allow now userID limiter in
       if \<not> allowed then (Inl ErrRateLimited, limiter', observer, net)
       else case labs labID userID of
         Inl e \<Rightarrow> (Inl (if e = ErrNotFound \<or> e = ErrNotOwned then ErrTrafficNotFound else ErrLoadTrafficLab e),
                   limiter', observer, net)
       | Inr snapshot \<Rightarrow>
           if se_Status (sn_Lab snapshot) \<noteq> Running then (Inl ErrTrafficNotRunning, limiter', observer, net)
           else case client labID request net of
             (Inl e, net') \<Rightarrow> (Inl (ErrUnavailable e), limiter', observer, net')
           | (Inr result, net') \<Rightarrow>
               if \<not> validResult snapshot request result
               then (Inl (ErrUnavailable []), limiter', observer, net')
               else let i = (case findInstance (sn_Instances snapshot) (tr_TargetInstanceID result) of
                       None \<Rightarrow> zero_instance | Some i \<Rightarrow> i);
                     observer' = map_option (Observe labID i result) observer
               in (Inr (result\<lparr>tr_Path := [''user-pool'', ''lab-gateway'', tr_TargetInstanceID result]\<rparr>),
                   limiter', observer', net'))"

subsection \<open>Only the owner of a running lab sends traffic to it\<close>

definition instance_key :: "Instance \<Rightarrow> string \<times> int \<times> int" where
  "instance_key i = (in_ID i, in_ProcessingSpeed i, in_MaxLoad i)"

definition keeps_keys :: "(Snapshot \<Rightarrow> Snapshot) option \<Rightarrow> bool" where
  "keeps_keys decorator = (\<forall>d x. decorator = Some d \<longrightarrow> sn_Lab (d x) = sn_Lab x \<and>
     map instance_key (sn_Instances (d x)) = map instance_key (sn_Instances x))"

lemma svc_Snapshot_row:
  assumes "svc_Snapshot flt lt clock decorator l u db = Inr sn" "keeps_keys decorator"
  shows "\<exists>s. find_session l db = Some s \<and> ls_user_id s = u \<and> se_Status (sn_Lab sn) = ls_status s \<and>
    se_ID (sn_Lab sn) = ls_id s"
    "i \<in> set (sn_Instances sn) \<Longrightarrow> \<exists>r \<in> set (instances db). li_lab_id r = l \<and>
      li_instance_name r = in_ID i \<and> li_processing_speed r = in_ProcessingSpeed i \<and> li_max_load r = in_MaxLoad i"
proof -
  obtain sn0 where f: "FindSnapshot flt l u db = Inr sn0"
    and sn: "sn = (let s2 = decorateTrafficSnapshot clock (sn0\<lparr>sn_Lab := decorateDeadlines lt (sn_Lab sn0)\<rparr>)
       in case decorator of None \<Rightarrow> s2 | Some d \<Rightarrow> d s2)"
    using assms(1) by (auto simp: svc_Snapshot_def Let_def split: if_splits sum.splits)
  have keys: "map instance_key (sn_Instances sn) = map instance_key (sn_Instances sn0)"
    using assms(2) by (auto simp: sn Let_def decorateTrafficSnapshot_def comp_def keeps_keys_def instance_key_def
        split: option.splits)
  have lab: "sn_Lab sn = decorateDeadlines lt (sn_Lab sn0)"
    using assms(2) by (auto simp: sn Let_def decorateTrafficSnapshot_def keeps_keys_def split: option.splits)
  show "\<exists>s. find_session l db = Some s \<and> ls_user_id s = u \<and> se_Status (sn_Lab sn) = ls_status s \<and>
    se_ID (sn_Lab sn) = ls_id s"
    using f by (auto simp: lab FindSnapshot_def Let_def decorateDeadlines_def scanSession_def
        split: if_splits option.splits)
  have rows: "set (sn_Instances sn0) = scanInstance ` {r \<in> set (instances db). li_lab_id r = l}"
    using f by (auto simp: FindSnapshot_def Let_def split: if_splits option.splits)
  assume "i \<in> set (sn_Instances sn)"
  then have "instance_key i \<in> instance_key ` set (sn_Instances sn0)" using arg_cong [OF keys, of set] by auto
  then obtain r where "r \<in> set (instances db)" "li_lab_id r = l" "instance_key i = instance_key (scanInstance r)"
    by (auto simp: rows)
  then show "\<exists>r \<in> set (instances db). li_lab_id r = l \<and>
      li_instance_name r = in_ID i \<and> li_processing_speed r = in_ProcessingSpeed i \<and> li_max_load r = in_MaxLoad i"
    by (auto simp: scanInstance_def instance_key_def)
qed

lemma DecorateSnapshot_keys:
  "keeps_keys (map_option (\<lambda>c x. fst (DecorateSnapshot c1 c2 c x)) observer)"
proof -
  have "instance_key (decorate_instance ms now i) = instance_key i" for ms now i
    by (auto simp: instance_key_def decorate_instance_def Let_def case_prod_beta split: option.splits)
  then show ?thesis by (auto simp: keeps_keys_def DecorateSnapshot_def Let_def comp_def)
qed

text \<open>The cases of \<open>Submit\<close> in which something was sent.\<close>

lemma traffic_Submit_sent:
  assumes "traffic_Submit labs client now u l request (limiter, observer, net) = (res, limiter', observer', net')"
    and "is_ok res \<or> net' \<noteq> net \<or> observer' \<noteq> observer"
  obtains sn where "u \<noteq> 0" "traffic_validLabID l" "validBatch request" "fst (Allow now u limiter)"
    "labs l u = Inr sn" "se_Status (sn_Lab sn) = Running"
    "\<forall>r. res = Inr r \<longrightarrow> (\<exists>r0. fst (client l request net) = Inr r0 \<and> validResult sn request r0 \<and>
       r = r0\<lparr>tr_Path := [''user-pool'', ''lab-gateway'', tr_TargetInstanceID r0]\<rparr>)"
  using assms unfolding traffic_Submit_def
  by (auto simp: Let_def split: if_splits prod.splits sum.splits)

text \<open>
  Claim C27. Traffic reaches the gateway, an observation the balancer and an answer the user only
  for a batch that is well formed and within the limit of the user, of a lab that the user owns
  and that is running. An answer that is shown splits the requested units into accepted and
  dropped ones, and comes from an instance of that lab with the speed and the capacity that the
  platform has recorded for it.
\<close>

theorem traffic_owned_and_running:
  assumes "traffic_Submit (\<lambda>l u. svc_Snapshot flt lt clock
        (map_option (\<lambda>c x. fst (DecorateSnapshot c1 c2 c x)) observer) l u db)
      client now u l request (limiter, observer, net) = (res, limiter', observer', net')"
    and "is_ok res \<or> net' \<noteq> net \<or> observer' \<noteq> observer"
  shows "\<exists>s. find_session l db = Some s \<and> ls_user_id s = u \<and> ls_status s = Running \<and>
    validBatch request \<and> fst (Allow now u limiter) \<and>
    (\<forall>r. res = Inr r \<longrightarrow> 0 \<le> tr_AcceptedUnits r \<and> 0 \<le> tr_DroppedUnits r \<and>
      tr_AcceptedUnits r + tr_DroppedUnits r = rq_RequestUnits request \<and>
      tr_BatchID r = rq_BatchID request \<and> tr_LabID r = l \<and>
      tr_Path r = [''user-pool'', ''lab-gateway'', tr_TargetInstanceID r] \<and>
      (\<exists>i \<in> set (instances db). li_lab_id i = l \<and> li_instance_name i = tr_TargetInstanceID r \<and>
         li_processing_speed i = is_ProcessingSpeed (tr_InstanceState r) \<and>
         li_max_load i = is_MaxLoad (tr_InstanceState r)))"
proof -
  let ?d = "map_option (\<lambda>c x. fst (DecorateSnapshot c1 c2 c x)) observer"
  obtain sn where "u \<noteq> 0" "traffic_validLabID l" and sn: "validBatch request" "fst (Allow now u limiter)"
    "svc_Snapshot flt lt clock ?d l u db = Inr sn" "se_Status (sn_Lab sn) = Running"
    and res: "\<forall>r. res = Inr r \<longrightarrow> (\<exists>r0. fst (client l request net) = Inr r0 \<and> validResult sn request r0 \<and>
       r = r0\<lparr>tr_Path := [''user-pool'', ''lab-gateway'', tr_TargetInstanceID r0]\<rparr>)"
    by (rule traffic_Submit_sent [OF assms])
  note d = DecorateSnapshot_keys [of c1 c2 observer]
  obtain s where s: "find_session l db = Some s" "ls_user_id s = u" "se_Status (sn_Lab sn) = ls_status s"
    "se_ID (sn_Lab sn) = ls_id s"
    using svc_Snapshot_row(1) [OF sn(3) d] by blast
  have id: "ls_id s = l" using s(1) by (auto simp: find_session_def find_Some_iff)
  have "0 \<le> tr_AcceptedUnits r \<and> 0 \<le> tr_DroppedUnits r \<and>
      tr_AcceptedUnits r + tr_DroppedUnits r = rq_RequestUnits request \<and>
      tr_BatchID r = rq_BatchID request \<and> tr_LabID r = l \<and>
      tr_Path r = [''user-pool'', ''lab-gateway'', tr_TargetInstanceID r] \<and>
      (\<exists>i \<in> set (instances db). li_lab_id i = l \<and> li_instance_name i = tr_TargetInstanceID r \<and>
         li_processing_speed i = is_ProcessingSpeed (tr_InstanceState r) \<and>
         li_max_load i = is_MaxLoad (tr_InstanceState r))" if rs: "res = Inr r" for r
  proof -
    obtain r0 where v: "validResult sn request r0"
      and r: "r = r0\<lparr>tr_Path := [''user-pool'', ''lab-gateway'', tr_TargetInstanceID r0]\<rparr>"
      using res rs by blast
    obtain i where i: "i \<in> set (sn_Instances sn)" "reported_by r0 i"
      using v by (auto simp: validResult_def list_ex_iff split: if_splits)
    have "valid_counts sn request r0" using v by (auto simp: validResult_def split: if_splits)
    then show ?thesis
      using svc_Snapshot_row(2) [OF sn(3) d i(1)] i(2)
      by (auto simp: r valid_counts_def reported_by_def s(4) id)
  qed
  then show ?thesis using s(1-3) sn by auto
qed

definition answered :: TrafficBatchResult where
  "answered = \<lparr>tr_BatchID = ''b-02'', tr_LabID = sample_labID, tr_Status = ''accepted'', tr_OccurredAt = 9000,
     tr_Path = [], tr_TargetInstanceID = ''app-2'', tr_ReceivedUnits = 1, tr_AcceptedUnits = 1,
     tr_DroppedUnits = 0, tr_InstanceState = \<lparr>is_ProcessingSpeed = 10, is_MaxLoad = 100, is_CurrentLoad = 1,
       is_LoadRatio = fl (1 / 100), is_LoadState = ''idle'', is_ObservedAt = 9000\<rparr>, tr_Cache = None\<rparr>"

theorem traffic_owned_and_running_witness:
  "\<exists>s. find_session sample_labID sample_cluster = Some s \<and> ls_user_id s = 7 \<and> ls_status s = Running"
proof -
  let ?rq = "\<lparr>rq_BatchID = ''b-02'', rq_ProductID = 1, rq_RequestUnits = 1\<rparr>"
  let ?submit = "traffic_Submit (\<lambda>l u. svc_Snapshot no_fault DefaultLifetimeConfig 5000
      (map_option (\<lambda>c x. fst (DecorateSnapshot 5000 5000 c x)) None) l u sample_cluster)
    (\<lambda>_ _ n. (Inr answered, Suc n)) 8000 7 sample_labID ?rq (NewLimiter 10 10 2048, None, 0)"
  have "is_ok (fst ?submit)" by code_simp
  moreover obtain r l ob n where "?submit = (r, l, ob, n)" by (metis prod.exhaust)
  ultimately show ?thesis
    using traffic_owned_and_running [of no_fault DefaultLifetimeConfig 5000 5000 5000 None sample_cluster
        "\<lambda>_ _ n. (Inr answered, Suc n)" 8000 7 sample_labID ?rq "NewLimiter 10 10 2048" 0 r l ob n] by auto
qed

subsection \<open>The results of the lab application\<close>

text \<open>
  Claim C29. A result that the order processor of an instance computes for a well-formed batch is
  accepted by the platform, if the platform has recorded the lab, the instance, its speed and its
  capacity, exactly when the ratio it reports agrees with the ratio the platform computes from
  the load it reports. The two are rounded to thousandths in a different order.
\<close>

theorem order_result_accepted:
  assumes c: "load_config_ok (op_config p)" "load_ok (op_config p) (op_currentLoad p)"
    and run: "order_Process flt now p db request = (Inr r, p', db')" and now: "now \<noteq> 0"
    and sn: "se_ID (sn_Lab sn) = lc_LabID (op_config p)" "se_ScenarioType (sn_Lab sn) \<noteq> ''multi_level_cache''"
      "i \<in> set (sn_Instances sn)" "in_ID i = lc_InstanceID (op_config p)"
      "in_ProcessingSpeed i = lc_ProcessingSpeed (op_config p)" "in_MaxLoad i = lc_MaxLoad (op_config p)"
  shows "validResult sn request r \<longleftrightarrow> ratio_agrees (tr_InstanceState r)"
proof -
  note parts = order_Process_Inr [OF run]
  let ?load = "snd (order_allocate p request now)" and ?m = "lc_MaxLoad (op_config p)"
  have a: "order_alloc (op_config p) (op_currentLoad p) (op_lastUpdatedAt p) (rq_RequestUnits request) now =
      (tr_AcceptedUnits r, tr_DroppedUnits r, ?load)"
    using order_allocate_alloc parts(2) by simp
  have split: "0 \<le> tr_AcceptedUnits r" "0 \<le> tr_DroppedUnits r"
    "tr_AcceptedUnits r + tr_DroppedUnits r = rq_RequestUnits request"
    using order_load.alloc_split [OF a c parts(1)] by auto
  have load: "0 \<le> ?load" "?load \<le> of_int ?m"
    using order_load.alloc_load_ok [OF a c parts(1)] by (simp_all add: load_ok_def)
  have m: "0 < ?m" "?m \<le> 2 ^ 43" "0 < lc_ProcessingSpeed (op_config p)" using c(1) by (simp_all add: load_config_ok_def)
  have fields: "tr_BatchID r = rq_BatchID request" "tr_LabID r = lc_LabID (op_config p)" "tr_OccurredAt r = now"
    "tr_ReceivedUnits r = rq_RequestUnits request" "tr_TargetInstanceID r = lc_InstanceID (op_config p)"
    "tr_Cache r = None" "is_ProcessingSpeed (tr_InstanceState r) = lc_ProcessingSpeed (op_config p)"
    "is_MaxLoad (tr_InstanceState r) = ?m" "is_CurrentLoad (tr_InstanceState r) = roundThree ?load"
    "is_ObservedAt (tr_InstanceState r) = now"
    "is_LoadState (tr_InstanceState r) = loadState (is_LoadRatio (tr_InstanceState r))"
    "tr_Status r = (if tr_AcceptedUnits r = 0 then ''dropped''
       else if tr_DroppedUnits r > 0 then ''partially_accepted'' else ''accepted'')"
    unfolding parts(2) by (simp_all only: order_allocate_def Let_def fst_conv snd_conv TrafficBatchResult.simps InstanceState.simps)
  have "float64 ?m = of_int ?m" using m by (intro float64_int) simp
  then have l: "0 \<le> is_CurrentLoad (tr_InstanceState r)" "is_CurrentLoad (tr_InstanceState r) \<le> float64 ?m"
    using roundThree_bounds [OF load] m by (simp_all add: fields)
  have "valid_counts sn request r"
    using split l now m sn(1) unfolding valid_counts_def fields IsZero_def by auto
  moreover have "valid_status r" using split parts(1) unfolding valid_status_def fields by auto
  moreover have "valid_load_state (is_LoadState (tr_InstanceState r))"
    using loadState_cases [of "is_LoadRatio (tr_InstanceState r)"] unfolding valid_load_state_def fields by auto
  moreover have "list_ex (reported_by r) (sn_Instances sn)"
    using sn(3-6) by (auto simp: list_ex_iff reported_by_def fields)
  ultimately show ?thesis using sn(2) by (simp add: validResult_def fields)
qed

text \<open>
  The check refuses genuine results: an instance of capacity 100 and speed 10 that takes 20 units
  and, five milliseconds later, one more, reports the load 20.95 and the ratio 0.209, for which the
  platform expects 0.21.
\<close>

definition loaded :: order_processor where
  "loaded = \<lparr>op_config = \<lparr>lc_LabID = ''lab-1'', lc_InstanceID = ''app-1'', lc_ProcessingSpeed = 10, lc_MaxLoad = 100\<rparr>,
     op_currentLoad = 20, op_lastUpdatedAt = 1000000000\<rparr>"

definition one_order :: TrafficBatchRequest where
  "one_order = \<lparr>rq_BatchID = ''b-02'', rq_ProductID = 1, rq_RequestUnits = 1\<rparr>"

lemma order_load_alloc:
  "snd (order_allocate p request now) = snd (snd (alloc_core (lc_MaxLoad (op_config p))
     (settle (lc_ProcessingSpeed (op_config p)) (op_currentLoad p) (op_lastUpdatedAt p) now) (rq_RequestUnits request)))"
  using order_allocate_alloc [of p request now] by (simp add: order_alloc_core)

lemma order_ratio_alloc:
  "is_LoadRatio (tr_InstanceState (fst (order_allocate p request now))) =
     roundThree (fl (snd (order_allocate p request now) / float64 (lc_MaxLoad (op_config p))))"
  "is_CurrentLoad (tr_InstanceState (fst (order_allocate p request now))) =
     roundThree (snd (order_allocate p request now))"
  "is_MaxLoad (tr_InstanceState (fst (order_allocate p request now))) = lc_MaxLoad (op_config p)"
  by (simp_all only: order_allocate_def Let_def fst_conv snd_conv TrafficBatchResult.simps InstanceState.simps)

text \<open>The arithmetic of the samples below.\<close>

lemma sample_arithmetic:
  "settle 10 0 0 1000000000 = 0 \<and> alloc_core 100 0 20 = (20, 0, 20) \<and>
   settle 10 20 1000000000 1005010000 = (1403849409469979 / 70368744177664) \<and>
   alloc_core 100 (1403849409469979 / 70368744177664) 1 = (1, 0, (1474218153647643 / 70368744177664)) \<and>
   settle 10 20 1000000000 1000000000 = 20 \<and> alloc_core 100 20 1 = (1, 0, 21)"
  by code_simp

lemma sample_rounding:
  "roundThree (fl ((1474218153647643 / 70368744177664) / float64 100)) = fl (209 / 1000) \<and>
   roundThree (1474218153647643 / 70368744177664) = fl (2095 / 100) \<and>
   fl (of_int (Round (fl (fl (fl (2095 / 100) / float64 100) * 1000))) / 1000) = fl (21 / 100) \<and>
   \<bar>fl (fl (209 / 1000) - fl (21 / 100))\<bar> > fl (1 / 1000) \<and>
   roundThree (fl (21 / float64 100)) = fl (21 / 100) \<and> roundThree 21 = 21 \<and>
   fl (of_int (Round (fl (fl (21 / float64 100) * 1000))) / 1000) = fl (21 / 100)"
  by code_simp

lemma loaded_reached:
  "map_option (\<lambda>p. p\<lparr>op_currentLoad := snd (order_allocate p
       \<lparr>rq_BatchID = ''b-01'', rq_ProductID = 1, rq_RequestUnits = 20\<rparr> 1000000000),
     op_lastUpdatedAt := 1000000000\<rparr>) (NewProcessor (op_config loaded)) = Some loaded"
  by (simp add: NewProcessor_def loaded_def order_load_alloc sample_arithmetic)

lemma genuine_load: "snd (order_allocate loaded one_order 1005010000) = (1474218153647643 / 70368744177664)"
proof -
  have "settle 10 20 1000000000 1005010000 = (1403849409469979 / 70368744177664)" "alloc_core 100 (1403849409469979 / 70368744177664) 1 = (1, 0, (1474218153647643 / 70368744177664))"
    using sample_arithmetic by blast+
  then show ?thesis
    by (simp only: loaded_def one_order_def order_load_alloc order_processor.simps load_config.simps
        TrafficBatchRequest.simps snd_conv)
qed

lemma genuine_ratio:
  "is_LoadRatio (tr_InstanceState (fst (order_allocate loaded one_order 1005010000))) = fl (209 / 1000)"
  "is_CurrentLoad (tr_InstanceState (fst (order_allocate loaded one_order 1005010000))) = fl (2095 / 100)"
  "is_MaxLoad (tr_InstanceState (fst (order_allocate loaded one_order 1005010000))) = 100"
proof -
  have m: "lc_MaxLoad (op_config loaded) = 100" by (simp add: loaded_def)
  have "roundThree (fl ((1474218153647643 / 70368744177664) / float64 100)) = fl (209 / 1000)" "roundThree (1474218153647643 / 70368744177664) = fl (2095 / 100)"
    using sample_rounding by blast+
  then show "is_LoadRatio (tr_InstanceState (fst (order_allocate loaded one_order 1005010000))) = fl (209 / 1000)"
    "is_CurrentLoad (tr_InstanceState (fst (order_allocate loaded one_order 1005010000))) = fl (2095 / 100)"
    by (simp_all only: order_ratio_alloc genuine_load m)
  show "is_MaxLoad (tr_InstanceState (fst (order_allocate loaded one_order 1005010000))) = 100"
    by (simp only: order_ratio_alloc m)
qed

lemma genuine_result_refused:
  "\<not> validResult sn one_order (fst (order_allocate loaded one_order 1005010000))"
proof -
  have "fl (of_int (Round (fl (fl (fl (2095 / 100) / float64 100) * 1000))) / 1000) = fl (21 / 100)"
    using sample_rounding by blast
  then have "expectedRatio (tr_InstanceState (fst (order_allocate loaded one_order 1005010000))) = fl (21 / 100)"
    by (simp only: expectedRatio_def genuine_ratio)
  moreover have "\<bar>fl (fl (209 / 1000) - fl (21 / 100))\<bar> > fl (1 / 1000)" using sample_rounding by blast
  ultimately have "\<not> ratio_agrees (tr_InstanceState (fst (order_allocate loaded one_order 1005010000)))"
    by (simp only: ratio_agrees_def genuine_ratio not_not)
  then show ?thesis by (simp add: validResult_def)
qed

text \<open>The same batch without the delay is accepted.\<close>

definition loaded_snapshot :: Snapshot where
  "loaded_snapshot = \<lparr>sn_Lab = (scanSession (sample_session ''application_cluster''))\<lparr>se_ID := ''lab-1''\<rparr>,
     sn_Instances = [scanInstance (sample_instance ''lab-1'' ''app-1'')], sn_Redis = None, sn_Gateway = ''running'',
     sn_Nodes = [], sn_Edges = [], sn_Resources = [], sn_LatestOperation = None,
     sn_RequestUnits = zero_policy, sn_GenerationIntervalMS = zero_policy\<rparr>"

theorem order_result_accepted_witness:
  "\<exists>r p' db'. order_Process (\<lambda>_. False) 1000000000 loaded
      \<lparr>products = [\<lparr>cp_ID = 1, cp_Name = ''a'', cp_Category = ''b'', cp_Version = 1\<rparr>], order_stats = []\<rparr> one_order =
      (Inr r, p', db') \<and> validResult loaded_snapshot one_order r"
proof -
  let ?db = "\<lparr>products = [\<lparr>cp_ID = 1, cp_Name = ''a'', cp_Category = ''b'', cp_Version = 1\<rparr>], order_stats = []\<rparr>"
  let ?r = "fst (order_allocate loaded one_order 1000000000)" and ?i = "scanInstance (sample_instance ''lab-1'' ''app-1'')"
  obtain r p' db' where run: "order_Process (\<lambda>_. False) 1000000000 loaded ?db one_order = (Inr r, p', db')"
    by (simp add: order_Process_def product_Require_def find_product_def order_Add_def Let_def
        case_prod_beta one_order_def)
  have r: "r = ?r" using order_Process_Inr(2) [OF run] .
  have m: "lc_MaxLoad (op_config loaded) = 100" by (simp add: loaded_def)
  have "settle 10 20 1000000000 1000000000 = 20" "alloc_core 100 20 1 = (1, 0, 21)"
    using sample_arithmetic by blast+
  then have l: "snd (order_allocate loaded one_order 1000000000) = 21"
    by (simp only: loaded_def one_order_def order_load_alloc order_processor.simps load_config.simps
        TrafficBatchRequest.simps snd_conv)
  have v: "roundThree (fl (21 / float64 100)) = fl (21 / 100)" "roundThree 21 = 21"
    "fl (of_int (Round (fl (fl (21 / float64 100) * 1000))) / 1000) = fl (21 / 100)" using sample_rounding by blast+
  have "ratio_agrees (tr_InstanceState ?r)"
    unfolding ratio_agrees_def expectedRatio_def order_ratio_alloc l m v by (simp add: fl_nonneg not_less)
  moreover have "validResult loaded_snapshot one_order r \<longleftrightarrow> ratio_agrees (tr_InstanceState r)"
    using run by (rule order_result_accepted [where i = ?i and now = 1000000000, rotated 2])
      (simp_all add: loaded_def loaded_snapshot_def scanSession_def scanInstance_def sample_session_def
        sample_instance_def load_config_ok_def load_ok_def)
  ultimately show ?thesis using run r by blast
qed

end
