(* ===== verification/LoginLimiter.thy ===== *)
theory LoginLimiter
  imports Eviction
begin

text \<open>
  The limit on failed logins, \<^verbatim>\<open>services/platform-api/internal/auth/limiter.go\<close>: the failures of a
  key in a window, in a bounded table. A key with the maximal number of failures is blocked.
\<close>

record limitEntry =
  lm_windowStartedAt :: gotime
  lm_failures :: int
  lm_blockedUntil :: gotime
  lm_updatedAt :: gotime

definition zero_limit :: limitEntry where
  "zero_limit = \<lparr>lm_windowStartedAt = 0, lm_failures = 0, lm_blockedUntil = 0, lm_updatedAt = 0\<rparr>"

record login_limiter =
  ll_entries :: "(string \<times> limitEntry) list"
  ll_window :: duration
  ll_maxFailures :: int
  ll_blockDuration :: duration
  ll_maxEntries :: int

definition login_NewLimiter :: "duration \<Rightarrow> int \<Rightarrow> duration \<Rightarrow> int \<Rightarrow> login_limiter" where
  "login_NewLimiter window maxFailures blockDuration maxEntries =
     \<lparr>ll_entries = [], ll_window = window, ll_maxFailures = maxFailures,
      ll_blockDuration = blockDuration, ll_maxEntries = maxEntries\<rparr>"

definition expired_entry :: "gotime \<Rightarrow> duration \<Rightarrow> limitEntry \<Rightarrow> bool" where
  "expired_entry now window entry =
     (Sub now (lm_windowStartedAt entry) \<ge> window \<and>
      (IsZero (lm_blockedUntil entry) \<or> \<not> now < lm_blockedUntil entry))"

definition login_prune :: "gotime \<Rightarrow> login_limiter \<Rightarrow> login_limiter" where
  "login_prune now l = l\<lparr>ll_entries := filter (\<lambda>(k, e). \<not> expired_entry now (ll_window l) e) (ll_entries l)\<rparr>"

definition evict_login :: "(string \<times> limitEntry) list \<Rightarrow> (string \<times> limitEntry) list" where
  "evict_login es = AList.delete (scan_oldest [] lm_updatedAt es [] 0) es"

definition makeRoom :: "login_limiter \<Rightarrow> login_limiter" where
  "makeRoom l = (if int (length (ll_entries l)) < ll_maxEntries l then l
     else l\<lparr>ll_entries := evict_login (ll_entries l)\<rparr>)"

definition Blocked :: "string \<Rightarrow> gotime \<Rightarrow> login_limiter \<Rightarrow> bool \<times> login_limiter" where
  "Blocked key now l =
     (let l1 = login_prune now l
      in (case map_of (ll_entries l1) key of None \<Rightarrow> False | Some e \<Rightarrow> now < lm_blockedUntil e, l1))"

definition count_failure :: "gotime \<Rightarrow> login_limiter \<Rightarrow> limitEntry \<Rightarrow> limitEntry" where
  "count_failure now l entry =
     (let e1 = (if Sub now (lm_windowStartedAt entry) \<ge> ll_window l
                then entry\<lparr>lm_windowStartedAt := now, lm_failures := 0\<rparr> else entry);
          e2 = e1\<lparr>lm_failures := lm_failures e1 + 1, lm_updatedAt := now\<rparr>
      in if lm_failures e2 \<ge> ll_maxFailures l then e2\<lparr>lm_blockedUntil := now + ll_blockDuration l\<rparr> else e2)"

definition Failure :: "string \<Rightarrow> gotime \<Rightarrow> login_limiter \<Rightarrow> login_limiter" where
  "Failure key now l =
     (let l1 = login_prune now l;
          (entry, l2) = (case map_of (ll_entries l1) key of
              Some e \<Rightarrow> (e, l1)
            | None \<Rightarrow> (zero_limit\<lparr>lm_windowStartedAt := now\<rparr>, makeRoom l1))
      in l2\<lparr>ll_entries := AList.update key (count_failure now l entry) (ll_entries l2)\<rparr>)"

definition Success :: "string \<Rightarrow> login_limiter \<Rightarrow> login_limiter" where
  "Success key l = l\<lparr>ll_entries := AList.delete key (ll_entries l)\<rparr>"

interpretation login_table: eviction "[] :: string" lm_updatedAt evict_login
proof unfold_locales
  fix es :: "(string \<times> limitEntry) list"
  assume "wf_map es" "[] \<notin> set (keys es)" "es \<noteq> []"
  then show "\<exists>k e. (k, e) \<in> set es \<and> evict_login es = AList.delete k es \<and>
      (\<forall>(k', e') \<in> set es. lm_updatedAt e \<le> lm_updatedAt e')"
    using scan_oldest_least [of "[]" es lm_updatedAt 0] unfolding evict_login_def by blast
qed

subsection \<open>Sequences of calls\<close>

datatype login_event = Checked string gotime | Failed_at string gotime | Succeeded string

fun event_step :: "login_event \<Rightarrow> login_limiter \<Rightarrow> login_limiter" where
  "event_step (Checked key now) l = snd (Blocked key now l)"
| "event_step (Failed_at key now) l = Failure key now l"
| "event_step (Succeeded key) l = Success key l"

fun event_key :: "login_event \<Rightarrow> string" where
  "event_key (Checked key now) = key"
| "event_key (Failed_at key now) = key"
| "event_key (Succeeded key) = key"

fun event_times :: "login_event list \<Rightarrow> gotime list" where
  "event_times [] = []"
| "event_times (Checked key now # es) = now # event_times es"
| "event_times (Failed_at key now # es) = now # event_times es"
| "event_times (Succeeded key # es) = event_times es"

fun failures_of :: "string \<Rightarrow> login_event list \<Rightarrow> gotime list" where
  "failures_of key [] = []"
| "failures_of key (Failed_at k now # es) = (if k = key then now # failures_of key es else failures_of key es)"
| "failures_of key (_ # es) = failures_of key es"

text \<open>What the limiter knows of a key after its failures \<open>ts\<close> in one window.\<close>

definition knows :: "string \<Rightarrow> gotime list \<Rightarrow> login_limiter \<Rightarrow> bool" where
  "knows key ts l =
     (if ts = [] then map_of (ll_entries l) key = None
      else \<exists>e. map_of (ll_entries l) key = Some e \<and> lm_windowStartedAt e = hd ts \<and>
        lm_failures e = int (length ts) \<and>
        lm_blockedUntil e = (if ll_maxFailures l \<le> int (length ts) then last ts + ll_blockDuration l else 0))"

definition keys_within :: "string set \<Rightarrow> login_limiter \<Rightarrow> bool" where
  "keys_within K l = (finite K \<and> wf_map (ll_entries l) \<and> set (keys (ll_entries l)) \<subseteq> K \<and> int (card K) \<le> ll_maxEntries l)"

lemma prune_config [simp]:
  "ll_window (login_prune now l) = ll_window l" "ll_maxFailures (login_prune now l) = ll_maxFailures l"
  "ll_blockDuration (login_prune now l) = ll_blockDuration l" "ll_maxEntries (login_prune now l) = ll_maxEntries l"
  by (simp_all add: login_prune_def)

lemma prune_within: "keys_within K l \<Longrightarrow> keys_within K (login_prune now l)"
  by (auto simp: keys_within_def login_prune_def keys_def)

lemma map_of_login_prune:
  "wf_map (ll_entries l) \<Longrightarrow> map_of (ll_entries (login_prune now l)) k =
     (case map_of (ll_entries l) k of None \<Rightarrow> None
      | Some e \<Rightarrow> if expired_entry now (ll_window l) e then None else Some e)"
  by (auto simp: login_prune_def map_of_filter_wf split: option.splits)

text \<open>In the window of the first failure an entry is not pruned.\<close>

lemma prune_knows:
  assumes "knows key ts l" "keys_within K l" "ts \<noteq> [] \<Longrightarrow> now < hd ts + ll_window l"
    "0 < ll_window l" "ll_window l < 2 ^ 63"
  shows "knows key ts (login_prune now l)"
proof (cases "ts = []")
  case True
  then show ?thesis using assms(1,2) by (simp add: knows_def map_of_login_prune keys_within_def)
next
  case False
  then obtain e where e: "map_of (ll_entries l) key = Some e" "lm_windowStartedAt e = hd ts"
    using assms(1) by (auto simp: knows_def)
  have "\<not> expired_entry now (ll_window l) e"
    using assms(3-5) False by (auto simp: expired_entry_def e(2) Sub_ge_iff)
  then show ?thesis using assms(1,2) False e(1) by (auto simp: knows_def map_of_login_prune keys_within_def)
qed

text \<open>With room in the table a failure only touches the entry of its key.\<close>

lemma Failure_room:
  assumes "keys_within K l" "k \<in> K"
  shows "Failure k now l = (let l1 = login_prune now l in l1\<lparr>ll_entries := AList.update k
    (count_failure now l (case map_of (ll_entries l1) k of Some e \<Rightarrow> e
       | None \<Rightarrow> zero_limit\<lparr>lm_windowStartedAt := now\<rparr>)) (ll_entries l1)\<rparr>)"
proof -
  let ?l = "login_prune now l"
  have w: "keys_within K ?l" using assms(1) by (rule prune_within)
  have "int (length (ll_entries ?l)) < ll_maxEntries ?l" if "map_of (ll_entries ?l) k = None"
  proof -
    have "set (keys (ll_entries ?l)) \<subset> K"
      using w assms(2) that by (auto simp: keys_within_def map_of_None_keys)
    then have "card (set (keys (ll_entries ?l))) < card K"
      using w by (intro psubset_card_mono) (simp_all add: keys_within_def)
    moreover have "card (set (keys (ll_entries ?l))) = length (ll_entries ?l)"
      using w distinct_card [of "keys (ll_entries ?l)"] by (simp add: keys_within_def wf_map_def keys_def)
    ultimately show ?thesis using w by (simp add: keys_within_def)
  qed
  then show ?thesis by (auto simp: Failure_def Let_def makeRoom_def split: option.splits)
qed

lemma event_config [simp]:
  "ll_window (event_step e l) = ll_window l" "ll_maxFailures (event_step e l) = ll_maxFailures l"
  "ll_blockDuration (event_step e l) = ll_blockDuration l" "ll_maxEntries (event_step e l) = ll_maxEntries l"
  by (cases e; simp add: Blocked_def Failure_def Success_def makeRoom_def Let_def split: option.splits)+

lemma event_within:
  assumes "keys_within K l" "event_key e \<in> K"
  shows "keys_within K (event_step e l)"
proof (cases e)
  case (Failed_at k now)
  have "keys_within K (login_prune now l)" using assms(1) by (rule prune_within)
  moreover have "k \<in> K" using assms(2) by (simp add: Failed_at)
  ultimately show ?thesis
    unfolding Failed_at event_step.simps Failure_room [OF assms(1) \<open>k \<in> K\<close>]
    by (simp add: Let_def keys_within_def keys_update)
next
  case (Checked k now)
  then show ?thesis using assms(1) by (simp add: Blocked_def Let_def prune_within)
next
  case (Succeeded k)
  then show ?thesis using assms(1) by (auto simp: Success_def keys_within_def keys_def set_delete)
qed

lemma count_failure_knows:
  assumes "ts \<noteq> [] \<Longrightarrow> now < hd ts + ll_window l" "0 < ll_window l" "ll_window l < 2 ^ 63"
    and "if ts = [] then e = zero_limit\<lparr>lm_windowStartedAt := now\<rparr> else
      lm_windowStartedAt e = hd ts \<and> lm_failures e = int (length ts) \<and>
      lm_blockedUntil e = (if ll_maxFailures l \<le> int (length ts) then last ts + ll_blockDuration l else 0)"
  shows "lm_windowStartedAt (count_failure now l e) = hd (ts @ [now]) \<and>
    lm_failures (count_failure now l e) = int (length (ts @ [now])) \<and>
    lm_blockedUntil (count_failure now l e) =
      (if ll_maxFailures l \<le> int (length (ts @ [now])) then now + ll_blockDuration l else 0)"
  using assms by (cases ts) (auto simp: count_failure_def Let_def zero_limit_def Sub_ge_iff)

lemma event_knows:
  assumes k: "knows key ts l" and w: "keys_within K l" "event_key e \<in> K"
    and win: "\<forall>now \<in> set (event_times [e]). ts \<noteq> [] \<longrightarrow> now < hd ts + ll_window l"
      "0 < ll_window l" "ll_window l < 2 ^ 63"
    and s: "e \<noteq> Succeeded key"
  shows "knows key (ts @ failures_of key [e]) (event_step e l)"
proof (cases e)
  case (Checked k' now)
  then show ?thesis using prune_knows [OF k w(1)] win by (simp add: Blocked_def Let_def)
next
  case (Succeeded k')
  then have "k' \<noteq> key" using s by simp
  then show ?thesis using k by (auto simp: Succeeded knows_def Success_def)
next
  case (Failed_at k' now)
  have n: "ts \<noteq> [] \<Longrightarrow> now < hd ts + ll_window l" using win(1) by (simp add: Failed_at)
  let ?l = "login_prune now l"
  have k1: "knows key ts ?l" using prune_knows [OF k w(1) n win(2,3)] .
  have F: "event_step e l = ?l\<lparr>ll_entries := AList.update k'
    (count_failure now l (case map_of (ll_entries ?l) k' of Some e \<Rightarrow> e
       | None \<Rightarrow> zero_limit\<lparr>lm_windowStartedAt := now\<rparr>)) (ll_entries ?l)\<rparr>"
    using Failure_room [OF w(1), of k' now] w(2) by (simp add: Failed_at Let_def)
  show ?thesis
  proof (cases "k' = key")
    case False
    then show ?thesis using k1 unfolding F by (auto simp: Failed_at knows_def)
  next
    case True
    let ?e = "case map_of (ll_entries ?l) key of Some e \<Rightarrow> e | None \<Rightarrow> zero_limit\<lparr>lm_windowStartedAt := now\<rparr>"
    have "if ts = [] then ?e = zero_limit\<lparr>lm_windowStartedAt := now\<rparr> else
      lm_windowStartedAt ?e = hd ts \<and> lm_failures ?e = int (length ts) \<and>
      lm_blockedUntil ?e = (if ll_maxFailures l \<le> int (length ts) then last ts + ll_blockDuration l else 0)"
      using k1 by (auto simp: knows_def split: if_splits)
    then show ?thesis
      using count_failure_knows [OF n win(2,3), of ?e] True unfolding F by (simp add: Failed_at knows_def)
  qed
qed

lemma run_knows:
  assumes "knows key ts l" "keys_within K l" "event_key ` set es \<subseteq> K"
    and "\<forall>now \<in> set (event_times es). now < hd (ts @ failures_of key es) + ll_window l \<or> ts @ failures_of key es = []"
    and "0 < ll_window l" "ll_window l < 2 ^ 63" "Succeeded key \<notin> set es"
  shows "knows key (ts @ failures_of key es) (fold event_step es l)"
  using assms
proof (induction es arbitrary: ts l)
  case (Cons e es)
  have f: "failures_of key (e # es) = failures_of key [e] @ failures_of key es"
    by (cases e) simp_all
  have t: "event_times (e # es) = event_times [e] @ event_times es" by (cases e) simp_all
  have a: "knows key (ts @ failures_of key [e]) (event_step e l)"
    using Cons.prems by (intro event_knows) (auto simp: f t hd_append)
  show ?case
    using Cons.IH [OF a event_within [OF Cons.prems(2)]] Cons.prems(3-) by (auto simp: f t)
qed simp

text \<open>
  Failed logins lock a key out: from a state in which the limiter knows nothing of it,
  after any calls within one window, other keys included, a key is blocked exactly when it had as
  many failures as the limit, and until the block that its last failure started is over. The table
  must have room for the keys.
\<close>

theorem login_lockout:
  assumes "keys_within K l" "map_of (ll_entries l) key = None" "event_key ` set es \<subseteq> K"
    and "\<forall>t \<in> set (event_times es). t < hd (failures_of key es) + ll_window l"
    and "Succeeded key \<notin> set es" "0 < ll_window l" "ll_window l < 2 ^ 63" "0 < ll_maxFailures l" "0 \<le> now"
  shows "fst (Blocked key now (fold event_step es l)) \<longleftrightarrow>
    ll_maxFailures l \<le> int (length (failures_of key es)) \<and>
    now < last (failures_of key es) + ll_blockDuration l"
proof -
  let ?l = "fold event_step es l"
  have c: "ll_maxFailures (fold event_step es l) = ll_maxFailures l"
    "ll_blockDuration (fold event_step es l) = ll_blockDuration l" for l
    by (induction es arbitrary: l) simp_all
  have w: "keys_within K ?l" using assms(1,3) by (induction es arbitrary: l) (simp_all add: event_within)
  have k: "knows key (failures_of key es) ?l"
    using run_knows [of key "[]" l K es] assms by (simp add: knows_def)
  have B: "fst (Blocked key now ?l) \<longleftrightarrow> (\<exists>e. map_of (ll_entries ?l) key = Some e \<and>
      \<not> expired_entry now (ll_window ?l) e \<and> now < lm_blockedUntil e)"
    using w by (auto simp: Blocked_def Let_def map_of_login_prune keys_within_def split: option.splits)
  show ?thesis
    using k assms(8,9) unfolding B by (auto simp: knows_def c expired_entry_def IsZero_def split: if_splits)
qed

text \<open>Three failures among the calls of two keys, and the block one minute later.\<close>

theorem login_lockout_witness:
  "fst (Blocked ''a'' 60000000500 (fold event_step
     [Failed_at ''a'' 100, Checked ''a'' 200, Failed_at ''b'' 200, Failed_at ''a'' 200, Succeeded ''b'', Failed_at ''a'' 300]
     (login_NewLimiter (5 * Minute) 3 (10 * Minute) 2)))"
proof -
  let ?l = "login_NewLimiter (5 * Minute) 3 (10 * Minute) 2"
  let ?es = "[Failed_at ''a'' 100, Checked ''a'' 200, Failed_at ''b'' 200, Failed_at ''a'' 200, Succeeded ''b'', Failed_at ''a'' 300]"
  have "keys_within {''a'', ''b''} ?l" by (simp add: keys_within_def login_NewLimiter_def keys_def)
  from login_lockout [OF this, of "''a''" ?es 60000000500] show ?thesis
    by (simp add: login_NewLimiter_def)
qed

end
