(* ===== verification/Auth.thy ===== *)
theory Auth
  imports LoginLimiter Database
begin

text \<open>
  Users and sessions, \<^verbatim>\<open>services/platform-api/internal/auth/auth.go\<close> and \<^verbatim>\<open>repository.go\<close>. The digest
  functions and the comparison of passwords are the record \<open>auth_crypto\<close>; how MySQL compares user
  names (\<open>collate\<close>, the sort key of the collation) and the instant it keeps in a \<open>DATETIME(6)\<close>
  column (\<open>dt\<close>) are the record \<open>auth_sql\<close>, with its failures. The instant of the clock and the
  random bytes are arguments, and so is what other requests do to the tables between the two
  statements of \<open>Authenticate\<close>.
\<close>

datatype auth_error = ErrInvalidCredentials | ErrAccountDisabled | ErrInvalidSession | ErrLoginRateLimited
  | ErrUserNotFound | ErrAuthText string | ErrAuthDB string

type_synonym bytes = "nat list"

record auth_crypto =
  cr_bcrypt :: "string \<Rightarrow> string \<Rightarrow> bool"
  cr_sha256 :: "string \<Rightarrow> bytes"
  cr_hmac :: "string \<Rightarrow> string \<Rightarrow> bytes"

record auth_sql =
  sq_collate :: "string \<Rightarrow> string"
  sq_dt :: "gotime \<Rightarrow> gotime"
  sq_fault :: fault

subsection \<open>The tables\<close>

record auth_session_row =
  as_id :: nat
  as_user_id :: nat
  as_session_token_hash :: bytes
  as_csrf_token_hash :: bytes
  as_expires_at :: gotime
  as_last_seen_at :: gotime
  as_revoked_at :: "gotime option"

record auth_db =
  adb_users :: "user_row list"
  adb_sessions :: "auth_session_row list"
  adb_next :: nat

record User =
  u_ID :: nat
  u_Username :: string
  u_Status :: string

record auth_Session =
  ss_ID :: nat
  ss_User :: User
  ss_Token :: string
  ss_CSRFTokenHash :: bytes
  ss_ExpiresAt :: gotime

record LoginResult =
  lg_Session :: auth_Session
  lg_CSRFToken :: string

record userRecord =
  ur_User :: User
  ur_PasswordHash :: string

subsection \<open>The repository\<close>

definition FindUserByUsername :: "auth_sql \<Rightarrow> string \<Rightarrow> auth_db \<Rightarrow> (auth_error, userRecord) result" where
  "FindUserByUsername q username db =
     (if sq_fault q ''find user by username'' then Inl (ErrAuthDB ''find user by username'')
      else case find (\<lambda>r. sq_collate q (us_username r) = sq_collate q username) (adb_users db) of
        None \<Rightarrow> Inl ErrUserNotFound
      | Some r \<Rightarrow> Inr \<lparr>ur_User = \<lparr>u_ID = us_id r, u_Username = us_username r, u_Status = us_status r\<rparr>,
          ur_PasswordHash = us_password_hash r\<rparr>)"

text \<open>The unique key on the hash of the token; the row stays when its identifier cannot be read.\<close>

definition CreateSession ::
  "auth_sql \<Rightarrow> nat \<Rightarrow> bytes \<Rightarrow> bytes \<Rightarrow> gotime \<Rightarrow> gotime \<Rightarrow> auth_db \<Rightarrow> (auth_error, nat) result \<times> auth_db" where
  "CreateSession q userID tokenHash csrfTokenHash expiresAt now db =
     (if sq_fault q ''create auth session'' \<or>
         (\<exists>s \<in> set (adb_sessions db). as_session_token_hash s = tokenHash)
      then (Inl (ErrAuthDB ''create auth session''), db)
      else let db' = db\<lparr>adb_sessions := adb_sessions db @ [\<lparr>as_id = adb_next db, as_user_id = userID,
               as_session_token_hash = tokenHash, as_csrf_token_hash = csrfTokenHash,
               as_expires_at = sq_dt q expiresAt, as_last_seen_at = sq_dt q now, as_revoked_at = None\<rparr>],
             adb_next := adb_next db + 1\<rparr>
      in if sq_fault q ''read auth session id'' then (Inl (ErrAuthDB ''read auth session id''), db')
         else (Inr (adb_next db), db'))"

definition live_session :: "auth_sql \<Rightarrow> gotime \<Rightarrow> auth_session_row \<Rightarrow> bool" where
  "live_session q now s = (as_revoked_at s = None \<and> as_expires_at s > sq_dt q now)"

definition session_user :: "auth_db \<Rightarrow> auth_session_row \<Rightarrow> user_row option" where
  "session_user db s = find (\<lambda>u. us_id u = as_user_id s) (adb_users db)"

definition FindSession :: "auth_sql \<Rightarrow> bytes \<Rightarrow> gotime \<Rightarrow> auth_db \<Rightarrow> (auth_error, auth_Session) result" where
  "FindSession q tokenHash now db =
     (if sq_fault q ''find auth session'' then Inl (ErrAuthDB ''find auth session'')
      else case find (\<lambda>s. as_session_token_hash s = tokenHash \<and> live_session q now s \<and> session_user db s \<noteq> None)
             (adb_sessions db) of
        None \<Rightarrow> Inl ErrInvalidSession
      | Some s \<Rightarrow>
          if length (as_csrf_token_hash s) \<noteq> 32
          then Inl (ErrAuthText ''find auth session: invalid csrf token hash length'')
          else let u = the (session_user db s)
          in Inr \<lparr>ss_ID = as_id s, ss_User = \<lparr>u_ID = us_id u, u_Username = us_username u, u_Status = us_status u\<rparr>,
               ss_Token = [], ss_CSRFTokenHash = as_csrf_token_hash s, ss_ExpiresAt = as_expires_at s\<rparr>)"

definition TouchSession :: "auth_sql \<Rightarrow> nat \<Rightarrow> gotime \<Rightarrow> auth_db \<Rightarrow> auth_error option \<times> auth_db" where
  "TouchSession q sessionID now db =
     (if sq_fault q ''touch auth session'' then (Some (ErrAuthDB ''touch auth session''), db)
      else let (rowsAffected, rows) = exec_update (\<lambda>s. as_id s = sessionID \<and> live_session q now s)
               (\<lambda>s. s\<lparr>as_last_seen_at := sq_dt q now\<rparr>) (adb_sessions db);
             db' = db\<lparr>adb_sessions := rows\<rparr>
      in if sq_fault q ''read touched auth session rows''
         then (Some (ErrAuthDB ''read touched auth session rows''), db')
         else if rowsAffected = 0 then (Some ErrInvalidSession, db') else (None, db'))"

definition RevokeSession :: "auth_sql \<Rightarrow> nat \<Rightarrow> gotime \<Rightarrow> auth_db \<Rightarrow> auth_error option \<times> auth_db" where
  "RevokeSession q sessionID now db =
     (if sq_fault q ''revoke auth session'' then (Some (ErrAuthDB ''revoke auth session''), db)
      else (None, db\<lparr>adb_sessions := snd (exec_update (\<lambda>s. as_id s = sessionID \<and> as_revoked_at s = None)
             (\<lambda>s. s\<lparr>as_revoked_at := Some (sq_dt q now)\<rparr>) (adb_sessions db))\<rparr>))"

subsection \<open>Tokens\<close>

text \<open>\<open>base64.RawURLEncoding\<close>: three bytes give four characters, without padding.\<close>

definition url_char :: "nat \<Rightarrow> char" where
  "url_char n = ''ABCDEFGHIJKLMNOPQRSTUVWXYZabcdefghijklmnopqrstuvwxyz0123456789-_'' ! (n mod 64)"

fun EncodeToString :: "bytes \<Rightarrow> string" where
  "EncodeToString [] = []"
| "EncodeToString [a] = [url_char (a div 4), url_char (a mod 4 * 16)]"
| "EncodeToString [a, b] = [url_char (a div 4), url_char (a mod 4 * 16 + b div 16), url_char (b mod 16 * 4)]"
| "EncodeToString (a # b # c # bs) =
     [url_char (a div 4), url_char (a mod 4 * 16 + b div 16), url_char (b mod 16 * 4 + c div 64), url_char c] @
     EncodeToString bs"

lemma EncodeToString_nonempty: "bs \<noteq> [] \<Longrightarrow> EncodeToString bs \<noteq> []"
  by (induction bs rule: EncodeToString.induct) simp_all

definition randomToken :: "bytes option \<Rightarrow> string option" where
  "randomToken random = map_option EncodeToString random"

definition deriveCSRFToken :: "auth_crypto \<Rightarrow> string \<Rightarrow> string" where
  "deriveCSRFToken c sessionToken =
     EncodeToString (cr_hmac c sessionToken ''backend-learning-platform-csrf-v1'')"

definition loginLimitKey :: "string \<Rightarrow> string \<Rightarrow> string" where
  "loginLimitKey username clientKey = map to_lower (TrimSpace username) @ [CHR 0x00] @ clientKey"

subsection \<open>The service\<close>

definition Login ::
  "auth_crypto \<Rightarrow> auth_sql \<Rightarrow> duration \<Rightarrow> gotime \<Rightarrow> bytes option \<Rightarrow> string \<Rightarrow> string \<Rightarrow> string \<Rightarrow>
   login_limiter \<times> auth_db \<Rightarrow> (auth_error, LoginResult) result \<times> login_limiter \<times> auth_db" where
  "Login c q sessionTTL now random username password clientKey = (\<lambda>(l, db).
     let key = loginLimitKey username clientKey; (blocked, l1) = Blocked key now l in
     if blocked then (Inl ErrLoginRateLimited, l1, db)
     else case FindUserByUsername q (TrimSpace username) db of
       Inl e \<Rightarrow> if e = ErrUserNotFound then (Inl ErrInvalidCredentials, Failure key now l1, db) else (Inl e, l1, db)
     | Inr record \<Rightarrow>
         if \<not> cr_bcrypt c (ur_PasswordHash record) password
         then (Inl ErrInvalidCredentials, Failure key now l1, db)
         else if u_Status (ur_User record) \<noteq> ''active'' then (Inl ErrAccountDisabled, l1, db)
         else case randomToken random of
           None \<Rightarrow> (Inl (ErrAuthText ''generate session token''), l1, db)
         | Some token \<Rightarrow>
             (let csrfToken = deriveCSRFToken c token;
                  csrfTokenHash = cr_sha256 c csrfToken;
                  expiresAt = now + sessionTTL
              in case CreateSession q (u_ID (ur_User record)) (cr_sha256 c token) csrfTokenHash expiresAt now db of
                (Inl e, db') \<Rightarrow> (Inl e, l1, db')
              | (Inr sessionID, db') \<Rightarrow>
                  (Inr \<lparr>lg_Session = \<lparr>ss_ID = sessionID, ss_User = ur_User record, ss_Token = token,
                          ss_CSRFTokenHash = csrfTokenHash, ss_ExpiresAt = expiresAt\<rparr>,
                        lg_CSRFToken = csrfToken\<rparr>, Success key l1, db')))"

definition Authenticate ::
  "auth_crypto \<Rightarrow> auth_sql \<Rightarrow> (auth_db \<Rightarrow> auth_db) \<Rightarrow> gotime \<Rightarrow> string \<Rightarrow> auth_db \<Rightarrow>
   (auth_error, auth_Session) result \<times> auth_db" where
  "Authenticate c q other now token db =
     (if token = [] then (Inl ErrInvalidSession, db)
      else case FindSession q (cr_sha256 c token) now db of
        Inl e \<Rightarrow> (Inl e, db)
      | Inr session \<Rightarrow>
          if u_Status (ss_User session) \<noteq> ''active'' then (Inl ErrInvalidSession, db)
          else if ss_CSRFTokenHash session \<noteq> cr_sha256 c (deriveCSRFToken c token) then (Inl ErrInvalidSession, db)
          else case TouchSession q (ss_ID session) now (other db) of
            (Some e, db') \<Rightarrow> (Inl e, db')
          | (None, db') \<Rightarrow> (Inr (session\<lparr>ss_Token := token\<rparr>), db'))"

definition CSRFToken :: "auth_crypto \<Rightarrow> auth_Session \<Rightarrow> string" where
  "CSRFToken c session = deriveCSRFToken c (ss_Token session)"

definition ValidateCSRF :: "auth_crypto \<Rightarrow> auth_Session \<Rightarrow> string \<Rightarrow> bool" where
  "ValidateCSRF c session token =
     (if token = [] \<or> ss_Token session = [] then False else deriveCSRFToken c (ss_Token session) = token)"

definition Logout :: "auth_sql \<Rightarrow> nat \<Rightarrow> gotime \<Rightarrow> auth_db \<Rightarrow> auth_error option \<times> auth_db" where
  "Logout q sessionID now db = RevokeSession q sessionID now db"

subsection \<open>The invariant of the tables\<close>

definition auth_ok :: "auth_db \<Rightarrow> bool" where
  "auth_ok db = (distinct (map as_id (adb_sessions db)) \<and> distinct (map as_session_token_hash (adb_sessions db)) \<and>
     distinct (map us_id (adb_users db)) \<and>
     (\<forall>s \<in> set (adb_sessions db). as_id s < adb_next db \<and> session_user db s \<noteq> None))"

lemma map_update_row: "(\<And>r. f (g r) = f r) \<Longrightarrow> map (f \<circ> (\<lambda>r. if P r then g r else r)) rows = map f rows"
  by simp

lemma update_sessions_ok:
  assumes "auth_ok db" "\<And>s. as_id (g s) = as_id s \<and> as_session_token_hash (g s) = as_session_token_hash s \<and>
    as_user_id (g s) = as_user_id s"
  shows "auth_ok (db\<lparr>adb_sessions := map (\<lambda>s. if P s then g s else s) (adb_sessions db)\<rparr>)"
  using assms by (auto simp: auth_ok_def session_user_def comp_def if_distrib cong: if_cong)

lemma CreateSession_ok:
  assumes "auth_ok db" "\<exists>u \<in> set (adb_users db). us_id u = userID"
  shows "auth_ok (snd (CreateSession q userID th ch expiresAt now db))"
  using assms by (auto simp: CreateSession_def auth_ok_def session_user_def Let_def find_None_iff)

lemma TouchSession_ok: "auth_ok db \<Longrightarrow> auth_ok (snd (TouchSession q sid now db))"
  by (auto simp: TouchSession_def exec_update_def Let_def intro!: update_sessions_ok)

lemma RevokeSession_ok: "auth_ok db \<Longrightarrow> auth_ok (snd (RevokeSession q sid now db))"
  by (auto simp: RevokeSession_def exec_update_def intro!: update_sessions_ok)

lemma Login_ok:
  assumes "auth_ok db"
  shows "auth_ok (snd (snd (Login c q ttl now random u p k (l, db))))"
proof -
  have "\<exists>r \<in> set (adb_users db). us_id r = u_ID (ur_User rec)" if "FindUserByUsername q x db = Inr rec" for x rec
    using that by (auto simp: FindUserByUsername_def find_Some_iff split: if_splits option.splits)
  then show ?thesis
    using assms CreateSession_ok [OF assms]
    by (auto simp: Login_def Let_def split: prod.splits sum.splits option.splits)
      (metis snd_conv)+
qed

lemma Authenticate_ok:
  assumes "auth_ok db" "\<And>x. auth_ok x \<Longrightarrow> auth_ok (other x)"
  shows "auth_ok (snd (Authenticate c q other now token db))"
  using assms TouchSession_ok [of "other db" q]
  by (auto simp: Authenticate_def split: sum.splits prod.splits option.splits) (metis snd_conv)+

subsection \<open>Finding a session\<close>

lemma find_found: "find P xs = Some x \<Longrightarrow> x \<in> set xs \<and> P x"
  by (auto simp: find_Some_iff)

lemma find_unique:
  assumes "distinct (map f xs)" "x \<in> set xs" "P x" "\<And>y. P y \<Longrightarrow> f y = f x"
  shows "find P xs = Some x"
proof -
  obtain y where y: "find P xs = Some y" using assms(2,3) by (metis find_None_iff option.exhaust)
  then have "y \<in> set xs" "P y" by (auto simp: find_Some_iff)
  then have "y = x" using assms(1,2) assms(4) [of y] by (auto simp: distinct_map inj_on_def)
  then show ?thesis using y by simp
qed

lemma FindSession_row:
  assumes "auth_ok db" "s \<in> set (adb_sessions db)" "live_session q now s" "\<not> sq_fault q ''find auth session''"
    "length (as_csrf_token_hash s) = 32" "u \<in> set (adb_users db)" "us_id u = as_user_id s"
  shows "FindSession q (as_session_token_hash s) now db =
    Inr \<lparr>ss_ID = as_id s, ss_User = \<lparr>u_ID = us_id u, u_Username = us_username u, u_Status = us_status u\<rparr>,
       ss_Token = [], ss_CSRFTokenHash = as_csrf_token_hash s, ss_ExpiresAt = as_expires_at s\<rparr>"
proof -
  have u: "session_user db s = Some u"
    unfolding session_user_def using assms(1,6,7) by (intro find_unique [where f = us_id]) (auto simp: auth_ok_def)
  have "find (\<lambda>r. as_session_token_hash r = as_session_token_hash s \<and> live_session q now r \<and> session_user db r \<noteq> None)
      (adb_sessions db) = Some s"
    using assms(1-3) u by (intro find_unique [where f = as_session_token_hash]) (auto simp: auth_ok_def)
  then show ?thesis using assms(4,5) by (simp add: FindSession_def u Let_def)
qed

lemma FindSession_Inr:
  assumes "FindSession q th now db = Inr x"
  obtains s u where "s \<in> set (adb_sessions db)" "as_session_token_hash s = th" "live_session q now s"
    "u \<in> set (adb_users db)" "us_id u = as_user_id s" "ss_ID x = as_id s" "ss_CSRFTokenHash x = as_csrf_token_hash s"
    "ss_User x = \<lparr>u_ID = us_id u, u_Username = us_username u, u_Status = us_status u\<rparr>" "ss_ExpiresAt x = as_expires_at s" "length (as_csrf_token_hash s) = 32"
proof -
  obtain s where f: "find (\<lambda>s. as_session_token_hash s = th \<and> live_session q now s \<and> session_user db s \<noteq> None)
      (adb_sessions db) = Some s"
    and x: "x = (let u = the (session_user db s) in
       \<lparr>ss_ID = as_id s, ss_User = \<lparr>u_ID = us_id u, u_Username = us_username u, u_Status = us_status u\<rparr>,
          ss_Token = [], ss_CSRFTokenHash = as_csrf_token_hash s, ss_ExpiresAt = as_expires_at s\<rparr>)"
    and n: "length (as_csrf_token_hash s) = 32"
    using assms by (auto simp: FindSession_def Let_def split: if_splits option.splits)
  have s: "s \<in> set (adb_sessions db)" "as_session_token_hash s = th" "live_session q now s" "session_user db s \<noteq> None"
    using find_found [OF f] by auto
  obtain u where u: "session_user db s = Some u" using s(4) by auto
  have "u \<in> set (adb_users db)" "us_id u = as_user_id s" using find_found [OF u [unfolded session_user_def]] by auto
  then show ?thesis using that [OF s(1-3)] n by (simp add: x u Let_def)
qed

lemma TouchSession_None:
  assumes "TouchSession q sid now db = (None, db')"
  shows "\<exists>s \<in> set (adb_sessions db). as_id s = sid \<and> live_session q now s \<and> as_last_seen_at s \<noteq> sq_dt q now"
    "db' = db\<lparr>adb_sessions := map (\<lambda>s. if as_id s = sid \<and> live_session q now s
       then s\<lparr>as_last_seen_at := sq_dt q now\<rparr> else s) (adb_sessions db)\<rparr>"
proof -
  have r: "filter (\<lambda>s. (as_id s = sid \<and> live_session q now s) \<and> s\<lparr>as_last_seen_at := sq_dt q now\<rparr> \<noteq> s) (adb_sessions db) \<noteq> []"
    and "db' = db\<lparr>adb_sessions := map (\<lambda>s. if as_id s = sid \<and> live_session q now s
       then s\<lparr>as_last_seen_at := sq_dt q now\<rparr> else s) (adb_sessions db)\<rparr>"
    using assms by (auto simp: TouchSession_def exec_update_def Let_def split: if_splits)
  then show "db' = db\<lparr>adb_sessions := map (\<lambda>s. if as_id s = sid \<and> live_session q now s
       then s\<lparr>as_last_seen_at := sq_dt q now\<rparr> else s) (adb_sessions db)\<rparr>" by simp
  obtain s where "s \<in> set (adb_sessions db)" "as_id s = sid" "live_session q now s"
    "s\<lparr>as_last_seen_at := sq_dt q now\<rparr> \<noteq> s"
    using r by (auto simp: filter_empty_conv)
  moreover have "as_last_seen_at s = sq_dt q now \<Longrightarrow> s\<lparr>as_last_seen_at := sq_dt q now\<rparr> = s" by (cases s) simp
  ultimately show "\<exists>s \<in> set (adb_sessions db). as_id s = sid \<and> live_session q now s \<and> as_last_seen_at s \<noteq> sq_dt q now"
    by blast
qed

subsection \<open>Sessions\<close>

lemma Authenticate_Inr:
  assumes "Authenticate c q other now token db = (Inr s, db')"
  obtains x where "token \<noteq> []" "FindSession q (cr_sha256 c token) now db = Inr x" "u_Status (ss_User x) = ''active''"
    "ss_CSRFTokenHash x = cr_sha256 c (deriveCSRFToken c token)" "s = x\<lparr>ss_Token := token\<rparr>"
    "TouchSession q (ss_ID x) now (other db) = (None, db')"
  using assms by (auto simp: Authenticate_def split: if_splits sum.splits prod.splits option.splits)

text \<open>
  Claim C30. A request is authenticated only by the token of a session that is stored, not revoked
  and not expired, of a user who is active, and as that user; the session was still not revoked
  when it was marked as seen, whatever other requests did between the two statements; and the CSRF
  token of the session is accepted with it.
\<close>

theorem authenticate_sound:
  assumes "Authenticate c q other now token db = (Inr s, db')" "\<And>k m. cr_hmac c k m \<noteq> []"
  shows "\<exists>row u. row \<in> set (adb_sessions db) \<and> as_session_token_hash row = cr_sha256 c token \<and>
      as_revoked_at row = None \<and> as_expires_at row > sq_dt q now \<and>
      u \<in> set (adb_users db) \<and> us_id u = as_user_id row \<and> us_status u = ''active'' \<and>
      ss_ID s = as_id row \<and> u_ID (ss_User s) = us_id u \<and> ss_Token s = token \<and>
      (\<exists>row' \<in> set (adb_sessions (other db)). as_id row' = as_id row \<and> as_revoked_at row' = None \<and>
         as_expires_at row' > sq_dt q now) \<and>
      ValidateCSRF c s (CSRFToken c s)"
proof -
  obtain x where x: "token \<noteq> []" "FindSession q (cr_sha256 c token) now db = Inr x" "u_Status (ss_User x) = ''active''"
    "s = x\<lparr>ss_Token := token\<rparr>" "TouchSession q (ss_ID x) now (other db) = (None, db')"
    by (rule Authenticate_Inr [OF assms(1)])
  obtain row u where r: "row \<in> set (adb_sessions db)" "as_session_token_hash row = cr_sha256 c token"
    "live_session q now row" "u \<in> set (adb_users db)" "us_id u = as_user_id row" "ss_ID x = as_id row"
    "ss_User x = \<lparr>u_ID = us_id u, u_Username = us_username u, u_Status = us_status u\<rparr>"
    by (rule FindSession_Inr [OF x(2)])
  have v: "ValidateCSRF c s (CSRFToken c s)"
    using x(1,4) assms(2) by (simp add: ValidateCSRF_def CSRFToken_def deriveCSRFToken_def EncodeToString_nonempty)
  show ?thesis
    using r x(3,4) TouchSession_None(1) [OF x(5)] v by (intro exI [of _ row] exI [of _ u]) (auto simp: live_session_def)
qed

lemma Login_Inr:
  assumes "Login c q ttl now random u p k (l, db) = (Inr res, l', db')"
  obtains bs rec where "random = Some bs" "FindUserByUsername q (TrimSpace u) db = Inr rec"
    "cr_bcrypt c (ur_PasswordHash rec) p" "u_Status (ur_User rec) = ''active''"
    "CreateSession q (u_ID (ur_User rec)) (cr_sha256 c (EncodeToString bs))
       (cr_sha256 c (deriveCSRFToken c (EncodeToString bs))) (now + ttl) now db = (Inr (ss_ID (lg_Session res)), db')"
    "ss_User (lg_Session res) = ur_User rec" "ss_Token (lg_Session res) = EncodeToString bs"
    "lg_CSRFToken res = deriveCSRFToken c (EncodeToString bs)"
  using assms by (auto simp: Login_def Let_def randomToken_def split: if_splits sum.splits prod.splits option.splits)

text \<open>
  Claim C31. The session that a login creates authenticates its token until it expires, as the user
  who logged in, and accepts the CSRF token that the login returned. The digests are as long as the
  functions document, the database does not fail, and the clock of the database has moved on
  since the login.
\<close>

theorem login_session_roundtrip:
  assumes "auth_ok db" "Login c q ttl now random u p k (l, db) = (Inr res, l', db')"
    and "\<And>x. length (cr_sha256 c x) = 32" "\<And>key m. cr_hmac c key m \<noteq> []"
    and "sq_fault q = (\<lambda>_. False)" "random = Some bs" "bs \<noteq> []"
    and "sq_dt q now' < sq_dt q (now + ttl)" "sq_dt q now' \<noteq> sq_dt q now"
  shows "\<exists>s db''. Authenticate c q id now' (ss_Token (lg_Session res)) db' = (Inr s, db'') \<and>
    ss_ID s = ss_ID (lg_Session res) \<and> ss_User s = ss_User (lg_Session res) \<and>
    ss_Token s = ss_Token (lg_Session res) \<and> ValidateCSRF c s (lg_CSRFToken res)"
proof -
  let ?t = "EncodeToString bs" and ?sid = "ss_ID (lg_Session res)"
  obtain rec where f: "FindUserByUsername q (TrimSpace u) db = Inr rec"
    and a: "u_Status (ur_User rec) = ''active''"
    and cs: "CreateSession q (u_ID (ur_User rec)) (cr_sha256 c ?t) (cr_sha256 c (deriveCSRFToken c ?t)) (now + ttl) now db =
       (Inr ?sid, db')"
    and res: "ss_User (lg_Session res) = ur_User rec" "ss_Token (lg_Session res) = ?t" "lg_CSRFToken res = deriveCSRFToken c ?t"
    using Login_Inr [OF assms(2)] assms(6) by (metis option.inject)
  obtain ur where ur: "ur \<in> set (adb_users db)"
    and rec: "ur_User rec = \<lparr>u_ID = us_id ur, u_Username = us_username ur, u_Status = us_status ur\<rparr>"
    using f by (auto simp: FindUserByUsername_def split: if_splits option.splits dest!: find_found)
  let ?row = "\<lparr>as_id = adb_next db, as_user_id = us_id ur, as_session_token_hash = cr_sha256 c ?t,
      as_csrf_token_hash = cr_sha256 c (deriveCSRFToken c ?t), as_expires_at = sq_dt q (now + ttl),
      as_last_seen_at = sq_dt q now, as_revoked_at = None\<rparr>"
  have sid: "?sid = adb_next db" and db': "db' = db\<lparr>adb_sessions := adb_sessions db @ [?row], adb_next := adb_next db + 1\<rparr>"
    using cs by (auto simp: CreateSession_def Let_def rec split: if_splits)
  have ok: "auth_ok db'" using CreateSession_ok [OF assms(1), of "u_ID (ur_User rec)"] cs ur rec by (metis User.select_convs(1) snd_conv)
  have live: "live_session q now' ?row" using assms(8) by (simp add: live_session_def)
  have F: "FindSession q (cr_sha256 c ?t) now' db' =
    Inr \<lparr>ss_ID = adb_next db, ss_User = ur_User rec, ss_Token = [], ss_CSRFTokenHash = cr_sha256 c (deriveCSRFToken c ?t),
       ss_ExpiresAt = sq_dt q (now + ttl)\<rparr>"
    using FindSession_row [OF ok, of ?row q now' ur] live assms(3,5) ur by (simp add: db' rec)
  have "filter (\<lambda>s. (as_id s = adb_next db \<and> live_session q now' s) \<and> s\<lparr>as_last_seen_at := sq_dt q now'\<rparr> \<noteq> s)
      (adb_sessions db') \<noteq> []"
    using live assms(9) by (simp add: db')
  then obtain db'' where "TouchSession q (adb_next db) now' db' = (None, db'')"
    using assms(5) by (simp add: TouchSession_def exec_update_def)
  then have "Authenticate c q id now' ?t db' = (Inr \<lparr>ss_ID = adb_next db, ss_User = ur_User rec, ss_Token = ?t,
      ss_CSRFTokenHash = cr_sha256 c (deriveCSRFToken c ?t), ss_ExpiresAt = sq_dt q (now + ttl)\<rparr>, db'')"
    using EncodeToString_nonempty [OF assms(7)] a by (simp add: Authenticate_def F)
  then show ?thesis
    using EncodeToString_nonempty [OF assms(7)] EncodeToString_nonempty [OF assms(4)] by (auto simp: res sid ValidateCSRF_def deriveCSRFToken_def)
qed

subsection \<open>Revoked sessions\<close>

text \<open>What the requests of all clients do to the tables.\<close>

inductive auth_step :: "auth_db \<Rightarrow> auth_db \<Rightarrow> bool" where
  login: "auth_step db (snd (snd (Login c q ttl now random u p k (l, db))))"
| touch: "auth_step db (snd (TouchSession q sid now db))"
| logout: "auth_step db (snd (Logout q sid now db))"

text \<open>No statement changes a row that is revoked.\<close>

lemma CreateSession_keeps:
  "s \<in> set (adb_sessions db) \<Longrightarrow> s \<in> set (adb_sessions (snd (CreateSession q uid th ch ex now db)))"
  by (auto simp: CreateSession_def Let_def)

lemma Login_keeps:
  assumes "s \<in> set (adb_sessions db)"
  shows "s \<in> set (adb_sessions (snd (snd (Login c q ttl now random u p k (l, db)))))"
proof -
  have "snd (snd (Login c q ttl now random u p k (l, db))) = db \<or>
    (\<exists>uid th ch ex. snd (snd (Login c q ttl now random u p k (l, db))) = snd (CreateSession q uid th ch ex now db))"
    by (auto simp: Login_def Let_def split: prod.splits sum.splits option.splits) (metis snd_conv)+
  then show ?thesis using assms CreateSession_keeps by (elim disjE exE) simp_all
qed

lemma auth_step_keeps:
  assumes "auth_step db db'" "s \<in> set (adb_sessions db)" "as_revoked_at s \<noteq> None"
  shows "s \<in> set (adb_sessions db')"
  using assms
proof (induction rule: auth_step.induct)
  case (login db c q ttl now random u p k l)
  show ?case using login(1) by (rule Login_keeps)
next
  case (touch db q sid now)
  then show ?case by (force simp: TouchSession_def exec_update_def live_session_def Let_def)
next
  case (logout db q sid now)
  then show ?case by (force simp: Logout_def RevokeSession_def exec_update_def)
qed

lemma auth_step_ok: "auth_step db db' \<Longrightarrow> auth_ok db \<Longrightarrow> auth_ok db'"
  by (induction rule: auth_step.induct) (simp_all add: Login_ok TouchSession_ok Logout_def RevokeSession_ok)

lemma FindSession_revoked:
  assumes "auth_ok db" "s \<in> set (adb_sessions db)" "as_revoked_at s \<noteq> None"
  shows "\<not> is_ok (FindSession q (as_session_token_hash s) now db)"
proof
  assume "is_ok (FindSession q (as_session_token_hash s) now db)"
  then obtain x where "FindSession q (as_session_token_hash s) now db = Inr x" by (auto simp: is_ok_iff)
  then obtain s' where s': "s' \<in> set (adb_sessions db)" "as_session_token_hash s' = as_session_token_hash s"
    "live_session q now s'"
    using FindSession_Inr by metis
  then have "s' = s" using assms(1,2) by (auto simp: auth_ok_def distinct_map inj_on_def)
  then show False using s'(3) assms(3) by (simp add: live_session_def)
qed

text \<open>
  Logging out is final: whatever requests follow, the token of a session that was
  revoked is never authenticated again. No request removes the row, and the unique key of the
  table admits no second one for the token.
\<close>

theorem logout_final:
  assumes "auth_ok db" "Logout q sid now db = (None, db1)" "s \<in> set (adb_sessions db)" "as_id s = sid"
    and "auth_step\<^sup>*\<^sup>* db1 db2" "cr_sha256 c token = as_session_token_hash s"
  shows "\<not> is_ok (fst (Authenticate c q' other now' token db2))"
proof -
  have ok1: "auth_ok db1" using RevokeSession_ok [OF assms(1), of q sid now] assms(2) by (simp add: Logout_def)
  have "\<exists>r \<in> set (adb_sessions db1). as_session_token_hash r = as_session_token_hash s \<and> as_revoked_at r \<noteq> None"
  proof -
    let ?f = "\<lambda>r. if as_id r = sid \<and> as_revoked_at r = None then r\<lparr>as_revoked_at := Some (sq_dt q now)\<rparr> else r"
    have "adb_sessions db1 = map ?f (adb_sessions db)"
      using assms(2) by (auto simp: Logout_def RevokeSession_def exec_update_def split: if_splits)
    then have "?f s \<in> set (adb_sessions db1)" using assms(3) by simp
    then show ?thesis using assms(4) by (intro bexI [of _ "?f s"]) auto
  qed
  then obtain r where r: "r \<in> set (adb_sessions db1)" "as_session_token_hash r = as_session_token_hash s" "as_revoked_at r \<noteq> None"
    by blast
  have "auth_ok db2 \<and> r \<in> set (adb_sessions db2)"
    using assms(5) by (induction rule: rtranclp_induct) (use ok1 r in \<open>auto intro: auth_step_ok auth_step_keeps\<close>)
  then have "\<not> is_ok (FindSession q' (cr_sha256 c token) now' db2)"
    using FindSession_revoked [of db2 r q' now'] r(2,3) assms(6) by simp
  then show ?thesis by (auto simp: Authenticate_def is_ok_iff split: sum.splits)
qed

subsection \<open>Two behaviours of the code\<close>

text \<open>
  The number of rows that MySQL reports for an \<open>UPDATE\<close> counts the rows that changed. A second
  request of a session that the database stamps with the instant of the first therefore changes
  no row, and is refused as if the session were invalid.
\<close>

lemma same_instant_refused:
  assumes "auth_ok db" "Authenticate c q id now token db = (Inr s, db1)"
    and "sq_dt q now' = sq_dt q now" "sq_fault q = (\<lambda>_. False)"
  shows "fst (Authenticate c q id now' token db1) = Inl ErrInvalidSession"
proof -
  obtain x where x: "TouchSession q (ss_ID x) now db = (None, db1)" "FindSession q (cr_sha256 c token) now db = Inr x"
    and a: "token \<noteq> []" "u_Status (ss_User x) = ''active''" "ss_CSRFTokenHash x = cr_sha256 c (deriveCSRFToken c token)"
    using Authenticate_Inr [OF assms(2)] by (metis id_apply)
  note t = TouchSession_None(2) [OF x(1)]
  have live: "live_session q now' = live_session q now" by (simp add: live_session_def assms(3) fun_eq_iff)
  have seen: "\<forall>r \<in> set (adb_sessions db1). as_id r = ss_ID x \<and> live_session q now' r \<longrightarrow> as_last_seen_at r = sq_dt q now'"
    unfolding live by (auto simp: t live_session_def assms(3))
  have same: "r\<lparr>as_last_seen_at := as_last_seen_at r\<rparr> = r" for r :: auth_session_row by (cases r) simp
  have none: "filter (\<lambda>r. (as_id r = ss_ID x \<and> live_session q now' r) \<and> r\<lparr>as_last_seen_at := sq_dt q now'\<rparr> \<noteq> r)
      (adb_sessions db1) = []"
    using seen same by (auto simp: filter_empty_conv)
  then have T: "fst (TouchSession q (ss_ID x) now' db1) = Some ErrInvalidSession"
    using assms(4) by (simp add: TouchSession_def exec_update_def)
  obtain r u where r: "r \<in> set (adb_sessions db)" "as_session_token_hash r = cr_sha256 c token" "live_session q now r"
    "u \<in> set (adb_users db)" "us_id u = as_user_id r" "ss_ID x = as_id r" "ss_CSRFTokenHash x = as_csrf_token_hash r"
    "ss_User x = \<lparr>u_ID = us_id u, u_Username = us_username u, u_Status = us_status u\<rparr>" "ss_ExpiresAt x = as_expires_at r"
    "length (as_csrf_token_hash r) = 32"
    by (rule FindSession_Inr [OF x(2)])
  let ?r = "r\<lparr>as_last_seen_at := sq_dt q now\<rparr>"
  have "?r \<in> set (adb_sessions db1)" using r(1,3,6) by (force simp: t)
  moreover have "auth_ok db1" using TouchSession_ok [OF assms(1), of q "ss_ID x" now] x(1) by simp
  moreover have "adb_users db1 = adb_users db" by (simp add: t)
  moreover have "live_session q now' ?r" using r(3) by (simp add: live_session_def assms(3))
  ultimately have "FindSession q (cr_sha256 c token) now' db1 =
    Inr \<lparr>ss_ID = ss_ID x, ss_User = ss_User x, ss_Token = [], ss_CSRFTokenHash = ss_CSRFTokenHash x, ss_ExpiresAt = ss_ExpiresAt x\<rparr>"
    using FindSession_row [of db1 ?r q now' u] r assms(4) by simp
  then show ?thesis using a T by (auto simp: Authenticate_def split: prod.splits)
qed

text \<open>
  The limiter counts the failures of a user name in lower case, while the collation of the table
  also ignores accents: names that the table takes for one are counted apart, so an account has as
  many failures to spare as its name has spellings.
\<close>

lemma spellings_counted_apart:
  assumes "sq_collate q (TrimSpace u1) = sq_collate q (TrimSpace u2)" "loginLimitKey u1 k \<noteq> loginLimitKey u2 k"
    and "keys_within K l" "map_of (ll_entries l) (loginLimitKey u2 k) = None" "loginLimitKey u1 k \<in> K"
    and "\<forall>e \<in> set es. event_key e = loginLimitKey u1 k" "0 < ll_window l" "ll_window l < 2 ^ 63"
  shows "FindUserByUsername q (TrimSpace u1) db = FindUserByUsername q (TrimSpace u2) db \<and>
    \<not> fst (Blocked (loginLimitKey u2 k) now (fold event_step es l))"
proof -
  let ?k = "loginLimitKey u2 k" and ?l = "fold event_step es l"
  have f: "failures_of ?k es = []" using assms(2,6)
  proof (induction es)
    case (Cons e es)
    then show ?case by (cases e) auto
  qed simp
  have "Succeeded ?k \<notin> set es" using assms(2,6) by auto
  then have "knows ?k ([] @ failures_of ?k es) ?l"
    using assms(3-8) f by (intro run_knows [where K = K]) (auto simp: knows_def)
  moreover have "keys_within K ?l" using assms(3,5,6) by (induction es arbitrary: l) (simp_all add: event_within)
  ultimately have "\<not> fst (Blocked ?k now ?l)"
    by (simp add: f knows_def Blocked_def Let_def map_of_login_prune keys_within_def)
  then show ?thesis using assms(1) by (simp add: FindUserByUsername_def)
qed

subsection \<open>Examples\<close>

definition sample_crypto :: auth_crypto where
  "sample_crypto = \<lparr>cr_bcrypt = (\<lambda>h p. h = p),
     cr_sha256 = (\<lambda>x. take 32 (map of_char x @ replicate 32 0)), cr_hmac = (\<lambda>k m. replicate 32 7)\<rparr>"

definition sample_sql :: auth_sql where
  "sample_sql = \<lparr>sq_collate = map to_lower, sq_dt = (\<lambda>t. Truncate t Microsecond), sq_fault = (\<lambda>_. False)\<rparr>"

definition sample_accounts :: auth_db where
  "sample_accounts = \<lparr>adb_users = [\<lparr>us_id = 7, us_username = ''ada'', us_password_hash = ''pw'', us_status = ''active''\<rparr>],
     adb_sessions = [], adb_next = 1\<rparr>"

definition sample_login where
  "sample_login = Login sample_crypto sample_sql (8 * 60 * Minute) 5000 (Some (replicate 32 65)) '' Ada'' ''pw'' ''ip''
     (login_NewLimiter (5 * Minute) 5 (15 * Minute) 100, sample_accounts)"

definition sample_authenticate where
  "sample_authenticate = Authenticate sample_crypto sample_sql id 9000 (EncodeToString (replicate 32 65))
     (snd (snd sample_login))"

lemma sample_accounts_ok: "auth_ok sample_accounts"
  by code_simp

lemma sample_login_ok: "is_ok (fst sample_login)" "is_ok (fst sample_authenticate)"
  by code_simp+

lemma sample_hashes: "length (cr_sha256 sample_crypto x) = 32" "cr_hmac sample_crypto k m \<noteq> []"
  by (simp_all add: sample_crypto_def)

theorem login_session_roundtrip_witness:
  "\<exists>res l' db' s db''. sample_login = (Inr res, l', db') \<and>
     Authenticate sample_crypto sample_sql id 9000 (ss_Token (lg_Session res)) db' = (Inr s, db'') \<and>
     ss_User s = ss_User (lg_Session res)"
proof -
  obtain res l' db' where run: "sample_login = (Inr res, l', db')"
    using sample_login_ok(1) by (metis is_okE prod.exhaust)
  have f: "sq_fault sample_sql = (\<lambda>_. False)" by (simp add: sample_sql_def)
  have t: "sq_dt sample_sql 9000 < sq_dt sample_sql (5000 + 8 * 60 * Minute)"
    "sq_dt sample_sql 9000 \<noteq> sq_dt sample_sql 5000" by code_simp+
  have "replicate 32 (65 :: nat) \<noteq> []" by simp
  from login_session_roundtrip [OF sample_accounts_ok run [unfolded sample_login_def] sample_hashes f refl this t]
  show ?thesis using run by blast
qed

theorem authenticate_sound_witness:
  "\<exists>row u. row \<in> set (adb_sessions (snd (snd sample_login))) \<and> as_revoked_at row = None \<and>
     u \<in> set (adb_users (snd (snd sample_login))) \<and> us_id u = as_user_id row \<and> us_status u = ''active''"
proof -
  obtain s db' where run: "sample_authenticate = (Inr s, db')" using sample_login_ok(2) by (metis is_okE)
  show ?thesis using authenticate_sound [OF run [unfolded sample_authenticate_def] sample_hashes(2)] by blast
qed

theorem logout_final_witness:
  "\<not> is_ok (fst (Authenticate sample_crypto sample_sql id 9000 (EncodeToString (replicate 32 65))
     (snd (Logout sample_sql 1 8000 (snd (snd sample_login))))))"
proof -
  let ?db = "snd (snd sample_login)"
  have "map as_id (adb_sessions ?db) = [1]"
    "map as_session_token_hash (adb_sessions ?db) = [cr_sha256 sample_crypto (EncodeToString (replicate 32 65))]"
    by code_simp+
  then obtain s where s: "s \<in> set (adb_sessions ?db)" "as_id s = 1"
    "cr_sha256 sample_crypto (EncodeToString (replicate 32 65)) = as_session_token_hash s"
    by (auto simp: map_eq_Cons_conv)
  have ok: "auth_ok ?db" unfolding sample_login_def using sample_accounts_ok by (rule Login_ok)
  have "Logout sample_sql 1 8000 ?db = (None, snd (Logout sample_sql 1 8000 ?db))"
    by (simp add: Logout_def RevokeSession_def sample_sql_def)
  from logout_final [OF ok this s(1,2) rtranclp.rtrancl_refl s(3)] show ?thesis .
qed

end
