(* ===== verification/DockerClient.thy ===== *)
theory DockerClient
  imports LabRules
begin

text \<open>
  The client of the Docker API, \<^verbatim>\<open>services/orchestrator/internal/dockerapi/client.go\<close>. The Docker daemon is
  not code of the repository: it is an argument, the record \<open>daemon\<close>, with one function for each request
  the client makes. A request answers with a value or an error and yields the next state of the
  daemon; a state is of an arbitrary type, so that it can also determine which requests fail. What the
  orchestrator relies on is the locale \<open>docker\<close> at the end of this theory, which states documented
  behaviour of the API on the sets of containers and networks with their labels.
\<close>

subsection \<open>Requests and answers\<close>

type_synonym labels = "(string \<times> string) list"

record Healthcheck =
  he_Command :: "string list"
  he_Interval :: duration
  he_Timeout :: duration
  he_Retries :: int

record ContainerSpec =
  cs_Name :: string
  cs_Image :: string
  cs_User :: string
  cs_Command :: "string list"
  cs_Environment :: "(string \<times> string) list"
  cs_Labels :: labels
  cs_NetworkName :: string
  cs_NetworkAliases :: "string list"
  cs_ReadOnlyRootFS :: bool
  cs_CapDrop :: "string list"
  cs_MemoryBytes :: int
  cs_NanoCPUs :: int
  cs_PidsLimit :: int
  cs_Healthcheck :: "Healthcheck option"

record NetworkSpec =
  ns_Name :: string
  ns_Driver :: string
  ns_Internal :: bool
  ns_Attachable :: bool
  ns_Labels :: labels

text \<open>\<open>containerCreateRequest\<close> with the parts of \<open>hostConfig\<close>, \<open>healthConfig\<close> and \<open>networkingConfig\<close>.\<close>

record containerCreateRequest =
  cq_Image :: string
  cq_User :: string
  cq_Cmd :: "string list"
  cq_Env :: "string list"
  cq_Labels :: labels
  cq_HealthTest :: "(string list \<times> int \<times> int \<times> int) option"
  cq_NetworkMode :: string
  cq_ReadonlyRootfs :: bool
  cq_Privileged :: bool
  cq_CapDrop :: "string list"
  cq_Memory :: int
  cq_NanoCPUs :: int
  cq_PidsLimit :: int
  cq_SecurityOpt :: "string list"
  cq_Tmpfs :: "(string \<times> string) list"
  cq_Endpoints :: "(string \<times> string list) list"

record networkInspect =
  ni_ID :: string
  ni_Name :: string
  ni_Labels :: labels
  ni_Containers :: "string list"

record containerInspect =
  ci_ID :: string
  ci_Name :: string
  ci_Image :: string
  ci_Labels :: labels
  ci_Running :: bool
  ci_Status :: string
  ci_ExitCode :: int
  ci_Health :: "string option"

record container_item =
  li_ID :: string
  li_Names :: "string list"
  li_State :: string
  li_Labels :: labels

record network_item =
  ln_ID :: string
  ln_Name :: string
  ln_Labels :: labels

text \<open>An answer of the API that is not a success, and an error of the client or the connection.\<close>

datatype docker_error = APIError int string | ClientError string

type_synonym ('d, 'a) answer = "(docker_error, 'a) result \<times> 'd"

text \<open>
  The requests. \<open>'d\<close> is the state of the daemon and \<open>'f\<close> the content of the volume with the gateway's
  files, on which a command that is run in the gateway depends. \<open>dk_ticks\<close> is the number of polls that
  the time for a container's start allows.
\<close>

record ('d, 'f) daemon =
  dk_image :: "string \<Rightarrow> 'd \<Rightarrow> ('d, unit) answer"
  dk_network :: "string \<Rightarrow> 'd \<Rightarrow> ('d, networkInspect) answer"
  dk_createNetwork :: "NetworkSpec \<Rightarrow> 'd \<Rightarrow> ('d, string) answer"
  dk_connect :: "string \<Rightarrow> string \<Rightarrow> string list \<Rightarrow> 'd \<Rightarrow> ('d, unit) answer"
  dk_disconnect :: "string \<Rightarrow> string \<Rightarrow> 'd \<Rightarrow> ('d, unit) answer"
  dk_removeNetwork :: "string \<Rightarrow> 'd \<Rightarrow> ('d, unit) answer"
  dk_container :: "string \<Rightarrow> 'd \<Rightarrow> ('d, containerInspect) answer"
  dk_createContainer :: "string \<Rightarrow> containerCreateRequest \<Rightarrow> 'd \<Rightarrow> ('d, string) answer"
  dk_start :: "string \<Rightarrow> 'd \<Rightarrow> ('d, unit) answer"
  dk_restart :: "string \<Rightarrow> 'd \<Rightarrow> ('d, unit) answer"
  dk_update :: "string \<Rightarrow> int \<Rightarrow> 'd \<Rightarrow> ('d, unit) answer"
  dk_removeContainer :: "string \<Rightarrow> 'd \<Rightarrow> ('d, unit) answer"
  dk_containers :: "string list \<Rightarrow> 'd \<Rightarrow> ('d, container_item list) answer"
  dk_networks :: "string list \<Rightarrow> 'd \<Rightarrow> ('d, network_item list) answer"
  dk_execCreate :: "string \<Rightarrow> string list \<Rightarrow> 'd \<Rightarrow> ('d, string) answer"
  dk_execStart :: "string \<Rightarrow> 'f \<Rightarrow> 'd \<Rightarrow> ('d, string) answer"
  dk_execInspect :: "string \<Rightarrow> 'd \<Rightarrow> ('d, bool \<times> int) answer"
  dk_ticks :: "'d \<Rightarrow> nat"

definition IsNotFound :: "(docker_error, 'a) result \<Rightarrow> bool" where
  "IsNotFound r = (case r of Inl (APIError code _) \<Rightarrow> code = 404 | _ \<Rightarrow> False)"

definition label_of :: "labels \<Rightarrow> string \<Rightarrow> string" where
  "label_of ls k = (case map_of ls k of None \<Rightarrow> [] | Some v \<Rightarrow> v)"

subsection \<open>The client\<close>

record EnsureResult =
  er_ID :: string
  er_Name :: string
  er_Created :: bool

record docker_Resource =
  ro_ID :: string
  ro_Name :: string
  ro_Kind :: string
  ro_State :: string
  ro_Labels :: labels

fun name_chars :: "nat \<Rightarrow> string \<Rightarrow> bool" where
  "name_chars i [] = True"
| "name_chars i (r # rs) =
     (if is_lower r \<or> is_digit r then name_chars (Suc i) rs
      else if i > 0 \<and> (r = CHR ''-'' \<or> r = CHR ''_'' \<or> r = CHR ''.'') then name_chars (Suc i) rs
      else False)"

definition validateName :: "string \<Rightarrow> bool" where
  "validateName value = (if value = [] \<or> length value > 128 then False else name_chars 0 value)"

definition validateContainerSpec :: "ContainerSpec \<Rightarrow> string option" where
  "validateContainerSpec spec =
     (if \<not> validateName (cs_Name spec) then Some ''docker resource name is invalid''
      else if cs_Image spec = [] \<or> cs_User spec = [] \<or> cs_NetworkName spec = [] \<or> \<not> cs_ReadOnlyRootFS spec \<or>
         cs_MemoryBytes spec \<le> 0 \<or> cs_NanoCPUs spec \<le> 0 \<or> cs_PidsLimit spec \<le> 0
      then Some ''container spec is incomplete''
      else if length (cs_CapDrop spec) \<noteq> 1 \<or> cs_CapDrop spec ! 0 \<noteq> ''ALL''
      then Some ''container must drop all capabilities'' else None)"

definition requireLabels :: "labels \<Rightarrow> labels \<Rightarrow> bool" where
  "requireLabels actual required = (\<forall>(k, v) \<in> set required. label_of actual k = v)"

definition sortedEnvironment :: "(string \<times> string) list \<Rightarrow> string list" where
  "sortedEnvironment values = map (\<lambda>k. k @ ''='' @ label_of values k) (sort (map fst values))"

definition InspectImage :: "('d, 'f) daemon \<Rightarrow> string \<Rightarrow> 'd \<Rightarrow> ('d, unit) answer" where
  "InspectImage dk img d =
     (if TrimSpace img = [] then (Inl (ClientError ''image is required''), d) else dk_image dk img d)"

definition EnsureNetwork :: "('d, 'f) daemon \<Rightarrow> NetworkSpec \<Rightarrow> 'd \<Rightarrow> ('d, EnsureResult) answer" where
  "EnsureNetwork dk spec d =
     (if \<not> validateName (ns_Name spec) then (Inl (ClientError ''docker resource name is invalid''), d)
      else case dk_network dk (ns_Name spec) d of
        (Inr existing, d1) \<Rightarrow>
          if \<not> requireLabels (ni_Labels existing) (ns_Labels spec)
          then (Inl (ClientError ''validate existing network''), d1)
          else (Inr \<lparr>er_ID = ni_ID existing, er_Name = ns_Name spec, er_Created = False\<rparr>, d1)
      | (Inl e, d1) \<Rightarrow>
          if \<not> IsNotFound (Inl e :: (docker_error, unit) result) then (Inl e, d1)
          else case dk_createNetwork dk spec d1 of
            (Inl e, d2) \<Rightarrow> (Inl e, d2)
          | (Inr i, d2) \<Rightarrow> (Inr \<lparr>er_ID = i, er_Name = ns_Name spec, er_Created = True\<rparr>, d2))"

definition HasPrefix :: "string \<Rightarrow> string \<Rightarrow> bool" where
  "HasPrefix s p = (take (length p) s = p)"

definition is_connected :: "networkInspect \<Rightarrow> string \<Rightarrow> bool" where
  "is_connected n containerID =
     list_ex (\<lambda>i. HasPrefix containerID i \<or> HasPrefix i containerID) (ni_Containers n)"

definition ConnectNetwork ::
  "('d, 'f) daemon \<Rightarrow> string \<Rightarrow> string \<Rightarrow> string list \<Rightarrow> 'd \<Rightarrow> ('d, unit) answer" where
  "ConnectNetwork dk networkID containerID aliases d =
     (case dk_network dk networkID d of
        (Inl e, d1) \<Rightarrow> (Inl e, d1)
      | (Inr n, d1) \<Rightarrow>
          if is_connected n containerID then (Inr (), d1)
          else dk_connect dk networkID containerID aliases d1)"

definition DisconnectNetwork :: "('d, 'f) daemon \<Rightarrow> string \<Rightarrow> string \<Rightarrow> 'd \<Rightarrow> ('d, unit) answer" where
  "DisconnectNetwork dk networkID containerID d =
     (case dk_network dk networkID d of
        (Inl e, d1) \<Rightarrow> if IsNotFound (Inl e :: (docker_error, unit) result) then (Inr (), d1) else (Inl e, d1)
      | (Inr n, d1) \<Rightarrow>
          if \<not> is_connected n containerID then (Inr (), d1)
          else dk_disconnect dk networkID containerID d1)"

definition found_or_gone :: "('d, unit) answer \<Rightarrow> ('d, unit) answer" where
  "found_or_gone = (\<lambda>(r, d). (if IsNotFound r then Inr () else r, d))"

definition RemoveNetwork :: "('d, 'f) daemon \<Rightarrow> string \<Rightarrow> 'd \<Rightarrow> ('d, unit) answer" where
  "RemoveNetwork dk networkID d = found_or_gone (dk_removeNetwork dk networkID d)"

definition StartContainer :: "('d, 'f) daemon \<Rightarrow> string \<Rightarrow> 'd \<Rightarrow> ('d, unit) answer" where
  "StartContainer dk containerID d = dk_start dk containerID d"

definition RestartContainer :: "('d, 'f) daemon \<Rightarrow> string \<Rightarrow> 'd \<Rightarrow> ('d, unit) answer" where
  "RestartContainer dk containerID d = dk_restart dk containerID d"

definition UpdateContainerCPU :: "('d, 'f) daemon \<Rightarrow> string \<Rightarrow> int \<Rightarrow> 'd \<Rightarrow> ('d, unit) answer" where
  "UpdateContainerCPU dk containerID nanoCPUs d =
     (if nanoCPUs \<le> 0 then (Inl (ClientError ''NanoCPUs must be positive''), d)
      else dk_update dk containerID nanoCPUs d)"

definition RemoveContainer :: "('d, 'f) daemon \<Rightarrow> string \<Rightarrow> 'd \<Rightarrow> ('d, unit) answer" where
  "RemoveContainer dk containerID d = found_or_gone (dk_removeContainer dk containerID d)"

text \<open>The loop of \<open>waitContainerReady\<close>, with the number of polls that are left before the timer fires.\<close>

fun poll_ready :: "('d, 'f) daemon \<Rightarrow> nat \<Rightarrow> string \<Rightarrow> 'd \<Rightarrow> ('d, unit) answer" where
  "poll_ready dk n containerID d =
     (case dk_container dk containerID d of
        (Inl e, d1) \<Rightarrow> (Inl e, d1)
      | (Inr c, d1) \<Rightarrow>
          if \<not> ci_Running c then (Inl (ClientError ''container stopped before becoming ready''), d1)
          else case ci_Health c of
            None \<Rightarrow> (Inl (ClientError ''container health state is unavailable''), d1)
          | Some st \<Rightarrow>
              if st = ''healthy'' then (Inr (), d1)
              else if st = ''unhealthy'' then (Inl (ClientError ''container became unhealthy before becoming ready''), d1)
              else if st = ''starting'' then
                (case n of 0 \<Rightarrow> (Inl (ClientError ''container readiness timed out''), d1)
                 | Suc m \<Rightarrow> poll_ready dk m containerID d1)
              else (Inl (ClientError ''container health state is invalid''), d1))"

declare poll_ready.simps [simp del]

definition waitContainerReady :: "('d, 'f) daemon \<Rightarrow> string \<Rightarrow> 'd \<Rightarrow> ('d, unit) answer" where
  "waitContainerReady dk containerID d = poll_ready dk (dk_ticks dk d) containerID d"

definition container_ready :: "('d, 'f) daemon \<Rightarrow> ContainerSpec \<Rightarrow> string \<Rightarrow> 'd \<Rightarrow> ('d, unit) answer" where
  "container_ready dk spec containerID d =
     (if cs_Healthcheck spec = None then (Inr (), d) else waitContainerReady dk containerID d)"

definition create_request :: "ContainerSpec \<Rightarrow> containerCreateRequest" where
  "create_request spec = \<lparr>cq_Image = cs_Image spec, cq_User = cs_User spec, cq_Cmd = cs_Command spec,
     cq_Env = sortedEnvironment (cs_Environment spec), cq_Labels = cs_Labels spec,
     cq_HealthTest = map_option (\<lambda>h. (''CMD'' # he_Command h, he_Interval h, he_Timeout h, he_Retries h)) (cs_Healthcheck spec),
     cq_NetworkMode = cs_NetworkName spec, cq_ReadonlyRootfs = cs_ReadOnlyRootFS spec, cq_Privileged = False,
     cq_CapDrop = cs_CapDrop spec, cq_Memory = cs_MemoryBytes spec, cq_NanoCPUs = cs_NanoCPUs spec,
     cq_PidsLimit = cs_PidsLimit spec, cq_SecurityOpt = [''no-new-privileges''],
     cq_Tmpfs = [(''/tmp'', ''rw,noexec,nosuid,size=16777216'')],
     cq_Endpoints = [(cs_NetworkName spec, cs_NetworkAliases spec)]\<rparr>"

definition reuse_container ::
  "('d, 'f) daemon \<Rightarrow> ContainerSpec \<Rightarrow> containerInspect \<Rightarrow> 'd \<Rightarrow> ('d, EnsureResult) answer" where
  "reuse_container dk spec existing d =
     (if \<not> requireLabels (ci_Labels existing) (cs_Labels spec)
      then (Inl (ClientError ''validate existing container''), d)
      else if ci_Image existing \<noteq> cs_Image spec
      then (Inl (ClientError ''existing container image does not match template''), d)
      else case (if ci_Running existing then (Inr (), d) else StartContainer dk (ci_ID existing) d) of
        (Inl e, d1) \<Rightarrow> (Inl e, d1)
      | (Inr _, d1) \<Rightarrow>
         (case container_ready dk spec (ci_ID existing) d1 of
            (Inl e, d2) \<Rightarrow> (Inl e, d2)
          | (Inr _, d2) \<Rightarrow> (Inr \<lparr>er_ID = ci_ID existing, er_Name = cs_Name spec, er_Created = False\<rparr>, d2)))"

definition create_container ::
  "('d, 'f) daemon \<Rightarrow> ContainerSpec \<Rightarrow> 'd \<Rightarrow> ('d, EnsureResult) answer" where
  "create_container dk spec d =
     (case dk_createContainer dk (cs_Name spec) (create_request spec) d of
        (Inl e, d1) \<Rightarrow> (Inl e, d1)
      | (Inr i, d1) \<Rightarrow>
         (case StartContainer dk i d1 of
            (Inl e, d2) \<Rightarrow> (Inl e, snd (RemoveContainer dk i d2))
          | (Inr _, d2) \<Rightarrow>
             (case container_ready dk spec i d2 of
                (Inl e, d3) \<Rightarrow> (Inl e, snd (RemoveContainer dk i d3))
              | (Inr _, d3) \<Rightarrow> (Inr \<lparr>er_ID = i, er_Name = cs_Name spec, er_Created = True\<rparr>, d3))))"

definition EnsureContainer ::
  "('d, 'f) daemon \<Rightarrow> ContainerSpec \<Rightarrow> 'd \<Rightarrow> ('d, EnsureResult) answer" where
  "EnsureContainer dk spec d =
     (case validateContainerSpec spec of
        Some m \<Rightarrow> (Inl (ClientError m), d)
      | None \<Rightarrow>
         (case dk_container dk (cs_Name spec) d of
            (Inr existing, d1) \<Rightarrow> reuse_container dk spec existing d1
          | (Inl e, d1) \<Rightarrow>
              if \<not> IsNotFound (Inl e :: (docker_error, unit) result) then (Inl e, d1)
              else create_container dk spec d1))"

text \<open>\<open>strings.TrimPrefix\<close>.\<close>

definition TrimPrefix :: "string \<Rightarrow> string \<Rightarrow> string" where
  "TrimPrefix s p = (if HasPrefix s p then drop (length p) s else s)"

definition container_resource :: "container_item \<Rightarrow> docker_Resource" where
  "container_resource c = \<lparr>ro_ID = li_ID c, ro_Name = (case li_Names c of [] \<Rightarrow> [] | n # _ \<Rightarrow> TrimPrefix n ''/''),
     ro_Kind = ''container'', ro_State = li_State c, ro_Labels = li_Labels c\<rparr>"

definition network_resource :: "network_item \<Rightarrow> docker_Resource" where
  "network_resource n = \<lparr>ro_ID = ln_ID n, ro_Name = ln_Name n, ro_Kind = ''network'', ro_State = [],
     ro_Labels = ln_Labels n\<rparr>"

definition map_answer :: "('a \<Rightarrow> 'b) \<Rightarrow> ('d, 'a) answer \<Rightarrow> ('d, 'b) answer" where
  "map_answer f = (\<lambda>(r, d). (case r of Inl e \<Rightarrow> Inl e | Inr x \<Rightarrow> Inr (f x), d))"

definition listContainers :: "('d, 'f) daemon \<Rightarrow> string list \<Rightarrow> 'd \<Rightarrow> ('d, docker_Resource list) answer" where
  "listContainers dk filters d = map_answer (map container_resource) (dk_containers dk filters d)"

definition FindComposeContainer ::
  "('d, 'f) daemon \<Rightarrow> string \<Rightarrow> string \<Rightarrow> 'd \<Rightarrow> ('d, docker_Resource) answer" where
  "FindComposeContainer dk project service d =
     (case listContainers dk [''com.docker.compose.project='' @ project, ''com.docker.compose.service='' @ service] d of
        (Inl e, d1) \<Rightarrow> (Inl e, d1)
      | (Inr resources, d1) \<Rightarrow>
          if length resources \<noteq> 1 then (Inl (ClientError ''compose service has not one container''), d1)
          else (Inr (resources ! 0), d1))"

definition managed_filters :: "string \<Rightarrow> string list" where
  "managed_filters labID =
     ''platform.managed=true'' # (if labID \<noteq> [] then [''platform.labId='' @ labID] else [])"

definition ListManagedContainers ::
  "('d, 'f) daemon \<Rightarrow> string \<Rightarrow> 'd \<Rightarrow> ('d, docker_Resource list) answer" where
  "ListManagedContainers dk labID d = listContainers dk (managed_filters labID) d"

definition ListManagedNetworks ::
  "('d, 'f) daemon \<Rightarrow> string \<Rightarrow> 'd \<Rightarrow> ('d, docker_Resource list) answer" where
  "ListManagedNetworks dk labID d =
     map_answer (map network_resource) (dk_networks dk (managed_filters labID) d)"

text \<open>\<open>Exec\<close>: create an exec, start it, and read its exit code. The output only goes into messages.\<close>

definition Exec :: "('d, 'f) daemon \<Rightarrow> string \<Rightarrow> string list \<Rightarrow> 'f \<Rightarrow> 'd \<Rightarrow> ('d, string) answer" where
  "Exec dk containerID command files d =
     (if command = [] then (Inl (ClientError ''exec command is required''), d)
      else case dk_execCreate dk containerID command d of
        (Inl e, d1) \<Rightarrow> (Inl e, d1)
      | (Inr i, d1) \<Rightarrow>
         (case dk_execStart dk i files d1 of
            (Inl e, d2) \<Rightarrow> (Inl e, d2)
          | (Inr output, d2) \<Rightarrow>
             (case dk_execInspect dk i d2 of
                (Inl e, d3) \<Rightarrow> (Inl e, d3)
              | (Inr (running, exitCode), d3) \<Rightarrow>
                  if running \<or> exitCode \<noteq> 0 then (Inl (ClientError ''container exec exit code''), d3)
                  else (Inr output, d3))))"

subsection \<open>What the orchestrator relies on\<close>

text \<open>
  A label filter \<open>k=v\<close> selects the objects whose label \<open>k\<close> has the value \<open>v\<close>. A resource of a lab
  carries the two labels that \<open>ListManagedContainers\<close> and \<open>ListManagedNetworks\<close> ask for.
\<close>

definition has_filter :: "string \<Rightarrow> labels \<Rightarrow> bool" where
  "has_filter f ls = (let k = takeWhile (\<lambda>c. c \<noteq> CHR ''='') f in map_of ls k = Some (drop (Suc (length k)) f))"

definition selected :: "string list \<Rightarrow> labels \<Rightarrow> bool" where
  "selected fs ls = list_all (\<lambda>f. has_filter f ls) fs"

definition is_managed :: "labels \<Rightarrow> bool" where
  "is_managed ls = (map_of ls ''platform.managed'' = Some ''true'')"

definition of_lab :: "string \<Rightarrow> labels \<Rightarrow> bool" where
  "of_lab labID ls = (is_managed ls \<and> map_of ls ''platform.labId'' = Some labID)"

lemma selected_managed: "selected (managed_filters labID) ls = (is_managed ls \<and> (labID \<noteq> [] \<longrightarrow> of_lab labID ls))"
  by (auto simp: selected_def managed_filters_def has_filter_def is_managed_def of_lab_def Let_def)

text \<open>
  The part of a set of resources, by identifier with their labels, that belongs to a lab, and the part
  that does not.
\<close>

type_synonym resources = "string \<rightharpoonup> labels"

definition lab_part :: "string \<Rightarrow> resources \<Rightarrow> string set" where
  "lab_part labID m = {i. \<exists>ls. m i = Some ls \<and> of_lab labID ls}"

definition others :: "string \<Rightarrow> resources \<Rightarrow> resources" where
  "others labID m = (\<lambda>i. case m i of None \<Rightarrow> None | Some ls \<Rightarrow> if of_lab labID ls then None else Some ls)"

lemma of_lab_extended: "of_lab labID ls \<Longrightarrow> map_of ls \<subseteq>\<^sub>m map_of ls' \<Longrightarrow> of_lab labID ls'"
  by (force simp: of_lab_def is_managed_def map_le_def dom_def)

text \<open>An object has the labels that were asked for.\<close>

definition carries :: "labels \<Rightarrow> labels \<Rightarrow> bool" where
  "carries actual required = (\<forall>k v. map_of required k = Some v \<longrightarrow> label_of actual k = v)"

lemma carries_extended: "map_of required \<subseteq>\<^sub>m map_of actual \<Longrightarrow> carries actual required"
  by (force simp: carries_def label_of_def map_le_def dom_def)

lemma carries_required: "requireLabels actual required \<Longrightarrow> carries actual required"
  by (auto simp: requireLabels_def carries_def dest!: map_of_SomeD)

lemma carries_of_lab:
  assumes "carries actual required" "of_lab labID required" "labID \<noteq> []"
  shows "of_lab labID actual"
proof -
  have "label_of actual ''platform.managed'' = ''true''" "label_of actual ''platform.labId'' = labID"
    using assms(1,2) by (auto simp: carries_def of_lab_def is_managed_def)
  then show ?thesis using assms(3) by (auto simp: of_lab_def is_managed_def label_of_def split: option.splits)
qed

lemma others_upd: "of_lab labID ls \<Longrightarrow> m i = None \<Longrightarrow> others labID (m(i \<mapsto> ls)) = others labID m"
  by (auto simp: others_def)

lemma others_del: "i \<in> lab_part labID m \<Longrightarrow> others labID (m(i := None)) = others labID m"
  by (auto simp: others_def lab_part_def)

lemma others_restrict: "others labID (m |` (- lab_part labID m)) = others labID m"
  by (auto simp: others_def lab_part_def restrict_map_def fun_eq_iff split: option.splits)

lemma lab_part_selected:
  "labID \<noteq> [] \<Longrightarrow> lab_part labID m = {i. \<exists>ls. m i = Some ls \<and> selected (managed_filters labID) ls}"
  by (auto simp: lab_part_def selected_managed of_lab_def)

lemma listed_ids:
  assumes "\<forall>i ls. (\<exists>c \<in> set cs. f c = i \<and> g c = ls) \<longleftrightarrow> m i = Some ls \<and> P ls"
  shows "set (map f cs) = {i. \<exists>ls. m i = Some ls \<and> P ls}"
  using assms by (simp add: set_eq_iff image_iff) metis

text \<open>
  The laws: only creating and removing change the sets; an object that is created has the labels of
  the request, a container also those of its image, and a new identifier; an object that was removed, or that was not found, is gone; and
  lists and inspections report what is there. A request that fails may still have had its effect.
\<close>

locale docker =
  fixes dk :: "('d, 'f) daemon" and containers :: "'d \<Rightarrow> resources" and networks :: "'d \<Rightarrow> resources"
  assumes reads:
      "dk_image dk s d = (r1, d') \<Longrightarrow> containers d' = containers d \<and> networks d' = networks d"
      "dk_network dk s d = (r2, d') \<Longrightarrow> containers d' = containers d \<and> networks d' = networks d"
      "dk_container dk s d = (r3, d') \<Longrightarrow> containers d' = containers d \<and> networks d' = networks d"
      "dk_containers dk fs d = (r4, d') \<Longrightarrow> containers d' = containers d \<and> networks d' = networks d"
      "dk_networks dk fs d = (r5, d') \<Longrightarrow> containers d' = containers d \<and> networks d' = networks d"
    and changes:
      "dk_connect dk s t fs d = (r6, d') \<Longrightarrow> containers d' = containers d \<and> networks d' = networks d"
      "dk_disconnect dk s t d = (r6, d') \<Longrightarrow> containers d' = containers d \<and> networks d' = networks d"
      "dk_start dk s d = (r6, d') \<Longrightarrow> containers d' = containers d \<and> networks d' = networks d"
      "dk_restart dk s d = (r6, d') \<Longrightarrow> containers d' = containers d \<and> networks d' = networks d"
      "dk_update dk s k d = (r6, d') \<Longrightarrow> containers d' = containers d \<and> networks d' = networks d"
    and execs:
      "dk_execCreate dk s fs d = (r7, d') \<Longrightarrow> containers d' = containers d \<and> networks d' = networks d"
      "dk_execStart dk s files d = (r8, d') \<Longrightarrow> containers d' = containers d \<and> networks d' = networks d"
      "dk_execInspect dk s d = (r9, d') \<Longrightarrow> containers d' = containers d \<and> networks d' = networks d"
    and create_network: "dk_createNetwork dk spec d = (r, d') \<Longrightarrow> containers d' = containers d \<and>
      (networks d' = networks d \<and> \<not> is_ok r \<or>
       (\<exists>i. networks d i = None \<and> networks d' = (networks d)(i \<mapsto> ns_Labels spec) \<and> (is_ok r \<longrightarrow> r = Inr i)))"
    and make_container: "dk_createContainer dk s req d = (r, d') \<Longrightarrow> networks d' = networks d \<and>
      (containers d' = containers d \<and> \<not> is_ok r \<or>
       (\<exists>i ls. map_of (cq_Labels req) \<subseteq>\<^sub>m map_of ls \<and> containers d i = None \<and>
          containers d' = (containers d)(i \<mapsto> ls) \<and> (is_ok r \<longrightarrow> r = Inr i)))"
    and remove_network: "dk_removeNetwork dk i d = (r6, d') \<Longrightarrow> networks d i \<noteq> None \<Longrightarrow>
      containers d' = containers d \<and> networks d' \<in> {networks d, (networks d)(i := None)} \<and>
      (is_ok r6 \<or> IsNotFound r6 \<longrightarrow> networks d' i = None)"
    and remove_container: "dk_removeContainer dk i d = (r6, d') \<Longrightarrow> containers d i \<noteq> None \<Longrightarrow>
      networks d' = networks d \<and> containers d' \<in> {containers d, (containers d)(i := None)} \<and>
      (is_ok r6 \<or> IsNotFound r6 \<longrightarrow> containers d' i = None)"
    and list_containers: "dk_containers dk fs d = (Inr cs, d') \<Longrightarrow> distinct (map li_ID cs) \<and>
      (\<forall>i ls. (\<exists>c \<in> set cs. li_ID c = i \<and> li_Labels c = ls) \<longleftrightarrow> containers d i = Some ls \<and> selected fs ls)"
    and list_networks: "dk_networks dk fs d = (Inr ns, d') \<Longrightarrow> distinct (map ln_ID ns) \<and>
      (\<forall>i ls. (\<exists>n \<in> set ns. ln_ID n = i \<and> ln_Labels n = ls) \<longleftrightarrow> networks d i = Some ls \<and> selected fs ls)"
    and inspect_container: "dk_container dk s d = (Inr c, d') \<Longrightarrow> containers d (ci_ID c) = Some (ci_Labels c)"
    and inspect_network: "dk_network dk s d = (Inr n, d') \<Longrightarrow> networks d (ni_ID n) = Some (ni_Labels n)"
begin

text \<open>A request that leaves the sets as they are, and one that changes only the part of a lab.\<close>

definition same :: "'d \<Rightarrow> 'd \<Rightarrow> bool" where
  "same d d' = (containers d' = containers d \<and> networks d' = networks d)"

definition confined :: "string \<Rightarrow> 'd \<Rightarrow> 'd \<Rightarrow> bool" where
  "confined labID d d' = (others labID (containers d') = others labID (containers d) \<and>
     others labID (networks d') = others labID (networks d))"

lemma same_refl [simp]: "same d d" by (simp add: same_def)
lemma same_trans: "same d d1 \<Longrightarrow> same d1 d2 \<Longrightarrow> same d d2" by (simp add: same_def)
lemma same_confined: "same d d' \<Longrightarrow> confined labID d d'" by (simp add: same_def confined_def)
lemma confined_refl [simp]: "confined labID d d" by (simp add: confined_def)
lemma confined_trans: "confined labID d d1 \<Longrightarrow> confined labID d1 d2 \<Longrightarrow> confined labID d d2"
  by (simp add: confined_def)

lemmas request_same =
  reads [folded same_def] changes [folded same_def] execs [folded same_def]

text \<open>The operations of the client.\<close>

lemma InspectImage_same: "InspectImage dk img d = (r, d') \<Longrightarrow> same d d'"
  by (auto simp: InspectImage_def split: if_splits intro: request_same)

lemma map_answer_same: "map_answer f p = (r, d') \<Longrightarrow> \<exists>r0. p = (r0, d')"
  by (cases p) (auto simp: map_answer_def)

lemma listContainers_same: "listContainers dk fs d = (r, d') \<Longrightarrow> same d d'"
  by (auto simp: listContainers_def dest!: map_answer_same intro: request_same)

lemma ListManagedContainers_same: "ListManagedContainers dk labID d = (r, d') \<Longrightarrow> same d d'"
  by (auto simp: ListManagedContainers_def intro: listContainers_same)

lemma ListManagedNetworks_same: "ListManagedNetworks dk labID d = (r, d') \<Longrightarrow> same d d'"
  by (auto simp: ListManagedNetworks_def dest!: map_answer_same intro: request_same)

lemma FindComposeContainer_same: "FindComposeContainer dk p s d = (r, d') \<Longrightarrow> same d d'"
  by (auto simp: FindComposeContainer_def split: prod.splits sum.splits if_splits intro: listContainers_same)

lemma ConnectNetwork_same: "ConnectNetwork dk n c as d = (r, d') \<Longrightarrow> same d d'"
  by (auto simp: ConnectNetwork_def split: prod.splits sum.splits if_splits intro: request_same same_trans)

lemma DisconnectNetwork_same: "DisconnectNetwork dk n c d = (r, d') \<Longrightarrow> same d d'"
  by (auto simp: DisconnectNetwork_def split: prod.splits sum.splits if_splits intro: request_same same_trans)

lemma StartContainer_same: "StartContainer dk i d = (r, d') \<Longrightarrow> same d d'"
  by (auto simp: StartContainer_def intro: request_same)

lemma RestartContainer_same: "RestartContainer dk i d = (r, d') \<Longrightarrow> same d d'"
  by (auto simp: RestartContainer_def intro: request_same)

lemma UpdateContainerCPU_same: "UpdateContainerCPU dk i k d = (r, d') \<Longrightarrow> same d d'"
  by (auto simp: UpdateContainerCPU_def split: if_splits intro: request_same)

lemma poll_ready_same: "poll_ready dk n i d = (r, d') \<Longrightarrow> same d d'"
proof (induction n arbitrary: d)
  case 0
  then show ?case
    by (subst (asm) poll_ready.simps)
      (auto split: prod.splits sum.splits option.splits if_splits intro: request_same)
next
  case (Suc n)
  then show ?case
    by (subst (asm) poll_ready.simps)
      (auto split: prod.splits sum.splits option.splits if_splits intro: request_same same_trans)
qed

lemma container_ready_same: "container_ready dk spec i d = (r, d') \<Longrightarrow> same d d'"
  by (auto simp: container_ready_def waitContainerReady_def split: if_splits intro: poll_ready_same)

lemma Exec_same: "Exec dk i cmd files d = (r, d') \<Longrightarrow> same d d'"
  by (auto simp: Exec_def same_def split: prod.splits sum.splits if_splits dest!: execs)

lemma RemoveContainer_removes:
  assumes "RemoveContainer dk i d = (r, d')" "containers d i \<noteq> None"
  shows "networks d' = networks d" "containers d' \<in> {containers d, (containers d)(i := None)}"
    "is_ok r \<Longrightarrow> containers d' = (containers d)(i := None)"
proof -
  obtain r0 where r0: "dk_removeContainer dk i d = (r0, d')" "r = (if IsNotFound r0 then Inr () else r0)"
    using assms(1) by (auto simp: RemoveContainer_def found_or_gone_def split: prod.splits if_splits)
  note * = remove_container [OF r0(1) assms(2)]
  show "networks d' = networks d" "containers d' \<in> {containers d, (containers d)(i := None)}" using * by auto
  show "containers d' = (containers d)(i := None)" if "is_ok r"
    using * that by (auto simp: r0(2) split: if_splits)
qed

lemma RemoveNetwork_removes:
  assumes "RemoveNetwork dk i d = (r, d')" "networks d i \<noteq> None"
  shows "containers d' = containers d" "networks d' \<in> {networks d, (networks d)(i := None)}"
    "is_ok r \<Longrightarrow> networks d' = (networks d)(i := None)"
proof -
  obtain r0 where r0: "dk_removeNetwork dk i d = (r0, d')" "r = (if IsNotFound r0 then Inr () else r0)"
    using assms(1) by (auto simp: RemoveNetwork_def found_or_gone_def split: prod.splits if_splits)
  note * = remove_network [OF r0(1) assms(2)]
  show "containers d' = containers d" "networks d' \<in> {networks d, (networks d)(i := None)}" using * by auto
  show "networks d' = (networks d)(i := None)" if "is_ok r"
    using * that by (auto simp: r0(2) split: if_splits)
qed

lemma RemoveContainer_confined:
  assumes "RemoveContainer dk i d = (r, d')" "i \<in> lab_part labID (containers d)"
  shows "confined labID d d'"
proof -
  have i: "containers d i \<noteq> None" using assms(2) by (auto simp: lab_part_def)
  show ?thesis using RemoveContainer_removes(1,2) [OF assms(1) i] others_del [OF assms(2)]
    by (auto simp: confined_def)
qed

lemma RemoveNetwork_confined:
  assumes "RemoveNetwork dk i d = (r, d')" "i \<in> lab_part labID (networks d)"
  shows "confined labID d d'"
proof -
  have i: "networks d i \<noteq> None" using assms(2) by (auto simp: lab_part_def)
  show ?thesis using RemoveNetwork_removes(1,2) [OF assms(1) i] others_del [OF assms(2)]
    by (auto simp: confined_def)
qed

lemma create_network_confined:
  assumes "dk_createNetwork dk spec d = (r, d')" "of_lab labID (ns_Labels spec)"
  shows "confined labID d d'" "is_ok r \<Longrightarrow> \<exists>i. r = Inr i \<and> i \<in> lab_part labID (networks d')"
  using create_network [OF assms(1)] assms(2) by (auto simp: confined_def others_upd lab_part_def)

lemma create_container_confined:
  assumes "dk_createContainer dk s req d = (r, d')" "of_lab labID (cq_Labels req)"
  shows "confined labID d d'" "is_ok r \<Longrightarrow> \<exists>i. r = Inr i \<and> i \<in> lab_part labID (containers d')"
  using make_container [OF assms(1)] of_lab_extended [OF assms(2)]
  by (auto simp: confined_def others_upd lab_part_def)

lemma lab_part_same: "same d d' \<Longrightarrow> lab_part labID (containers d') = lab_part labID (containers d)"
  by (simp add: same_def)

lemma EnsureNetwork_confined:
  assumes "EnsureNetwork dk spec d = (r, d')" "of_lab labID (ns_Labels spec)"
  shows "confined labID d d'"
  using assms by (auto simp: EnsureNetwork_def split: prod.splits sum.splits if_splits
      intro: request_same [THEN same_confined] confined_trans create_network_confined(1))

lemma make_and_start_confined:
  assumes e: "create_container dk spec d = (r, d')" and l: "of_lab labID (cs_Labels spec)"
  shows "confined labID d d'"
proof -
  obtain r1 d1 where 1: "dk_createContainer dk (cs_Name spec) (create_request spec) d = (r1, d1)" by fastforce
  have lq: "of_lab labID (cq_Labels (create_request spec))" using l by (simp add: create_request_def)
  note c1 = create_container_confined [OF 1 lq]
  show ?thesis
  proof (cases r1)
    case Inl
    then show ?thesis using e c1(1) by (simp add: create_container_def 1)
  next
    case (Inr i)
    then have own: "i \<in> lab_part labID (containers d1)" using c1(2) by auto
    obtain r2 d2 where 2: "StartContainer dk i d1 = (r2, d2)" by fastforce
    obtain r3 d3 where 3: "container_ready dk spec i d2 = (r3, d3)" by fastforce
    have s: "same d1 d2" "same d1 d3"
      using StartContainer_same [OF 2] container_ready_same [OF 3] by (auto intro: same_trans)
    have d': "d' \<in> {d3, snd (RemoveContainer dk i d2), snd (RemoveContainer dk i d3)}"
      using e by (auto simp: create_container_def 1 Inr 2 3 split: sum.splits)
    have rm: "confined labID d1 (snd (RemoveContainer dk i dx))" if sx: "same d1 dx" for dx
    proof (rule confined_trans [OF same_confined [OF sx]])
      have "i \<in> lab_part labID (containers dx)" using own lab_part_same [OF sx] by simp
      then show "confined labID dx (snd (RemoveContainer dk i dx))"
        by (rule RemoveContainer_confined [OF prod.collapse [symmetric]])
    qed
    have "confined labID d1 d'" using d' rm s same_confined by auto
    then show ?thesis by (rule confined_trans [OF c1(1)])
  qed
qed

lemma reuse_container_same: "reuse_container dk spec c d = (r, d') \<Longrightarrow> same d d'"
  by (auto simp: reuse_container_def split: prod.splits sum.splits if_splits
      intro: StartContainer_same container_ready_same same_trans)

lemma EnsureContainer_confined:
  assumes "EnsureContainer dk spec d = (r, d')" "of_lab labID (cs_Labels spec)"
  shows "confined labID d d'"
  using assms by (auto simp: EnsureContainer_def split: prod.splits sum.splits option.splits if_splits
      intro: request_same [THEN same_confined] confined_trans make_and_start_confined
        reuse_container_same [THEN same_confined])

text \<open>An object that was ensured is there, and what was there before still is.\<close>

definition grown :: "'d \<Rightarrow> 'd \<Rightarrow> bool" where
  "grown d d' = (containers d \<subseteq>\<^sub>m containers d' \<and> networks d \<subseteq>\<^sub>m networks d')"

lemma same_grown: "same d d' \<Longrightarrow> grown d d'"
  by (simp add: same_def grown_def)

lemma grown_trans: "grown d d1 \<Longrightarrow> grown d1 d2 \<Longrightarrow> grown d d2"
  by (auto simp: grown_def intro: map_le_trans)

lemma create_container_there:
  assumes "create_container dk spec d = (Inr e, d')"
  shows "grown d d' \<and> (\<exists>ls. containers d' (er_ID e) = Some ls \<and> carries ls (cs_Labels spec))"
proof -
  obtain i d1 d2 where 1: "dk_createContainer dk (cs_Name spec) (create_request spec) d = (Inr i, d1)"
    and 2: "StartContainer dk i d1 = (Inr (), d2)" and 3: "container_ready dk spec i d2 = (Inr (), d')" and e: "er_ID e = i"
    using assms by (auto simp: create_container_def split: prod.splits sum.splits)
  obtain ls where ls: "map_of (cs_Labels spec) \<subseteq>\<^sub>m map_of ls" "containers d i = None" "containers d1 = (containers d)(i \<mapsto> ls)"
    "networks d1 = networks d"
    using make_container [OF 1] by (auto simp: create_request_def)
  have "same d1 d'" using StartContainer_same [OF 2] container_ready_same [OF 3] by (rule same_trans)
  then show ?thesis using ls carries_extended [OF ls(1)] by (auto simp: same_def grown_def e map_le_def)
qed

lemma EnsureContainer_there:
  assumes "EnsureContainer dk spec d = (Inr e, d')"
  shows "grown d d' \<and> (\<exists>ls. containers d' (er_ID e) = Some ls \<and> carries ls (cs_Labels spec))"
proof (cases "dk_container dk (cs_Name spec) d")
  case (Pair a d1)
  note q = request_same(3) [OF Pair]
  show ?thesis
  proof (cases a)
    case (Inl x)
    then have "create_container dk spec d1 = (Inr e, d')"
      using assms Pair by (auto simp: EnsureContainer_def split: option.splits if_splits)
    from create_container_there [OF this] show ?thesis using same_grown [OF q] grown_trans by blast
  next
    case (Inr c)
    then have r: "reuse_container dk spec c d1 = (Inr e, d')"
      using assms Pair by (auto simp: EnsureContainer_def split: option.splits if_splits)
    then have "requireLabels (ci_Labels c) (cs_Labels spec)" "er_ID e = ci_ID c"
      by (auto simp: reuse_container_def split: if_splits prod.splits sum.splits)
    moreover have "same d d'" using q reuse_container_same [OF r] by (rule same_trans)
    moreover have "containers d (ci_ID c) = Some (ci_Labels c)" using inspect_container Pair Inr by blast
    ultimately show ?thesis using carries_required by (auto simp: same_def grown_def)
  qed
qed

lemma EnsureNetwork_there:
  assumes "EnsureNetwork dk spec d = (Inr e, d')"
  shows "grown d d' \<and> (\<exists>ls. networks d' (er_ID e) = Some ls \<and> carries ls (ns_Labels spec))"
proof (cases "dk_network dk (ns_Name spec) d")
  case (Pair a d1)
  note q = request_same(2) [OF Pair]
  show ?thesis
  proof (cases a)
    case (Inl x)
    then obtain i where i: "dk_createNetwork dk spec d1 = (Inr i, d')" "er_ID e = i"
      using assms Pair by (auto simp: EnsureNetwork_def split: prod.splits sum.splits if_splits)
    then show ?thesis using create_network [OF i(1)] q carries_extended [of "ns_Labels spec" "ns_Labels spec"]
      by (auto simp: same_def grown_def map_le_def)
  next
    case (Inr n)
    then have "requireLabels (ni_Labels n) (ns_Labels spec)" "er_ID e = ni_ID n" "d' = d1"
      using assms Pair by (auto simp: EnsureNetwork_def split: if_splits)
    moreover have "networks d (ni_ID n) = Some (ni_Labels n)" using inspect_network Pair Inr by blast
    ultimately show ?thesis using q carries_required by (auto simp: same_def grown_def)
  qed
qed

lemma ListManagedContainers_part:
  assumes "ListManagedContainers dk labID d = (Inr xs, d')" "labID \<noteq> []"
  shows "distinct (map ro_ID xs)" "ro_ID ` set xs = lab_part labID (containers d)"
proof -
  obtain cs where cs: "dk_containers dk (managed_filters labID) d = (Inr cs, d')" "xs = map container_resource cs"
    using assms(1) by (auto simp: ListManagedContainers_def listContainers_def map_answer_def
        split: prod.splits sum.splits)
  note l = list_containers [OF cs(1)]
  have ids: "map ro_ID xs = map li_ID cs" by (simp add: cs(2) container_resource_def comp_def)
  show "distinct (map ro_ID xs)" using l by (simp only: ids)
  have "set (map ro_ID xs) = lab_part labID (containers d)"
    unfolding ids lab_part_selected [OF assms(2)] using l by (intro listed_ids [where g = li_Labels]) auto
  then show "ro_ID ` set xs = lab_part labID (containers d)" by simp
qed

lemma ListManagedNetworks_part:
  assumes "ListManagedNetworks dk labID d = (Inr xs, d')" "labID \<noteq> []"
  shows "distinct (map ro_ID xs)" "ro_ID ` set xs = lab_part labID (networks d)"
proof -
  obtain ns where ns: "dk_networks dk (managed_filters labID) d = (Inr ns, d')" "xs = map network_resource ns"
    using assms(1) by (auto simp: ListManagedNetworks_def map_answer_def split: prod.splits sum.splits)
  note l = list_networks [OF ns(1)]
  have ids: "map ro_ID xs = map ln_ID ns" by (simp add: ns(2) network_resource_def comp_def)
  show "distinct (map ro_ID xs)" using l by (simp only: ids)
  have "set (map ro_ID xs) = lab_part labID (networks d)"
    unfolding ids lab_part_selected [OF assms(2)] using l by (intro listed_ids [where g = ln_Labels]) auto
  then show "ro_ID ` set xs = lab_part labID (networks d)" by simp
qed

end

end
