(* ===== verification/Templates.thy ===== *)
theory Templates
  imports LabRules Float64
begin

text \<open>
  The templates of the orchestrator, \<^verbatim>\<open>services/orchestrator/internal/template/registry.go\<close>: what a
  scenario consists of and how its containers are set up. \<open>Load\<close> reads a directory; a file is given
  by what reading and decoding it yields (\<open>None\<close> is an error). A container template may extend
  another; \<open>resolveContainer\<close> follows the chain and must not follow a cycle.
\<close>

subsection \<open>Templates\<close>

record template_Healthcheck =
  hk_Path :: string
  hk_Port :: int
  hk_IntervalSeconds :: int
  hk_TimeoutSeconds :: int
  hk_Retries :: int

record containerFile =
  cf_TemplateID :: string
  cf_TemplateVersion :: int
  cf_ResourceType :: string
  cf_Extends :: string
  cf_ImageEnv :: string
  cf_User :: string
  cf_Command :: "string list option"
  cf_ReadOnlyRootFilesystem :: "bool option"
  cf_Privileged :: "bool option"
  cf_PublishPorts :: "bool option"
  cf_CapDrop :: "string list option"
  cf_MemoryLimitMB :: "int option"
  cf_PidsLimit :: "int option"
  cf_Healthcheck :: "template_Healthcheck option"
  cf_Modules :: "string list option"

record Container =
  ct_TemplateID :: string
  ct_TemplateVersion :: int
  ct_ImageEnv :: string
  ct_User :: string
  ct_Command :: "string list"
  ct_ReadOnlyRootFilesystem :: bool
  ct_Privileged :: bool
  ct_PublishPorts :: bool
  ct_CapDrop :: "string list"
  ct_MemoryLimitMB :: int
  ct_PidsLimit :: int
  ct_Healthcheck :: "template_Healthcheck option"
  ct_Modules :: "string list"

record Network =
  nw_TemplateID :: string
  nw_TemplateVersion :: int
  nw_ResourceType :: string
  nw_Driver :: string
  nw_Internal :: bool
  nw_Attachable :: bool
  nw_NamePattern :: string
  nw_RequiredLabels :: "(string \<times> string) list"

record template_Database =
  db_TemplateID :: string
  db_TemplateVersion :: int
  db_ResourceType :: string
  db_DatabaseNamePattern :: string
  db_UserNamePattern :: string
  db_ProvisionProcedure :: string
  db_ResetProcedure :: string
  db_DestroyProcedure :: string

record template_Nginx =
  ng_TemplateID :: string
  ng_TemplateVersion :: int
  ng_ResourceType :: string
  ng_TemplatePath :: string
  ng_OutputDirectory :: string
  ng_TestBeforeReload :: bool
  ng_AtomicReplace :: bool
  ng_GracefulReload :: bool

record ProductSeed =
  sd_ID :: nat
  sd_Name :: string
  sd_Category :: string
  sd_Price :: rat
  sd_Currency :: string
  sd_StockLabel :: string
  sd_Description :: string
  sd_Version :: int

record Scenario =
  sn_TemplateID :: string
  sn_TemplateVersion :: int
  sn_ScenarioType :: string
  rt_Application :: string
  rt_Database :: string
  rt_Network :: string
  rt_NginxFragment :: string
  rt_Redis :: string
  rs_BaseCPULimitCores :: rat
  rs_MemoryLimitMB :: int
  rs_PidsLimit :: int
  lm_BaseProcessingSpeed :: int
  lm_MaxLoad :: int
  lm_InitialPerformancePercent :: int
  lm_MinPerformancePercent :: int
  lm_MaxPerformancePercent :: int
  lb_InitialWeight :: int
  lb_Mode :: string
  os_DefaultBatchSize :: int
  os_DefaultGenerationIntervalMS :: int
  os_OverloadPolicy :: string
  os_ConcurrencyControl :: string
  tp_InitialInstances :: int
  tp_MinimumInstances :: int
  tp_MaximumInstances :: int
  ca_L1MaxProductEntries :: int
  ca_L1TTLMS :: int
  ca_L2TTLMS :: int
  ca_L2TTLJitterPercent :: int
  ca_LatencyL1 :: int
  ca_LatencyRedis :: int
  ca_LatencyMySQL :: int
  ca_LatencyDegraded :: int
  sn_ProductSeeds :: "ProductSeed list"

record Registry =
  rg_containers :: "(string \<times> Container) list"
  rg_networks :: "(string \<times> Network) list"
  rg_databases :: "(string \<times> template_Database) list"
  rg_nginx :: "(string \<times> template_Nginx) list"
  rg_scenarios :: "(string \<times> Scenario) list"

subsection \<open>Checks\<close>

fun id_chars :: "nat \<Rightarrow> string \<Rightarrow> bool" where
  "id_chars i [] = True"
| "id_chars i (r # rs) =
     (if is_lower r \<or> is_digit r then id_chars (Suc i) rs
      else if i > 0 \<and> (r = CHR ''-'' \<or> r = CHR ''_'') then id_chars (Suc i) rs
      else False)"

definition validID :: "string \<Rightarrow> bool" where
  "validID value = (if value = [] \<or> length value > 128 then False else id_chars 0 value)"

text \<open>\<open>strings.Contains\<close>.\<close>

fun Contains :: "string \<Rightarrow> string \<Rightarrow> bool" where
  "Contains [] sub = (sub = [])"
| "Contains (c # s) sub = (take (length sub) (c # s) = sub \<or> Contains s sub)"

definition validateContainer :: "Container \<Rightarrow> string option" where
  "validateContainer value =
     (if \<not> validID (ct_TemplateID value) \<or> ct_TemplateVersion value \<le> 0 \<or> ct_ImageEnv value = []
      then Some ''container identity or image source is invalid''
      else if ct_User value = [] \<or> ct_Privileged value \<or> ct_PublishPorts value \<or>
         \<not> ct_ReadOnlyRootFilesystem value
      then Some ''container security settings are invalid''
      else if ct_MemoryLimitMB value \<le> 0 \<or> ct_PidsLimit value \<le> 0
      then Some ''container limits must be positive''
      else if length (ct_CapDrop value) \<noteq> 1 \<or> ct_CapDrop value ! 0 \<noteq> ''ALL''
      then Some ''container must drop all capabilities''
      else case ct_Healthcheck value of
        None \<Rightarrow> None
      | Some h \<Rightarrow>
          if hk_Path h = [] \<or> hk_Port h \<le> 0 \<or> hk_IntervalSeconds h \<le> 0 \<or> hk_TimeoutSeconds h \<le> 0 \<or>
             hk_Retries h \<le> 0
          then Some ''container healthcheck is invalid'' else None)"

definition validateNetwork :: "Network \<Rightarrow> string option" where
  "validateNetwork value =
     (if \<not> validID (nw_TemplateID value) \<or> nw_TemplateVersion value \<le> 0 \<or> nw_Driver value \<noteq> ''bridge'' \<or>
         \<not> nw_Internal value \<or> nw_Attachable value \<or> \<not> Contains (nw_NamePattern value) ''{labId}''
      then Some ''network template is invalid''
      else if map_of (nw_RequiredLabels value) ''platform.managed'' \<noteq> Some ''true''
      then Some ''network template must require the managed label'' else None)"

definition validateDatabase :: "template_Database \<Rightarrow> string option" where
  "validateDatabase value =
     (if \<not> validID (db_TemplateID value) \<or> db_TemplateVersion value \<le> 0 \<or>
         \<not> Contains (db_DatabaseNamePattern value) ''{normalizedLabId}'' \<or>
         \<not> Contains (db_UserNamePattern value) ''{normalizedLabId}'' \<or>
         db_ProvisionProcedure value \<noteq> ''platform.provision_lab_database'' \<or>
         db_ResetProcedure value \<noteq> ''platform.reset_lab_database'' \<or>
         db_DestroyProcedure value \<noteq> ''platform.destroy_lab_database''
      then Some ''database template is invalid'' else None)"

definition validateNginx :: "template_Nginx \<Rightarrow> string option" where
  "validateNginx value =
     (if \<not> validID (ng_TemplateID value) \<or> ng_TemplateVersion value \<le> 0 \<or> ng_TemplatePath value = [] \<or>
         ng_OutputDirectory value = [] \<or> \<not> ng_TestBeforeReload value \<or> \<not> ng_AtomicReplace value \<or>
         \<not> ng_GracefulReload value
      then Some ''nginx template is invalid'' else None)"

fun seeds_ok :: "nat list \<Rightarrow> ProductSeed list \<Rightarrow> bool" where
  "seeds_ok seen [] = True"
| "seeds_ok seen (p # ps) =
     (if sd_ID p = 0 \<or> sd_ID p \<in> set seen \<or> sd_Name p = [] \<or> sd_Category p = [] \<or> sd_Price p < 0 \<or>
         length (sd_Currency p) \<noteq> 3 \<or> sd_StockLabel p = [] \<or> sd_Version p \<le> 0
      then False else seeds_ok (sd_ID p # seen) ps)"

definition cache_settings_ok :: "Scenario \<Rightarrow> bool" where
  "cache_settings_ok value = (\<not> (tp_InitialInstances value \<le> 0 \<or> tp_MinimumInstances value \<le> 0 \<or>
     tp_InitialInstances value < tp_MinimumInstances value \<or>
     tp_InitialInstances value > tp_MaximumInstances value \<or> ca_L1MaxProductEntries value \<le> 0 \<or>
     ca_L1TTLMS value \<le> 0 \<or> ca_L2TTLMS value \<le> 0 \<or> ca_L2TTLJitterPercent value < 0 \<or>
     ca_L2TTLJitterPercent value > 50 \<or> ca_LatencyL1 value \<le> 0 \<or> ca_LatencyRedis value \<le> 0 \<or>
     ca_LatencyMySQL value \<le> 0 \<or> ca_LatencyDegraded value \<le> 0))"

definition validateScenario :: "Registry \<Rightarrow> Scenario \<Rightarrow> string option" where
  "validateScenario r value =
     (if \<not> validID (sn_TemplateID value) \<or> sn_TemplateVersion value \<le> 0 \<or> \<not> validID (sn_ScenarioType value)
      then Some ''scenario identity is invalid''
      else if map_of (rg_containers r) (rt_Application value) = None then Some ''application template does not exist''
      else if map_of (rg_databases r) (rt_Database value) = None then Some ''database template does not exist''
      else if map_of (rg_networks r) (rt_Network value) = None then Some ''network template does not exist''
      else if map_of (rg_nginx r) (rt_NginxFragment value) = None then Some ''nginx template does not exist''
      else if rt_Redis value \<noteq> [] \<and> map_of (rg_containers r) (rt_Redis value) = None
      then Some ''redis template does not exist''
      else if rs_BaseCPULimitCores value \<le> 0 \<or> rs_MemoryLimitMB value \<le> 0 \<or> rs_PidsLimit value \<le> 0
      then Some ''scenario resource limits must be positive''
      else if lm_BaseProcessingSpeed value \<le> 0 \<or> lm_MaxLoad value \<le> 0 \<or>
         lm_MinPerformancePercent value \<le> 0 \<or>
         lm_InitialPerformancePercent value < lm_MinPerformancePercent value \<or>
         lm_InitialPerformancePercent value > lm_MaxPerformancePercent value
      then Some ''scenario load model settings are invalid''
      else if lb_InitialWeight value \<le> 0 \<or> lb_Mode value = []
      then Some ''scenario load balancing settings are invalid''
      else if length (sn_ProductSeeds value) = 0 \<or> length (sn_ProductSeeds value) > 64
      then Some ''scenario product seeds are invalid''
      else if \<not> seeds_ok [] (sn_ProductSeeds value) then Some ''scenario product seed is invalid''
      else if rt_Redis value \<noteq> [] \<and> \<not> cache_settings_ok value then Some ''scenario cache settings are invalid''
      else None)"

subsection \<open>Inheritance\<close>

definition zero_container :: Container where
  "zero_container = \<lparr>ct_TemplateID = [], ct_TemplateVersion = 0, ct_ImageEnv = [], ct_User = [], ct_Command = [],
     ct_ReadOnlyRootFilesystem = False, ct_Privileged = False, ct_PublishPorts = False, ct_CapDrop = [],
     ct_MemoryLimitMB = 0, ct_PidsLimit = 0, ct_Healthcheck = None, ct_Modules = []\<rparr>"

definition overlayContainer :: "Container \<Rightarrow> containerFile \<Rightarrow> Container" where
  "overlayContainer r v = r\<lparr>
     ct_ImageEnv := (if cf_ImageEnv v \<noteq> [] then cf_ImageEnv v else ct_ImageEnv r),
     ct_User := (if cf_User v \<noteq> [] then cf_User v else ct_User r),
     ct_Command := (case cf_Command v of None \<Rightarrow> ct_Command r | Some x \<Rightarrow> x),
     ct_ReadOnlyRootFilesystem := (case cf_ReadOnlyRootFilesystem v of None \<Rightarrow> ct_ReadOnlyRootFilesystem r | Some x \<Rightarrow> x),
     ct_Privileged := (case cf_Privileged v of None \<Rightarrow> ct_Privileged r | Some x \<Rightarrow> x),
     ct_PublishPorts := (case cf_PublishPorts v of None \<Rightarrow> ct_PublishPorts r | Some x \<Rightarrow> x),
     ct_CapDrop := (case cf_CapDrop v of None \<Rightarrow> ct_CapDrop r | Some x \<Rightarrow> x),
     ct_MemoryLimitMB := (case cf_MemoryLimitMB v of None \<Rightarrow> ct_MemoryLimitMB r | Some x \<Rightarrow> x),
     ct_PidsLimit := (case cf_PidsLimit v of None \<Rightarrow> ct_PidsLimit r | Some x \<Rightarrow> x),
     ct_Healthcheck := (case cf_Healthcheck v of None \<Rightarrow> ct_Healthcheck r | Some x \<Rightarrow> Some x),
     ct_Modules := (case cf_Modules v of None \<Rightarrow> ct_Modules r | Some x \<Rightarrow> x)\<rparr>"

definition named_as :: "containerFile \<Rightarrow> Container \<Rightarrow> Container" where
  "named_as v base = base\<lparr>ct_TemplateID := cf_TemplateID v, ct_TemplateVersion := cf_TemplateVersion v\<rparr>"

definition validated :: "Container \<Rightarrow> (string, Container) result" where
  "validated c = (case validateContainer c of Some e \<Rightarrow> Inl e | None \<Rightarrow> Inr c)"

text \<open>The stack holds the templates whose resolution has not returned, which bounds the recursion.\<close>

function resolveContainer ::
  "string \<Rightarrow> (string \<times> containerFile) list \<Rightarrow> string list \<Rightarrow> (string, Container) result" where
  "resolveContainer tid files stack =
     (case map_of files tid of
        None \<Rightarrow> Inl ''container template does not exist''
      | Some value \<Rightarrow>
          if tid \<in> set stack then Inl ''container template inheritance cycle''
          else if cf_Extends value = [] then validated (overlayContainer (named_as value zero_container) value)
          else case resolveContainer (cf_Extends value) files (tid # stack) of
            Inl e \<Rightarrow> Inl e
          | Inr base \<Rightarrow> validated (overlayContainer (named_as value base) value))"
  by auto
termination
proof (relation "measure (\<lambda>(tid, files, stack). card (fst ` set files - set stack))")
  fix tid :: string and files stack and w :: containerFile
  assume v: "map_of files tid = Some w" and s: "tid \<notin> set stack"
  have "tid \<in> fst ` set files" using v by (auto dest!: map_of_SomeD intro!: rev_image_eqI)
  then have "fst ` set files - set (tid # stack) \<subset> fst ` set files - set stack" using s by auto
  then show "((cf_Extends w, files, tid # stack), tid, files, stack)
      \<in> measure (\<lambda>(tid, files, stack). card (fst ` set files - set stack))"
    by (simp add: psubset_card_mono)
qed simp

declare resolveContainer.simps [simp del]

text \<open>What a template inherits, without a stack: the specification.\<close>

inductive inherits :: "(string \<times> containerFile) list \<Rightarrow> string \<Rightarrow> Container \<Rightarrow> bool" for files where
  root: "map_of files tid = Some v \<Longrightarrow> cf_Extends v = [] \<Longrightarrow>
    validated (overlayContainer (named_as v zero_container) v) = Inr c \<Longrightarrow> inherits files tid c"
| derived: "map_of files tid = Some v \<Longrightarrow> cf_Extends v \<noteq> [] \<Longrightarrow> inherits files (cf_Extends v) base \<Longrightarrow>
    validated (overlayContainer (named_as v base) v) = Inr c \<Longrightarrow> inherits files tid c"

definition extends :: "(string \<times> containerFile) list \<Rightarrow> string \<Rightarrow> string \<Rightarrow> bool" where
  "extends files y x = (\<exists>v. map_of files x = Some v \<and> cf_Extends v \<noteq> [] \<and> y = cf_Extends v)"

lemma inherits_accp: "inherits files tid c \<Longrightarrow> Wellfounded.accp (extends files) tid"
proof (induction rule: inherits.induct)
  case (root tid v c)
  show ?case by (rule accp.accI) (use root in \<open>auto simp: extends_def\<close>)
next
  case (derived tid v base c)
  show ?case by (rule accp.accI) (use derived in \<open>auto simp: extends_def\<close>)
qed

lemma accp_acyclic: "Wellfounded.accp r x \<Longrightarrow> \<not> r\<^sup>+\<^sup>+ x x"
proof (induction rule: accp.induct)
  case (accI x)
  show ?case
  proof
    assume "r\<^sup>+\<^sup>+ x x"
    then obtain y where "r\<^sup>*\<^sup>* x y" "r y x" 
      by (cases rule: tranclp.cases) (auto intro: tranclp_into_rtranclp)
    then have "r\<^sup>+\<^sup>+ y y" by (intro rtranclp_into_tranclp2)
    then show False using accI(2) [OF \<open>r y x\<close>] by blast
  qed
qed

lemma resolve_sound: "resolveContainer tid files stack = Inr c \<Longrightarrow> inherits files tid c"
proof (induction tid files stack arbitrary: c rule: resolveContainer.induct)
  case (1 tid files stack)
  from 1(2) obtain v where v: "map_of files tid = Some v" "tid \<notin> set stack"
    by (subst (asm) resolveContainer.simps) (auto split: option.splits if_splits)
  show ?case
  proof (cases "cf_Extends v = []")
    case True
    then show ?thesis using 1(2) v by (subst (asm) resolveContainer.simps) (auto intro: inherits.root)
  next
    case False
    then obtain base where "resolveContainer (cf_Extends v) files (tid # stack) = Inr base"
      "validated (overlayContainer (named_as v base) v) = Inr c"
      using 1(2) v by (subst (asm) resolveContainer.simps) (auto split: sum.splits)
    then show ?thesis using 1(1) [OF v False] v False by (auto intro: inherits.derived)
  qed
qed

lemma resolve_complete:
  assumes "inherits files tid c" "\<forall>x \<in> set stack. \<not> (extends files)\<^sup>*\<^sup>* x tid"
  shows "resolveContainer tid files stack = Inr c"
  using assms
proof (induction arbitrary: stack rule: inherits.induct)
  case (root tid v c)
  then show ?case by (subst resolveContainer.simps) auto
next
  case (derived tid v base c)
  have e: "extends files (cf_Extends v) tid" using derived(1,2) by (auto simp: extends_def)
  have "inherits files tid c" using derived(1-4) by (rule inherits.derived)
  then have acyc: "\<not> (extends files)\<^sup>+\<^sup>+ tid tid" by (intro accp_acyclic inherits_accp)
  have "\<forall>x \<in> set (tid # stack). \<not> (extends files)\<^sup>*\<^sup>* x (cf_Extends v)"
    using derived(6) e acyc by (auto dest: rtranclp_into_tranclp1 intro: rtranclp.rtrancl_into_rtrancl)
  then have "resolveContainer (cf_Extends v) files (tid # stack) = Inr base" by (rule derived(5))
  then show ?case using derived(1,2,4,6) by (subst resolveContainer.simps) auto
qed

text \<open>
  Claim C38. Resolving a container template always returns, on any set of files, cyclic ones
  included; it returns a container exactly when the chain of templates the file extends is finite
  and each step of it is valid, and then the container that the chain defines, the nearest
  definition of each setting taking precedence.
\<close>

theorem resolveContainer_correct:
  "resolveContainer tid files [] = Inr c \<longleftrightarrow> inherits files tid c"
  using resolve_sound resolve_complete [of files tid c "[]"] by auto

subsection \<open>Loading\<close>

text \<open>
  A resource file: whether it can be read, the two fields that are decoded first, and what the
  strict decoding as each kind of template yields.
\<close>

record template_file =
  tf_readable :: bool
  tf_header :: "(string \<times> string) option"
  tf_container :: "containerFile option"
  tf_network :: "Network option"
  tf_database :: "template_Database option"
  tf_nginx :: "template_Nginx option"

definition hasTemplate :: "Registry \<Rightarrow> string \<Rightarrow> bool" where
  "hasTemplate r i = (map_of (rg_containers r) i \<noteq> None \<or> map_of (rg_networks r) i \<noteq> None \<or>
     map_of (rg_databases r) i \<noteq> None \<or> map_of (rg_nginx r) i \<noteq> None \<or> map_of (rg_scenarios r) i \<noteq> None)"

definition has_file :: "(string \<times> containerFile) list \<Rightarrow> string \<Rightarrow> bool" where
  "has_file files i = (case map_of files i of None \<Rightarrow> False | Some v \<Rightarrow> cf_TemplateID v \<noteq> [])"

definition load_resource ::
  "template_file \<Rightarrow> Registry \<times> (string \<times> containerFile) list \<Rightarrow>
   (string, Registry \<times> (string \<times> containerFile) list) result" where
  "load_resource f = (\<lambda>(r, files).
     if \<not> tf_readable f then Inl ''read resource template''
     else case tf_header f of
       None \<Rightarrow> Inl ''decode resource template header''
     | Some (templateID, resourceType) \<Rightarrow>
         if \<not> validID templateID then Inl ''resource template has invalid templateId''
         else if hasTemplate r templateID \<or> has_file files templateID then Inl ''duplicate templateId''
         else if resourceType = ''container'' then
           (case tf_container f of None \<Rightarrow> Inl ''decode container template''
            | Some value \<Rightarrow> Inr (r, AList.update (cf_TemplateID value) value files))
         else if resourceType = ''network'' then
           (case tf_network f of None \<Rightarrow> Inl ''decode network template''
            | Some value \<Rightarrow> (case validateNetwork value of Some e \<Rightarrow> Inl e
                | None \<Rightarrow> Inr (r\<lparr>rg_networks := AList.update (nw_TemplateID value) value (rg_networks r)\<rparr>, files)))
         else if resourceType = ''database'' then
           (case tf_database f of None \<Rightarrow> Inl ''decode database template''
            | Some value \<Rightarrow> (case validateDatabase value of Some e \<Rightarrow> Inl e
                | None \<Rightarrow> Inr (r\<lparr>rg_databases := AList.update (db_TemplateID value) value (rg_databases r)\<rparr>, files)))
         else if resourceType = ''nginxFragment'' then
           (case tf_nginx f of None \<Rightarrow> Inl ''decode nginx template''
            | Some value \<Rightarrow> (case validateNginx value of Some e \<Rightarrow> Inl e
                | None \<Rightarrow> Inr (r\<lparr>rg_nginx := AList.update (ng_TemplateID value) value (rg_nginx r)\<rparr>, files)))
         else Inl ''resource template has unsupported resourceType'')"

fun load_resources ::
  "template_file list \<Rightarrow> Registry \<times> (string \<times> containerFile) list \<Rightarrow>
   (string, Registry \<times> (string \<times> containerFile) list) result" where
  "load_resources [] s = Inr s"
| "load_resources (f # fs) s = (case load_resource f s of Inl e \<Rightarrow> Inl e | Inr s' \<Rightarrow> load_resources fs s')"

fun load_containers ::
  "string list \<Rightarrow> (string \<times> containerFile) list \<Rightarrow> Registry \<Rightarrow> (string, Registry) result" where
  "load_containers [] files r = Inr r"
| "load_containers (i # is) files r =
     (case resolveContainer i files [] of
        Inl e \<Rightarrow> Inl e
      | Inr value \<Rightarrow> load_containers is files (r\<lparr>rg_containers := AList.update i value (rg_containers r)\<rparr>))"

fun load_scenarios :: "Scenario option list \<Rightarrow> Registry \<Rightarrow> (string, Registry) result" where
  "load_scenarios [] r = Inr r"
| "load_scenarios (None # fs) r = Inl ''decode scenario template''"
| "load_scenarios (Some value # fs) r =
     (if hasTemplate r (sn_TemplateID value) then Inl ''duplicate templateId''
      else case validateScenario r value of
        Some e \<Rightarrow> Inl e
      | None \<Rightarrow> load_scenarios fs (r\<lparr>rg_scenarios := AList.update (sn_TemplateID value) value (rg_scenarios r)\<rparr>))"

text \<open>\<open>Load\<close>, given the cleaned root and the files of the two directories.\<close>

definition Load :: "string \<Rightarrow> template_file list \<Rightarrow> Scenario option list \<Rightarrow> (string, Registry) result" where
  "Load dir resources scenarios =
     (if dir = ''.'' \<or> dir = [] then Inl ''template root is required''
      else if resources = [] then Inl ''no resource templates found''
      else case load_resources resources (\<lparr>rg_containers = [], rg_networks = [], rg_databases = [], rg_nginx = [],
             rg_scenarios = []\<rparr>, []) of
        Inl e \<Rightarrow> Inl e
      | Inr (r, files) \<Rightarrow>
         (case load_containers (map fst files) files r of
            Inl e \<Rightarrow> Inl e
          | Inr r' \<Rightarrow> if scenarios = [] then Inl ''no scenario templates found'' else load_scenarios scenarios r'))"

subsection \<open>What a loaded registry guarantees\<close>

definition resources_ok :: "Registry \<Rightarrow> bool" where
  "resources_ok r = ((\<forall>k c. map_of (rg_containers r) k = Some c \<longrightarrow> validateContainer c = None) \<and>
     (\<forall>k n. map_of (rg_networks r) k = Some n \<longrightarrow> validateNetwork n = None) \<and>
     (\<forall>k d. map_of (rg_databases r) k = Some d \<longrightarrow> validateDatabase d = None))"

definition registry_ok :: "Registry \<Rightarrow> bool" where
  "registry_ok r = (resources_ok r \<and>
     (\<forall>k s. map_of (rg_scenarios r) k = Some s \<longrightarrow> validateScenario r s = None))"

lemma load_resource_cases:
  assumes "load_resource f (r, files) = Inr (r', files')"
  shows "r' = r \<or>
    (\<exists>n. validateNetwork n = None \<and> r' = r\<lparr>rg_networks := AList.update (nw_TemplateID n) n (rg_networks r)\<rparr>) \<or>
    (\<exists>d. validateDatabase d = None \<and> r' = r\<lparr>rg_databases := AList.update (db_TemplateID d) d (rg_databases r)\<rparr>) \<or>
    (\<exists>x. validateNginx x = None \<and> r' = r\<lparr>rg_nginx := AList.update (ng_TemplateID x) x (rg_nginx r)\<rparr>)"
proof -
  obtain t k where h: "tf_header f = Some (t, k)"
  proof (cases "tf_header f")
    case None
    then show ?thesis using assms by (simp add: load_resource_def split: if_split_asm)
  qed auto
  have ok: "validID t" "\<not> (hasTemplate r t \<or> has_file files t)" "tf_readable f"
    using assms h by (auto simp: load_resource_def split: if_split_asm)
  consider "k = ''container''" | "k = ''network''" | "k = ''database''" | "k = ''nginxFragment''"
    using assms h ok by (auto simp: load_resource_def split: if_split_asm)
  then show ?thesis
  proof cases
    case 1
    then show ?thesis using assms h ok by (simp add: load_resource_def split: option.split_asm)
  next
    case 2
    then show ?thesis using assms h ok by (auto simp: load_resource_def split: option.split_asm)
  next
    case 3
    then show ?thesis using assms h ok by (auto simp: load_resource_def split: option.split_asm)
  next
    case 4
    then show ?thesis using assms h ok by (auto simp: load_resource_def split: option.split_asm)
  qed
qed

lemma load_resource_ok:
  assumes "load_resource f (r, files) = Inr (r', files')" "resources_ok r" "rg_scenarios r = []" "rg_containers r = []"
  shows "resources_ok r' \<and> rg_scenarios r' = [] \<and> rg_containers r' = []"
  using load_resource_cases [OF assms(1)] assms(2-) by (elim disjE exE conjE) (simp_all add: resources_ok_def)

lemma Load_Inr:
  assumes "Load dir resources scenarios = Inr r"
  shows "\<exists>r1 files r2. load_resources resources (\<lparr>rg_containers = [], rg_networks = [], rg_databases = [], rg_nginx = [],
       rg_scenarios = []\<rparr>, []) = Inr (r1, files) \<and> load_containers (map fst files) files r1 = Inr r2 \<and>
    load_scenarios scenarios r2 = Inr r"
  using assms unfolding Load_def by (auto split: if_split_asm sum.split_asm)

lemma load_resources_ok:
  "load_resources fs (r, files) = Inr (r', files') \<Longrightarrow> resources_ok r \<Longrightarrow> rg_scenarios r = [] \<Longrightarrow>
     rg_containers r = [] \<Longrightarrow> resources_ok r' \<and> rg_scenarios r' = []"
proof (induction fs arbitrary: r files)
  case (Cons f fs)
  then obtain r1 files1 where "load_resource f (r, files) = Inr (r1, files1)" "load_resources fs (r1, files1) = Inr (r', files')"
    by (auto split: sum.splits)
  then show ?case using Cons.IH load_resource_ok Cons.prems(2-) by blast
qed simp

lemma resolved_valid: "resolveContainer i files stack = Inr c \<Longrightarrow> validateContainer c = None"
  using resolve_sound by (fastforce elim: inherits.cases simp: validated_def split: option.splits)

lemma load_containers_ok:
  "load_containers ids files r = Inr r' \<Longrightarrow> resources_ok r \<Longrightarrow> rg_scenarios r = [] \<Longrightarrow>
     resources_ok r' \<and> rg_scenarios r' = []"
proof (induction ids arbitrary: r)
  case (Cons i ids)
  then obtain c where c: "resolveContainer i files [] = Inr c"
    and rest: "load_containers ids files (r\<lparr>rg_containers := AList.update i c (rg_containers r)\<rparr>) = Inr r'"
    by (auto split: sum.splits)
  have "resources_ok (r\<lparr>rg_containers := AList.update i c (rg_containers r)\<rparr>)"
    using Cons.prems(2) resolved_valid [OF c] by (auto simp: resources_ok_def)
  then show ?case using Cons.IH [OF rest] Cons.prems(3) by simp
qed simp

lemma validateScenario_scenarios: "validateScenario (r\<lparr>rg_scenarios := x\<rparr>) s = validateScenario r s"
  by (simp add: validateScenario_def)

lemma load_scenarios_ok: "load_scenarios ss r = Inr r' \<Longrightarrow> registry_ok r \<Longrightarrow> registry_ok r'"
proof (induction ss r rule: load_scenarios.induct)
  case (3 s fs r)
  then have v: "validateScenario r s = None" "\<not> hasTemplate r (sn_TemplateID s)"
    and rest: "load_scenarios fs (r\<lparr>rg_scenarios := AList.update (sn_TemplateID s) s (rg_scenarios r)\<rparr>) = Inr r'"
    by (auto split: if_splits option.splits)
  have "registry_ok (r\<lparr>rg_scenarios := AList.update (sn_TemplateID s) s (rg_scenarios r)\<rparr>)"
    using 3(3) v(1) by (auto simp: registry_ok_def resources_ok_def validateScenario_scenarios)
  then show ?case using 3(1) [OF v(2,1) rest] by simp
qed simp_all

lemma Load_registry_ok:
  assumes "Load dir resources scenarios = Inr r"
  shows "registry_ok r"
proof -
  obtain r1 files r2 where l: "load_resources resources (\<lparr>rg_containers = [], rg_networks = [], rg_databases = [], rg_nginx = [],
       rg_scenarios = []\<rparr>, []) = Inr (r1, files)" "load_containers (map fst files) files r1 = Inr r2"
    "load_scenarios scenarios r2 = Inr r"
    using Load_Inr [OF assms] by blast
  have "resources_ok r1" "rg_scenarios r1 = []"
    using load_resources_ok [OF l(1)] by (simp_all add: resources_ok_def)
  then have "resources_ok r2" "rg_scenarios r2 = []" using load_containers_ok [OF l(2)] by simp_all
  then have "registry_ok r2" by (simp add: registry_ok_def)
  with l(3) show ?thesis by (rule load_scenarios_ok)
qed

text \<open>
  Claim C39. A scenario of a registry that was loaded has all the templates it refers to: the
  application container, the network, the database, the gateway fragment and, if it names one, Redis. The
  application container, and that of Redis when it has one, runs unprivileged, on a read-only
  file system, without capabilities and without published ports, and its network is internal.
\<close>

theorem loaded_scenarios_safe:
  assumes "Load dir resources scenarios = Inr r" "map_of (rg_scenarios r) i = Some s"
  shows "\<exists>c n d. map_of (rg_containers r) (rt_Application s) = Some c \<and>
      map_of (rg_networks r) (rt_Network s) = Some n \<and> map_of (rg_databases r) (rt_Database s) = Some d \<and>
      (\<forall>c' \<in> {c} \<union> set_option (map_of (rg_containers r) (rt_Redis s)).
         \<not> ct_Privileged c' \<and> \<not> ct_PublishPorts c' \<and> ct_ReadOnlyRootFilesystem c' \<and> ct_CapDrop c' = [''ALL'']) \<and>
      nw_Internal n \<and> map_of (rg_nginx r) (rt_NginxFragment s) \<noteq> None \<and>
      (rt_Redis s \<noteq> [] \<longrightarrow> map_of (rg_containers r) (rt_Redis s) \<noteq> None)"
proof -
  have ok: "registry_ok r" using assms(1) by (rule Load_registry_ok)
  then have v: "validateScenario r s = None" using assms(2) by (auto simp: registry_ok_def)
  obtain c n d where cnd: "map_of (rg_containers r) (rt_Application s) = Some c"
    "map_of (rg_networks r) (rt_Network s) = Some n" "map_of (rg_databases r) (rt_Database s) = Some d"
    using v by (auto simp: validateScenario_def split: if_splits)
  have safe: "\<not> ct_Privileged c' \<and> \<not> ct_PublishPorts c' \<and> ct_ReadOnlyRootFilesystem c' \<and> ct_CapDrop c' = [''ALL'']"
    if "map_of (rg_containers r) k = Some c'" for k c'
  proof -
    have "validateContainer c' = None"
      using ok that by (auto simp: registry_ok_def resources_ok_def)
    then show ?thesis
      by (cases "ct_CapDrop c'") (auto simp: validateContainer_def split: if_splits)
  qed
  have "validateNetwork n = None"
    using ok cnd(2) by (auto simp: registry_ok_def resources_ok_def)
  then have "nw_Internal n" by (auto simp: validateNetwork_def split: if_splits)
  moreover have "map_of (rg_nginx r) (rt_NginxFragment s) \<noteq> None \<and>
      (rt_Redis s \<noteq> [] \<longrightarrow> map_of (rg_containers r) (rt_Redis s) \<noteq> None)"
    using v by (auto simp: validateScenario_def split: if_splits)
  ultimately show ?thesis using cnd safe by auto
qed

subsection \<open>The templates of the repository\<close>

text \<open>The files of \<^verbatim>\<open>configs/resources\<close> and \<^verbatim>\<open>configs/scenarios\<close>, as they are decoded.\<close>

definition app_container_v1 :: template_file where
  "app_container_v1 = \<lparr>tf_readable = True, tf_header = Some (''app_container_v1'', ''container''),
     tf_container = Some \<lparr>cf_TemplateID = ''app_container_v1'', cf_TemplateVersion = 1, cf_ResourceType = ''container'', cf_Extends = [],
       cf_ImageEnv = ''LAB_APP_IMAGE'', cf_User = ''10001:10001'', cf_Command = None, cf_ReadOnlyRootFilesystem = Some True,
       cf_Privileged = Some False, cf_PublishPorts = None, cf_CapDrop = Some [''ALL''], cf_MemoryLimitMB = Some 128, cf_PidsLimit = Some 64,
       cf_Healthcheck = Some \<lparr>hk_Path = ''/healthz'', hk_Port = 8080, hk_IntervalSeconds = 5, hk_TimeoutSeconds = 2, hk_Retries = 10\<rparr>,
       cf_Modules = Some [''product-read'', ''order-sim'', ''metrics-export'', ''health'']\<rparr>,
     tf_network = None,
     tf_database = None,
     tf_nginx = None\<rparr>"

definition cache_app_container_v1 :: template_file where
  "cache_app_container_v1 = \<lparr>tf_readable = True, tf_header = Some (''cache_app_container_v1'', ''container''),
     tf_container = Some \<lparr>cf_TemplateID = ''cache_app_container_v1'', cf_TemplateVersion = 1, cf_ResourceType = ''container'', cf_Extends = ''app_container_v1'',
       cf_ImageEnv = [], cf_User = [], cf_Command = None, cf_ReadOnlyRootFilesystem = None,
       cf_Privileged = None, cf_PublishPorts = None, cf_CapDrop = None, cf_MemoryLimitMB = None, cf_PidsLimit = None,
       cf_Healthcheck = None,
       cf_Modules = Some [''product-read'', ''cache-l1'', ''cache-l2'', ''cache-protection'', ''metrics-export'', ''health'']\<rparr>,
     tf_network = None,
     tf_database = None,
     tf_nginx = None\<rparr>"

definition lab_database_profile_v1 :: template_file where
  "lab_database_profile_v1 = \<lparr>tf_readable = True, tf_header = Some (''lab_database_profile_v1'', ''database''),
     tf_container = None,
     tf_network = None,
     tf_database = Some \<lparr>db_TemplateID = ''lab_database_profile_v1'', db_TemplateVersion = 1, db_ResourceType = ''database'',
       db_DatabaseNamePattern = ''lab_{normalizedLabId}'', db_UserNamePattern = ''lab_{normalizedLabId}_user'',
       db_ProvisionProcedure = ''platform.provision_lab_database'', db_ResetProcedure = ''platform.reset_lab_database'',
       db_DestroyProcedure = ''platform.destroy_lab_database''\<rparr>,
     tf_nginx = None\<rparr>"

definition lab_nginx_fragment_v1 :: template_file where
  "lab_nginx_fragment_v1 = \<lparr>tf_readable = True, tf_header = Some (''lab_nginx_fragment_v1'', ''nginxFragment''),
     tf_container = None,
     tf_network = None,
     tf_database = None,
     tf_nginx = Some \<lparr>ng_TemplateID = ''lab_nginx_fragment_v1'', ng_TemplateVersion = 1, ng_ResourceType = ''nginxFragment'',
       ng_TemplatePath = ''/opt/platform/nginx-templates/lab-upstream.conf.tmpl'',
       ng_OutputDirectory = ''/var/lib/platform/nginx-labs'', ng_TestBeforeReload = True, ng_AtomicReplace = True,
       ng_GracefulReload = True\<rparr>\<rparr>"

definition session_network_v1 :: template_file where
  "session_network_v1 = \<lparr>tf_readable = True, tf_header = Some (''session_network_v1'', ''network''),
     tf_container = None,
     tf_network = Some \<lparr>nw_TemplateID = ''session_network_v1'', nw_TemplateVersion = 1, nw_ResourceType = ''network'', nw_Driver = ''bridge'',
       nw_Internal = True, nw_Attachable = False, nw_NamePattern = ''lab-{labId}-net'',
       nw_RequiredLabels = [(''platform.managed'', ''true''), (''platform.resourceType'', ''lab-network'')]\<rparr>,
     tf_database = None,
     tf_nginx = None\<rparr>"

definition session_redis_v1 :: template_file where
  "session_redis_v1 = \<lparr>tf_readable = True, tf_header = Some (''session_redis_v1'', ''container''),
     tf_container = Some \<lparr>cf_TemplateID = ''session_redis_v1'', cf_TemplateVersion = 1, cf_ResourceType = ''container'', cf_Extends = [],
       cf_ImageEnv = ''REDIS_IMAGE'', cf_User = ''redis'', cf_Command = Some [''redis-server'', ''--save'', [], ''--appendonly'', ''no'', ''--maxmemory'', ''48mb'', ''--maxmemory-policy'', ''allkeys-lru''], cf_ReadOnlyRootFilesystem = Some True,
       cf_Privileged = Some False, cf_PublishPorts = Some False, cf_CapDrop = Some [''ALL''], cf_MemoryLimitMB = Some 64, cf_PidsLimit = Some 32,
       cf_Healthcheck = None,
       cf_Modules = None\<rparr>,
     tf_network = None,
     tf_database = None,
     tf_nginx = None\<rparr>"

definition application_cluster_scenario_v1 :: Scenario where
  "application_cluster_scenario_v1 = \<lparr>sn_TemplateID = ''application_cluster_scenario_v1'', sn_TemplateVersion = 1,
     sn_ScenarioType = ''application_cluster'', rt_Application = ''app_container_v1'', rt_Database = ''lab_database_profile_v1'',
     rt_Network = ''session_network_v1'', rt_NginxFragment = ''lab_nginx_fragment_v1'', rt_Redis = [],
     rs_BaseCPULimitCores = fl (1 / 10), rs_MemoryLimitMB = 128, rs_PidsLimit = 64,
     lm_BaseProcessingSpeed = 20, lm_MaxLoad = 100, lm_InitialPerformancePercent = 100,
     lm_MinPerformancePercent = 20, lm_MaxPerformancePercent = 100,
     lb_InitialWeight = 100, lb_Mode = ''fixed'', os_DefaultBatchSize = 10,
     os_DefaultGenerationIntervalMS = 250, os_OverloadPolicy = ''drop_excess'',
     os_ConcurrencyControl = ''mutex'', tp_InitialInstances = 0,
     tp_MinimumInstances = 0, tp_MaximumInstances = 0,
     ca_L1MaxProductEntries = 0, ca_L1TTLMS = 0, ca_L2TTLMS = 0,
     ca_L2TTLJitterPercent = 0, ca_LatencyL1 = 0, ca_LatencyRedis = 0,
     ca_LatencyMySQL = 0, ca_LatencyDegraded = 0,
     sn_ProductSeeds =
      [\<lparr>sd_ID = 1, sd_Name = ''Architecture Practice Laptop'', sd_Category = ''electronics'',
          sd_Price = 6999, sd_Currency = ''CNY'', sd_StockLabel = ''in_stock'',
          sd_Description = ''Product used by the application cluster lab.'', sd_Version = 1\<rparr>,
       \<lparr>sd_ID = 2, sd_Name = ''Distributed Systems Handbook'', sd_Category = ''books'',
          sd_Price = 129, sd_Currency = ''CNY'', sd_StockLabel = ''in_stock'',
          sd_Description = ''Product used by cache and database labs.'', sd_Version = 1\<rparr>]\<rparr>"

definition application_data_separation_scenario_v1 :: Scenario where
  "application_data_separation_scenario_v1 = \<lparr>sn_TemplateID = ''application_data_separation_scenario_v1'', sn_TemplateVersion = 1,
     sn_ScenarioType = ''application_data_separation'', rt_Application = ''app_container_v1'', rt_Database = ''lab_database_profile_v1'',
     rt_Network = ''session_network_v1'', rt_NginxFragment = ''lab_nginx_fragment_v1'', rt_Redis = [],
     rs_BaseCPULimitCores = fl (1 / 10), rs_MemoryLimitMB = 128, rs_PidsLimit = 64,
     lm_BaseProcessingSpeed = 20, lm_MaxLoad = 100, lm_InitialPerformancePercent = 100,
     lm_MinPerformancePercent = 20, lm_MaxPerformancePercent = 100,
     lb_InitialWeight = 100, lb_Mode = ''fixed'', os_DefaultBatchSize = 10,
     os_DefaultGenerationIntervalMS = 250, os_OverloadPolicy = ''drop_excess'',
     os_ConcurrencyControl = ''mutex'', tp_InitialInstances = 0,
     tp_MinimumInstances = 0, tp_MaximumInstances = 0,
     ca_L1MaxProductEntries = 0, ca_L1TTLMS = 0, ca_L2TTLMS = 0,
     ca_L2TTLJitterPercent = 0, ca_LatencyL1 = 0, ca_LatencyRedis = 0,
     ca_LatencyMySQL = 0, ca_LatencyDegraded = 0,
     sn_ProductSeeds =
      [\<lparr>sd_ID = 1, sd_Name = ''Architecture Practice Laptop'', sd_Category = ''electronics'',
          sd_Price = 6999, sd_Currency = ''CNY'', sd_StockLabel = ''in_stock'',
          sd_Description = ''Product used by the application and data separation lab.'', sd_Version = 1\<rparr>,
       \<lparr>sd_ID = 2, sd_Name = ''Distributed Systems Handbook'', sd_Category = ''books'',
          sd_Price = 129, sd_Currency = ''CNY'', sd_StockLabel = ''in_stock'',
          sd_Description = ''Product used by the application and data separation lab.'', sd_Version = 1\<rparr>]\<rparr>"

definition multi_level_cache_scenario_v1 :: Scenario where
  "multi_level_cache_scenario_v1 = \<lparr>sn_TemplateID = ''multi_level_cache_scenario_v1'', sn_TemplateVersion = 1,
     sn_ScenarioType = ''multi_level_cache'', rt_Application = ''cache_app_container_v1'', rt_Database = ''lab_database_profile_v1'',
     rt_Network = ''session_network_v1'', rt_NginxFragment = ''lab_nginx_fragment_v1'', rt_Redis = ''session_redis_v1'',
     rs_BaseCPULimitCores = fl (1 / 10), rs_MemoryLimitMB = 128, rs_PidsLimit = 64,
     lm_BaseProcessingSpeed = 20, lm_MaxLoad = 100, lm_InitialPerformancePercent = 100,
     lm_MinPerformancePercent = 20, lm_MaxPerformancePercent = 100,
     lb_InitialWeight = 100, lb_Mode = ''fixed'', os_DefaultBatchSize = 10,
     os_DefaultGenerationIntervalMS = 250, os_OverloadPolicy = ''drop_excess'',
     os_ConcurrencyControl = ''mutex'', tp_InitialInstances = 3,
     tp_MinimumInstances = 1, tp_MaximumInstances = 3,
     ca_L1MaxProductEntries = 9, ca_L1TTLMS = 15000, ca_L2TTLMS = 30000,
     ca_L2TTLJitterPercent = 20, ca_LatencyL1 = 120, ca_LatencyRedis = 320,
     ca_LatencyMySQL = 800, ca_LatencyDegraded = 500,
     sn_ProductSeeds =
      [\<lparr>sd_ID = 1, sd_Name = ''Architecture Practice Laptop'', sd_Category = ''electronics'',
          sd_Price = 6999, sd_Currency = ''CNY'', sd_StockLabel = ''in_stock'',
          sd_Description = ''Product used by the multi-level cache lab.'', sd_Version = 1\<rparr>,
       \<lparr>sd_ID = 2, sd_Name = ''Edge Wireless Router'', sd_Category = ''electronics'',
          sd_Price = 129, sd_Currency = ''CNY'', sd_StockLabel = ''in_stock'',
          sd_Description = ''Product used by the multi-level cache lab.'', sd_Version = 1\<rparr>,
       \<lparr>sd_ID = 3, sd_Name = ''Mechanical Lab Keyboard'', sd_Category = ''electronics'',
          sd_Price = 499, sd_Currency = ''CNY'', sd_StockLabel = ''in_stock'',
          sd_Description = ''Product used by the multi-level cache lab.'', sd_Version = 1\<rparr>,
       \<lparr>sd_ID = 4, sd_Name = ''Distributed Systems Handbook'', sd_Category = ''books'',
          sd_Price = 129, sd_Currency = ''CNY'', sd_StockLabel = ''in_stock'',
          sd_Description = ''Product used by the multi-level cache lab.'', sd_Version = 1\<rparr>,
       \<lparr>sd_ID = 5, sd_Name = ''Database Internals Guide'', sd_Category = ''books'',
          sd_Price = 139, sd_Currency = ''CNY'', sd_StockLabel = ''in_stock'',
          sd_Description = ''Product used by the multi-level cache lab.'', sd_Version = 1\<rparr>,
       \<lparr>sd_ID = 6, sd_Name = ''Go Concurrency Workbook'', sd_Category = ''books'',
          sd_Price = 99, sd_Currency = ''CNY'', sd_StockLabel = ''in_stock'',
          sd_Description = ''Product used by the multi-level cache lab.'', sd_Version = 1\<rparr>,
       \<lparr>sd_ID = 7, sd_Name = ''Smart Desk Lamp'', sd_Category = ''home'',
          sd_Price = 259, sd_Currency = ''CNY'', sd_StockLabel = ''in_stock'',
          sd_Description = ''Product used by the multi-level cache lab.'', sd_Version = 1\<rparr>,
       \<lparr>sd_ID = 8, sd_Name = ''Room Temperature Sensor'', sd_Category = ''home'',
          sd_Price = 169, sd_Currency = ''CNY'', sd_StockLabel = ''in_stock'',
          sd_Description = ''Product used by the multi-level cache lab.'', sd_Version = 1\<rparr>,
       \<lparr>sd_ID = 9, sd_Name = ''Air Quality Monitor'', sd_Category = ''home'',
          sd_Price = 399, sd_Currency = ''CNY'', sd_StockLabel = ''in_stock'',
          sd_Description = ''Product used by the multi-level cache lab.'', sd_Version = 1\<rparr>,
       \<lparr>sd_ID = 10, sd_Name = ''Trail Running Shoes'', sd_Category = ''sports'',
          sd_Price = 699, sd_Currency = ''CNY'', sd_StockLabel = ''in_stock'',
          sd_Description = ''Product used by the multi-level cache lab.'', sd_Version = 1\<rparr>,
       \<lparr>sd_ID = 11, sd_Name = ''Carbon Badminton Racket'', sd_Category = ''sports'',
          sd_Price = 599, sd_Currency = ''CNY'', sd_StockLabel = ''in_stock'',
          sd_Description = ''Product used by the multi-level cache lab.'', sd_Version = 1\<rparr>,
       \<lparr>sd_ID = 12, sd_Name = ''Fitness Activity Tracker'', sd_Category = ''sports'',
          sd_Price = 329, sd_Currency = ''CNY'', sd_StockLabel = ''in_stock'',
          sd_Description = ''Product used by the multi-level cache lab.'', sd_Version = 1\<rparr>]\<rparr>"

definition repository_registry :: "(string, Registry) result" where
  "repository_registry = Load ''configs'' [app_container_v1, cache_app_container_v1, lab_database_profile_v1, lab_nginx_fragment_v1, session_network_v1, session_redis_v1]
     [Some application_cluster_scenario_v1, Some application_data_separation_scenario_v1, Some multi_level_cache_scenario_v1]"

lemma repository_registry_ok: "is_ok repository_registry"
  by code_simp

theorem loaded_scenarios_safe_witness:
  "\<exists>r s c. repository_registry = Inr r \<and> map_of (rg_scenarios r) ''multi_level_cache_scenario_v1'' = Some s \<and>
     map_of (rg_containers r) (rt_Redis s) = Some c \<and> \<not> ct_Privileged c \<and> ct_CapDrop c = [''ALL'']"
proof -
  obtain r where r: "repository_registry = Inr r" using repository_registry_ok by (auto simp: is_ok_iff)
  have "(case repository_registry of Inl _ \<Rightarrow> None | Inr r \<Rightarrow>
      map_option rt_Redis (map_of (rg_scenarios r) ''multi_level_cache_scenario_v1'')) = Some ''session_redis_v1''" by code_simp
  then obtain s where s: "map_of (rg_scenarios r) ''multi_level_cache_scenario_v1'' = Some s" "rt_Redis s \<noteq> []"
    by (auto simp: r)
  from loaded_scenarios_safe [OF r [unfolded repository_registry_def] s(1)] show ?thesis
    using r s by auto
qed

end
