(* ===== verification/LabDatabases.thy ===== *)
theory LabDatabases
  imports DockerClient Templates
begin

text \<open>
  The state the orchestrator works on, and the databases of the labs:
  \<^verbatim>\<open>services/orchestrator/internal/labdb/provisioner.go\<close> with the stored procedures of
  \<^verbatim>\<open>database/mysql/init/002_lab_database_routines.sql\<close> and
  \<^verbatim>\<open>database/mysql/migrations/002_lifecycle_reconciliation.sql\<close> that it calls. A procedure is the sequence
  of its statements, which commit one by one: the oracle says for each call whether it is carried out
  or is interrupted after some of them. A database is its table of products; the grants and the table
  of order statistics, which the orchestrator never reads, are left out.
\<close>

subsection \<open>The world\<close>

record Server =
  sv_Name :: string
  sv_Host :: string
  sv_Port :: int
  sv_Weight :: int

type_synonym fragments = "(string \<times> Server list) list"

record 'd world =
  w_docker :: 'd
  w_calls :: nat
  w_databases :: "(string \<times> ProductSeed list) list"
  w_users :: "(string \<times> string) list"
  w_fragments :: fragments

datatype outcome = Done | Fails nat

type_synonym outcomes = "nat \<Rightarrow> outcome"
type_synonym ('d, 'a) op_result = "(string, 'a) result \<times> 'd world"

text \<open>A request of the Docker client.\<close>

definition on_docker :: "('d \<Rightarrow> ('d, 'a) answer) \<Rightarrow> 'd world \<Rightarrow> (docker_error, 'a) result \<times> 'd world" where
  "on_docker f w = (case f (w_docker w) of (r, d) \<Rightarrow> (r, w\<lparr>w_docker := d\<rparr>))"

subsection \<open>The stored procedures\<close>

type_synonym 'd statement = "'d world \<Rightarrow> 'd world option"

fun run_statements :: "'d statement list \<Rightarrow> 'd world \<Rightarrow> bool \<times> 'd world" where
  "run_statements [] w = (True, w)"
| "run_statements (f # fs) w = (case f w of None \<Rightarrow> (False, w) | Some w' \<Rightarrow> run_statements fs w')"

definition sql_call :: "outcomes \<Rightarrow> string \<Rightarrow> 'd statement list \<Rightarrow> 'd world \<Rightarrow> ('d, unit) op_result" where
  "sql_call ora message fs w =
     (let w1 = w\<lparr>w_calls := Suc (w_calls w)\<rparr>
      in case ora (w_calls w) of
        Done \<Rightarrow> (case run_statements fs w1 of (finished, w2) \<Rightarrow> (if finished then Inr () else Inl message, w2))
      | Fails n \<Rightarrow> (Inl message, snd (run_statements (take n fs) w1)))"

definition create_database :: "string \<Rightarrow> 'd statement" where
  "create_database name w = Some (if map_of (w_databases w) name \<noteq> None then w
     else w\<lparr>w_databases := w_databases w @ [(name, [])]\<rparr>)"

definition create_user :: "string \<Rightarrow> string \<Rightarrow> 'd statement" where
  "create_user name password w = Some (if map_of (w_users w) name \<noteq> None then w
     else w\<lparr>w_users := w_users w @ [(name, password)]\<rparr>)"

definition alter_user :: "string \<Rightarrow> string \<Rightarrow> 'd statement" where
  "alter_user name password w = (if map_of (w_users w) name = None then None
     else Some (w\<lparr>w_users := AList.update name password (w_users w)\<rparr>))"

definition upsert_products :: "string \<Rightarrow> ProductSeed list \<Rightarrow> 'd statement" where
  "upsert_products name rows w = (case map_of (w_databases w) name of
     None \<Rightarrow> None
   | Some old \<Rightarrow> Some (w\<lparr>w_databases := AList.update name
       (filter (\<lambda>p. sd_ID p \<notin> set (map sd_ID rows)) old @ rows) (w_databases w)\<rparr>))"

definition delete_products :: "string \<Rightarrow> 'd statement" where
  "delete_products name w = (case map_of (w_databases w) name of
     None \<Rightarrow> None | Some old \<Rightarrow> Some (w\<lparr>w_databases := AList.update name [] (w_databases w)\<rparr>))"

definition insert_products :: "string \<Rightarrow> ProductSeed list \<Rightarrow> 'd statement" where
  "insert_products name rows w = (case map_of (w_databases w) name of
     None \<Rightarrow> None
   | Some old \<Rightarrow> if set (map sd_ID rows) \<inter> set (map sd_ID old) \<noteq> {} then None
       else Some (w\<lparr>w_databases := AList.update name (old @ rows) (w_databases w)\<rparr>))"

definition drop_database :: "string \<Rightarrow> 'd statement" where
  "drop_database name w = Some (w\<lparr>w_databases := AList.delete name (w_databases w)\<rparr>)"

definition drop_user :: "string \<Rightarrow> 'd statement" where
  "drop_user name w = Some (w\<lparr>w_users := AList.delete name (w_users w)\<rparr>)"

definition row :: "nat \<Rightarrow> string \<Rightarrow> string \<Rightarrow> rat \<Rightarrow> string \<Rightarrow> ProductSeed" where
  "row i name category price description = \<lparr>sd_ID = i, sd_Name = name, sd_Category = category, sd_Price = price,
     sd_Currency = ''CNY'', sd_StockLabel = ''in_stock'', sd_Description = description, sd_Version = 1\<rparr>"

definition standard_products :: "ProductSeed list" where
  "standard_products =
     [row 1 ''Architecture Practice Laptop'' ''electronics'' 6999 ''Product used by the application cluster lab.'',
      row 2 ''Distributed Systems Handbook'' ''books'' 129 ''Product used by cache and database labs.'']"

definition cache_products :: "ProductSeed list" where
  "cache_products = map (\<lambda>(i, name, category, price). row i name category price ''Cache lab product.'')
     [(1, ''Architecture Practice Laptop'', ''electronics'', 6999), (2, ''Edge Wireless Router'', ''electronics'', 899),
      (3, ''Mechanical Lab Keyboard'', ''electronics'', 499), (4, ''Distributed Systems Handbook'', ''books'', 129),
      (5, ''Database Internals Guide'', ''books'', 139), (6, ''Go Concurrency Workbook'', ''books'', 99),
      (7, ''Smart Desk Lamp'', ''home'', 259), (8, ''Room Temperature Sensor'', ''home'', 169),
      (9, ''Air Quality Monitor'', ''home'', 399), (10, ''Trail Running Shoes'', ''sports'', 699),
      (11, ''Carbon Badminton Racket'', ''sports'', 599), (12, ''Fitness Activity Tracker'', ''sports'', 329)]"

definition provision_lab_database :: "string \<Rightarrow> string \<Rightarrow> string \<Rightarrow> 'd statement list" where
  "provision_lab_database name user password =
     [create_database name, create_user user password, alter_user user password,
      upsert_products name standard_products]"

definition reset_lab_database :: "string \<Rightarrow> 'd statement list" where
  "reset_lab_database name = [delete_products name, insert_products name standard_products]"

definition seed_cache_lab_products :: "string \<Rightarrow> 'd statement list" where
  "seed_cache_lab_products name = [delete_products name, insert_products name cache_products]"

definition destroy_lab_database :: "string \<Rightarrow> string \<Rightarrow> 'd statement list" where
  "destroy_lab_database name user = [drop_database name, drop_user user]"

subsection \<open>The provisioner\<close>

definition validIdentifier :: "string \<Rightarrow> string \<Rightarrow> string \<Rightarrow> nat \<Rightarrow> nat \<Rightarrow> bool" where
  "validIdentifier value pre suf minBody maxBody =
     (if length value \<le> length pre + length suf \<or> take (length pre) value \<noteq> pre \<or>
         drop (length value - length suf) value \<noteq> suf
      then False
      else let body = drop (length pre) (take (length value - length suf) value)
      in if length body < minBody \<or> length body > maxBody then False
         else list_all (\<lambda>r. is_lower r \<or> is_digit r) body)"

definition validDatabaseName :: "string \<Rightarrow> bool" where
  "validDatabaseName value = validIdentifier value ''lab_'' [] 4 32"

definition validUserName :: "string \<Rightarrow> bool" where
  "validUserName value = validIdentifier value ''lab_'' ''_user'' 4 23"

definition db_Provision :: "outcomes \<Rightarrow> string \<Rightarrow> string \<Rightarrow> string \<Rightarrow> 'd world \<Rightarrow> ('d, unit) op_result" where
  "db_Provision ora databaseName userName password w =
     (if \<not> validDatabaseName databaseName \<or> \<not> validUserName userName \<or> length password < 16
      then (Inl ''lab database identity is invalid'', w)
      else sql_call ora ''provision lab database'' (provision_lab_database databaseName userName password) w)"

definition SeedProducts :: "outcomes \<Rightarrow> string \<Rightarrow> ProductSeed list \<Rightarrow> 'd world \<Rightarrow> ('d, unit) op_result" where
  "SeedProducts ora databaseName products w =
     (if \<not> validDatabaseName databaseName \<or> length products \<noteq> 12 then (Inl ''lab product seeds are invalid'', w)
      else if \<not> seeds_ok [] products then (Inl ''lab product seed is invalid'', w)
      else sql_call ora ''seed cache lab products'' (seed_cache_lab_products databaseName) w)"

definition db_Reset :: "outcomes \<Rightarrow> string \<Rightarrow> 'd world \<Rightarrow> ('d, unit) op_result" where
  "db_Reset ora databaseName w =
     (if \<not> validDatabaseName databaseName then (Inl ''lab database name is invalid'', w)
      else sql_call ora ''reset lab database'' (reset_lab_database databaseName) w)"

definition db_Destroy :: "outcomes \<Rightarrow> string \<Rightarrow> string \<Rightarrow> 'd world \<Rightarrow> ('d, unit) op_result" where
  "db_Destroy ora databaseName userName w =
     (if \<not> validDatabaseName databaseName \<or> \<not> validUserName userName
      then (Inl ''lab database identity is invalid'', w)
      else sql_call ora ''destroy lab database'' (destroy_lab_database databaseName userName) w)"

record ManagedDatabase =
  md_DatabaseName :: string
  md_UserName :: string

definition list_lab_database_resources :: "'d world \<Rightarrow> ManagedDatabase list" where
  "list_lab_database_resources w = map (\<lambda>n. \<lparr>md_DatabaseName = n, md_UserName = n @ ''_user''\<rparr>)
     (sort (filter (\<lambda>n. validIdentifier n ''lab_'' [] 4 23) (map fst (w_databases w))))"

definition ListManaged :: "outcomes \<Rightarrow> 'd world \<Rightarrow> ('d, ManagedDatabase list) op_result" where
  "ListManaged ora w =
     (let w1 = w\<lparr>w_calls := Suc (w_calls w)\<rparr>; rows = list_lab_database_resources w
      in case ora (w_calls w) of
        Fails _ \<Rightarrow> (Inl ''list lab databases'', w1)
      | Done \<Rightarrow>
          if list_all (\<lambda>v. validDatabaseName (md_DatabaseName v) \<and> validUserName (md_UserName v)) rows
          then (Inr rows, w1)
          else (Inl ''stored procedure returned an invalid lab database identity'', w1))"

subsection \<open>What the procedures change\<close>

text \<open>Everything but the entry of one lab in each table; the Docker daemon and the files are not touched.\<close>

definition db_frame :: "string \<Rightarrow> string \<Rightarrow> 'd world \<Rightarrow> 'd world \<Rightarrow> bool" where
  "db_frame name user w w' = (w_docker w' = w_docker w \<and> w_fragments w' = w_fragments w \<and>
     (\<forall>n. n \<noteq> name \<longrightarrow> map_of (w_databases w') n = map_of (w_databases w) n) \<and>
     (\<forall>u. u \<noteq> user \<longrightarrow> map_of (w_users w') u = map_of (w_users w) u))"

lemma db_frame_refl [simp]: "db_frame name user w w"
  by (simp add: db_frame_def)

lemma db_frame_trans: "db_frame name user w w1 \<Longrightarrow> db_frame name user w1 w2 \<Longrightarrow> db_frame name user w w2"
  by (simp add: db_frame_def)

lemma db_frame_calls [simp]: "db_frame name user w (w\<lparr>w_calls := c\<rparr>)"
  by (simp add: db_frame_def)

definition within_frame :: "string \<Rightarrow> string \<Rightarrow> 'd statement \<Rightarrow> bool" where
  "within_frame name user f = (\<forall>w w'. f w = Some w' \<longrightarrow> db_frame name user w w')"

lemma statements_framed [frames]:
  "within_frame name user (create_database name)" "within_frame name user (create_user user password)"
  "within_frame name user (alter_user user password)" "within_frame name user (upsert_products name rows)"
  "within_frame name user (delete_products name)" "within_frame name user (insert_products name rows)"
  "within_frame name user (drop_database name)" "within_frame name user (drop_user user)"
  by (auto simp: within_frame_def db_frame_def create_database_def create_user_def alter_user_def
      upsert_products_def delete_products_def insert_products_def drop_database_def drop_user_def
      update_conv' delete_conv' map_add_def restrict_map_def split: option.splits if_splits)

lemma run_statements_framed:
  "list_all (within_frame name user) fs \<Longrightarrow> db_frame name user w (snd (run_statements fs w))"
  by (induction fs arbitrary: w) (auto simp: within_frame_def split: option.splits intro: db_frame_trans)

lemma sql_call_run: "\<exists>n. snd (sql_call ora m fs w) = snd (run_statements (take n fs) (w\<lparr>w_calls := Suc (w_calls w)\<rparr>))"
  by (cases "ora (w_calls w)") (auto simp: sql_call_def split: prod.splits intro: exI [of _ "length fs"])

lemma sql_call_framed:
  assumes "list_all (within_frame name user) fs"
  shows "db_frame name user w (snd (sql_call ora m fs w))"
proof -
  have "list_all (within_frame name user) (take n fs)" for n
    using assms by (auto simp: list_all_iff dest: in_set_takeD)
  then show ?thesis
    using sql_call_run [of ora m fs w] by (metis run_statements_framed db_frame_calls db_frame_trans)
qed

lemma db_operations_framed:
  "db_frame name user w (snd (db_Provision ora name user password w))"
  "db_frame name user w (snd (SeedProducts ora name products w))"
  "db_frame name user w (snd (db_Reset ora name w))"
  "db_frame name user w (snd (db_Destroy ora name user w))"
  by (simp_all add: db_Provision_def SeedProducts_def db_Reset_def db_Destroy_def provision_lab_database_def
      seed_cache_lab_products_def reset_lab_database_def destroy_lab_database_def statements_framed sql_call_framed)

subsection \<open>What a call that succeeds has done\<close>

lemma sql_call_ok:
  "sql_call ora m fs w = (Inr (), w') \<Longrightarrow> run_statements fs (w\<lparr>w_calls := Suc (w_calls w)\<rparr>) = (True, w')"
  by (auto simp: sql_call_def Let_def split: outcome.splits prod.splits if_splits)

lemma db_Provision_ok:
  assumes "db_Provision ora name user password w = (Inr (), w')"
  shows "map_of (w_databases w') name \<noteq> None" "map_of (w_users w') user = Some password"
  using assms by (auto simp: db_Provision_def provision_lab_database_def create_database_def create_user_def
      alter_user_def upsert_products_def update_conv' split: if_splits option.splits dest!: sql_call_ok)

text \<open>
  The catalogue of a cache lab is the one of the stored procedure: the products that are passed to
  \<open>SeedProducts\<close> are only checked.
\<close>

lemma SeedProducts_ok:
  assumes "SeedProducts ora name products w = (Inr (), w')"
  shows "map_of (w_databases w') name = Some cache_products"
  using assms by (auto simp: SeedProducts_def seed_cache_lab_products_def delete_products_def
      insert_products_def update_conv' split: if_splits option.splits dest!: sql_call_ok)

text \<open>
  A reset restores two products, also in the database of a cache lab, which was seeded with twelve.
\<close>

lemma db_Reset_ok:
  assumes "db_Reset ora name w = (Inr (), w')"
  shows "map_of (w_databases w') name = Some standard_products"
  using assms by (auto simp: db_Reset_def reset_lab_database_def delete_products_def
      insert_products_def update_conv' split: if_splits option.splits dest!: sql_call_ok)

lemma db_Destroy_ok:
  assumes "db_Destroy ora name user w = (Inr (), w')"
  shows "map_of (w_databases w') name = None" "map_of (w_users w') user = None"
  using assms by (auto simp: db_Destroy_def destroy_lab_database_def drop_database_def drop_user_def
      delete_conv' split: if_splits dest!: sql_call_ok)

end
