(* ===== verification/DockerModel.thy ===== *)
theory DockerModel
  imports DockerClient
begin

text \<open>
  A Docker daemon that satisfies the laws of the locale \<open>docker\<close>, on which the statements about the
  orchestrator are evaluated. Objects are found by identifier or by name; a new identifier is longer
  than every one in use; starting a container attaches it to its network, which must exist; a network
  with containers attached is not removed. The commands of the gateway check its files with \<open>accepts\<close>
  and, for a reload, keep them as loaded.
\<close>

record model_container =
  mc_name :: string
  mc_image :: string
  mc_labels :: labels
  mc_network :: string
  mc_running :: bool

record model_network =
  mn_name :: string
  mn_labels :: labels
  mn_containers :: "string list"

record 'f model_docker =
  mo_containers :: "(string \<times> model_container) list"
  mo_networks :: "(string \<times> model_network) list"
  mo_images :: "string list"
  mo_command :: "string list"
  mo_exit :: int
  mo_loaded :: "'f option"

definition not_found :: "(docker_error, 'a) result" where
  "not_found = Inl (APIError 404 ''not found'')"

definition fresh_id :: "(string \<times> 'a) list \<Rightarrow> string" where
  "fresh_id xs = replicate (Suc (sum_list (map (length \<circ> fst) xs))) (CHR ''x'')"

lemma fresh_id: "map_of xs (fresh_id xs) = None"
proof -
  have "length i \<le> sum_list (map (length \<circ> fst) xs)" if "i \<in> fst ` set xs" for i
    using that by (induction xs) fastforce+
  then have "fresh_id xs \<notin> fst ` set xs" by (force simp: fresh_id_def)
  then show ?thesis by (simp add: map_of_eq_None_iff)
qed

definition lookup_object :: "('a \<Rightarrow> string) \<Rightarrow> string \<Rightarrow> (string \<times> 'a) list \<Rightarrow> (string \<times> 'a) option" where
  "lookup_object name s xs = (case map_of xs s of
     Some x \<Rightarrow> Some (s, x)
   | None \<Rightarrow> find (\<lambda>(i, x). name x = s) (AList.clearjunk xs))"

lemma lookup_object: "lookup_object name s xs = Some (i, x) \<Longrightarrow> map_of xs i = Some x"
proof -
  assume a: "lookup_object name s xs = Some (i, x)"
  show "map_of xs i = Some x"
  proof (cases "map_of xs s")
    case None
    then have "find (\<lambda>(i, x). name x = s) (AList.clearjunk xs) = Some (i, x)" using a by (simp add: lookup_object_def)
    then have "(i, x) \<in> set (AList.clearjunk xs)" by (metis find_Some_iff nth_mem)
    then show ?thesis using distinct_clearjunk [of xs] map_of_clearjunk [of xs] by (metis map_of_eq_Some_iff)
  qed (use a in \<open>auto simp: lookup_object_def\<close>)
qed

lemma clearjunk_list:
  assumes "cs = map g (filter (\<lambda>(i, x). P (lab x)) (AList.clearjunk xs))" "\<And>i x. f (g (i, x)) = i" "\<And>i x. h (g (i, x)) = lab x"
  shows "distinct (map f cs) \<and>
    (\<forall>i ls. (\<exists>c \<in> set cs. f c = i \<and> h c = ls) \<longleftrightarrow> map_option lab (map_of xs i) = Some ls \<and> P ls)"
proof
  have "map f cs = map fst (filter (\<lambda>(i, x). P (lab x)) (AList.clearjunk xs))"
    by (auto simp: assms(1) assms(2) comp_def)
  then show "distinct (map f cs)" using distinct_clearjunk [of xs] by (simp add: distinct_map_filter)
  have "(\<exists>c \<in> set cs. f c = i \<and> h c = ls) \<longleftrightarrow> (\<exists>x. (i, x) \<in> set (AList.clearjunk xs) \<and> lab x = ls \<and> P ls)" for i ls
    by (force simp: assms(1) assms(2) assms(3))
  moreover have "(i, x) \<in> set (AList.clearjunk xs) \<longleftrightarrow> map_of xs i = Some x" for i x
    using distinct_clearjunk [of xs] map_of_clearjunk [of xs] by (metis map_of_eq_Some_iff)
  ultimately show "\<forall>i ls. (\<exists>c \<in> set cs. f c = i \<and> h c = ls) \<longleftrightarrow> map_option lab (map_of xs i) = Some ls \<and> P ls"
    by auto
qed

subsection \<open>The requests\<close>

definition attach :: "string \<Rightarrow> string \<Rightarrow> 'f model_docker \<Rightarrow> 'f model_docker" where
  "attach n c d = (case lookup_object mn_name n (mo_networks d) of
     None \<Rightarrow> d
   | Some (i, x) \<Rightarrow> d\<lparr>mo_networks := AList.update i (x\<lparr>mn_containers := List.insert c (mn_containers x)\<rparr>) (mo_networks d)\<rparr>)"

definition detach :: "string \<Rightarrow> string \<Rightarrow> 'f model_docker \<Rightarrow> 'f model_docker" where
  "detach n c d = (case lookup_object mn_name n (mo_networks d) of
     None \<Rightarrow> d
   | Some (i, x) \<Rightarrow> d\<lparr>mo_networks := AList.update i (x\<lparr>mn_containers := removeAll c (mn_containers x)\<rparr>) (mo_networks d)\<rparr>)"

definition model_image :: "string \<Rightarrow> 'f model_docker \<Rightarrow> ('f model_docker, unit) answer" where
  "model_image img d = (if img \<in> set (mo_images d) then Inr () else not_found, d)"

definition model_network_inspect :: "string \<Rightarrow> 'f model_docker \<Rightarrow> ('f model_docker, networkInspect) answer" where
  "model_network_inspect s d = (case lookup_object mn_name s (mo_networks d) of None \<Rightarrow> not_found
     | Some (i, x) \<Rightarrow> if i = [] then not_found else Inr \<lparr>ni_ID = i, ni_Name = mn_name x, ni_Labels = mn_labels x, ni_Containers = mn_containers x\<rparr>, d)"

definition model_container_inspect :: "string \<Rightarrow> 'f model_docker \<Rightarrow> ('f model_docker, containerInspect) answer" where
  "model_container_inspect s d = (case lookup_object mc_name s (mo_containers d) of None \<Rightarrow> not_found
     | Some (i, x) \<Rightarrow> if i = [] then not_found else Inr \<lparr>ci_ID = i, ci_Name = CHR ''/'' # mc_name x, ci_Image = mc_image x, ci_Labels = mc_labels x,
         ci_Running = mc_running x, ci_Status = (if mc_running x then ''running'' else ''created''), ci_ExitCode = 0,
         ci_Health = (if mc_running x then Some ''healthy'' else None)\<rparr>, d)"

definition model_create_network :: "NetworkSpec \<Rightarrow> 'f model_docker \<Rightarrow> ('f model_docker, string) answer" where
  "model_create_network spec d =
     (if lookup_object mn_name (ns_Name spec) (mo_networks d) \<noteq> None then (Inl (APIError 409 ''network exists''), d)
      else let i = fresh_id (mo_networks d) in (Inr i, d\<lparr>mo_networks :=
        (i, \<lparr>mn_name = ns_Name spec, mn_labels = ns_Labels spec, mn_containers = []\<rparr>) # mo_networks d\<rparr>))"

definition model_connect :: "string \<Rightarrow> string \<Rightarrow> string list \<Rightarrow> 'f model_docker \<Rightarrow> ('f model_docker, unit) answer" where
  "model_connect n c aliases d =
     (if lookup_object mn_name n (mo_networks d) = None \<or> lookup_object mc_name c (mo_containers d) = None
      then (not_found, d) else (Inr (), attach n c d))"

definition model_disconnect :: "string \<Rightarrow> string \<Rightarrow> 'f model_docker \<Rightarrow> ('f model_docker, unit) answer" where
  "model_disconnect n c d =
     (if lookup_object mn_name n (mo_networks d) = None then (not_found, d) else (Inr (), detach n c d))"

definition model_remove_network :: "string \<Rightarrow> 'f model_docker \<Rightarrow> ('f model_docker, unit) answer" where
  "model_remove_network n d =
     (case lookup_object mn_name n (mo_networks d) of
        None \<Rightarrow> (not_found, d)
      | Some (i, x) \<Rightarrow>
          if mn_containers x \<noteq> [] then (Inl (APIError 403 ''network has active endpoints''), d)
          else (Inr (), d\<lparr>mo_networks := AList.delete i (mo_networks d)\<rparr>))"

definition model_create_container ::
  "string \<Rightarrow> containerCreateRequest \<Rightarrow> 'f model_docker \<Rightarrow> ('f model_docker, string) answer" where
  "model_create_container name req d =
     (if lookup_object mc_name name (mo_containers d) \<noteq> None then (Inl (APIError 409 ''container name is in use''), d)
      else if cq_Image req \<notin> set (mo_images d) then (not_found, d)
      else let i = fresh_id (mo_containers d) in (Inr i, d\<lparr>mo_containers :=
        (i, \<lparr>mc_name = name, mc_image = cq_Image req, mc_labels = cq_Labels req, mc_network = cq_NetworkMode req,
           mc_running = False\<rparr>) # mo_containers d\<rparr>))"

definition model_start :: "string \<Rightarrow> 'f model_docker \<Rightarrow> ('f model_docker, unit) answer" where
  "model_start c d =
     (case lookup_object mc_name c (mo_containers d) of
        None \<Rightarrow> (not_found, d)
      | Some (i, x) \<Rightarrow>
          if lookup_object mn_name (mc_network x) (mo_networks d) = None then (not_found, d)
          else (Inr (), attach (mc_network x) i
            (d\<lparr>mo_containers := AList.update i (x\<lparr>mc_running := True\<rparr>) (mo_containers d)\<rparr>)))"

definition model_update :: "string \<Rightarrow> int \<Rightarrow> 'f model_docker \<Rightarrow> ('f model_docker, unit) answer" where
  "model_update c k d = (if lookup_object mc_name c (mo_containers d) = None then not_found else Inr (), d)"

definition model_remove_container :: "string \<Rightarrow> 'f model_docker \<Rightarrow> ('f model_docker, unit) answer" where
  "model_remove_container c d =
     (case lookup_object mc_name c (mo_containers d) of
        None \<Rightarrow> (not_found, d)
      | Some (i, x) \<Rightarrow> (Inr (), detach (mc_network x) i (d\<lparr>mo_containers := AList.delete i (mo_containers d)\<rparr>)))"

definition model_containers :: "string list \<Rightarrow> 'f model_docker \<Rightarrow> ('f model_docker, container_item list) answer" where
  "model_containers fs d = (Inr (map (\<lambda>(i, x). \<lparr>li_ID = i, li_Names = [CHR ''/'' # mc_name x],
     li_State = (if mc_running x then ''running'' else ''created''), li_Labels = mc_labels x\<rparr>)
     (filter (\<lambda>(i, x). selected fs (mc_labels x)) (AList.clearjunk (mo_containers d)))), d)"

definition model_networks :: "string list \<Rightarrow> 'f model_docker \<Rightarrow> ('f model_docker, network_item list) answer" where
  "model_networks fs d = (Inr (map (\<lambda>(i, x). \<lparr>ln_ID = i, ln_Name = mn_name x, ln_Labels = mn_labels x\<rparr>)
     (filter (\<lambda>(i, x). selected fs (mn_labels x)) (AList.clearjunk (mo_networks d)))), d)"

definition model_exec_create :: "string \<Rightarrow> string list \<Rightarrow> 'f model_docker \<Rightarrow> ('f model_docker, string) answer" where
  "model_exec_create c command d =
     (if lookup_object mc_name c (mo_containers d) = None then (not_found, d)
      else (Inr ''exec'', d\<lparr>mo_command := command\<rparr>))"

definition model_exec_start :: "('f \<Rightarrow> bool) \<Rightarrow> string \<Rightarrow> 'f \<Rightarrow> 'f model_docker \<Rightarrow> ('f model_docker, string) answer" where
  "model_exec_start accepts i files d =
     (if mo_command d = [''nginx'', ''-t''] then (Inr [], d\<lparr>mo_exit := (if accepts files then 0 else 1)\<rparr>)
      else if mo_command d = [''nginx'', ''-s'', ''reload''] then
        (Inr [], if accepts files then d\<lparr>mo_exit := 0, mo_loaded := Some files\<rparr> else d\<lparr>mo_exit := 1\<rparr>)
      else (Inr [], d\<lparr>mo_exit := 127\<rparr>))"

definition model_exec_inspect :: "string \<Rightarrow> 'f model_docker \<Rightarrow> ('f model_docker, bool \<times> int) answer" where
  "model_exec_inspect i d = (Inr (False, mo_exit d), d)"

definition model_daemon :: "('f \<Rightarrow> bool) \<Rightarrow> ('f model_docker, 'f) daemon" where
  "model_daemon accepts = \<lparr>dk_image = model_image, dk_network = model_network_inspect,
     dk_createNetwork = model_create_network, dk_connect = model_connect, dk_disconnect = model_disconnect,
     dk_removeNetwork = model_remove_network, dk_container = model_container_inspect,
     dk_createContainer = model_create_container, dk_start = model_start, dk_restart = model_start,
     dk_update = model_update, dk_removeContainer = model_remove_container, dk_containers = model_containers,
     dk_networks = model_networks, dk_execCreate = model_exec_create, dk_execStart = model_exec_start accepts,
     dk_execInspect = model_exec_inspect, dk_ticks = (\<lambda>_. 300)\<rparr>"

definition model_container_labels :: "'f model_docker \<Rightarrow> resources" where
  "model_container_labels d = (\<lambda>i. map_option mc_labels (map_of (mo_containers d) i))"

definition model_network_labels :: "'f model_docker \<Rightarrow> resources" where
  "model_network_labels d = (\<lambda>i. map_option mn_labels (map_of (mo_networks d) i))"

subsection \<open>The laws\<close>

lemmas model_views = model_container_labels_def model_network_labels_def

lemma update_keeps_labels:
  assumes "map_of xs i = Some x" "lab y = lab x"
  shows "(\<lambda>j. map_option lab (map_of (AList.update i y xs) j)) = (\<lambda>j. map_option lab (map_of xs j))"
  using assms by (auto simp: update_conv' fun_eq_iff)

lemma attach_views: "model_container_labels (attach n c d) = model_container_labels d"
  "model_network_labels (attach n c d) = model_network_labels d"
  by (auto simp: attach_def model_views split: option.splits dest!: lookup_object
      intro!: update_keeps_labels)

lemma detach_views: "model_container_labels (detach n c d) = model_container_labels d"
  "model_network_labels (detach n c d) = model_network_labels d"
  by (auto simp: detach_def model_views split: option.splits dest!: lookup_object
      intro!: update_keeps_labels)

lemma lookup_id: "map_of xs i = Some x \<Longrightarrow> lookup_object name i xs = Some (i, x)"
  by (simp add: lookup_object_def)

lemma model_start_views:
  assumes "model_start c d = (r, d')"
  shows "model_container_labels d' = model_container_labels d" "model_network_labels d' = model_network_labels d"
  using assms by (auto simp: model_start_def attach_views split: option.splits if_splits)
    (auto simp: model_views dest!: lookup_object intro!: update_keeps_labels)

lemma model_remove_views:
  assumes "map_of (mo_containers d) i = Some x"
  shows "\<exists>d'. model_remove_container i d = (Inr (), d') \<and> model_network_labels d' = model_network_labels d \<and>
    model_container_labels d' = (model_container_labels d)(i := None)"
proof -
  let ?d = "d\<lparr>mo_containers := AList.delete i (mo_containers d)\<rparr>"
  have "model_container_labels ?d = (model_container_labels d)(i := None)"
    "model_network_labels ?d = model_network_labels d"
    by (auto simp: model_views delete_conv' restrict_map_def fun_eq_iff)
  then show ?thesis by (simp add: model_remove_container_def lookup_id [OF assms] detach_views)
qed

lemma model_docker_laws: "docker (model_daemon accepts) model_container_labels model_network_labels"
proof (unfold_locales, goal_cases)
  case (1 s d r1 d') then show ?case by (auto simp: model_daemon_def model_image_def)
next
  case (2 s d r2 d') then show ?case by (auto simp: model_daemon_def model_network_inspect_def)
next
  case (3 s d r3 d') then show ?case by (auto simp: model_daemon_def model_container_inspect_def)
next
  case (4 fs d r4 d') then show ?case by (auto simp: model_daemon_def model_containers_def)
next
  case (5 fs d r5 d') then show ?case by (auto simp: model_daemon_def model_networks_def)
next
  case (6 s t fs d r6 d')
  then show ?case by (auto simp: model_daemon_def model_connect_def attach_views split: if_splits)
next
  case (7 s t d r6 d')
  then show ?case by (auto simp: model_daemon_def model_disconnect_def detach_views split: if_splits)
next
  case (8 s d r6 d')
  then show ?case by (auto simp: model_daemon_def model_start_views)
next
  case (9 s d r6 d')
  then show ?case by (auto simp: model_daemon_def model_start_views)
next
  case (10 s k d r6 d') then show ?case by (auto simp: model_daemon_def model_update_def)
next
  case (11 s fs d r7 d')
  then show ?case by (auto simp: model_daemon_def model_exec_create_def model_views split: if_splits)
next
  case (12 s files d r8 d')
  then show ?case by (auto simp: model_daemon_def model_exec_start_def model_views split: if_splits)
next
  case (13 s d r9 d') then show ?case by (auto simp: model_daemon_def model_exec_inspect_def)
next
  case (14 spec d r d')
  then show ?case by (auto simp: model_daemon_def model_create_network_def model_views Let_def fresh_id fun_eq_iff
        split: if_splits intro!: exI [of _ "fresh_id (mo_networks d)"])
next
  case (15 s req d r d')
  then show ?case by (auto simp: model_daemon_def model_create_container_def not_found_def model_views Let_def fresh_id fun_eq_iff
        split: if_splits intro!: exI [of _ "fresh_id (mo_containers d)"] exI [of _ "cq_Labels req"])
next
  case (16 i d r6 d')
  then show ?case by (auto simp: model_daemon_def model_remove_network_def lookup_id IsNotFound_def model_views
        delete_conv' restrict_map_def fun_eq_iff split: if_splits)
next
  case (17 i d r6 d')
  then obtain x where "map_of (mo_containers d) i = Some x" by (auto simp: model_container_labels_def)
  then show ?case using 17(1) model_remove_views [of d i x] by (auto simp: model_daemon_def)
next
  case (18 fs d cs d')
  then show ?case unfolding model_container_labels_def
    by (intro clearjunk_list) (auto simp: model_daemon_def model_containers_def)
next
  case (19 fs d ns d')
  then show ?case unfolding model_network_labels_def
    by (intro clearjunk_list) (auto simp: model_daemon_def model_networks_def)
next
  case (20 s d c d')
  then show ?case by (auto simp: model_daemon_def model_container_inspect_def not_found_def model_views
        split: option.splits if_splits dest!: lookup_object)
next
  case (21 s d n d')
  then show ?case by (auto simp: model_daemon_def model_network_inspect_def not_found_def model_views
        split: option.splits if_splits dest!: lookup_object)
qed

interpretation model: docker "model_daemon accepts" model_container_labels model_network_labels
  by (rule model_docker_laws)

end
