(* ===== verification/Gateway.thy ===== *)
theory Gateway
  imports LabDatabases DockerModel
begin

text \<open>
  The fragments of the lab gateway, \<^verbatim>\<open>services/orchestrator/internal/nginx/manager.go\<close>. A file is its
  list of servers, which determines the rendered text; writing a file is atomic, so it happens or
  it fails; the oracle says which. \<open>w_fragments\<close> are the files. The order that \<open>sort.Slice\<close> gives to
  servers with equal hosts and ports is left open by Go; here it is the order of the caller. The
  rendering of the template, which is parsed when the manager is built and only inserts checked values, is
  taken not to fail. After a failed change the restored configuration is checked, and reloaded when there
  was a file before; an error of that second step is part of the text of the error that the code returns,
  and both texts are \<open>NginxRejected\<close> here. What is proved of a failed change is the state of the files.
\<close>

datatype nginx_error = NginxInvalid | NginxIO string | NginxRejected string | NginxRestore string

record gateway_config =
  gc_ComposeProject :: string
  gc_GatewayService :: string

type_synonym ('d, 'a) nginx_result = "(nginx_error, 'a) result \<times> 'd world"
type_synonym 'd gateway_daemon = "('d, fragments) daemon"

definition file_do :: "outcomes \<Rightarrow> string \<Rightarrow> ('d world \<Rightarrow> 'a \<times> 'd world) \<Rightarrow> 'd world \<Rightarrow> ('d, 'a) nginx_result" where
  "file_do ora message f w =
     (let w1 = w\<lparr>w_calls := Suc (w_calls w)\<rparr>
      in case ora (w_calls w) of
        Done \<Rightarrow> (let (x, w2) = f w1 in (Inr x, w2))
      | Fails _ \<Rightarrow> (Inl (NginxIO message), w1))"

definition nginx_validLabID :: "string \<Rightarrow> bool" where
  "nginx_validLabID value = (if length value < 4 \<or> length value > 64 then False else lab_chars 0 value)"

definition nginx_validInstanceName :: "string \<Rightarrow> bool" where
  "nginx_validInstanceName value =
     (if \<not> HasPrefix value ''app-'' \<or> length value < 5 \<or> length value > 16 then False
      else list_all is_digit (drop 4 value))"

fun host_chars :: "nat \<Rightarrow> string \<Rightarrow> bool" where
  "host_chars i [] = True"
| "host_chars i (r # rs) =
     (if is_lower r \<or> is_digit r then host_chars (Suc i) rs
      else if i > 0 \<and> (r = CHR ''-'' \<or> r = CHR ''.'') then host_chars (Suc i) rs
      else False)"

definition validHost :: "string \<Rightarrow> bool" where
  "validHost value = (if length value = 0 \<or> length value > 128 then False else host_chars 0 value)"

definition valid_server :: "Server \<Rightarrow> bool" where
  "valid_server s = (nginx_validInstanceName (sv_Name s) \<and> validHost (sv_Host s) \<and> \<not> sv_Port s \<le> 0 \<and>
     \<not> sv_Port s > 65535 \<and> \<not> sv_Weight s \<le> 0)"

definition sorted_servers :: "Server list \<Rightarrow> Server list" where
  "sorted_servers servers = sort_key sv_Host (sort_key sv_Port servers)"

definition read_fragment :: "outcomes \<Rightarrow> string \<Rightarrow> 'd world \<Rightarrow> ('d, Server list option) nginx_result" where
  "read_fragment ora labID w = file_do ora ''read nginx fragment'' (\<lambda>w. (map_of (w_fragments w) labID, w)) w"

definition writeAtomic :: "outcomes \<Rightarrow> string \<Rightarrow> Server list \<Rightarrow> 'd world \<Rightarrow> ('d, unit) nginx_result" where
  "writeAtomic ora labID body w =
     file_do ora ''replace nginx fragment'' (\<lambda>w. ((), w\<lparr>w_fragments := AList.update labID body (w_fragments w)\<rparr>)) w"

definition remove_fragment :: "outcomes \<Rightarrow> string \<Rightarrow> 'd world \<Rightarrow> ('d, unit) nginx_result" where
  "remove_fragment ora labID w =
     file_do ora ''remove nginx fragment'' (\<lambda>w. ((), w\<lparr>w_fragments := AList.delete labID (w_fragments w)\<rparr>)) w"

definition restoreFile :: "outcomes \<Rightarrow> string \<Rightarrow> Server list option \<Rightarrow> 'd world \<Rightarrow> ('d, unit) nginx_result" where
  "restoreFile ora labID previous w =
     (case previous of Some body \<Rightarrow> writeAtomic ora labID body w | None \<Rightarrow> remove_fragment ora labID w)"

definition nginx_gateway :: "'d gateway_daemon \<Rightarrow> gateway_config \<Rightarrow> 'd world \<Rightarrow> ('d, docker_Resource) nginx_result" where
  "nginx_gateway dk cfg w =
     (case on_docker (FindComposeContainer dk (gc_ComposeProject cfg) (gc_GatewayService cfg)) w of
        (Inl _, w1) \<Rightarrow> (Inl (NginxRejected ''find lab gateway container''), w1)
      | (Inr c, w1) \<Rightarrow> (Inr c, w1))"

definition nginx_exec ::
  "'d gateway_daemon \<Rightarrow> string \<Rightarrow> string \<Rightarrow> string list \<Rightarrow> 'd world \<Rightarrow> ('d, unit) nginx_result" where
  "nginx_exec dk message containerID command w =
     (case on_docker (Exec dk containerID command (w_fragments w)) w of
        (Inl _, w1) \<Rightarrow> (Inl (NginxRejected message), w1)
      | (Inr _, w1) \<Rightarrow> (Inr (), w1))"

definition validateAndReload :: "'d gateway_daemon \<Rightarrow> gateway_config \<Rightarrow> 'd world \<Rightarrow> ('d, unit) nginx_result" where
  "validateAndReload dk cfg w =
     (case nginx_gateway dk cfg w of
        (Inl e, w1) \<Rightarrow> (Inl e, w1)
      | (Inr c, w1) \<Rightarrow>
         (case nginx_exec dk ''validate nginx config'' (ro_ID c) [''nginx'', ''-t''] w1 of
            (Inl e, w2) \<Rightarrow> (Inl e, w2)
          | (Inr _, w2) \<Rightarrow> nginx_exec dk ''reload nginx config'' (ro_ID c) [''nginx'', ''-s'', ''reload''] w2))"

definition nginx_validate :: "'d gateway_daemon \<Rightarrow> gateway_config \<Rightarrow> 'd world \<Rightarrow> ('d, unit) nginx_result" where
  "nginx_validate dk cfg w =
     (case nginx_gateway dk cfg w of
        (Inl e, w1) \<Rightarrow> (Inl e, w1)
      | (Inr c, w1) \<Rightarrow> nginx_exec dk ''validate nginx config'' (ro_ID c) [''nginx'', ''-t''] w1)"

definition nginx_Apply ::
  "'d gateway_daemon \<Rightarrow> outcomes \<Rightarrow> gateway_config \<Rightarrow> string \<Rightarrow> Server list \<Rightarrow> 'd world \<Rightarrow> ('d, unit) nginx_result" where
  "nginx_Apply dk ora cfg labID servers w =
     (if \<not> nginx_validLabID labID \<or> length servers = 0 then (Inl NginxInvalid, w)
      else if \<not> list_all valid_server servers then (Inl NginxInvalid, w)
      else case read_fragment ora labID w of
        (Inl e, w1) \<Rightarrow> (Inl e, w1)
      | (Inr previous, w1) \<Rightarrow>
         (case writeAtomic ora labID (sorted_servers servers) w1 of
            (Inl e, w2) \<Rightarrow> (Inl e, w2)
          | (Inr _, w2) \<Rightarrow>
             (case validateAndReload dk cfg w2 of
                (Inr _, w3) \<Rightarrow> (Inr (), w3)
              | (Inl e, w3) \<Rightarrow>
                 (case restoreFile ora labID previous w3 of
                    (Inl _, w4) \<Rightarrow> (Inl (NginxRestore ''restore''), w4)
                  | (Inr _, w4) \<Rightarrow>
                     (case (if previous \<noteq> None then validateAndReload dk cfg w4 else nginx_validate dk cfg w4) of
                        (Inl _, w5) \<Rightarrow> (Inl (NginxRejected ''reload or validate restored config''), w5)
                      | (Inr _, w5) \<Rightarrow> (Inl e, w5))))))"

definition nginx_Remove ::
  "'d gateway_daemon \<Rightarrow> outcomes \<Rightarrow> gateway_config \<Rightarrow> string \<Rightarrow> 'd world \<Rightarrow> ('d, unit) nginx_result" where
  "nginx_Remove dk ora cfg labID w =
     (if \<not> nginx_validLabID labID then (Inl NginxInvalid, w)
      else case read_fragment ora labID w of
        (Inl e, w1) \<Rightarrow> (Inl e, w1)
      | (Inr None, w1) \<Rightarrow> (Inr (), w1)
      | (Inr (Some previous), w1) \<Rightarrow>
         (case remove_fragment ora labID w1 of
            (Inl e, w2) \<Rightarrow> (Inl e, w2)
          | (Inr _, w2) \<Rightarrow>
             (case validateAndReload dk cfg w2 of
                (Inr _, w3) \<Rightarrow> (Inr (), w3)
              | (Inl e, w3) \<Rightarrow>
                 (case writeAtomic ora labID previous w3 of
                    (Inl _, w4) \<Rightarrow> (Inl (NginxRestore ''restore''), w4)
                  | (Inr _, w4) \<Rightarrow> (Inl e, w4)))))"

definition nginx_List :: "'d world \<Rightarrow> string list" where
  "nginx_List w = sort (filter nginx_validLabID (map fst (w_fragments w)))"

subsection \<open>What the manager changes\<close>

text \<open>
  Everything but the fragment of one lab: the databases, and the other files. A request of the gateway
  changes the daemon only.
\<close>

definition gw_frame :: "string \<Rightarrow> 'd world \<Rightarrow> 'd world \<Rightarrow> bool" where
  "gw_frame labID w w' = (w_databases w' = w_databases w \<and> w_users w' = w_users w \<and>
     (\<forall>l. l \<noteq> labID \<longrightarrow> map_of (w_fragments w') l = map_of (w_fragments w) l))"

definition files_kept :: "'d world \<Rightarrow> 'd world \<Rightarrow> bool" where
  "files_kept w w' = (w_databases w' = w_databases w \<and> w_users w' = w_users w \<and> w_fragments w' = w_fragments w)"

lemma files_kept_refl [simp]: "files_kept w w" by (simp add: files_kept_def)

lemma files_kept_trans: "files_kept w w1 \<Longrightarrow> files_kept w1 w2 \<Longrightarrow> files_kept w w2"
  by (simp add: files_kept_def)

lemma on_docker_kept [frames]: "on_docker f w = (r, w') \<Longrightarrow> files_kept w w'"
  by (auto simp: on_docker_def files_kept_def split: prod.splits)

lemma gw_frame_refl [simp]: "gw_frame labID w w" by (simp add: gw_frame_def)

lemma gw_frame_trans: "gw_frame labID w w1 \<Longrightarrow> gw_frame labID w1 w2 \<Longrightarrow> gw_frame labID w w2"
  by (simp add: gw_frame_def)

lemma kept_gw_frame: "files_kept w w' \<Longrightarrow> gw_frame labID w w'"
  by (simp add: files_kept_def gw_frame_def)

lemma nginx_gateway_kept: "nginx_gateway dk cfg w = (r, w') \<Longrightarrow> files_kept w w'"
  by (auto simp: nginx_gateway_def split: prod.splits sum.splits dest: on_docker_kept)

lemma nginx_exec_kept: "nginx_exec dk m c cmd w = (r, w') \<Longrightarrow> files_kept w w'"
  by (auto simp: nginx_exec_def split: prod.splits sum.splits dest: on_docker_kept)

lemma validateAndReload_kept: "validateAndReload dk cfg w = (r, w') \<Longrightarrow> files_kept w w'"
  by (auto simp: validateAndReload_def split: prod.splits sum.splits
      dest!: nginx_gateway_kept nginx_exec_kept intro: files_kept_trans)

lemma nginx_validate_kept: "nginx_validate dk cfg w = (r, w') \<Longrightarrow> files_kept w w'"
  by (auto simp: nginx_validate_def split: prod.splits sum.splits
      dest!: nginx_gateway_kept nginx_exec_kept intro: files_kept_trans)

lemma read_fragment_cases:
  assumes "read_fragment ora labID w = (r, w')"
  shows "files_kept w w' \<and> w_docker w' = w_docker w \<and> (r = Inr (map_of (w_fragments w) labID) \<or> (\<exists>m. r = Inl (NginxIO m)))"
  using assms by (auto simp: read_fragment_def file_do_def Let_def files_kept_def split: outcome.splits)

lemma writeAtomic_cases:
  assumes "writeAtomic ora labID body w = (r, w')"
  shows "w_docker w' = w_docker w \<and> (files_kept w w' \<and> (\<exists>m. r = Inl (NginxIO m)) \<or>
    r = Inr () \<and> gw_frame labID w w' \<and> map_of (w_fragments w') labID = Some body)"
  using assms by (auto simp: writeAtomic_def file_do_def Let_def files_kept_def gw_frame_def update_conv'
      split: outcome.splits)

lemma remove_fragment_cases:
  assumes "remove_fragment ora labID w = (r, w')"
  shows "w_docker w' = w_docker w \<and> (files_kept w w' \<and> (\<exists>m. r = Inl (NginxIO m)) \<or>
    r = Inr () \<and> gw_frame labID w w' \<and> map_of (w_fragments w') labID = None)"
  using assms by (auto simp: remove_fragment_def file_do_def Let_def files_kept_def gw_frame_def delete_conv'
      split: outcome.splits)

lemma restoreFile_cases:
  assumes "restoreFile ora labID previous w = (r, w')"
  shows "w_docker w' = w_docker w \<and> (files_kept w w' \<and> (\<exists>m. r = Inl (NginxIO m)) \<or>
    r = Inr () \<and> gw_frame labID w w' \<and> map_of (w_fragments w') labID = previous)"
proof (cases previous)
  case None
  then have "remove_fragment ora labID w = (r, w')" using assms by (simp add: restoreFile_def)
  from remove_fragment_cases [OF this] None show ?thesis by simp
next
  case (Some body)
  then have "writeAtomic ora labID body w = (r, w')" using assms by (simp add: restoreFile_def)
  from writeAtomic_cases [OF this] Some show ?thesis by simp
qed

text \<open>
  A configuration in force: the gateway checked and loaded the files as they are, with its answers the
  last thing that happened.
\<close>

definition gateway_loaded :: "'d gateway_daemon \<Rightarrow> 'd world \<Rightarrow> bool" where
  "gateway_loaded dk w = (\<exists>c d d1 out1 out2. Exec dk c [''nginx'', ''-t''] (w_fragments w) d = (Inr out1, d1) \<and>
     Exec dk c [''nginx'', ''-s'', ''reload''] (w_fragments w) d1 = (Inr out2, w_docker w))"

lemma nginx_exec_ok:
  assumes "nginx_exec dk m c cmd w = (Inr (), w')"
  shows "\<exists>out. Exec dk c cmd (w_fragments w) (w_docker w) = (Inr out, w_docker w')"
  using assms by (auto simp: nginx_exec_def on_docker_def split: prod.splits sum.splits)

lemma validateAndReload_loaded:
  assumes "validateAndReload dk cfg w = (Inr (), w')"
  shows "gateway_loaded dk w'"
proof -
  obtain c w1 w2 where 1: "nginx_gateway dk cfg w = (Inr c, w1)"
    and 2: "nginx_exec dk ''validate nginx config'' (ro_ID c) [''nginx'', ''-t''] w1 = (Inr (), w2)"
    and 3: "nginx_exec dk ''reload nginx config'' (ro_ID c) [''nginx'', ''-s'', ''reload''] w2 = (Inr (), w')"
    using assms by (auto simp: validateAndReload_def split: prod.splits sum.splits)
  have "w_fragments w1 = w_fragments w'" "w_fragments w2 = w_fragments w'"
    using nginx_exec_kept [OF 2] nginx_exec_kept [OF 3] by (simp_all add: files_kept_def)
  then show ?thesis using nginx_exec_ok [OF 2] nginx_exec_ok [OF 3] unfolding gateway_loaded_def by metis
qed

text \<open>The outcomes of \<open>Apply\<close> and \<open>Remove\<close>.\<close>

definition change_outcome ::
  "'d gateway_daemon \<Rightarrow> string \<Rightarrow> Server list option \<Rightarrow> 'd world \<Rightarrow> (nginx_error, unit) result \<Rightarrow> 'd world \<Rightarrow> bool" where
  "change_outcome dk labID new w r w' = (gw_frame labID w w' \<and>
     (case r of
        Inr _ \<Rightarrow> map_of (w_fragments w') labID = new
      | Inl (NginxRestore _) \<Rightarrow> map_of (w_fragments w') labID = new
      | Inl _ \<Rightarrow> map_of (w_fragments w') labID = map_of (w_fragments w) labID))"

lemma validateAndReload_error:
  "validateAndReload dk cfg w = (Inl e, w') \<Longrightarrow> \<exists>m. e = NginxRejected m"
  by (auto simp: validateAndReload_def nginx_gateway_def nginx_exec_def split: prod.splits sum.splits)

lemma kept_map_of: "files_kept w w' \<Longrightarrow> map_of (w_fragments w') l = map_of (w_fragments w) l"
  by (simp add: files_kept_def)

lemma apply_rollback_outcome:
  assumes 4: "restoreFile ora labID (map_of (w_fragments w) labID) w3 = (r4, w4)"
    and f3: "gw_frame labID w w3" "map_of (w_fragments w3) labID = new"
    and 5: "(if b then validateAndReload dk cfg w4 else nginx_validate dk cfg w4) = (r5, w5)"
    and e: "e = NginxRejected m"
  shows "is_ok r4 \<Longrightarrow> change_outcome dk labID new w (Inl (if is_ok r5 then e else NginxRejected m')) w5"
    "\<not> is_ok r4 \<Longrightarrow> change_outcome dk labID new w (Inl (NginxRestore m')) w4"
proof -
  have k5: "files_kept w4 w5" using 5 validateAndReload_kept nginx_validate_kept by (auto split: if_splits)
  note c = restoreFile_cases [OF 4]
  show "change_outcome dk labID new w (Inl (if is_ok r5 then e else NginxRejected m')) w5" if "is_ok r4"
  proof -
    have "gw_frame labID w3 w4" "map_of (w_fragments w4) labID = map_of (w_fragments w) labID" using c that by auto
    then show ?thesis using f3(1) kept_gw_frame [OF k5, of labID] kept_map_of [OF k5]
      by (auto simp: change_outcome_def e intro: gw_frame_trans)
  qed
  show "change_outcome dk labID new w (Inl (NginxRestore m')) w4" if "\<not> is_ok r4"
  proof -
    have "files_kept w3 w4" using c that by auto
    then show ?thesis using f3 kept_gw_frame [of w3 w4 labID] kept_map_of [of w3 w4]
      by (auto simp: change_outcome_def intro: gw_frame_trans)
  qed
qed

lemma nginx_Apply_outcome:
  assumes "nginx_Apply dk ora cfg labID servers w = (r, w')"
  shows "change_outcome dk labID (Some (sorted_servers servers)) w r w' \<and>
    (is_ok r \<longrightarrow> gateway_loaded dk w' \<and> list_all valid_server servers \<and> servers \<noteq> [])"
proof (cases "nginx_validLabID labID \<and> servers \<noteq> [] \<and> list_all valid_server servers")
  case False
  then show ?thesis using assms by (auto simp: nginx_Apply_def change_outcome_def split: if_splits)
next
  case True
  obtain r1 w1 where 1: "read_fragment ora labID w = (r1, w1)" by fastforce
  obtain r2 w2 where 2: "writeAtomic ora labID (sorted_servers servers) w1 = (r2, w2)" by fastforce
  obtain r3 w3 where 3: "validateAndReload dk cfg w2 = (r3, w3)" by fastforce
  let ?p = "map_of (w_fragments w) labID"
  obtain r4 w4 where 4: "restoreFile ora labID ?p w3 = (r4, w4)" by fastforce
  obtain r5 w5 where 5: "(if ?p \<noteq> None then validateAndReload dk cfg w4 else nginx_validate dk cfg w4) = (r5, w5)"
    by fastforce
  note k1 = read_fragment_cases [OF 1] and k3 = validateAndReload_kept [OF 3]
  note ap = nginx_Apply_def [of dk ora cfg labID servers w] 1 2
  consider m where "r1 = Inl (NginxIO m)" | m where "r1 = Inr ?p" "r2 = Inl (NginxIO m)" "files_kept w1 w2"
    | "r1 = Inr ?p" "r2 = Inr ()" "gw_frame labID w1 w2" "map_of (w_fragments w2) labID = Some (sorted_servers servers)"
    using k1 writeAtomic_cases [OF 2] by auto
  then show ?thesis
  proof cases
    case 1
    then show ?thesis using assms True k1 kept_gw_frame kept_map_of by (auto simp: ap change_outcome_def)
  next
    case 2
    have "files_kept w w2" using k1 2(3) files_kept_trans by blast
    then show ?thesis using assms True 2(1,2) kept_gw_frame kept_map_of by (auto simp: ap change_outcome_def)
  next
    case (3)
    have f3: "gw_frame labID w w3" "map_of (w_fragments w3) labID = Some (sorted_servers servers)"
      using k1 3(3,4) k3 kept_gw_frame kept_map_of gw_frame_trans by metis+
    show ?thesis
    proof (cases r3)
      case (Inr u)
      then show ?thesis using assms True 3 f3 validateAndReload_loaded [of dk cfg w2 w3]
        \<open>validateAndReload dk cfg w2 = (r3, w3)\<close> by (auto simp: ap change_outcome_def)
    next
      case (Inl e)
      obtain m where e: "e = NginxRejected m" using validateAndReload_error \<open>validateAndReload dk cfg w2 = (r3, w3)\<close> Inl by blast
      note out = apply_rollback_outcome [OF 4 f3 5 e]
      have "(r, w') = (if is_ok r4 then (Inl (if is_ok r5 then e else NginxRejected ''reload or validate restored config''), w5)
          else (Inl (NginxRestore ''restore''), w4))"
        using assms True 3 Inl \<open>validateAndReload dk cfg w2 = (r3, w3)\<close> 4 5
        by (auto simp: ap split: sum.splits if_splits)
      then show ?thesis using out by (cases "is_ok r4") auto
    qed
  qed
qed

lemma nginx_Remove_outcome:
  assumes "nginx_Remove dk ora cfg labID w = (r, w')"
  shows "change_outcome dk labID None w r w'"
proof (cases "nginx_validLabID labID")
  case False
  then show ?thesis using assms by (auto simp: nginx_Remove_def change_outcome_def)
next
  case True
  let ?p = "map_of (w_fragments w) labID"
  obtain r1 w1 where 1: "read_fragment ora labID w = (r1, w1)" by fastforce
  obtain r2 w2 where 2: "remove_fragment ora labID w1 = (r2, w2)" by fastforce
  obtain r3 w3 where 3: "validateAndReload dk cfg w2 = (r3, w3)" by fastforce
  note k1 = read_fragment_cases [OF 1] and k3 = validateAndReload_kept [OF 3]
  note rm = nginx_Remove_def [of dk ora cfg labID w] 1 2 3
  consider m where "r1 = Inl (NginxIO m)" | "r1 = Inr None" "?p = None"
    | m b where "r1 = Inr (Some b)" "?p = Some b" "r2 = Inl (NginxIO m)" "files_kept w1 w2"
    | b where "r1 = Inr (Some b)" "?p = Some b" "r2 = Inr ()" "gw_frame labID w1 w2" "map_of (w_fragments w2) labID = None"
    using k1 remove_fragment_cases [OF 2] by (cases ?p) auto
  then show ?thesis
  proof cases
    case 1
    then show ?thesis using assms True k1 kept_gw_frame kept_map_of by (auto simp: rm change_outcome_def)
  next
    case 2
    then show ?thesis using assms True k1 kept_gw_frame [of w w1] kept_map_of [of w w1] by (auto simp: rm change_outcome_def)
  next
    case 3
    have "files_kept w w2" using k1 3(4) files_kept_trans by blast
    then show ?thesis using assms True 3(1-3) kept_gw_frame [of w w2] kept_map_of [of w w2] by (auto simp: rm change_outcome_def)
  next
    case 4
    have f3: "gw_frame labID w w3" "map_of (w_fragments w3) labID = None"
      using k1 4(4,5) k3 kept_gw_frame kept_map_of gw_frame_trans by metis+
    show ?thesis
    proof (cases r3)
      case (Inr u)
      then show ?thesis using assms True 4 f3 by (auto simp: rm change_outcome_def)
    next
      case (Inl e)
      obtain m where e: "e = NginxRejected m" using validateAndReload_error 3 Inl by blast
      obtain r4 w4 where wr: "writeAtomic ora labID b w3 = (r4, w4)" by fastforce
      have "(r, w') = (Inl (if is_ok r4 then e else NginxRestore ''restore''), w4)"
        using assms True 4 Inl wr by (auto simp: rm split: sum.splits)
      moreover have "change_outcome dk labID None w (Inl (if is_ok r4 then e else NginxRestore ''restore'')) w4"
        using writeAtomic_cases [OF wr] f3 4(2) e kept_gw_frame [of w3 w4 labID] kept_map_of [of w3 w4]
        by (auto simp: change_outcome_def intro: gw_frame_trans)
      ultimately show ?thesis by simp
    qed
  qed
qed

text \<open>
  Claim C14. Changing the routes of a lab is atomic at the gateway: \<open>Apply\<close> never touches the fragment of
  another lab or a database. If it succeeds, the lab's fragment lists the given servers, which are
  all valid, and the gateway has checked and loaded the files as they are now. If it fails, the lab's
  fragment is what it was before, unless restoring it failed as well, which the error says.
\<close>

theorem gateway_change_atomic:
  assumes "nginx_Apply dk ora cfg labID servers w = (r, w')"
  shows "w_databases w' = w_databases w \<and> w_users w' = w_users w \<and>
    (\<forall>l. l \<noteq> labID \<longrightarrow> map_of (w_fragments w') l = map_of (w_fragments w) l) \<and>
    (case r of
       Inr _ \<Rightarrow> map_of (w_fragments w') labID = Some (sorted_servers servers) \<and> servers \<noteq> [] \<and>
         list_all valid_server servers \<and> gateway_loaded dk w'
     | Inl (NginxRestore _) \<Rightarrow> map_of (w_fragments w') labID = Some (sorted_servers servers)
     | Inl _ \<Rightarrow> map_of (w_fragments w') labID = map_of (w_fragments w) labID)"
  using nginx_Apply_outcome [OF assms]
  by (auto simp: change_outcome_def gw_frame_def split: sum.splits nginx_error.splits)

definition example_config :: gateway_config where
  "example_config = \<lparr>gc_ComposeProject = ''site'', gc_GatewayService = ''lab-gateway''\<rparr>"

definition compose_container :: "string \<Rightarrow> string \<times> model_container" where
  "compose_container service = (''id-'' @ service, \<lparr>mc_name = ''site-'' @ service, mc_image = service,
     mc_labels = [(''com.docker.compose.project'', ''site''), (''com.docker.compose.service'', service)],
     mc_network = ''site'', mc_running = True\<rparr>)"

definition example_docker :: "fragments model_docker" where
  "example_docker = \<lparr>mo_containers = map compose_container [''lab-gateway'', ''mysql''], mo_networks = [],
     mo_images = [''lab-app:1'', ''redis:7''], mo_command = [], mo_exit = 0, mo_loaded = None\<rparr>"

definition example_world :: "fragments model_docker world" where
  "example_world = \<lparr>w_docker = example_docker, w_calls = 0, w_databases = [], w_users = [], w_fragments = []\<rparr>"

definition example_server :: Server where
  "example_server = \<lparr>sv_Name = ''app-1'', sv_Host = ''lab-0123abcd-app-1'', sv_Port = 8080, sv_Weight = 50\<rparr>"

theorem gateway_change_atomic_witness:
  "\<exists>w'. nginx_Apply (model_daemon (\<lambda>_. True)) (\<lambda>_. Done) example_config ''lab-0123abcd'' [example_server] example_world
      = (Inr (), w') \<and>
    map_of (w_fragments w') ''lab-0123abcd'' = Some [example_server] \<and> gateway_loaded (model_daemon (\<lambda>_. True)) w'"
proof -
  let ?a = "nginx_Apply (model_daemon (\<lambda>_. True)) (\<lambda>_. Done) example_config ''lab-0123abcd'' [example_server] example_world"
  have "is_ok (fst ?a)" by code_simp
  then obtain w' where a: "?a = (Inr (), w')" by (auto elim!: is_okE)
  show ?thesis using gateway_change_atomic [OF a] a by (auto simp: sorted_servers_def)
qed

end
