(* ===== verification/ControlPayload.thy ===== *)
theory ControlPayload
  imports Gateway Auth Worker
begin

text \<open>
  The commands of the orchestrator and what they are decoded into:
  \<^verbatim>\<open>services/orchestrator/internal/control/payload.go\<close>, and the checks, names, labels and environments of
  \<^verbatim>\<open>services/orchestrator/internal/control/service.go\<close>. The payload of a command is absent, not one JSON
  value, or a JSON value; the decoder rejects members that the struct does not have.
\<close>

subsection \<open>Commands\<close>

datatype raw_payload = NoPayload | BadPayload | JsonPayload json

record orch_Command =
  oc_CommandType :: string
  oc_CommandID :: string
  oc_OperationID :: string
  oc_LabID :: string
  oc_RequestedBy :: string
  oc_Payload :: raw_payload

record control_Config =
  cg_ComposeProject :: string
  cg_GatewayService :: string
  cg_MySQLService :: string
  cg_LabAppImage :: string
  cg_RedisImage :: string
  cg_DatabaseSecret :: string

text \<open>The error of a command; its cause is only logged.\<close>

record control_error =
  ce_status :: string
  ce_code :: string
  ce_message :: string

definition reject :: "string \<Rightarrow> string \<Rightarrow> control_error" where
  "reject code message = \<lparr>ce_status = ''rejected'', ce_code = code, ce_message = message\<rparr>"

definition fail :: "string \<Rightarrow> string \<Rightarrow> control_error" where
  "fail code message = \<lparr>ce_status = ''failed'', ce_code = code, ce_message = message\<rparr>"

definition allowedCommands :: "string list" where
  "allowedCommands = [''PROVISION_LAB'', ''RESET_LAB'', ''DESTROY_LAB'', ''CREATE_APP_INSTANCE'', ''DELETE_APP_INSTANCE'',
     ''UPDATE_APP_CAPACITY'', ''CREATE_SESSION_REDIS'', ''RESTART_SESSION_REDIS'', ''DELETE_SESSION_REDIS'',
     ''APPLY_LAB_UPSTREAM'', ''REMOVE_LAB_UPSTREAM'', ''RESET_LAB_DATABASE'', ''RECONCILE_RESOURCES'']"

definition validToken :: "string \<Rightarrow> bool" where
  "validToken value = (if length value = 0 \<or> length value > 64 then False else operation_chars 0 value)"

definition validateEnvelope :: "orch_Command \<Rightarrow> (string \<times> string) option" where
  "validateEnvelope command =
     (if oc_CommandType command \<notin> set allowedCommands
      then Some (''COMMAND_NOT_ALLOWED'', ''command type is not allowlisted'')
      else if \<not> validToken (oc_CommandID command) \<or> \<not> validToken (oc_OperationID command) \<or>
         \<not> validLabID (oc_LabID command) \<or> \<not> validToken (oc_RequestedBy command)
      then Some (''INVALID_COMMAND'', ''command identity is invalid'') else None)"

text \<open>\<open>strconv.Atoi\<close>: an optional sign and decimal digits, within the range of an \<open>int\<close>.\<close>

definition Atoi_digits :: "string \<Rightarrow> int option" where
  "Atoi_digits ds = (if ds = [] \<or> \<not> list_all is_digit ds then None else Some (int (undigits ds)))"

definition Atoi :: "string \<Rightarrow> int option" where
  "Atoi s =
     (case (case s of [] \<Rightarrow> None
        | c # cs \<Rightarrow> if c = CHR ''-'' then map_option uminus (Atoi_digits cs)
            else if c = CHR ''+'' then Atoi_digits cs else Atoi_digits s) of
        None \<Rightarrow> None
      | Some n \<Rightarrow> if - (2 ^ 63) \<le> n \<and> n < 2 ^ 63 then Some n else None)"

definition control_validInstanceName :: "string \<Rightarrow> bool" where
  "control_validInstanceName value =
     (if \<not> HasPrefix value ''app-'' \<or> length value > 64 then False
      else case Atoi (TrimPrefix value ''app-'') of None \<Rightarrow> False | Some number \<Rightarrow> number > 0 \<and> number \<le> 4)"

subsection \<open>Decoding\<close>

definition decodePayload :: "(json \<Rightarrow> 'a option) \<Rightarrow> bool \<Rightarrow> raw_payload \<Rightarrow> 'a option" where
  "decodePayload dec required p =
     (case p of NoPayload \<Rightarrow> if required then None else dec (JObj []) | BadPayload \<Rightarrow> None | JsonPayload v \<Rightarrow> dec v)"

text \<open>\<open>decodeEmptyPayload\<close>, whether it succeeds.\<close>

definition decodeEmptyPayload :: "raw_payload \<Rightarrow> bool" where
  "decodeEmptyPayload p = (decodePayload members False p = Some [])"

definition strict_members :: "string list \<Rightarrow> json \<Rightarrow> (string \<times> json) list option" where
  "strict_members ks v =
     (case members v of
        None \<Rightarrow> None
      | Some ms \<Rightarrow> if list_all (\<lambda>(k, _). list_ex (same_key k) ks) ms then Some ms else None)"

fun uint_step :: "nat \<Rightarrow> json \<Rightarrow> nat option" where
  "uint_step x JNull = Some x"
| "uint_step x (JNum r) = (if r = of_int \<lfloor>r\<rfloor> \<and> 0 \<le> \<lfloor>r\<rfloor> \<and> \<lfloor>r\<rfloor> < 2 ^ 64 then Some (nat \<lfloor>r\<rfloor>) else None)"
| "uint_step x _ = None"

fun bool_step :: "bool \<Rightarrow> json \<Rightarrow> bool option" where
  "bool_step x JNull = Some x"
| "bool_step x (JBool b) = Some b"
| "bool_step x _ = None"

record provisionPayload =
  pp_CourseID :: nat
  pp_ScenarioType :: string
  pp_ScenarioTemplateID :: string
  pp_InitialInstances :: int
  pp_RedisRequired :: bool

definition dec_provisionPayload :: "json \<Rightarrow> provisionPayload option" where
  "dec_provisionPayload v =
     (case strict_members [''courseId'', ''scenarioType'', ''scenarioTemplateId'', ''initialInstances'', ''redisRequired''] v of
        None \<Rightarrow> None
      | Some ms \<Rightarrow>
         (case (decode_field uint_step 0 (values_of ''courseId'' ms), string_field ''scenarioType'' ms,
                string_field ''scenarioTemplateId'' ms, int_field ''initialInstances'' ms,
                decode_field bool_step False (values_of ''redisRequired'' ms)) of
            (Some c, Some ty, Some t, Some n, Some r) \<Rightarrow>
              Some \<lparr>pp_CourseID = c, pp_ScenarioType = ty, pp_ScenarioTemplateID = t, pp_InitialInstances = n,
                pp_RedisRequired = r\<rparr>
          | _ \<Rightarrow> None))"

text \<open>\<open>json.Marshal\<close> of a \<open>provisionPayload\<close>.\<close>

definition enc_provisionPayload :: "provisionPayload \<Rightarrow> json" where
  "enc_provisionPayload p = JObj [(''courseId'', JNum (of_nat (pp_CourseID p))), (''scenarioType'', JStr (pp_ScenarioType p)),
     (''scenarioTemplateId'', JStr (pp_ScenarioTemplateID p)), (''initialInstances'', JNum (of_int (pp_InitialInstances p))),
     (''redisRequired'', JBool (pp_RedisRequired p))]"

text \<open>\<open>scenarioPayload\<close>, \<open>destroyPayload\<close> and \<open>instancePayload\<close> have one string.\<close>

definition dec_string_payload :: "string \<Rightarrow> json \<Rightarrow> string option" where
  "dec_string_payload key v = (case strict_members [key] v of None \<Rightarrow> None | Some ms \<Rightarrow> string_field key ms)"

record createAppPayload =
  ap_ScenarioTemplateID :: string
  ap_InstanceName :: string
  ap_PerformancePercent :: int

definition dec_createAppPayload :: "json \<Rightarrow> createAppPayload option" where
  "dec_createAppPayload v =
     (case strict_members [''scenarioTemplateId'', ''instanceName'', ''performancePercent''] v of
        None \<Rightarrow> None
      | Some ms \<Rightarrow>
         (case (string_field ''scenarioTemplateId'' ms, string_field ''instanceName'' ms, int_field ''performancePercent'' ms) of
            (Some t, Some n, Some p) \<Rightarrow>
              Some \<lparr>ap_ScenarioTemplateID = t, ap_InstanceName = n, ap_PerformancePercent = p\<rparr>
          | _ \<Rightarrow> None))"

record updateCapacityPayload =
  up_ScenarioTemplateID :: string
  up_InstanceName :: string
  up_PerformancePercent :: int
  up_PreviousPerformancePercent :: int

definition dec_updateCapacityPayload :: "json \<Rightarrow> updateCapacityPayload option" where
  "dec_updateCapacityPayload v =
     (case strict_members [''scenarioTemplateId'', ''instanceName'', ''performancePercent'', ''previousPerformancePercent''] v of
        None \<Rightarrow> None
      | Some ms \<Rightarrow>
         (case (string_field ''scenarioTemplateId'' ms, string_field ''instanceName'' ms, int_field ''performancePercent'' ms,
                int_field ''previousPerformancePercent'' ms) of
            (Some t, Some n, Some p, Some q) \<Rightarrow>
              Some \<lparr>up_ScenarioTemplateID = t, up_InstanceName = n, up_PerformancePercent = p, up_PreviousPerformancePercent = q\<rparr>
          | _ \<Rightarrow> None))"

definition dec_upstreamServer :: "json \<Rightarrow> (string \<times> int) option" where
  "dec_upstreamServer v =
     (case strict_members [''instanceName'', ''weight''] v of
        None \<Rightarrow> None
      | Some ms \<Rightarrow>
         (case (string_field ''instanceName'' ms, int_field ''weight'' ms) of (Some n, Some k) \<Rightarrow> Some (n, k) | _ \<Rightarrow> None))"

definition dec_upstreamPayload :: "json \<Rightarrow> (string \<times> int) list option" where
  "dec_upstreamPayload v =
     (case strict_members [''servers''] v of
        None \<Rightarrow> None
      | Some ms \<Rightarrow> decode_field (slice_step dec_upstreamServer) [] (values_of ''servers'' ms))"

record reconcilePayload =
  re_ExpectedLabIDs :: "string list option"
  re_Cleanup :: bool

fun dec_strings :: "json \<Rightarrow> string list option" where
  "dec_strings (JArr vs) = decode_all (string_step []) vs"
| "dec_strings _ = None"

definition dec_reconcilePayload :: "json \<Rightarrow> reconcilePayload option" where
  "dec_reconcilePayload v =
     (case strict_members [''expectedLabIds'', ''cleanup''] v of
        None \<Rightarrow> None
      | Some ms \<Rightarrow>
         (case (decode_field (pointer_step dec_strings) None (values_of ''expectedLabIds'' ms),
                decode_field bool_step False (values_of ''cleanup'' ms)) of
            (Some e, Some c) \<Rightarrow> Some \<lparr>re_ExpectedLabIDs = e, re_Cleanup = c\<rparr>
          | _ \<Rightarrow> None))"

text \<open>Keys of different lengths differ, which spares their evaluation.\<close>

lemma same_key_code [code]: "same_key a b = (length a = length b \<and> (a = b \<or> map to_lower a = map to_lower b))"
  unfolding same_key_def using map_eq_imp_length_eq by blast

lemma enc_dec_provision:
  assumes "pp_CourseID p < 2 ^ 64" "- (2 ^ 63) \<le> pp_InitialInstances p" "pp_InitialInstances p < 2 ^ 63"
  shows "dec_provisionPayload (enc_provisionPayload p) = Some p"
  using assms
  by (simp add: dec_provisionPayload_def enc_provisionPayload_def strict_members_def values_of_def string_field_def
      int_field_def same_key_def to_lower_def is_upper_def)

subsection \<open>Names\<close>

text \<open>\<open>strings.ReplaceAll\<close> for a non-empty substring.\<close>

function ReplaceAll :: "string \<Rightarrow> string \<Rightarrow> string \<Rightarrow> string" where
  "ReplaceAll s sub new =
     (if s = [] \<or> sub = [] then s
      else if take (length sub) s = sub then new @ ReplaceAll (drop (length sub) s) sub new
      else hd s # ReplaceAll (tl s) sub new)"
  by pat_completeness auto
termination by (relation "measure (\<lambda>(s, sub, new). length s)") auto

declare ReplaceAll.simps [simp del]

record resourceNames =
  rn_normalized :: string
  rn_database :: string
  rn_databaseUser :: string
  rn_network :: string

definition maxDatabaseIdentityLength :: nat where
  "maxDatabaseIdentityLength = 23"

definition basicNames :: "string \<Rightarrow> resourceNames option" where
  "basicNames labID =
     (if \<not> validLabID labID then None
      else let normalized = ReplaceAll (TrimPrefix labID ''lab-'') ''-'' [] in
      if length normalized < 4 \<or> length normalized > 32 then None
      else if \<not> list_all (\<lambda>r. is_lower r \<or> is_digit r) normalized then None
      else let normalized = (if length normalized > maxDatabaseIdentityLength
             then take maxDatabaseIdentityLength normalized else normalized)
      in Some \<lparr>rn_normalized = normalized, rn_database = ''lab_'' @ normalized,
           rn_databaseUser = ''lab_'' @ normalized @ ''_user'', rn_network = ''lab-'' @ labID @ ''-net''\<rparr>)"

definition names :: "Registry \<Rightarrow> string \<Rightarrow> Scenario \<Rightarrow> resourceNames option" where
  "names registry labID scenario =
     (case basicNames labID of
        None \<Rightarrow> None
      | Some n \<Rightarrow>
         (case (map_of (rg_databases registry) (rt_Database scenario), map_of (rg_networks registry) (rt_Network scenario)) of
            (Some databaseTemplate, Some networkTemplate) \<Rightarrow>
              let database = ReplaceAll (db_DatabaseNamePattern databaseTemplate) ''{normalizedLabId}'' (rn_normalized n);
                  user = ReplaceAll (db_UserNamePattern databaseTemplate) ''{normalizedLabId}'' (rn_normalized n)
              in if length database > 64 \<or> length user > 32 then None
                 else Some (n\<lparr>rn_database := database, rn_databaseUser := user,
                   rn_network := ReplaceAll (nw_NamePattern networkTemplate) ''{labId}'' labID\<rparr>)
          | _ \<Rightarrow> None))"

definition appContainer :: "resourceNames \<Rightarrow> string \<Rightarrow> string" where
  "appContainer n instanceName = ''lab-'' @ rn_normalized n @ ''-'' @ instanceName"

definition redisContainer :: "resourceNames \<Rightarrow> string" where
  "redisContainer n = ''lab-'' @ rn_normalized n @ ''-redis''"

definition resourceLabels :: "orch_Command \<Rightarrow> string \<Rightarrow> string \<Rightarrow> labels" where
  "resourceLabels command resourceType templateID = [(''platform.managed'', ''true''), (''platform.labId'', oc_LabID command),
     (''platform.operationId'', oc_OperationID command), (''platform.resourceType'', resourceType),
     (''platform.templateId'', templateID)]"

definition nginxServers :: "resourceNames \<Rightarrow> (string \<times> int) list \<Rightarrow> Server list option" where
  "nginxServers n servers =
     (if list_all (\<lambda>(instanceName, weight). control_validInstanceName instanceName \<and> \<not> weight \<le> 0 \<and> \<not> weight > 100) servers
      then Some (map (\<lambda>(instanceName, weight). \<lparr>sv_Name = instanceName, sv_Host = appContainer n instanceName, sv_Port = 8080,
        sv_Weight = weight\<rparr>) servers)
      else None)"

subsection \<open>Settings of a container\<close>

definition imageFor :: "control_Config \<Rightarrow> string \<Rightarrow> string option" where
  "imageFor config environmentName =
     (if environmentName = ''LAB_APP_IMAGE'' then Some (cg_LabAppImage config)
      else if environmentName = ''REDIS_IMAGE'' then Some (cg_RedisImage config) else None)"

definition databasePassword :: "(string \<Rightarrow> string \<Rightarrow> bytes) \<Rightarrow> control_Config \<Rightarrow> string \<Rightarrow> string" where
  "databasePassword hmac config labID = EncodeToString (hmac (cg_DatabaseSecret config) (''lab-database:'' @ labID))"

definition durationSeconds :: "int \<Rightarrow> duration" where
  "durationSeconds value = value * Second"

definition control_healthcheck :: "Container \<Rightarrow> Healthcheck option" where
  "control_healthcheck value = map_option (\<lambda>h. \<lparr>he_Command = [''/usr/local/bin/lab-app'', ''healthcheck''],
     he_Interval = durationSeconds (hk_IntervalSeconds h), he_Timeout = durationSeconds (hk_TimeoutSeconds h),
     he_Retries = hk_Retries h\<rparr>) (ct_Healthcheck value)"

definition wrap64 :: "int \<Rightarrow> int" where
  "wrap64 n = (n + 2 ^ 63) mod 2 ^ 64 - 2 ^ 63"

text \<open>The product and the quotient are rounded; the conversion to an integer truncates.\<close>

definition cpu_cores :: "Scenario \<Rightarrow> int \<Rightarrow> rat" where
  "cpu_cores scenario performance = fl (fl (rs_BaseCPULimitCores scenario * float64 performance) / 100)"

definition nanoCPUs :: "rat \<Rightarrow> int" where
  "nanoCPUs cores = (let x = fl (cores * 1000000000) in if 0 \<le> x then \<lfloor>x\<rfloor> else \<lceil>x\<rceil>)"

definition processing_speed :: "Scenario \<Rightarrow> int \<Rightarrow> int" where
  "processing_speed scenario performance = gquot (wrap64 (lm_BaseProcessingSpeed scenario * performance)) 100"

definition validPerformance :: "Scenario \<Rightarrow> int \<Rightarrow> bool" where
  "validPerformance scenario value =
     (value \<ge> lm_MinPerformancePercent scenario \<and> value \<le> lm_MaxPerformancePercent scenario \<and> grem value 10 = 0)"

definition labAppEnvironment ::
  "string \<Rightarrow> Scenario \<Rightarrow> resourceNames \<Rightarrow> string \<Rightarrow> string \<Rightarrow> int \<Rightarrow> (string \<times> string) list" where
  "labAppEnvironment labID scenario n instanceName password performance =
     [(''LAB_APP_ADDR'', '':8080''), (''LAB_ID'', labID), (''INSTANCE_ID'', instanceName),
      (''SCENARIO_TYPE'', sn_ScenarioType scenario), (''MYSQL_HOST'', ''lab-db''), (''MYSQL_PORT'', ''3306''),
      (''MYSQL_DATABASE'', rn_database n), (''MYSQL_USER'', rn_databaseUser n), (''MYSQL_PASSWORD'', password),
      (''PERFORMANCE_PERCENT'', Itoa performance),
      (''PROCESSING_SPEED'', Itoa (processing_speed scenario performance)),
      (''MAX_LOAD'', Itoa (lm_MaxLoad scenario)), (''TZ'', ''UTC'')] @
     (if rt_Redis scenario = [] then [] else
     [(''REDIS_ADDR'', ''lab-redis:6379''),
      (''CACHE_L1_MAX_PRODUCT_ENTRIES'', Itoa (ca_L1MaxProductEntries scenario)),
      (''CACHE_INSTANCE_COUNT'', Itoa (max 1 (tp_InitialInstances scenario))),
      (''CACHE_L1_TTL_MS'', Itoa (ca_L1TTLMS scenario)), (''CACHE_L2_TTL_MS'', Itoa (ca_L2TTLMS scenario)),
      (''CACHE_L2_TTL_JITTER_PERCENT'', Itoa (ca_L2TTLJitterPercent scenario)),
      (''CACHE_LATENCY_L1_MS'', Itoa (ca_LatencyL1 scenario)), (''CACHE_LATENCY_REDIS_MS'', Itoa (ca_LatencyRedis scenario)),
      (''CACHE_LATENCY_MYSQL_MS'', Itoa (ca_LatencyMySQL scenario)),
      (''CACHE_LATENCY_DEGRADED_MS'', Itoa (ca_LatencyDegraded scenario))])"

end
