(* ===== verification/Control.thy ===== *)
theory Control
  imports ControlPayload
begin

text \<open>
  The orchestrator's control service, \<^verbatim>\<open>services/orchestrator/internal/control/service.go\<close>: one
  definition per command and per helper that changes something, and \<open>Execute\<close>, which validates a
  command and dispatches it. The state is the \<open>world\<close> of theory \<open>LabDatabases\<close>. The Docker daemon, the
  outcome of database and file operations and the keyed digest are arguments, in \<open>control_Service\<close>.
\<close>

record 'd control_Service =
  cv_registry :: Registry
  cv_docker :: "'d gateway_daemon"
  cv_outcomes :: outcomes
  cv_gateway :: gateway_config
  cv_hmac :: "string \<Rightarrow> string \<Rightarrow> bytes"
  cv_config :: control_Config

text \<open>\<open>NewService\<close>; the dependencies are always given.\<close>

definition config_complete :: "control_Config \<Rightarrow> bool" where
  "config_complete config = (\<not> (cg_ComposeProject config = [] \<or> cg_GatewayService config = [] \<or>
     cg_MySQLService config = [] \<or> cg_LabAppImage config = [] \<or> cg_RedisImage config = [] \<or>
     length (cg_DatabaseSecret config) < 16))"

type_synonym ('d, 'a) docker_step = "'d world \<Rightarrow> (docker_error, 'a) result \<times> 'd world"
type_synonym ('d, 'a) command_step = "'d world \<Rightarrow> (control_error, 'a) result \<times> 'd world"

subsection \<open>Containers\<close>

definition app_spec ::
  "'d control_Service \<Rightarrow> orch_Command \<Rightarrow> Scenario \<Rightarrow> Container \<Rightarrow> string \<Rightarrow> resourceNames \<Rightarrow> string \<Rightarrow> int \<Rightarrow> ContainerSpec" where
  "app_spec sv command scenario templateValue img n instanceName performance =
     \<lparr>cs_Name = appContainer n instanceName, cs_Image = img, cs_User = ct_User templateValue, cs_Command = [],
      cs_Environment = labAppEnvironment (oc_LabID command) scenario n instanceName
        (databasePassword (cv_hmac sv) (cv_config sv) (oc_LabID command)) performance,
      cs_Labels = resourceLabels command ''app-container'' (ct_TemplateID templateValue) @ [(''platform.instanceName'', instanceName)],
      cs_NetworkName = rn_network n, cs_NetworkAliases = [appContainer n instanceName],
      cs_ReadOnlyRootFS = ct_ReadOnlyRootFilesystem templateValue, cs_CapDrop = ct_CapDrop templateValue,
      cs_MemoryBytes = wrap64 (rs_MemoryLimitMB scenario * 2 ^ 20),
      cs_NanoCPUs = nanoCPUs (cpu_cores scenario performance), cs_PidsLimit = rs_PidsLimit scenario,
      cs_Healthcheck = control_healthcheck templateValue\<rparr>"

definition ensureApp ::
  "'d control_Service \<Rightarrow> orch_Command \<Rightarrow> Scenario \<Rightarrow> Container \<Rightarrow> string \<Rightarrow> resourceNames \<Rightarrow> string \<Rightarrow> int \<Rightarrow>
   ('d, EnsureResult) docker_step" where
  "ensureApp sv command scenario templateValue img n instanceName performance w =
     (case on_docker (InspectImage (cv_docker sv) img) w of
        (Inl e, w1) \<Rightarrow> (Inl e, w1)
      | (Inr _, w1) \<Rightarrow> on_docker (EnsureContainer (cv_docker sv)
          (app_spec sv command scenario templateValue img n instanceName performance)) w1)"

definition redis_spec :: "orch_Command \<Rightarrow> Container \<Rightarrow> string \<Rightarrow> resourceNames \<Rightarrow> ContainerSpec" where
  "redis_spec command templateValue img n =
     \<lparr>cs_Name = redisContainer n, cs_Image = img, cs_User = ct_User templateValue, cs_Command = ct_Command templateValue,
      cs_Environment = [(''TZ'', ''UTC'')],
      cs_Labels = resourceLabels command ''session-redis'' (ct_TemplateID templateValue),
      cs_NetworkName = rn_network n, cs_NetworkAliases = [''lab-redis''],
      cs_ReadOnlyRootFS = ct_ReadOnlyRootFilesystem templateValue, cs_CapDrop = ct_CapDrop templateValue,
      cs_MemoryBytes = wrap64 (ct_MemoryLimitMB templateValue * 2 ^ 20), cs_NanoCPUs = 50000000,
      cs_PidsLimit = ct_PidsLimit templateValue, cs_Healthcheck = None\<rparr>"

definition ensureRedis ::
  "'d control_Service \<Rightarrow> orch_Command \<Rightarrow> Scenario \<Rightarrow> resourceNames \<Rightarrow> ('d, EnsureResult) docker_step" where
  "ensureRedis sv command scenario n w =
     (case map_of (rg_containers (cv_registry sv)) (rt_Redis scenario) of
        None \<Rightarrow> (Inl (ClientError ''redis template does not exist''), w)
      | Some templateValue \<Rightarrow>
         (case imageFor (cv_config sv) (ct_ImageEnv templateValue) of
            None \<Rightarrow> (Inl (ClientError ''image environment is not allowlisted''), w)
          | Some img \<Rightarrow>
             (case on_docker (InspectImage (cv_docker sv) img) w of
                (Inl e, w1) \<Rightarrow> (Inl e, w1)
              | (Inr _, w1) \<Rightarrow> on_docker (EnsureContainer (cv_docker sv) (redis_spec command templateValue img n)) w1)))"

definition connectFixedServices :: "'d control_Service \<Rightarrow> string \<Rightarrow> ('d, unit) docker_step" where
  "connectFixedServices sv networkID w =
     (let find_service = (\<lambda>service. on_docker (FindComposeContainer (cv_docker sv) (cg_ComposeProject (cv_config sv)) service))
      in case find_service (cg_GatewayService (cv_config sv)) w of
        (Inl e, w1) \<Rightarrow> (Inl e, w1)
      | (Inr gateway, w1) \<Rightarrow>
         (case find_service (cg_MySQLService (cv_config sv)) w1 of
            (Inl e, w2) \<Rightarrow> (Inl e, w2)
          | (Inr mysql, w2) \<Rightarrow>
             (case on_docker (ConnectNetwork (cv_docker sv) networkID (ro_ID gateway) [''lab-gateway'']) w2 of
                (Inl e, w3) \<Rightarrow> (Inl e, w3)
              | (Inr _, w3) \<Rightarrow> on_docker (ConnectNetwork (cv_docker sv) networkID (ro_ID mysql) [''lab-db'']) w3)))"

definition control_findInstance :: "'d control_Service \<Rightarrow> string \<Rightarrow> string \<Rightarrow> ('d, docker_Resource) docker_step" where
  "control_findInstance sv labID instanceName w =
     (case on_docker (ListManagedContainers (cv_docker sv) labID) w of
        (Inl e, w1) \<Rightarrow> (Inl e, w1)
      | (Inr found, w1) \<Rightarrow>
         (case find (\<lambda>r. label_of (ro_Labels r) ''platform.resourceType'' = ''app-container'' \<and>
                 label_of (ro_Labels r) ''platform.instanceName'' = instanceName) found of
            None \<Rightarrow> (Inl (ClientError ''instance not found''), w1)
          | Some r \<Rightarrow> (Inr r, w1)))"

text \<open>\<open>findResourceType\<close>; \<open>Inr None\<close> is \<open>errResourceNotFound\<close>.\<close>

definition findResourceType :: "'d control_Service \<Rightarrow> string \<Rightarrow> string \<Rightarrow> ('d, docker_Resource option) docker_step" where
  "findResourceType sv labID resourceType w =
     (case on_docker (ListManagedContainers (cv_docker sv) labID) w of
        (Inl e, w1) \<Rightarrow> (Inl e, w1)
      | (Inr found, w1) \<Rightarrow>
          (Inr (find (\<lambda>r. label_of (ro_Labels r) ''platform.resourceType'' = resourceType) found), w1))"

subsection \<open>Removing the resources of a lab\<close>

text \<open>A step that does not stop on an error collects it.\<close>

definition failure :: "string \<Rightarrow> ('e, 'a) result \<Rightarrow> string list" where
  "failure m r = (if is_ok r then [] else [m])"

fun each_resource ::
  "(docker_Resource \<Rightarrow> 'd world \<Rightarrow> string list \<times> 'd world) \<Rightarrow> docker_Resource list \<Rightarrow> 'd world \<Rightarrow> string list \<times> 'd world" where
  "each_resource f [] w = ([], w)"
| "each_resource f (x # xs) w =
     (case f x w of (e1, w1) \<Rightarrow> (case each_resource f xs w1 of (e2, w2) \<Rightarrow> (e1 @ e2, w2)))"

definition remove_one_container :: "'d control_Service \<Rightarrow> docker_Resource \<Rightarrow> 'd world \<Rightarrow> string list \<times> 'd world" where
  "remove_one_container sv resource w =
     (case on_docker (RemoveContainer (cv_docker sv) (ro_ID resource)) w of (r, w1) \<Rightarrow> (failure ''remove container'' r, w1))"

definition remove_lab_containers :: "'d control_Service \<Rightarrow> string \<Rightarrow> 'd world \<Rightarrow> string list \<times> 'd world" where
  "remove_lab_containers sv labID w =
     (case on_docker (ListManagedContainers (cv_docker sv) labID) w of
        (Inl _, w1) \<Rightarrow> ([''list containers''], w1)
      | (Inr found, w1) \<Rightarrow> each_resource (remove_one_container sv) found w1)"

definition disconnect_from ::
  "'d control_Service \<Rightarrow> (docker_error, docker_Resource) result \<Rightarrow> docker_Resource \<Rightarrow> 'd world \<Rightarrow> string list \<times> 'd world" where
  "disconnect_from sv found network w =
     (case found of
        Inl _ \<Rightarrow> ([], w)
      | Inr c \<Rightarrow> (case on_docker (DisconnectNetwork (cv_docker sv) (ro_ID network) (ro_ID c)) w of
          (r, w1) \<Rightarrow> (failure ''disconnect network'' r, w1)))"

definition remove_one_network ::
  "'d control_Service \<Rightarrow> (docker_error, docker_Resource) result \<Rightarrow> (docker_error, docker_Resource) result \<Rightarrow>
   docker_Resource \<Rightarrow> 'd world \<Rightarrow> string list \<times> 'd world" where
  "remove_one_network sv gateway mysql network w =
     (case disconnect_from sv gateway network w of (e1, w1) \<Rightarrow>
      (case disconnect_from sv mysql network w1 of (e2, w2) \<Rightarrow>
       (case on_docker (RemoveNetwork (cv_docker sv) (ro_ID network)) w2 of
          (r, w3) \<Rightarrow> (e1 @ e2 @ failure ''remove network'' r, w3))))"

definition remove_lab_networks :: "'d control_Service \<Rightarrow> string \<Rightarrow> 'd world \<Rightarrow> string list \<times> 'd world" where
  "remove_lab_networks sv labID w =
     (case on_docker (ListManagedNetworks (cv_docker sv) labID) w of
        (Inl _, w1) \<Rightarrow> ([''list networks''], w1)
      | (Inr networks, w1) \<Rightarrow>
         (case on_docker (FindComposeContainer (cv_docker sv) (cg_ComposeProject (cv_config sv)) (cg_GatewayService (cv_config sv))) w1 of
            (gateway, w2) \<Rightarrow>
         (case on_docker (FindComposeContainer (cv_docker sv) (cg_ComposeProject (cv_config sv)) (cg_MySQLService (cv_config sv))) w2 of
            (mysql, w3) \<Rightarrow> each_resource (remove_one_network sv gateway mysql) networks w3)))"

definition destroyResources ::
  "'d control_Service \<Rightarrow> string \<Rightarrow> resourceNames \<Rightarrow> 'd world \<Rightarrow> string list \<times> 'd world" where
  "destroyResources sv labID n w =
     (case nginx_Remove (cv_docker sv) (cv_outcomes sv) (cv_gateway sv) labID w of (r1, w1) \<Rightarrow>
      (case remove_lab_containers sv labID w1 of (e2, w2) \<Rightarrow>
       (case remove_lab_networks sv labID w2 of (e3, w3) \<Rightarrow>
        (case db_Destroy (cv_outcomes sv) (rn_database n) (rn_databaseUser n) w3 of
           (r4, w4) \<Rightarrow> (failure ''remove nginx fragment'' r1 @ e2 @ e3 @ failure ''destroy lab database'' r4, w4)))))"

subsection \<open>Creating a lab\<close>

definition network_labels :: "orch_Command \<Rightarrow> Network \<Rightarrow> labels" where
  "network_labels command t = foldr (\<lambda>(k, v) ls. AList.update k v ls) (nw_RequiredLabels t)
     (resourceLabels command ''lab-network'' (nw_TemplateID t))"

definition network_spec :: "orch_Command \<Rightarrow> Network \<Rightarrow> resourceNames \<Rightarrow> NetworkSpec" where
  "network_spec command t n = \<lparr>ns_Name = rn_network n, ns_Driver = nw_Driver t, ns_Internal = nw_Internal t,
     ns_Attachable = nw_Attachable t, ns_Labels = network_labels command t\<rparr>"

definition instance_json :: "Scenario \<Rightarrow> string \<Rightarrow> EnsureResult \<Rightarrow> int \<Rightarrow> json" where
  "instance_json scenario instanceName c performance = JObj
     [(''instanceName'', JStr instanceName), (''containerId'', JStr (er_ID c)), (''containerName'', JStr (er_Name c)),
      (''status'', JStr ''running''), (''cpuLimitCores'', JNum (cpu_cores scenario performance)),
      (''memoryLimitMb'', JNum (of_int (rs_MemoryLimitMB scenario))), (''performancePercent'', JNum (of_int performance)),
      (''processingSpeed'', JNum (of_int (processing_speed scenario performance))),
      (''maxLoad'', JNum (of_int (lm_MaxLoad scenario))), (''currentWeight'', JNum (of_int (lb_InitialWeight scenario)))]"

definition instance_server :: "Scenario \<Rightarrow> resourceNames \<Rightarrow> string \<Rightarrow> Server" where
  "instance_server scenario n instanceName = \<lparr>sv_Name = instanceName, sv_Host = appContainer n instanceName, sv_Port = 8080,
     sv_Weight = lb_InitialWeight scenario\<rparr>"

text \<open>The loop over the instances, for the names that are left.\<close>

fun create_instances ::
  "'d control_Service \<Rightarrow> orch_Command \<Rightarrow> Scenario \<Rightarrow> Container \<Rightarrow> string \<Rightarrow> resourceNames \<Rightarrow> string list \<Rightarrow>
   ('d, json list) docker_step" where
  "create_instances sv command scenario t img n [] w = (Inr [], w)"
| "create_instances sv command scenario t img n (instanceName # rest) w =
     (case ensureApp sv command scenario t img n instanceName (lm_InitialPerformancePercent scenario) w of
        (Inl e, w1) \<Rightarrow> (Inl e, w1)
      | (Inr c, w1) \<Rightarrow>
         (case create_instances sv command scenario t img n rest w1 of
            (Inl e, w2) \<Rightarrow> (Inl e, w2)
          | (Inr js, w2) \<Rightarrow>
              (Inr (instance_json scenario instanceName c (lm_InitialPerformancePercent scenario) # js), w2)))"

definition instance_names :: "int \<Rightarrow> string list" where
  "instance_names count = map (\<lambda>i. ''app-'' @ Itoa i) [1..count]"

text \<open>The part of \<open>provision\<close> whose failure is compensated.\<close>

definition provision_database ::
  "'d control_Service \<Rightarrow> orch_Command \<Rightarrow> provisionPayload \<Rightarrow> Scenario \<Rightarrow> resourceNames \<Rightarrow> ('d, unit) command_step" where
  "provision_database sv command p scenario n w =
     (case db_Provision (cv_outcomes sv) (rn_database n) (rn_databaseUser n)
             (databasePassword (cv_hmac sv) (cv_config sv) (oc_LabID command)) w of
        (Inl _, w1) \<Rightarrow> (Inl (fail ''LAB_DATABASE_UNAVAILABLE'' ''lab database could not be provisioned''), w1)
      | (Inr _, w1) \<Rightarrow>
          if \<not> pp_RedisRequired p then (Inr (), w1)
          else case SeedProducts (cv_outcomes sv) (rn_database n) (sn_ProductSeeds scenario) w1 of
            (Inl _, w2) \<Rightarrow> (Inl (fail ''LAB_DATABASE_UNAVAILABLE'' ''lab products could not be seeded''), w2)
          | (Inr _, w2) \<Rightarrow> (Inr (), w2))"

definition provision_network ::
  "'d control_Service \<Rightarrow> orch_Command \<Rightarrow> Network \<Rightarrow> resourceNames \<Rightarrow> ('d, EnsureResult) command_step" where
  "provision_network sv command t n w =
     (case on_docker (EnsureNetwork (cv_docker sv) (network_spec command t n)) w of
        (Inl _, w1) \<Rightarrow> (Inl (fail ''DOCKER_UNAVAILABLE'' ''lab network could not be provisioned''), w1)
      | (Inr network, w1) \<Rightarrow>
         (case connectFixedServices sv (er_ID network) w1 of
            (Inl _, w2) \<Rightarrow> (Inl (fail ''DOCKER_UNAVAILABLE'' ''lab network could not connect fixed services''), w2)
          | (Inr _, w2) \<Rightarrow> (Inr network, w2)))"

definition provision_redis ::
  "'d control_Service \<Rightarrow> orch_Command \<Rightarrow> provisionPayload \<Rightarrow> Scenario \<Rightarrow> resourceNames \<Rightarrow> ('d, json) command_step" where
  "provision_redis sv command p scenario n w =
     (if \<not> pp_RedisRequired p then (Inr JNull, w)
      else case ensureRedis sv command scenario n w of
        (Inl _, w1) \<Rightarrow> (Inl (fail ''DOCKER_UNAVAILABLE'' ''session Redis could not be provisioned''), w1)
      | (Inr c, w1) \<Rightarrow> (Inr (JObj [(''containerId'', JStr (er_ID c)), (''containerName'', JStr (er_Name c)),
          (''status'', JStr ''running'')]), w1))"

definition zero_network :: Network where
  "zero_network = \<lparr>nw_TemplateID = [], nw_TemplateVersion = 0, nw_ResourceType = [], nw_Driver = [], nw_Internal = False,
     nw_Attachable = False, nw_NamePattern = [], nw_RequiredLabels = []\<rparr>"

definition network_template :: "Registry \<Rightarrow> Scenario \<Rightarrow> Network" where
  "network_template registry scenario =
     (case map_of (rg_networks registry) (rt_Network scenario) of None \<Rightarrow> zero_network | Some t \<Rightarrow> t)"

definition provision_steps ::
  "'d control_Service \<Rightarrow> orch_Command \<Rightarrow> provisionPayload \<Rightarrow> Scenario \<Rightarrow> Container \<Rightarrow> string \<Rightarrow> resourceNames \<Rightarrow>
   ('d, json) command_step" where
  "provision_steps sv command p scenario t img n w =
     (case provision_database sv command p scenario n w of
        (Inl e, w1) \<Rightarrow> (Inl e, w1)
      | (Inr _, w1) \<Rightarrow>
         (case provision_network sv command (network_template (cv_registry sv) scenario) n w1 of
            (Inl e, w2) \<Rightarrow> (Inl e, w2)
          | (Inr network, w2) \<Rightarrow>
             (case provision_redis sv command p scenario n w2 of
                (Inl e, w3) \<Rightarrow> (Inl e, w3)
              | (Inr redis, w3) \<Rightarrow>
                 (case create_instances sv command scenario t img n (instance_names (pp_InitialInstances p)) w3 of
                    (Inl _, w4) \<Rightarrow> (Inl (fail ''DOCKER_UNAVAILABLE'' ''application instance could not be provisioned''), w4)
                  | (Inr js, w4) \<Rightarrow>
                     (case nginx_Apply (cv_docker sv) (cv_outcomes sv) (cv_gateway sv) (oc_LabID command)
                             (map (instance_server scenario n) (instance_names (pp_InitialInstances p))) w4 of
                        (Inl _, w5) \<Rightarrow> (Inl (fail ''NGINX_CONFIG_INVALID'' ''lab gateway configuration could not be applied''), w5)
                      | (Inr _, w5) \<Rightarrow> (Inr (JObj [(''labId'', JStr (oc_LabID command)),
                          (''scenarioTemplateId'', JStr (sn_TemplateID scenario)), (''databaseName'', JStr (rn_database n)),
                          (''databaseUser'', JStr (rn_databaseUser n)), (''networkId'', JStr (er_ID network)),
                          (''networkName'', JStr (rn_network n)), (''instances'', JArr js), (''redis'', redis)]), w5))))))"

text \<open>The images a provision needs are there.\<close>

definition inspect_images ::
  "'d control_Service \<Rightarrow> provisionPayload \<Rightarrow> Scenario \<Rightarrow> string \<Rightarrow> ('d, unit) command_step" where
  "inspect_images sv p scenario appImage w =
     (case on_docker (InspectImage (cv_docker sv) appImage) w of
        (Inl _, w1) \<Rightarrow> (Inl (fail ''DOCKER_UNAVAILABLE'' ''application image is unavailable''), w1)
      | (Inr _, w1) \<Rightarrow>
          if \<not> pp_RedisRequired p then (Inr (), w1)
          else case map_of (rg_containers (cv_registry sv)) (rt_Redis scenario) of
            None \<Rightarrow> (Inl (reject ''TEMPLATE_NOT_FOUND'' ''redis template is not available''), w1)
          | Some redisTemplate \<Rightarrow>
             (case imageFor (cv_config sv) (ct_ImageEnv redisTemplate) of
                None \<Rightarrow> (Inl (reject ''TEMPLATE_NOT_FOUND'' ''redis image is not configured''), w1)
              | Some redisImage \<Rightarrow>
                 (case on_docker (InspectImage (cv_docker sv) redisImage) w1 of
                    (Inl _, w2) \<Rightarrow> (Inl (fail ''DOCKER_UNAVAILABLE'' ''redis image is unavailable''), w2)
                  | (Inr _, w2) \<Rightarrow> (Inr (), w2))))"

text \<open>What \<open>provision\<close> determines before it asks Docker: the scenario, the names, the template and the image.\<close>

definition provision_plan ::
  "'d control_Service \<Rightarrow> orch_Command \<Rightarrow> (control_error, provisionPayload \<times> Scenario \<times> resourceNames \<times> Container \<times> string) result" where
  "provision_plan sv command =
     (case decodePayload dec_provisionPayload True (oc_Payload command) of
        None \<Rightarrow> Inl (reject ''INVALID_COMMAND'' ''invalid provision payload'')
      | Some p \<Rightarrow>
         (case map_of (rg_scenarios (cv_registry sv)) (pp_ScenarioTemplateID p) of
            None \<Rightarrow> Inl (reject ''TEMPLATE_NOT_FOUND'' ''scenario template is not available'')
          | Some scenario \<Rightarrow>
              if sn_ScenarioType scenario \<noteq> pp_ScenarioType p
              then Inl (reject ''TEMPLATE_NOT_FOUND'' ''scenario template is not available'')
              else if pp_CourseID p = 0 \<or> pp_InitialInstances p \<le> 0 \<or> pp_InitialInstances p > 4 \<or>
                 pp_RedisRequired p \<noteq> (rt_Redis scenario \<noteq> [])
              then Inl (reject ''INVALID_COMMAND'' ''provision payload does not match scenario'')
              else case names (cv_registry sv) (oc_LabID command) scenario of
                None \<Rightarrow> Inl (reject ''INVALID_COMMAND'' ''lab identity is invalid'')
              | Some n \<Rightarrow>
                 (case map_of (rg_containers (cv_registry sv)) (rt_Application scenario) of
                    None \<Rightarrow> Inl (reject ''TEMPLATE_NOT_FOUND'' ''application template is not available'')
                  | Some t \<Rightarrow>
                     (case imageFor (cv_config sv) (ct_ImageEnv t) of
                        None \<Rightarrow> Inl (reject ''TEMPLATE_NOT_FOUND'' ''application image is not configured'')
                      | Some img \<Rightarrow> Inr (p, scenario, n, t, img)))))"

definition provision :: "'d control_Service \<Rightarrow> orch_Command \<Rightarrow> ('d, json) command_step" where
  "provision sv command w =
     (case provision_plan sv command of
        Inl e \<Rightarrow> (Inl e, w)
      | Inr (p, scenario, n, t, img) \<Rightarrow>
         (case inspect_images sv p scenario img w of
            (Inl e, w1) \<Rightarrow> (Inl e, w1)
          | (Inr _, w1) \<Rightarrow>
             (case provision_steps sv command p scenario t img n w1 of
                (Inl e, w2) \<Rightarrow> (Inl e, snd (destroyResources sv (oc_LabID command) n w2))
              | (Inr v, w2) \<Rightarrow> (Inr v, w2))))"

subsection \<open>The other commands\<close>

definition resetLab :: "'d control_Service \<Rightarrow> orch_Command \<Rightarrow> ('d, json) command_step" where
  "resetLab sv command w =
     (case decodePayload (dec_string_payload ''scenarioTemplateId'') True (oc_Payload command) of
        None \<Rightarrow> (Inl (reject ''INVALID_COMMAND'' ''invalid reset payload''), w)
      | Some templateID \<Rightarrow>
         (case map_of (rg_scenarios (cv_registry sv)) templateID of
            None \<Rightarrow> (Inl (reject ''TEMPLATE_NOT_FOUND'' ''scenario template is not available''), w)
          | Some scenario \<Rightarrow>
             (case names (cv_registry sv) (oc_LabID command) scenario of
                None \<Rightarrow> (Inl (reject ''INVALID_COMMAND'' ''lab identity is invalid''), w)
              | Some n \<Rightarrow>
                 (case destroyResources sv (oc_LabID command) n w of (failures, w1) \<Rightarrow>
                    if failures \<noteq> []
                    then (Inl (fail ''RESOURCE_CLEANUP_FAILED'' ''existing lab resources could not be removed for reset''), w1)
                    else provision sv (command\<lparr>oc_Payload := JsonPayload (enc_provisionPayload
                      \<lparr>pp_CourseID = 1, pp_ScenarioType = sn_ScenarioType scenario,
                       pp_ScenarioTemplateID = sn_TemplateID scenario,
                       pp_InitialInstances = max 1 (tp_InitialInstances scenario),
                       pp_RedisRequired = (rt_Redis scenario \<noteq> [])\<rparr>)\<rparr>) w1))))"

definition control_destroy :: "'d control_Service \<Rightarrow> orch_Command \<Rightarrow> ('d, json) command_step" where
  "control_destroy sv command w =
     (case decodePayload (dec_string_payload ''reason'') False (oc_Payload command) of
        None \<Rightarrow> (Inl (reject ''INVALID_COMMAND'' ''invalid destroy payload''), w)
      | Some reason \<Rightarrow>
          if reason \<noteq> [] \<and> reason \<noteq> ''user_requested'' \<and> reason \<noteq> ''idle_timeout'' \<and> reason \<noteq> ''maximum_duration''
          then (Inl (reject ''INVALID_COMMAND'' ''destroy reason is invalid''), w)
          else case basicNames (oc_LabID command) of
            None \<Rightarrow> (Inl (reject ''INVALID_COMMAND'' ''lab identity is invalid''), w)
          | Some n \<Rightarrow>
             (case destroyResources sv (oc_LabID command) n w of (failures, w1) \<Rightarrow>
                if failures \<noteq> [] then (Inl (fail ''RESOURCE_CLEANUP_FAILED'' ''lab resources could not be fully removed''), w1)
                else (Inr (JObj [(''labId'', JStr (oc_LabID command)), (''destroyed'', JBool True)]), w1)))"

text \<open>The template of the application; the zero value when the registry has none.\<close>

definition app_template :: "Registry \<Rightarrow> Scenario \<Rightarrow> Container" where
  "app_template registry scenario =
     (case map_of (rg_containers registry) (rt_Application scenario) of None \<Rightarrow> zero_container | Some t \<Rightarrow> t)"

definition createAppCommand :: "'d control_Service \<Rightarrow> orch_Command \<Rightarrow> ('d, json) command_step" where
  "createAppCommand sv command w =
     (case decodePayload dec_createAppPayload True (oc_Payload command) of
        None \<Rightarrow> (Inl (reject ''INVALID_COMMAND'' ''invalid application instance payload''), w)
      | Some p \<Rightarrow>
          if \<not> control_validInstanceName (ap_InstanceName p)
          then (Inl (reject ''INVALID_COMMAND'' ''invalid application instance payload''), w)
          else case map_of (rg_scenarios (cv_registry sv)) (ap_ScenarioTemplateID p) of
            None \<Rightarrow> (Inl (reject ''TEMPLATE_NOT_FOUND'' ''scenario template is not available''), w)
          | Some scenario \<Rightarrow>
              let performance = (if ap_PerformancePercent p = 0 then lm_InitialPerformancePercent scenario
                    else ap_PerformancePercent p)
              in if \<not> validPerformance scenario performance
                 then (Inl (reject ''INVALID_COMMAND'' ''performance percentage is outside the scenario range''), w)
                 else case names (cv_registry sv) (oc_LabID command) scenario of
                   None \<Rightarrow> (Inl (reject ''INVALID_COMMAND'' ''lab identity is invalid''), w)
                 | Some n \<Rightarrow>
                    (let t = app_template (cv_registry sv) scenario in
                     case imageFor (cv_config sv) (ct_ImageEnv t) of
                       None \<Rightarrow> (Inl (reject ''TEMPLATE_NOT_FOUND'' ''application image is not configured''), w)
                     | Some img \<Rightarrow>
                        (case ensureApp sv command scenario t img n (ap_InstanceName p) performance w of
                           (Inl _, w1) \<Rightarrow> (Inl (fail ''DOCKER_UNAVAILABLE'' ''application instance could not be created''), w1)
                         | (Inr c, w1) \<Rightarrow> (Inr (instance_json scenario (ap_InstanceName p) c performance), w1))))"

definition deleteAppCommand :: "'d control_Service \<Rightarrow> orch_Command \<Rightarrow> ('d, json) command_step" where
  "deleteAppCommand sv command w =
     (case decodePayload (dec_string_payload ''instanceName'') True (oc_Payload command) of
        None \<Rightarrow> (Inl (reject ''INVALID_COMMAND'' ''invalid application instance payload''), w)
      | Some instanceName \<Rightarrow>
          if \<not> control_validInstanceName instanceName
          then (Inl (reject ''INVALID_COMMAND'' ''invalid application instance payload''), w)
          else case control_findInstance sv (oc_LabID command) instanceName w of
            (Inl _, w1) \<Rightarrow> (Inl (fail ''INSTANCE_NOT_FOUND'' ''application instance was not found''), w1)
          | (Inr resource, w1) \<Rightarrow>
             (case on_docker (RemoveContainer (cv_docker sv) (ro_ID resource)) w1 of
                (Inl _, w2) \<Rightarrow> (Inl (fail ''DOCKER_UNAVAILABLE'' ''application instance could not be removed''), w2)
              | (Inr _, w2) \<Rightarrow> (Inr (JObj [(''instanceName'', JStr instanceName), (''deleted'', JBool True)]), w2)))"

text \<open>The replacement of an instance, with the previous capacity as the fallback.\<close>

definition replace_app ::
  "'d control_Service \<Rightarrow> orch_Command \<Rightarrow> Scenario \<Rightarrow> Container \<Rightarrow> string \<Rightarrow> resourceNames \<Rightarrow> updateCapacityPayload \<Rightarrow>
   string \<Rightarrow> ('d, json) command_step" where
  "replace_app sv command scenario t img n p containerID w =
     (case on_docker (RemoveContainer (cv_docker sv) containerID) w of
        (Inl _, w1) \<Rightarrow> (Inl (fail ''DOCKER_UNAVAILABLE'' ''application instance could not be replaced''), w1)
      | (Inr _, w1) \<Rightarrow>
         (case ensureApp sv command scenario t img n (up_InstanceName p) (up_PerformancePercent p) w1 of
            (Inl _, w2) \<Rightarrow> (Inl (fail ''DOCKER_UNAVAILABLE'' ''application instance could not be replaced''),
              snd (ensureApp sv command scenario t img n (up_InstanceName p) (up_PreviousPerformancePercent p) w2))
          | (Inr c, w2) \<Rightarrow> (Inr (instance_json scenario (up_InstanceName p) c (up_PerformancePercent p)), w2)))"

definition updateAppCapacity :: "'d control_Service \<Rightarrow> orch_Command \<Rightarrow> ('d, json) command_step" where
  "updateAppCapacity sv command w =
     (case decodePayload dec_updateCapacityPayload True (oc_Payload command) of
        None \<Rightarrow> (Inl (reject ''INVALID_COMMAND'' ''invalid capacity payload''), w)
      | Some p \<Rightarrow>
          if \<not> control_validInstanceName (up_InstanceName p)
          then (Inl (reject ''INVALID_COMMAND'' ''invalid capacity payload''), w)
          else case map_of (rg_scenarios (cv_registry sv)) (up_ScenarioTemplateID p) of
            None \<Rightarrow> (Inl (reject ''INVALID_COMMAND'' ''capacity settings are invalid''), w)
          | Some scenario \<Rightarrow>
              if \<not> validPerformance scenario (up_PerformancePercent p) \<or> \<not> validPerformance scenario (up_PreviousPerformancePercent p)
              then (Inl (reject ''INVALID_COMMAND'' ''capacity settings are invalid''), w)
              else case control_findInstance sv (oc_LabID command) (up_InstanceName p) w of
                (Inl _, w1) \<Rightarrow> (Inl (fail ''INSTANCE_NOT_FOUND'' ''application instance was not found''), w1)
              | (Inr resource, w1) \<Rightarrow>
                 (case names (cv_registry sv) (oc_LabID command) scenario of
                    None \<Rightarrow> (Inl (reject ''INVALID_COMMAND'' ''lab identity is invalid''), w1)
                  | Some n \<Rightarrow>
                     (case map_of (rg_containers (cv_registry sv)) (rt_Application scenario) of
                        None \<Rightarrow> (Inl (reject ''TEMPLATE_NOT_FOUND'' ''application template is not available''), w1)
                      | Some t \<Rightarrow>
                         (case imageFor (cv_config sv) (ct_ImageEnv t) of
                            None \<Rightarrow> (Inl (reject ''TEMPLATE_NOT_FOUND'' ''application image is not configured''), w1)
                          | Some img \<Rightarrow> replace_app sv command scenario t img n p (ro_ID resource) w1))))"

definition redis_json :: "string \<Rightarrow> string \<Rightarrow> json" where
  "redis_json containerID name = JObj [(''containerId'', JStr containerID), (''containerName'', JStr name)]"

definition createRedisCommand :: "'d control_Service \<Rightarrow> orch_Command \<Rightarrow> ('d, json) command_step" where
  "createRedisCommand sv command w =
     (case decodePayload (dec_string_payload ''scenarioTemplateId'') True (oc_Payload command) of
        None \<Rightarrow> (Inl (reject ''INVALID_COMMAND'' ''invalid Redis payload''), w)
      | Some templateID \<Rightarrow>
         (case map_of (rg_scenarios (cv_registry sv)) templateID of
            None \<Rightarrow> (Inl (reject ''TEMPLATE_NOT_FOUND'' ''Redis is not available for the scenario''), w)
          | Some scenario \<Rightarrow>
              if rt_Redis scenario = []
              then (Inl (reject ''TEMPLATE_NOT_FOUND'' ''Redis is not available for the scenario''), w)
              else case names (cv_registry sv) (oc_LabID command) scenario of
                None \<Rightarrow> (Inl (reject ''INVALID_COMMAND'' ''lab identity is invalid''), w)
              | Some n \<Rightarrow>
                 (case findResourceType sv (oc_LabID command) ''session-redis'' w of
                    (Inl _, w1) \<Rightarrow> (Inl (fail ''DOCKER_UNAVAILABLE'' ''session Redis could not be inspected''), w1)
                  | (Inr (Some existing), w1) \<Rightarrow> (Inr (redis_json (ro_ID existing) (ro_Name existing)), w1)
                  | (Inr None, w1) \<Rightarrow>
                     (case ensureRedis sv command scenario n w1 of
                        (Inl _, w2) \<Rightarrow> (Inl (fail ''DOCKER_UNAVAILABLE'' ''session Redis could not be created''), w2)
                      | (Inr c, w2) \<Rightarrow> (Inr (redis_json (er_ID c) (er_Name c)), w2)))))"

definition restartRedis :: "'d control_Service \<Rightarrow> orch_Command \<Rightarrow> ('d, json) command_step" where
  "restartRedis sv command w =
     (if \<not> decodeEmptyPayload (oc_Payload command)
      then (Inl (reject ''INVALID_COMMAND'' ''restart Redis does not accept parameters''), w)
      else case findResourceType sv (oc_LabID command) ''session-redis'' w of
        (Inr (Some resource), w1) \<Rightarrow>
         (case on_docker (RestartContainer (cv_docker sv) (ro_ID resource)) w1 of
            (Inl _, w2) \<Rightarrow> (Inl (fail ''DOCKER_UNAVAILABLE'' ''session Redis could not be restarted''), w2)
          | (Inr _, w2) \<Rightarrow> (Inr (JObj [(''restarted'', JBool True)]), w2))
      | (_, w1) \<Rightarrow> (Inl (fail ''REDIS_NOT_FOUND'' ''session Redis was not found''), w1))"

definition deleteRedis :: "'d control_Service \<Rightarrow> orch_Command \<Rightarrow> ('d, json) command_step" where
  "deleteRedis sv command w =
     (if \<not> decodeEmptyPayload (oc_Payload command)
      then (Inl (reject ''INVALID_COMMAND'' ''delete Redis does not accept parameters''), w)
      else case findResourceType sv (oc_LabID command) ''session-redis'' w of
        (Inl _, w1) \<Rightarrow> (Inl (fail ''REDIS_NOT_FOUND'' ''session Redis was not found''), w1)
      | (Inr None, w1) \<Rightarrow> (Inr (JObj [(''deleted'', JBool False)]), w1)
      | (Inr (Some resource), w1) \<Rightarrow>
         (case on_docker (RemoveContainer (cv_docker sv) (ro_ID resource)) w1 of
            (Inl _, w2) \<Rightarrow> (Inl (fail ''DOCKER_UNAVAILABLE'' ''session Redis could not be removed''), w2)
          | (Inr _, w2) \<Rightarrow> (Inr (JObj [(''deleted'', JBool True)]), w2)))"

definition applyUpstream :: "'d control_Service \<Rightarrow> orch_Command \<Rightarrow> ('d, json) command_step" where
  "applyUpstream sv command w =
     (case decodePayload dec_upstreamPayload True (oc_Payload command) of
        None \<Rightarrow> (Inl (reject ''INVALID_COMMAND'' ''invalid upstream payload''), w)
      | Some p \<Rightarrow>
         (case basicNames (oc_LabID command) of
            None \<Rightarrow> (Inl (reject ''INVALID_COMMAND'' ''lab identity is invalid''), w)
          | Some n \<Rightarrow>
             (case nginxServers n p of
                None \<Rightarrow> (Inl (reject ''INVALID_COMMAND'' ''invalid upstream payload''), w)
              | Some servers \<Rightarrow>
                 (case nginx_Apply (cv_docker sv) (cv_outcomes sv) (cv_gateway sv) (oc_LabID command) servers w of
                    (Inl _, w1) \<Rightarrow> (Inl (fail ''NGINX_CONFIG_INVALID'' ''lab gateway configuration could not be applied''), w1)
                  | (Inr _, w1) \<Rightarrow> (Inr (JObj [(''applied'', JBool True)]), w1)))))"

definition removeUpstream :: "'d control_Service \<Rightarrow> orch_Command \<Rightarrow> ('d, json) command_step" where
  "removeUpstream sv command w =
     (if \<not> decodeEmptyPayload (oc_Payload command)
      then (Inl (reject ''INVALID_COMMAND'' ''remove upstream does not accept parameters''), w)
      else case nginx_Remove (cv_docker sv) (cv_outcomes sv) (cv_gateway sv) (oc_LabID command) w of
        (Inl _, w1) \<Rightarrow> (Inl (fail ''NGINX_CONFIG_INVALID'' ''lab gateway configuration could not be removed''), w1)
      | (Inr _, w1) \<Rightarrow> (Inr (JObj [(''removed'', JBool True)]), w1))"

definition resetDatabase :: "'d control_Service \<Rightarrow> orch_Command \<Rightarrow> ('d, json) command_step" where
  "resetDatabase sv command w =
     (if \<not> decodeEmptyPayload (oc_Payload command)
      then (Inl (reject ''INVALID_COMMAND'' ''reset database does not accept parameters''), w)
      else case basicNames (oc_LabID command) of
        None \<Rightarrow> (Inl (reject ''INVALID_COMMAND'' ''lab identity is invalid''), w)
      | Some n \<Rightarrow>
         (case db_Reset (cv_outcomes sv) (rn_database n) w of
            (Inl _, w1) \<Rightarrow> (Inl (fail ''LAB_DATABASE_UNAVAILABLE'' ''lab database could not be reset''), w1)
          | (Inr _, w1) \<Rightarrow> (Inr (JObj [(''reset'', JBool True)]), w1)))"

subsection \<open>Reconciliation\<close>

text \<open>The check of the expected labs, with those that were seen.\<close>

fun check_expected :: "string list \<Rightarrow> string list \<Rightarrow> control_error option" where
  "check_expected seen [] = None"
| "check_expected seen (labID # rest) =
     (if \<not> validLabID labID then Some (reject ''INVALID_COMMAND'' ''reconciliation payload contains an invalid lab id'')
      else if labID \<in> set seen then Some (reject ''INVALID_COMMAND'' ''reconciliation payload contains a duplicate lab id'')
      else check_expected (labID # seen) rest)"

fun reconnect_networks ::
  "'d control_Service \<Rightarrow> string list \<Rightarrow> docker_Resource list \<Rightarrow> ('d, string list) docker_step" where
  "reconnect_networks sv expected [] w = (Inr [], w)"
| "reconnect_networks sv expected (network # rest) w =
     (let labID = label_of (ro_Labels network) ''platform.labId'' in
      if labID \<notin> set expected then reconnect_networks sv expected rest w
      else case connectFixedServices sv (ro_ID network) w of
        (Inl e, w1) \<Rightarrow> (Inl e, w1)
      | (Inr _, w1) \<Rightarrow>
         (case reconnect_networks sv expected rest w1 of
            (Inl e, w2) \<Rightarrow> (Inl e, w2) | (Inr ids, w2) \<Rightarrow> (Inr (labID # ids), w2)))"

definition reconnectExpectedNetworks :: "'d control_Service \<Rightarrow> string list \<Rightarrow> ('d, string list) docker_step" where
  "reconnectExpectedNetworks sv expected w =
     (case on_docker (ListManagedNetworks (cv_docker sv) []) w of
        (Inl e, w1) \<Rightarrow> (Inl e, w1)
      | (Inr networks, w1) \<Rightarrow>
         (case reconnect_networks sv expected networks w1 of
            (Inl e, w2) \<Rightarrow> (Inl e, w2) | (Inr ids, w2) \<Rightarrow> (Inr (sort ids), w2)))"

definition labelled_labs :: "docker_Resource list \<Rightarrow> string list" where
  "labelled_labs rs = filter validLabID (map (\<lambda>r. label_of (ro_Labels r) ''platform.labId'') rs)"

definition actualLabIDs :: "'d control_Service \<Rightarrow> ('d, string list) docker_step" where
  "actualLabIDs sv w =
     (case on_docker (ListManagedContainers (cv_docker sv) []) w of
        (Inl e, w1) \<Rightarrow> (Inl e, w1)
      | (Inr containers, w1) \<Rightarrow>
         (case on_docker (ListManagedNetworks (cv_docker sv) []) w1 of
            (Inl e, w2) \<Rightarrow> (Inl e, w2)
          | (Inr networks, w2) \<Rightarrow>
              (Inr (remdups (labelled_labs containers @ labelled_labs networks @ nginx_List w2)), w2)))"

fun clean_labs :: "'d control_Service \<Rightarrow> string list \<Rightarrow> ('d, unit) command_step" where
  "clean_labs sv [] w = (Inr (), w)"
| "clean_labs sv (labID # rest) w =
     (case basicNames labID of
        None \<Rightarrow> (Inl (fail ''RECONCILIATION_FAILED'' ''orphan lab identity is invalid''), w)
      | Some n \<Rightarrow>
         (case destroyResources sv labID n w of (failures, w1) \<Rightarrow>
            if failures \<noteq> [] then (Inl (fail ''RECONCILIATION_FAILED'' ''orphan resources could not be removed''), w1)
            else clean_labs sv rest w1))"

fun expected_databases :: "string list \<Rightarrow> string list option" where
  "expected_databases [] = Some []"
| "expected_databases (labID # rest) =
     (case (basicNames labID, expected_databases rest) of
        (Some n, Some ds) \<Rightarrow> Some (rn_database n # ds) | _ \<Rightarrow> None)"

fun clean_databases :: "'d control_Service \<Rightarrow> ManagedDatabase list \<Rightarrow> ('d, unit) command_step" where
  "clean_databases sv [] w = (Inr (), w)"
| "clean_databases sv (d # rest) w =
     (case db_Destroy (cv_outcomes sv) (md_DatabaseName d) (md_UserName d) w of
        (Inl _, w1) \<Rightarrow> (Inl (fail ''RECONCILIATION_FAILED'' ''orphan lab database could not be removed''), w1)
      | (Inr _, w1) \<Rightarrow> clean_databases sv rest w1)"

definition databaseNames :: "ManagedDatabase list \<Rightarrow> string list" where
  "databaseNames = map md_DatabaseName"

definition json_strings :: "string list \<Rightarrow> json" where
  "json_strings ss = JArr (map JStr ss)"

text \<open>The databases: which are orphans, which are missing, and the cleaning of the orphans.\<close>

definition reconcile_databases ::
  "'d control_Service \<Rightarrow> string list \<Rightarrow> bool \<Rightarrow> ManagedDatabase list \<Rightarrow> string list \<Rightarrow> string list \<Rightarrow> ('d, json) command_step" where
  "reconcile_databases sv expectedIDs cleanup databases orphans reconnected w =
     (case expected_databases expectedIDs of
        None \<Rightarrow> (Inl (reject ''INVALID_COMMAND'' ''expected lab identity is invalid''), w)
      | Some expectedDatabases \<Rightarrow>
          let databaseOrphans = sort_key md_DatabaseName (filter (\<lambda>d. md_DatabaseName d \<notin> set expectedDatabases) databases);
              missing = sort (remdups (filter (\<lambda>n. n \<notin> set (map md_DatabaseName databases)) expectedDatabases));
              answer = (\<lambda>cleaned cleanedDatabases. JObj [(''expectedLabIds'', json_strings expectedIDs),
                (''orphanLabIds'', json_strings orphans), (''cleanedLabIds'', json_strings cleaned),
                (''orphanDatabases'', json_strings (databaseNames databaseOrphans)), (''missingDatabases'', json_strings missing),
                (''cleanedDatabases'', json_strings cleanedDatabases), (''cleanupRequested'', JBool cleanup),
                (''reconnectedNetworks'', json_strings reconnected)])
          in if \<not> cleanup then (Inr (answer [] []), w)
             else case clean_databases sv databaseOrphans w of
               (Inl e, w1) \<Rightarrow> (Inl e, w1)
             | (Inr _, w1) \<Rightarrow> (Inr (answer orphans (databaseNames databaseOrphans)), w1))"

definition reconcile_labs ::
  "'d control_Service \<Rightarrow> string list \<Rightarrow> bool \<Rightarrow> ('d, json) command_step" where
  "reconcile_labs sv expected cleanup w =
     (case reconnectExpectedNetworks sv expected w of
        (Inl _, w1) \<Rightarrow> (Inl (fail ''RECONCILIATION_FAILED'' ''managed lab networks could not be restored''), w1)
      | (Inr reconnected, w1) \<Rightarrow>
         (case actualLabIDs sv w1 of
            (Inl _, w2) \<Rightarrow> (Inl (fail ''RECONCILIATION_FAILED'' ''managed resources could not be inspected''), w2)
          | (Inr actual, w2) \<Rightarrow>
             (case ListManaged (cv_outcomes sv) w2 of
                (Inl _, w3) \<Rightarrow> (Inl (fail ''RECONCILIATION_FAILED'' ''lab databases could not be inspected''), w3)
              | (Inr databases, w3) \<Rightarrow>
                  (let orphans = sort (filter (\<lambda>l. l \<notin> set expected) actual) in
                   case (if cleanup then clean_labs sv orphans w3 else (Inr (), w3)) of
                     (Inl e, w4) \<Rightarrow> (Inl e, w4)
                   | (Inr _, w4) \<Rightarrow> reconcile_databases sv (sort expected) cleanup databases orphans reconnected w4))))"

definition reconcile :: "'d control_Service \<Rightarrow> orch_Command \<Rightarrow> ('d, json) command_step" where
  "reconcile sv command w =
     (case decodePayload dec_reconcilePayload False (oc_Payload command) of
        None \<Rightarrow> (Inl (reject ''INVALID_COMMAND'' ''invalid reconciliation payload''), w)
      | Some p \<Rightarrow>
         (case re_ExpectedLabIDs p of
            None \<Rightarrow> (Inl (reject ''INVALID_COMMAND'' ''reconciliation payload must include expectedLabIds''), w)
          | Some expected \<Rightarrow>
             (case check_expected [] expected of
                Some e \<Rightarrow> (Inl e, w)
              | None \<Rightarrow> reconcile_labs sv expected (re_Cleanup p) w)))"

subsection \<open>Execution\<close>

definition commandResponse :: "orch_Command \<Rightarrow> string \<Rightarrow> json \<Rightarrow> string \<Rightarrow> string \<Rightarrow> CommandResponse" where
  "commandResponse command status answer code message =
     \<lparr>rp_CommandID = oc_CommandID command, rp_OperationID = oc_OperationID command, rp_Status = status, rp_Result = answer,
      rp_Error = (if code \<noteq> [] then JObj [(''code'', JStr code), (''message'', JStr message)] else JNull)\<rparr>"

definition dispatch :: "'d control_Service \<Rightarrow> orch_Command \<Rightarrow> ('d, json) command_step" where
  "dispatch sv command =
     (let t = oc_CommandType command in
      if t = ''PROVISION_LAB'' then provision sv command
      else if t = ''RESET_LAB'' then resetLab sv command
      else if t = ''DESTROY_LAB'' then control_destroy sv command
      else if t = ''CREATE_APP_INSTANCE'' then createAppCommand sv command
      else if t = ''DELETE_APP_INSTANCE'' then deleteAppCommand sv command
      else if t = ''UPDATE_APP_CAPACITY'' then updateAppCapacity sv command
      else if t = ''CREATE_SESSION_REDIS'' then createRedisCommand sv command
      else if t = ''RESTART_SESSION_REDIS'' then restartRedis sv command
      else if t = ''DELETE_SESSION_REDIS'' then deleteRedis sv command
      else if t = ''APPLY_LAB_UPSTREAM'' then applyUpstream sv command
      else if t = ''REMOVE_LAB_UPSTREAM'' then removeUpstream sv command
      else if t = ''RESET_LAB_DATABASE'' then resetDatabase sv command
      else reconcile sv command)"

definition Execute :: "'d control_Service \<Rightarrow> orch_Command \<Rightarrow> 'd world \<Rightarrow> CommandResponse \<times> 'd world" where
  "Execute sv command w =
     (case validateEnvelope command of
        Some (code, message) \<Rightarrow> (commandResponse command ''rejected'' JNull code message, w)
      | None \<Rightarrow>
         (case dispatch sv command w of
            (Inl e, w1) \<Rightarrow> (commandResponse command (ce_status e) JNull (ce_code e) (ce_message e), w1)
          | (Inr v, w1) \<Rightarrow> (commandResponse command ''succeeded'' v [] [], w1)))"

end
