(* ===== verification/Orchestrator.thy ===== *)
theory Orchestrator
  imports Control
begin

text \<open>
  What the commands of the orchestrator guarantee. The locale \<open>orchestrator\<close> is the control service on a
  Docker daemon with the laws of \<open>docker\<close> and a registry that \<open>Load\<close> accepted, in which no network
  template overwrites the label that says which lab a resource belongs to.
\<close>

definition keeps_lab_label :: "Registry \<Rightarrow> bool" where
  "keeps_lab_label r = (\<forall>(k, t) \<in> set (rg_networks r). map_of (nw_RequiredLabels t) ''platform.labId'' = None)"

text \<open>The databases and users that belong to a lab, under the names of either kind.\<close>

definition names_of :: "Registry \<Rightarrow> string \<Rightarrow> resourceNames set" where
  "names_of r labID = {n. basicNames labID = Some n \<or> (\<exists>s. names r labID s = Some n)}"

lemma label_literals: "map_of (resourceLabels command ty tid) ''platform.managed'' = Some ''true''"
  "map_of (resourceLabels command ty tid) ''platform.labId'' = Some (oc_LabID command)"
  by (simp_all add: resourceLabels_def)

lemma of_lab_resourceLabels [simp]: "of_lab (oc_LabID command) (resourceLabels command ty tid @ ls)"
  "of_lab (oc_LabID command) (resourceLabels command ty tid)"
  by (simp_all add: of_lab_def is_managed_def label_literals)

lemma map_of_foldr_update: "map_of (foldr (\<lambda>(k, v) ls. AList.update k v ls) us ls) = map_of ls ++ map_of us"
  by (induction us) (auto simp: update_conv' map_add_def intro!: ext)

lemma of_lab_network_labels:
  assumes "map_of (nw_RequiredLabels t) ''platform.labId'' = None"
    "map_of (nw_RequiredLabels t) ''platform.managed'' \<in> {None, Some ''true''}"
  shows "of_lab (oc_LabID command) (network_labels command t)"
  using assms by (auto simp: of_lab_def is_managed_def network_labels_def map_of_foldr_update map_add_def label_literals)

lemma network_template_managed:
  assumes "registry_ok r" "keeps_lab_label r"
  shows "of_lab (oc_LabID command) (network_labels command (network_template r scenario))"
proof (rule of_lab_network_labels)
  have "map_of (nw_RequiredLabels (network_template r scenario)) ''platform.labId'' = None \<and>
    map_of (nw_RequiredLabels (network_template r scenario)) ''platform.managed'' \<in> {None, Some ''true''}"
  proof (cases "map_of (rg_networks r) (rt_Network scenario)")
    case None
    then show ?thesis by (simp add: network_template_def zero_network_def)
  next
    case (Some t)
    then have "validateNetwork t = None" using assms(1) by (auto simp: registry_ok_def resources_ok_def)
    then show ?thesis using Some assms(2) map_of_SomeD [OF Some]
      by (auto simp: network_template_def keeps_lab_label_def validateNetwork_def split: if_splits)
  qed
  then show "map_of (nw_RequiredLabels (network_template r scenario)) ''platform.labId'' = None"
    "map_of (nw_RequiredLabels (network_template r scenario)) ''platform.managed'' \<in> {None, Some ''true''}" by auto
qed

lemma validLabID_nonempty: "validLabID l \<Longrightarrow> l \<noteq> []"
  by (auto simp: validLabID_def)

lemma nginx_Apply_frame: "nginx_Apply dk ora cfg l ss w = (r, w') \<Longrightarrow> gw_frame l w w'"
  by (drule nginx_Apply_outcome) (simp add: change_outcome_def)

lemma nginx_Remove_frame: "nginx_Remove dk ora cfg l w = (r, w') \<Longrightarrow> gw_frame l w w'"
  by (drule nginx_Remove_outcome) (simp add: change_outcome_def)

locale orchestrator = docker "cv_docker sv" containers networks
  for sv :: "'d control_Service" and containers :: "'d \<Rightarrow> (string \<rightharpoonup> labels)" and networks :: "'d \<Rightarrow> (string \<rightharpoonup> labels)" +
  assumes registry: "registry_ok (cv_registry sv)" and lab_label: "keeps_lab_label (cv_registry sv)"
begin

text \<open>A step that changes only what belongs to one lab.\<close>

definition lab_step :: "string \<Rightarrow> 'd world \<Rightarrow> 'd world \<Rightarrow> bool" where
  "lab_step labID w w' = (confined labID (w_docker w) (w_docker w') \<and>
     (\<forall>l. l \<noteq> labID \<longrightarrow> map_of (w_fragments w') l = map_of (w_fragments w) l) \<and>
     (\<forall>d. d \<notin> rn_database ` names_of (cv_registry sv) labID \<longrightarrow> map_of (w_databases w') d = map_of (w_databases w) d) \<and>
     (\<forall>u. u \<notin> rn_databaseUser ` names_of (cv_registry sv) labID \<longrightarrow> map_of (w_users w') u = map_of (w_users w) u))"

lemma lab_step_refl [simp]: "lab_step labID w w" by (simp add: lab_step_def)

lemma lab_step_trans: "lab_step labID w w1 \<Longrightarrow> lab_step labID w1 w2 \<Longrightarrow> lab_step labID w w2"
  by (auto simp: lab_step_def intro: confined_trans)

lemma on_docker_lab_step:
  assumes "on_docker f w = (r, w')" "\<And>r d'. f (w_docker w) = (r, d') \<Longrightarrow> confined labID (w_docker w) d'"
  shows "lab_step labID w w'"
  using assms by (auto simp: on_docker_def lab_step_def split: prod.splits)

lemma db_frame_lab_step:
  "db_frame (rn_database n) (rn_databaseUser n) w w' \<Longrightarrow> n \<in> names_of (cv_registry sv) labID \<Longrightarrow> lab_step labID w w'"
  by (auto simp: db_frame_def lab_step_def)

lemma gw_frame_lab_step:
  "gw_frame labID w w' \<Longrightarrow> confined labID (w_docker w) (w_docker w') \<Longrightarrow> lab_step labID w w'"
  by (auto simp: gw_frame_def lab_step_def)

text \<open>A step that only asks, or changes what the laws do not describe.\<close>

definition quiet :: "'d world \<Rightarrow> 'd world \<Rightarrow> bool" where
  "quiet w w' = (same (w_docker w) (w_docker w') \<and> files_kept w w')"

lemma quiet_refl [simp]: "quiet w w" by (simp add: quiet_def)
lemma quiet_trans: "quiet w w1 \<Longrightarrow> quiet w1 w2 \<Longrightarrow> quiet w w2"
  by (auto simp: quiet_def intro: same_trans files_kept_trans)
lemma quiet_lab_step: "quiet w w' \<Longrightarrow> lab_step labID w w'"
  by (auto simp: quiet_def lab_step_def files_kept_def intro: same_confined)

lemma on_docker_quiet:
  assumes "on_docker f w = (r, w')" "\<And>r d'. f (w_docker w) = (r, d') \<Longrightarrow> same (w_docker w) d'"
  shows "quiet w w'"
  using assms by (auto simp: on_docker_def quiet_def files_kept_def split: prod.splits)

lemma requests_quiet:
  "on_docker (InspectImage (cv_docker sv) img) w = (r1, w') \<Longrightarrow> quiet w w'"
  "on_docker (ListManagedContainers (cv_docker sv) l) w = (r2, w') \<Longrightarrow> quiet w w'"
  "on_docker (ListManagedNetworks (cv_docker sv) l) w = (r2, w') \<Longrightarrow> quiet w w'"
  "on_docker (FindComposeContainer (cv_docker sv) p s) w = (r3, w') \<Longrightarrow> quiet w w'"
  "on_docker (ConnectNetwork (cv_docker sv) n c as) w = (r4, w') \<Longrightarrow> quiet w w'"
  "on_docker (DisconnectNetwork (cv_docker sv) n c) w = (r4, w') \<Longrightarrow> quiet w w'"
  "on_docker (RestartContainer (cv_docker sv) c) w = (r4, w') \<Longrightarrow> quiet w w'"
  "on_docker (Exec (cv_docker sv) c cmd files) w = (r5, w') \<Longrightarrow> quiet w w'"
  by (auto elim!: on_docker_quiet intro: InspectImage_same ListManagedContainers_same ListManagedNetworks_same
      FindComposeContainer_same ConnectNetwork_same DisconnectNetwork_same RestartContainer_same Exec_same)

lemma connectFixedServices_quiet: "connectFixedServices sv n w = (r, w') \<Longrightarrow> quiet w w'"
  by (auto simp: connectFixedServices_def Let_def split: prod.splits sum.splits
      dest!: requests_quiet intro: quiet_trans)

lemma findInstance_quiet: "control_findInstance sv l i w = (r, w') \<Longrightarrow> quiet w w'"
  by (auto simp: control_findInstance_def split: prod.splits sum.splits option.splits dest!: requests_quiet)

lemma findResourceType_quiet: "findResourceType sv l i w = (r, w') \<Longrightarrow> quiet w w'"
  by (auto simp: findResourceType_def split: prod.splits sum.splits option.splits dest!: requests_quiet)

lemma inspect_images_quiet: "inspect_images sv p s img w = (r, w') \<Longrightarrow> quiet w w'"
  by (auto simp: inspect_images_def split: prod.splits sum.splits option.splits if_splits
      dest!: requests_quiet intro: quiet_trans)

text \<open>The gateway asks the daemon to run commands, which leaves the resources as they are.\<close>

lemma validateAndReload_same: "validateAndReload (cv_docker sv) cfg w = (r, w') \<Longrightarrow> same (w_docker w) (w_docker w')"
  by (auto simp: validateAndReload_def nginx_gateway_def nginx_exec_def split: prod.splits sum.splits
      dest!: requests_quiet) (auto simp: quiet_def intro: same_trans)

lemma nginx_validate_same: "nginx_validate (cv_docker sv) cfg w = (r, w') \<Longrightarrow> same (w_docker w) (w_docker w')"
  by (auto simp: nginx_validate_def nginx_gateway_def nginx_exec_def split: prod.splits sum.splits
      dest!: requests_quiet) (auto simp: quiet_def intro: same_trans)

lemma file_docker: "read_fragment ora l w = (r1, w') \<Longrightarrow> w_docker w' = w_docker w"
  "writeAtomic ora l b w = (r2, w') \<Longrightarrow> w_docker w' = w_docker w"
  "remove_fragment ora l w = (r2, w') \<Longrightarrow> w_docker w' = w_docker w"
  "restoreFile ora l p w = (r2, w') \<Longrightarrow> w_docker w' = w_docker w"
  by (auto dest!: read_fragment_cases writeAtomic_cases remove_fragment_cases restoreFile_cases)

lemma nginx_Apply_same:
  "nginx_Apply (cv_docker sv) ora cfg l ss w = (r, w') \<Longrightarrow> same (w_docker w) (w_docker w')"
  by (auto simp: nginx_Apply_def same_def split: prod.splits sum.splits if_splits
      dest!: file_docker validateAndReload_same nginx_validate_same)

lemma nginx_Remove_same:
  "nginx_Remove (cv_docker sv) ora cfg l w = (r, w') \<Longrightarrow> same (w_docker w) (w_docker w')"
  by (auto simp: nginx_Remove_def same_def split: prod.splits sum.splits option.splits if_splits
      dest!: file_docker validateAndReload_same)

lemma nginx_Apply_lab_step:
  "nginx_Apply (cv_docker sv) ora cfg l ss w = (r, w') \<Longrightarrow> lab_step l w w'"
  by (blast intro: gw_frame_lab_step same_confined nginx_Apply_same nginx_Apply_frame)

lemma nginx_Remove_lab_step:
  "nginx_Remove (cv_docker sv) ora cfg l w = (r, w') \<Longrightarrow> lab_step l w w'"
  by (blast intro: gw_frame_lab_step same_confined nginx_Remove_same nginx_Remove_frame)

text \<open>Creating the containers of a lab.\<close>

lemma EnsureContainer_lab_step:
  assumes "on_docker (EnsureContainer (cv_docker sv) spec) w = (r, w')" "of_lab labID (cs_Labels spec)"
  shows "lab_step labID w w'"
  using assms(1) by (rule on_docker_lab_step) (rule EnsureContainer_confined [OF _ assms(2)])

lemma spec_labels [simp]: "of_lab (oc_LabID command) (cs_Labels (app_spec sv command s t img n i p))"
  "of_lab (oc_LabID command) (cs_Labels (redis_spec command t img n))"
  by (simp_all add: app_spec_def redis_spec_def)

lemma ensureApp_lab_step:
  "ensureApp sv command s t img n i p w = (r, w') \<Longrightarrow> lab_step (oc_LabID command) w w'"
  by (auto simp: ensureApp_def split: prod.splits sum.splits dest!: requests_quiet EnsureContainer_lab_step
      intro: lab_step_trans quiet_lab_step)

lemma ensureRedis_lab_step:
  "ensureRedis sv command s n w = (r, w') \<Longrightarrow> lab_step (oc_LabID command) w w'"
  by (auto simp: ensureRedis_def split: prod.splits sum.splits option.splits dest!: requests_quiet EnsureContainer_lab_step
      intro: lab_step_trans quiet_lab_step)

lemma EnsureNetwork_lab_step:
  assumes "on_docker (EnsureNetwork (cv_docker sv) (network_spec command (network_template (cv_registry sv) s) n)) w = (r, w')"
  shows "lab_step (oc_LabID command) w w'"
  using assms by (rule on_docker_lab_step)
    (erule EnsureNetwork_confined, simp add: network_spec_def network_template_managed registry lab_label)

lemma provision_network_lab_step:
  "provision_network sv command (network_template (cv_registry sv) s) n w = (r, w') \<Longrightarrow> lab_step (oc_LabID command) w w'"
  by (auto simp: provision_network_def split: prod.splits sum.splits dest!: EnsureNetwork_lab_step connectFixedServices_quiet
      intro: lab_step_trans quiet_lab_step)

lemma provision_redis_lab_step:
  "provision_redis sv command p s n w = (r, w') \<Longrightarrow> lab_step (oc_LabID command) w w'"
  by (auto simp: provision_redis_def split: prod.splits sum.splits if_splits dest!: ensureRedis_lab_step)

lemma create_instances_lab_step:
  "create_instances sv command s t img n is w = (r, w') \<Longrightarrow> lab_step (oc_LabID command) w w'"
  by (induction "is" arbitrary: r w) (fastforce split: prod.splits sum.splits dest!: ensureApp_lab_step intro: lab_step_trans)+

lemma db_lab_step:
  assumes "n \<in> names_of (cv_registry sv) labID"
  shows "db_Provision ora (rn_database n) (rn_databaseUser n) pw w = (r, w') \<Longrightarrow> lab_step labID w w'"
    "SeedProducts ora (rn_database n) ps w = (r, w') \<Longrightarrow> lab_step labID w w'"
    "db_Reset ora (rn_database n) w = (r, w') \<Longrightarrow> lab_step labID w w'"
    "db_Destroy ora (rn_database n) (rn_databaseUser n) w = (r, w') \<Longrightarrow> lab_step labID w w'"
  using db_operations_framed [of "rn_database n" "rn_databaseUser n" w] assms
  by (metis db_frame_lab_step snd_conv)+

lemma provision_database_lab_step:
  assumes "provision_database sv command p s n w = (r, w')" "n \<in> names_of (cv_registry sv) (oc_LabID command)"
  shows "lab_step (oc_LabID command) w w'"
  using assms by (auto simp: provision_database_def split: prod.splits sum.splits if_splits
      dest!: db_lab_step(1,2) [OF assms(2)] intro: lab_step_trans)

lemma provision_steps_lab_step:
  assumes "provision_steps sv command p s t img n w = (r, w')" "n \<in> names_of (cv_registry sv) (oc_LabID command)"
  shows "lab_step (oc_LabID command) w w'"
  using assms(1) by (auto simp: provision_steps_def split: prod.splits sum.splits
      dest!: provision_database_lab_step [OF _ assms(2)] provision_network_lab_step provision_redis_lab_step
        create_instances_lab_step nginx_Apply_lab_step) (blast intro: lab_step_trans)+

subsection \<open>Removing a lab\<close>

lemma failure_Nil [simp]: "failure m r = [] \<longleftrightarrow> is_ok r"
  by (simp add: failure_def)

text \<open>
  A step that removes the resources with some identifiers from one of the two sets, \<open>V\<close>, and leaves
  the other, \<open>U\<close>; if it reports no failure they are gone.
\<close>

definition removal ::
  "('d \<Rightarrow> resources) \<Rightarrow> ('d \<Rightarrow> resources) \<Rightarrow> string \<Rightarrow> string set \<Rightarrow> 'd world \<Rightarrow> string list \<Rightarrow> 'd world \<Rightarrow> bool" where
  "removal V U labID I w es w' = (files_kept w w' \<and> confined labID (w_docker w) (w_docker w') \<and>
     U (w_docker w') = U (w_docker w) \<and> (\<forall>j. j \<notin> I \<longrightarrow> V (w_docker w') j = V (w_docker w) j) \<and>
     (es = [] \<longrightarrow> (\<forall>j \<in> I. V (w_docker w') j = None)))"

definition removes ::
  "(docker_Resource \<Rightarrow> 'd world \<Rightarrow> string list \<times> 'd world) \<Rightarrow> ('d \<Rightarrow> resources) \<Rightarrow> ('d \<Rightarrow> resources) \<Rightarrow> string \<Rightarrow> bool" where
  "removes f V U labID = (\<forall>x w es w'. f x w = (es, w') \<longrightarrow> ro_ID x \<in> lab_part labID (V (w_docker w)) \<longrightarrow>
     removal V U labID {ro_ID x} w es w')"

lemma each_removes:
  assumes "removes f V U labID" "each_resource f xs w = (es, w')" "distinct (map ro_ID xs)"
    "ro_ID ` set xs \<subseteq> lab_part labID (V (w_docker w))"
  shows "removal V U labID (ro_ID ` set xs) w es w'"
  using assms(2-)
proof (induction xs arbitrary: w es)
  case Nil
  then show ?case by (simp add: removal_def)
next
  case (Cons x xs)
  obtain e1 w1 where 1: "f x w = (e1, w1)" by fastforce
  obtain e2 where 2: "each_resource f xs w1 = (e2, w')" "es = e1 @ e2"
    using Cons.prems(1) 1 by (auto split: prod.splits)
  have e: "removal V U labID {ro_ID x} w e1 w1"
    using assms(1) 1 Cons.prems(3) by (simp add: removes_def)
  have notin: "ro_ID x \<notin> ro_ID ` set xs" using Cons.prems(2) by simp
  have sub: "ro_ID ` set xs \<subseteq> lab_part labID (V (w_docker w1))"
  proof
    fix j assume j: "j \<in> ro_ID ` set xs"
    then have "V (w_docker w1) j = V (w_docker w) j" using e notin by (metis removal_def singletonD)
    then show "j \<in> lab_part labID (V (w_docker w1))" using j Cons.prems(3) by (auto simp: lab_part_def)
  qed
  have "distinct (map ro_ID xs)" using Cons.prems(2) by simp
  note ih = Cons.IH [OF 2(1) this sub]
  show ?case using ih e 2(2) notin
    by (auto simp: removal_def intro: files_kept_trans confined_trans)
qed

lemma removal_quiet:
  assumes "quiet w w1" "removal V U labID I w1 es w'" "V \<in> {containers, networks}" "U \<in> {containers, networks}"
  shows "removal V U labID I w es w'"
  using assms by (auto simp: removal_def quiet_def same_def confined_def intro: files_kept_trans)

lemma removal_part:
  assumes "removal V U labID (lab_part labID (V (w_docker w))) w [] w'"
  shows "lab_part labID (V (w_docker w')) = {}"
proof -
  have "j \<notin> lab_part labID (V (w_docker w'))" for j
    using assms by (cases "j \<in> lab_part labID (V (w_docker w))") (auto simp: removal_def lab_part_def)
  then show ?thesis by blast
qed

lemma remove_one_container_removes: "removes (remove_one_container sv) containers networks labID"
  unfolding removes_def
proof (intro allI impI)
  fix x and w w' :: "'d world" and es
  assume a: "remove_one_container sv x w = (es, w')" and p: "ro_ID x \<in> lab_part labID (containers (w_docker w))"
  obtain r d where r: "RemoveContainer (cv_docker sv) (ro_ID x) (w_docker w) = (r, d)" by fastforce
  then have w': "w' = w\<lparr>w_docker := d\<rparr>" "es = failure ''remove container'' r"
    using a by (auto simp: remove_one_container_def on_docker_def)
  have i: "containers (w_docker w) (ro_ID x) \<noteq> None" using p by (auto simp: lab_part_def)
  show "removal containers networks labID {ro_ID x} w es w'"
    using RemoveContainer_removes [OF r i] RemoveContainer_confined [OF r p]
    by (auto simp: removal_def w' files_kept_def)
qed

lemma disconnect_from_quiet: "disconnect_from sv found n w = (es, w') \<Longrightarrow> quiet w w'"
  by (auto simp: disconnect_from_def split: sum.splits prod.splits dest!: requests_quiet)

lemma remove_one_network_removes: "removes (remove_one_network sv g m) networks containers labID"
  unfolding removes_def
proof (intro allI impI)
  fix x and w w' :: "'d world" and es
  assume a: "remove_one_network sv g m x w = (es, w')" and p: "ro_ID x \<in> lab_part labID (networks (w_docker w))"
  obtain e1 w1 where 1: "disconnect_from sv g x w = (e1, w1)" by fastforce
  obtain e2 w2 where 2: "disconnect_from sv m x w1 = (e2, w2)" by fastforce
  have q: "quiet w w2" using disconnect_from_quiet 1 2 by (blast intro: quiet_trans)
  obtain r d where r: "RemoveNetwork (cv_docker sv) (ro_ID x) (w_docker w2) = (r, d)" by fastforce
  then have w': "w' = w2\<lparr>w_docker := d\<rparr>" "es = e1 @ e2 @ failure ''remove network'' r"
    using a by (auto simp: remove_one_network_def on_docker_def 1 2)
  have p2: "ro_ID x \<in> lab_part labID (networks (w_docker w2))" using p q by (simp add: quiet_def same_def)
  then have i: "networks (w_docker w2) (ro_ID x) \<noteq> None" by (auto simp: lab_part_def)
  have "removal networks containers labID {ro_ID x} w2 es w'"
    using RemoveNetwork_removes [OF r i] RemoveNetwork_confined [OF r p2]
    by (auto simp: removal_def w' files_kept_def)
  then show "removal networks containers labID {ro_ID x} w es w'" by (rule removal_quiet [OF q]) auto
qed

lemma on_docker_Inr: "on_docker f w = (Inr x, w') \<Longrightarrow> f (w_docker w) = (Inr x, w_docker w')"
  by (auto simp: on_docker_def split: prod.splits)

lemma remove_lab_containers_removal:
  assumes "remove_lab_containers sv labID w = (es, w')" "labID \<noteq> []"
  shows "\<exists>I. removal containers networks labID I w es w' \<and> (es = [] \<longrightarrow> I = lab_part labID (containers (w_docker w)))"
proof -
  obtain r w1 where 1: "on_docker (ListManagedContainers (cv_docker sv) labID) w = (r, w1)" by fastforce
  have q: "quiet w w1" by (rule requests_quiet(2) [OF 1])
  show ?thesis
  proof (cases r)
    case (Inl e)
    then have "removal containers networks labID {} w es w'" "es \<noteq> []"
      using assms(1) 1 q by (auto simp: remove_lab_containers_def removal_def quiet_def same_def confined_def)
    then show ?thesis by blast
  next
    case (Inr xs)
    note p = ListManagedContainers_part [OF on_docker_Inr [OF 1 [unfolded Inr]] assms(2)]
    have "each_resource (remove_one_container sv) xs w1 = (es, w')"
      using assms(1) 1 Inr by (simp add: remove_lab_containers_def)
    moreover have "ro_ID ` set xs \<subseteq> lab_part labID (containers (w_docker w1))"
      using p(2) q by (simp add: quiet_def same_def)
    ultimately have "removal containers networks labID (ro_ID ` set xs) w1 es w'"
      using each_removes [OF remove_one_container_removes _ p(1)] by blast
    then have "removal containers networks labID (ro_ID ` set xs) w es w'" by (rule removal_quiet [OF q]) auto
    then show ?thesis using p(2) by blast
  qed
qed

lemma remove_lab_networks_removal:
  assumes "remove_lab_networks sv labID w = (es, w')" "labID \<noteq> []"
  shows "\<exists>I. removal networks containers labID I w es w' \<and> (es = [] \<longrightarrow> I = lab_part labID (networks (w_docker w)))"
proof -
  obtain r w1 where 1: "on_docker (ListManagedNetworks (cv_docker sv) labID) w = (r, w1)" by fastforce
  have q: "quiet w w1" by (rule requests_quiet(3) [OF 1])
  show ?thesis
  proof (cases r)
    case (Inl e)
    then have "removal networks containers labID {} w es w'" "es \<noteq> []"
      using assms(1) 1 q by (auto simp: remove_lab_networks_def removal_def quiet_def same_def confined_def)
    then show ?thesis by blast
  next
    case (Inr xs)
    note p = ListManagedNetworks_part [OF on_docker_Inr [OF 1 [unfolded Inr]] assms(2)]
    obtain g m w3 where w3: "each_resource (remove_one_network sv g m) xs w3 = (es, w')" "quiet w1 w3"
      using assms(1) 1 Inr by (auto simp: remove_lab_networks_def split: prod.splits
          dest!: requests_quiet(4) intro: quiet_trans)
    have q3: "quiet w w3" by (rule quiet_trans [OF q w3(2)])
    have "ro_ID ` set xs \<subseteq> lab_part labID (networks (w_docker w3))"
      using p(2) q3 by (simp add: quiet_def same_def)
    then have "removal networks containers labID (ro_ID ` set xs) w3 es w'"
      using each_removes [OF remove_one_network_removes w3(1) p(1)] by blast
    then have "removal networks containers labID (ro_ID ` set xs) w es w'" by (rule removal_quiet [OF q3]) auto
    then show ?thesis using p(2) by blast
  qed
qed

lemma removal_lab_step: "removal V U labID I w es w' \<Longrightarrow> lab_step labID w w'"
  by (simp add: removal_def lab_step_def files_kept_def)

text \<open>A lab of which nothing is left, under the given names.\<close>

definition lab_gone :: "string \<Rightarrow> resourceNames \<Rightarrow> 'd world \<Rightarrow> bool" where
  "lab_gone labID n w = (lab_part labID (containers (w_docker w)) = {} \<and> lab_part labID (networks (w_docker w)) = {} \<and>
     map_of (w_fragments w) labID = None \<and> map_of (w_databases w) (rn_database n) = None \<and>
     map_of (w_users w) (rn_databaseUser n) = None)"

lemma destroyResources_effect:
  assumes "destroyResources sv labID n w = (es, w')" "labID \<noteq> []" "n \<in> names_of (cv_registry sv) labID"
  shows "lab_step labID w w'" "es = [] \<Longrightarrow> lab_gone labID n w'"
proof -
  obtain r1 w1 where 1: "nginx_Remove (cv_docker sv) (cv_outcomes sv) (cv_gateway sv) labID w = (r1, w1)" by fastforce
  obtain e2 w2 where 2: "remove_lab_containers sv labID w1 = (e2, w2)" by fastforce
  obtain e3 w3 where 3: "remove_lab_networks sv labID w2 = (e3, w3)" by fastforce
  obtain r4 where 4: "db_Destroy (cv_outcomes sv) (rn_database n) (rn_databaseUser n) w3 = (r4, w')"
    and es: "es = failure ''remove nginx fragment'' r1 @ e2 @ e3 @ failure ''destroy lab database'' r4"
    using assms(1) by (auto simp: destroyResources_def 1 2 3 split: prod.splits)
  obtain I where I: "removal containers networks labID I w1 e2 w2"
    "e2 = [] \<longrightarrow> I = lab_part labID (containers (w_docker w1))"
    using remove_lab_containers_removal [OF 2 assms(2)] by blast
  obtain J where J: "removal networks containers labID J w2 e3 w3"
    "e3 = [] \<longrightarrow> J = lab_part labID (networks (w_docker w2))"
    using remove_lab_networks_removal [OF 3 assms(2)] by blast
  have f: "db_frame (rn_database n) (rn_databaseUser n) w3 w'"
    using db_operations_framed(4) [of "rn_database n" "rn_databaseUser n" w3] 4 by (metis snd_conv)
  show "lab_step labID w w'"
    using nginx_Remove_lab_step [OF 1] removal_lab_step [OF I(1)] removal_lab_step [OF J(1)]
      db_frame_lab_step [OF f assms(3)] by (blast intro: lab_step_trans)
  show "lab_gone labID n w'" if none: "es = []"
  proof -
    have ok: "is_ok r1" "e2 = []" "e3 = []" "r4 = Inr ()" using none by (auto simp: es is_ok_iff)
    have "map_of (w_fragments w1) labID = None"
      using nginx_Remove_outcome [OF 1] ok(1) by (auto simp: change_outcome_def is_ok_iff)
    moreover have "w_fragments w' = w_fragments w1" "w_docker w' = w_docker w3"
      using I(1) J(1) f by (auto simp: removal_def files_kept_def db_frame_def)
    moreover have "lab_part labID (containers (w_docker w3)) = {}"
      using removal_part [of containers networks labID w1 w2] I J(1) ok by (simp add: removal_def)
    moreover have "lab_part labID (networks (w_docker w3)) = {}"
      using removal_part [of networks containers labID w2 w3] J ok by simp
    ultimately show ?thesis using db_Destroy_ok [OF 4 [unfolded ok(4)]] by (simp add: lab_gone_def)
  qed
qed

subsection \<open>Every command stays within its lab\<close>

lemma names_ofI: "names (cv_registry sv) labID s = Some n \<Longrightarrow> n \<in> names_of (cv_registry sv) labID"
  "basicNames labID = Some n \<Longrightarrow> n \<in> names_of (cv_registry sv) labID"
  by (auto simp: names_of_def)

lemma found_in_lab:
  assumes "on_docker (ListManagedContainers (cv_docker sv) labID) w = (Inr xs, w')" "find P xs = Some x" "labID \<noteq> []"
  shows "ro_ID x \<in> lab_part labID (containers (w_docker w'))"
proof -
  have "x \<in> set xs" using assms(2) by (auto simp: find_Some_iff)
  then have "ro_ID x \<in> lab_part labID (containers (w_docker w))"
    using ListManagedContainers_part(2) [OF on_docker_Inr [OF assms(1)] assms(3)] by blast
  then show ?thesis using requests_quiet(2) [OF assms(1)] by (simp add: quiet_def same_def)
qed

lemma findInstance_in_lab:
  "control_findInstance sv labID i w = (Inr x, w') \<Longrightarrow> labID \<noteq> [] \<Longrightarrow> ro_ID x \<in> lab_part labID (containers (w_docker w'))"
  by (auto simp: control_findInstance_def split: prod.splits sum.splits option.splits intro: found_in_lab)

lemma findResourceType_in_lab:
  "findResourceType sv labID i w = (Inr (Some x), w') \<Longrightarrow> labID \<noteq> [] \<Longrightarrow> ro_ID x \<in> lab_part labID (containers (w_docker w'))"
  by (auto simp: findResourceType_def split: prod.splits sum.splits intro: found_in_lab)

lemma findInstance_step:
  "control_findInstance sv labID i w = (r, w') \<Longrightarrow> labID \<noteq> [] \<Longrightarrow>
    lab_step labID w w' \<and> (\<forall>x. r = Inr x \<longrightarrow> ro_ID x \<in> lab_part labID (containers (w_docker w')))"
  using findInstance_quiet [THEN quiet_lab_step] findInstance_in_lab by blast

lemma findResourceType_step:
  "findResourceType sv labID i w = (r, w') \<Longrightarrow> labID \<noteq> [] \<Longrightarrow>
    lab_step labID w w' \<and> (\<forall>x. r = Inr (Some x) \<longrightarrow> ro_ID x \<in> lab_part labID (containers (w_docker w')))"
  using findResourceType_quiet [THEN quiet_lab_step] findResourceType_in_lab by blast

lemma RemoveContainer_lab_step:
  assumes "on_docker (RemoveContainer (cv_docker sv) i) w = (r, w')" "i \<in> lab_part labID (containers (w_docker w))"
  shows "lab_step labID w w'"
  using assms(1) by (rule on_docker_lab_step) (rule RemoveContainer_confined [OF _ assms(2)])

lemma provision_lab_step:
  assumes "provision sv command w = (r, w')" "oc_LabID command \<noteq> []"
  shows "lab_step (oc_LabID command) w w'"
proof (cases "provision_plan sv command")
  case (Inl e)
  then show ?thesis using assms(1) by (simp add: provision_def)
next
  case (Inr q)
  obtain p s n t img where q: "q = (p, s, n, t, img)" by (cases q)
  have n: "n \<in> names_of (cv_registry sv) (oc_LabID command)"
    using Inr by (auto simp: q provision_plan_def split: option.splits if_splits intro: names_ofI)
  obtain r1 w1 where 1: "inspect_images sv p s img w = (r1, w1)" by fastforce
  obtain r2 w2 where 2: "provision_steps sv command p s t img n w1 = (r2, w2)" by fastforce
  obtain es w3 where 3: "destroyResources sv (oc_LabID command) n w2 = (es, w3)" by fastforce
  have "lab_step (oc_LabID command) w w1" "lab_step (oc_LabID command) w1 w2" "lab_step (oc_LabID command) w2 w3"
    using inspect_images_quiet [OF 1] provision_steps_lab_step [OF 2 n] destroyResources_effect(1) [OF 3 assms(2) n]
    by (auto intro: quiet_lab_step)
  moreover have "w' \<in> {w1, w2, w3}" using assms(1) 1 2 3 Inr q by (auto simp: provision_def split: sum.splits)
  ultimately show ?thesis by (auto intro: lab_step_trans)
qed

lemma resetLab_lab_step:
  assumes "resetLab sv command w = (r, w')" "oc_LabID command \<noteq> []"
  shows "lab_step (oc_LabID command) w w'"
proof -
  have *: "provision sv (command\<lparr>oc_Payload := x\<rparr>) w1 = (r, w') \<Longrightarrow> lab_step (oc_LabID command) w1 w'" for x w1
    using provision_lab_step [of "command\<lparr>oc_Payload := x\<rparr>"] assms(2) by simp
  show ?thesis using assms
    by (auto simp: resetLab_def split: option.splits prod.splits if_splits dest!: names_ofI(1) destroyResources_effect(1) *
        intro: lab_step_trans)
qed

lemma control_destroy_lab_step:
  assumes "control_destroy sv command w = (r, w')" "oc_LabID command \<noteq> []"
  shows "lab_step (oc_LabID command) w w'"
  using assms by (auto simp: control_destroy_def split: option.splits prod.splits if_splits
      dest: names_ofI destroyResources_effect(1))

lemma createAppCommand_lab_step:
  assumes "createAppCommand sv command w = (r, w')"
  shows "lab_step (oc_LabID command) w w'"
  using assms by (auto simp: createAppCommand_def Let_def split: option.splits prod.splits sum.splits if_splits
      dest!: ensureApp_lab_step)

lemma deleteAppCommand_lab_step:
  assumes "deleteAppCommand sv command w = (r, w')" "oc_LabID command \<noteq> []"
  shows "lab_step (oc_LabID command) w w'"
  using assms by (auto simp: deleteAppCommand_def split: option.splits prod.splits sum.splits if_splits dest!: findInstance_step)
    (blast intro: RemoveContainer_lab_step lab_step_trans)+

lemma replace_app_lab_step:
  assumes "replace_app sv command s t img n p i w = (r, w')" "i \<in> lab_part (oc_LabID command) (containers (w_docker w))"
  shows "lab_step (oc_LabID command) w w'"
proof -
  obtain r1 w1 where 1: "on_docker (RemoveContainer (cv_docker sv) i) w = (r1, w1)" by fastforce
  obtain r2 w2 where 2: "ensureApp sv command s t img n (up_InstanceName p) (up_PerformancePercent p) w1 = (r2, w2)" by fastforce
  obtain r3 w3 where 3: "ensureApp sv command s t img n (up_InstanceName p) (up_PreviousPerformancePercent p) w2 = (r3, w3)"
    by fastforce
  have "w' \<in> {w1, w2, w3}" using assms(1) by (auto simp: replace_app_def 1 2 3 split: sum.splits)
  then show ?thesis
    using RemoveContainer_lab_step [OF 1 assms(2)] ensureApp_lab_step [OF 2] ensureApp_lab_step [OF 3]
    by (auto intro: lab_step_trans)
qed

lemma updateAppCapacity_lab_step:
  assumes "updateAppCapacity sv command w = (r, w')" "oc_LabID command \<noteq> []"
  shows "lab_step (oc_LabID command) w w'"
  using assms by (auto simp: updateAppCapacity_def split: option.splits prod.splits sum.splits if_splits dest!: findInstance_step)
    (blast intro: replace_app_lab_step lab_step_trans)+

lemma createRedisCommand_lab_step:
  assumes "createRedisCommand sv command w = (r, w')"
  shows "lab_step (oc_LabID command) w w'"
  using assms by (fastforce simp: createRedisCommand_def split: option.splits prod.splits sum.splits if_splits
      dest: findResourceType_quiet [THEN quiet_lab_step] ensureRedis_lab_step intro: lab_step_trans)

lemma restartRedis_lab_step:
  assumes "restartRedis sv command w = (r, w')"
  shows "lab_step (oc_LabID command) w w'"
  using assms by (fastforce simp: restartRedis_def split: option.splits prod.splits sum.splits if_splits
      dest: findResourceType_quiet requests_quiet(7) intro: quiet_lab_step quiet_trans)

lemma deleteRedis_lab_step:
  assumes "deleteRedis sv command w = (r, w')" "oc_LabID command \<noteq> []"
  shows "lab_step (oc_LabID command) w w'"
  using assms by (auto simp: deleteRedis_def split: option.splits prod.splits sum.splits if_splits dest!: findResourceType_step)
    (blast intro: RemoveContainer_lab_step lab_step_trans)+

lemma upstream_lab_step:
  "applyUpstream sv command w = (r, w') \<Longrightarrow> lab_step (oc_LabID command) w w'"
  "removeUpstream sv command w = (r, w') \<Longrightarrow> lab_step (oc_LabID command) w w'"
  by (auto simp: applyUpstream_def removeUpstream_def split: option.splits prod.splits sum.splits if_splits
      dest!: nginx_Apply_lab_step nginx_Remove_lab_step)

lemma resetDatabase_lab_step:
  "resetDatabase sv command w = (r, w') \<Longrightarrow> lab_step (oc_LabID command) w w'"
  by (auto simp: resetDatabase_def split: option.splits prod.splits sum.splits if_splits
      dest!: db_lab_step(3) dest: names_ofI(2) [THEN db_lab_step(3)])

lemma Execute_lab_step:
  assumes "Execute sv command w = (r, w')" "oc_CommandType command \<noteq> ''RECONCILE_RESOURCES''"
  shows "lab_step (oc_LabID command) w w'"
proof (cases "validateEnvelope command")
  case (Some e)
  then show ?thesis using assms(1) by (auto simp: Execute_def split: prod.splits)
next
  case None
  then have l: "oc_LabID command \<noteq> []" and t: "oc_CommandType command \<in> set allowedCommands"
    by (auto simp: validateEnvelope_def validLabID_def split: if_splits)
  obtain r' where d: "dispatch sv command w = (r', w')"
    using assms(1) None by (auto simp: Execute_def split: prod.splits sum.splits)
  show ?thesis using t assms(2) d l
    by (auto simp: allowedCommands_def dispatch_def intro: provision_lab_step resetLab_lab_step control_destroy_lab_step
        createAppCommand_lab_step deleteAppCommand_lab_step updateAppCapacity_lab_step createRedisCommand_lab_step
        restartRedis_lab_step deleteRedis_lab_step upstream_lab_step resetDatabase_lab_step)
qed

end

end
