(* ===== verification/Examples.thy ===== *)
theory Examples
  imports Orchestrator
begin

text \<open>
  The service on a small registry and the model daemon of theory \<open>DockerModel\<close>, a world in
  which one lab runs, and commands about it: the inputs on which the properties of the orchestrator are
  evaluated.
\<close>

text \<open>A registry of four files of the repository and a small scenario.\<close>

definition example_scenario :: Scenario where
  "example_scenario = \<lparr>sn_TemplateID = ''cluster'', sn_TemplateVersion = 1,
     sn_ScenarioType = ''cluster'', rt_Application = ''app_container_v1'', rt_Database = ''lab_database_profile_v1'',
     rt_Network = ''session_network_v1'', rt_NginxFragment = ''lab_nginx_fragment_v1'', rt_Redis = [],
     rs_BaseCPULimitCores = 1 / 2, rs_MemoryLimitMB = 128, rs_PidsLimit = 64,
     lm_BaseProcessingSpeed = 20, lm_MaxLoad = 100, lm_InitialPerformancePercent = 100,
     lm_MinPerformancePercent = 20, lm_MaxPerformancePercent = 100, lb_InitialWeight = 100, lb_Mode = ''fixed'',
     os_DefaultBatchSize = 1, os_DefaultGenerationIntervalMS = 1000, os_OverloadPolicy = ''drop'', os_ConcurrencyControl = ''serial'',
     tp_InitialInstances = 1, tp_MinimumInstances = 1, tp_MaximumInstances = 4, ca_L1MaxProductEntries = 0, ca_L1TTLMS = 0,
     ca_L2TTLMS = 0, ca_L2TTLJitterPercent = 0, ca_LatencyL1 = 0, ca_LatencyRedis = 0, ca_LatencyMySQL = 0, ca_LatencyDegraded = 0,
     sn_ProductSeeds = [row 1 ''p'' ''c'' 1 []]\<rparr>"

definition example_registry :: Registry where
  "example_registry = \<lparr>
     rg_containers = [(''app_container_v1'', let v = the (tf_container app_container_v1) in overlayContainer (named_as v zero_container) v)],
     rg_networks = [(''session_network_v1'', the (tf_network session_network_v1))],
     rg_databases = [(''lab_database_profile_v1'', the (tf_database lab_database_profile_v1))],
     rg_nginx = [(''lab_nginx_fragment_v1'', the (tf_nginx lab_nginx_fragment_v1))],
     rg_scenarios = [(''cluster'', example_scenario)]\<rparr>"

lemma example_loaded:
  "Load ''configs'' [app_container_v1, lab_database_profile_v1, lab_nginx_fragment_v1, session_network_v1] [Some example_scenario] =
    Inr example_registry"
  by code_simp

definition example_service :: "(fragments \<Rightarrow> bool) \<Rightarrow> fragments model_docker control_Service" where
  "example_service accepts = \<lparr>cv_registry = example_registry, cv_docker = model_daemon accepts,
     cv_outcomes = (\<lambda>_. Done), cv_gateway = example_config, cv_hmac = (\<lambda>_ _. replicate 32 7),
     cv_config = \<lparr>cg_ComposeProject = ''site'', cg_GatewayService = ''lab-gateway'', cg_MySQLService = ''mysql'',
       cg_LabAppImage = ''lab-app:1'', cg_RedisImage = ''redis:7'', cg_DatabaseSecret = ''0123456789abcdef''\<rparr>\<rparr>"

definition example_lab :: string where
  "example_lab = ''lab-0123abcd''"

definition example_command :: "string \<Rightarrow> string \<Rightarrow> raw_payload \<Rightarrow> orch_Command" where
  "example_command type labID p = \<lparr>oc_CommandType = type, oc_CommandID = ''cmd-1'', oc_OperationID = ''op-1'',
     oc_LabID = labID, oc_RequestedBy = ''7'', oc_Payload = p\<rparr>"

definition example_provision :: orch_Command where
  "example_provision = example_command ''PROVISION_LAB'' example_lab (JsonPayload (enc_provisionPayload
     \<lparr>pp_CourseID = 1, pp_ScenarioType = ''cluster'', pp_ScenarioTemplateID = ''cluster'',
      pp_InitialInstances = 1, pp_RedisRequired = False\<rparr>))"

definition lab_world :: "fragments model_docker world" where
  "lab_world = \<lparr>w_docker = example_docker\<lparr>
       mo_containers := (''c1'', \<lparr>mc_name = ''lab-0123abcd-app-1'', mc_image = ''lab-app:1'',
           mc_labels = resourceLabels example_provision ''app-container'' ''app_container_v1'' @ [(''platform.instanceName'', ''app-1'')],
           mc_network = ''lab-net'', mc_running = True\<rparr>) # mo_containers example_docker,
       mo_networks := [(''n1'', \<lparr>mn_name = ''lab-net'',
           mn_labels = resourceLabels example_provision ''lab-network'' ''session_network_v1'',
           mn_containers = [''c1'', ''id-lab-gateway'', ''id-mysql'']\<rparr>)]\<rparr>,
     w_calls = 0, w_databases = [(''lab_0123abcd'', standard_products)], w_users = [(''lab_0123abcd_user'', ''secret'')],
     w_fragments = [(''lab-0123abcd'', [example_server]), (''lab-ffff0000'', [example_server])]\<rparr>"

definition example_destroy :: orch_Command where
  "example_destroy = example_command ''DESTROY_LAB'' example_lab NoPayload"

definition example_reconcile :: "string list \<Rightarrow> orch_Command" where
  "example_reconcile expected = example_command ''RECONCILE_RESOURCES'' example_lab
     (JsonPayload (JObj [(''expectedLabIds'', JArr (map JStr expected)), (''cleanup'', JBool True)]))"

subsection \<open>The hypotheses hold\<close>

lemma example_registry_ok: "registry_ok example_registry"
  using example_loaded by (rule Load_registry_ok)

lemma example_keeps_label: "keeps_lab_label example_registry"
  by code_simp

interpretation example: orchestrator "example_service accepts" model_container_labels model_network_labels
  by (intro orchestrator.intro orchestrator_axioms.intro)
    (simp_all add: example_service_def model_docker_laws example_registry_ok example_keeps_label)

lemma example_databases: "map (\<lambda>(k, t). (db_DatabaseNamePattern t, db_UserNamePattern t)) (rg_databases example_registry) =
    [(''lab_{normalizedLabId}'', ''lab_{normalizedLabId}_user'')]"
  by code_simp

lemma example_names:
  assumes "n \<in> names_of example_registry example_lab"
  shows "rn_database n = ''lab_0123abcd''" "rn_databaseUser n = ''lab_0123abcd_user''"
proof -
  have b: "map_option (\<lambda>n. (rn_normalized n, rn_database n, rn_databaseUser n)) (basicNames example_lab) =
      Some (''0123abcd'', ''lab_0123abcd'', ''lab_0123abcd_user'')"
    by code_simp
  have p: "ReplaceAll ''lab_{normalizedLabId}'' ''{normalizedLabId}'' ''0123abcd'' = ''lab_0123abcd''"
    "ReplaceAll ''lab_{normalizedLabId}_user'' ''{normalizedLabId}'' ''0123abcd'' = ''lab_0123abcd_user''" by code_simp+
  have t: "db_DatabaseNamePattern t = ''lab_{normalizedLabId}'' \<and> db_UserNamePattern t = ''lab_{normalizedLabId}_user''"
    if "map_of (rg_databases example_registry) k = Some t" for k t
  proof -
    have "(db_DatabaseNamePattern t, db_UserNamePattern t) \<in>
      set (map (\<lambda>(k, t). (db_DatabaseNamePattern t, db_UserNamePattern t)) (rg_databases example_registry))"
      using map_of_SomeD [OF that] by force
    then show ?thesis by (simp add: example_databases)
  qed
  show "rn_database n = ''lab_0123abcd''" "rn_databaseUser n = ''lab_0123abcd_user''"
    using assms b t by (auto simp: names_of_def names_def Let_def p split: option.splits if_splits)
qed

subsection \<open>Runs\<close>

text \<open>The second service loses its first call to the database.\<close>

definition interrupted_service :: "fragments model_docker control_Service" where
  "interrupted_service = (example_service (\<lambda>_. True))\<lparr>cv_outcomes := (\<lambda>n. if n = 0 then Fails 1 else Done)\<rparr>"

lemma example_provision_runs:
  "is_ok (fst (provision (example_service (\<lambda>_. True)) example_provision example_world)) \<and>
   (case provision interrupted_service example_provision example_world of (r, w') \<Rightarrow>
      map_sum ce_status (\<lambda>_. ()) r = Inl ''failed'' \<and> w_databases w' = [])"
  by code_simp

lemma example_reconcile_runs:
  "is_ok (fst (reconcile (example_service (\<lambda>_. True)) (example_reconcile [''lab-ffff0000'']) lab_world)) \<and>
   map_sum ce_status (\<lambda>_. ()) (fst (reconcile (example_service (\<lambda>_. True)) (example_reconcile [''a---'']) lab_world)) =
     Inl ''rejected''"
  by code_simp

lemma example_destroy_runs: "is_ok (fst (control_destroy (example_service (\<lambda>_. True)) example_destroy lab_world))"
  by code_simp

lemma example_envelope:
  "t \<in> set allowedCommands \<Longrightarrow> validateEnvelope (example_command t example_lab p) = None"
proof -
  have "validToken ''cmd-1''" "validToken ''op-1''" "validLabID example_lab" "validToken ''7''" by code_simp+
  then show "t \<in> set allowedCommands \<Longrightarrow> ?thesis" by (simp add: validateEnvelope_def example_command_def)
qed

lemma example_Execute:
  assumes "t \<in> set allowedCommands"
  shows "rp_Status (fst (Execute sv (example_command t example_lab p) w)) =
      case_sum ce_status (\<lambda>_. ''succeeded'') (fst (dispatch sv (example_command t example_lab p) w))"
    "snd (Execute sv (example_command t example_lab p) w) = snd (dispatch sv (example_command t example_lab p) w)"
  by (simp_all add: Execute_def example_envelope [OF assms] commandResponse_def split: prod.splits sum.splits)

lemma example_type: "oc_CommandType (example_command t l p) = t"
  by (simp add: example_command_def)

lemmas example_runs = example_Execute dispatch_def example_type allowedCommands_def

lemma example_destroy_succeeds: "rp_Status (fst (Execute (example_service (\<lambda>_. True)) example_destroy lab_world)) = ''succeeded''"
  using example_destroy_runs by (auto simp: example_destroy_def example_runs is_ok_iff)

lemma example_provision_succeeds:
  "rp_Status (fst (Execute (example_service (\<lambda>_. True)) example_provision example_world)) = ''succeeded''"
  using example_provision_runs by (auto simp: example_provision_def example_runs is_ok_iff)

lemma example_provision_interrupted:
  "rp_Status (fst (Execute interrupted_service example_provision example_world)) = ''failed''"
  "w_databases (snd (Execute interrupted_service example_provision example_world)) = []"
  using example_provision_runs
  by (auto simp: example_provision_def example_runs case_prod_beta split: sum.splits)

lemma example_reconcile_succeeds:
  "rp_Status (fst (Execute (example_service (\<lambda>_. True)) (example_reconcile [''lab-ffff0000'']) lab_world)) = ''succeeded''"
  using example_reconcile_runs by (auto simp: example_reconcile_def example_runs is_ok_iff)

lemma example_reconcile_rejected:
  "rp_Status (fst (Execute (example_service (\<lambda>_. True)) (example_reconcile [''a---'']) lab_world)) = ''rejected''"
  using example_reconcile_runs by (auto simp: example_reconcile_def example_runs split: sum.splits)

end
