(* ===== verification/Commands.thy ===== *)
theory Commands
  imports Examples
begin

text \<open>
  The guarantees of the commands, in terms of the answer of \<open>Execute\<close> and of the resources: \<open>C\<close> and \<open>N\<close>
  are the containers and networks of the Docker daemon with their labels. The hypothesis
  \<open>orchestrator sv C N\<close> is the locale of theory \<open>Orchestrator\<close>: the laws of Docker and a registry that was
  loaded.
\<close>

subsection \<open>The answers\<close>

lemma validateEnvelope_ok:
  "validateEnvelope command = None \<Longrightarrow> validLabID (oc_LabID command) \<and> oc_LabID command \<noteq> [] \<and>
    oc_CommandType command \<in> set allowedCommands"
  by (auto simp: validateEnvelope_def validLabID_def split: if_splits)

lemma Execute_succeeded:
  assumes "Execute sv command w = (r, w')" "rp_Status r = ''succeeded''"
    and status: "\<And>e x. dispatch sv command w = (Inl e, x) \<Longrightarrow> ce_status e \<noteq> ''succeeded''"
  shows "validateEnvelope command = None \<and> dispatch sv command w = (Inr (rp_Result r), w')"
  using assms by (auto simp: Execute_def commandResponse_def split: option.splits prod.splits sum.splits)

text \<open>Every error of a command is a rejection or a failure, with a code.\<close>

definition final_error :: "control_error \<Rightarrow> bool" where
  "final_error e = (ce_status e \<in> {''rejected'', ''failed''} \<and> ce_code e \<noteq> [] \<and> ce_message e \<noteq> [])"

lemma final_errors [simp]: "final_error (reject (c # cs) (m # ms))" "final_error (fail (c # cs) (m # ms))"
  by (simp_all add: final_error_def reject_def fail_def)

lemma provision_parts_final:
  "provision_database sv command p s n w = (Inl e, w') \<Longrightarrow> final_error e"
  "provision_network sv command nt n w = (Inl e, w') \<Longrightarrow> final_error e"
  "provision_redis sv command p s n w = (Inl e, w') \<Longrightarrow> final_error e"
  "inspect_images sv p s img w = (Inl e, w') \<Longrightarrow> final_error e"
  "provision_plan sv command = Inl e \<Longrightarrow> final_error e"
  by (auto simp: provision_database_def provision_network_def provision_redis_def inspect_images_def provision_plan_def
      split: prod.splits sum.splits option.splits if_splits)

lemma provision_final: "provision sv command w = (Inl e, w') \<Longrightarrow> final_error e"
  by (auto simp: provision_def provision_steps_def split: prod.splits sum.splits dest: provision_parts_final)

lemma reconcile_parts_final:
  "check_expected seen ls = Some e \<Longrightarrow> final_error e"
  "clean_labs sv ls w = (Inl e, w') \<Longrightarrow> final_error e"
  "clean_databases sv ds w = (Inl e, w') \<Longrightarrow> final_error e"
proof -
  show "check_expected seen ls = Some e \<Longrightarrow> final_error e" by (induction seen ls rule: check_expected.induct) (auto split: if_splits)
  show "clean_labs sv ls w = (Inl e, w') \<Longrightarrow> final_error e"
    by (induction sv ls w rule: clean_labs.induct) (auto split: option.splits prod.splits if_splits)
  show "clean_databases sv ds w = (Inl e, w') \<Longrightarrow> final_error e"
    by (induction sv ds w rule: clean_databases.induct) (auto split: sum.splits prod.splits if_splits)
qed

lemma reconcile_final: "reconcile sv command w = (Inl e, w') \<Longrightarrow> final_error e"
  by (auto simp: reconcile_def reconcile_labs_def reconcile_databases_def Let_def
      split: option.splits prod.splits sum.splits if_splits dest: reconcile_parts_final)

lemma dispatch_final: "dispatch sv command w = (Inl e, w') \<Longrightarrow> final_error e"
  by (auto simp: dispatch_def Let_def resetLab_def control_destroy_def createAppCommand_def deleteAppCommand_def
      updateAppCapacity_def replace_app_def createRedisCommand_def restartRedis_def deleteRedis_def applyUpstream_def
      removeUpstream_def resetDatabase_def
      split: option.splits prod.splits sum.splits if_splits dest: provision_final reconcile_final)

lemma commandError_response:
  "c \<noteq> [] \<Longrightarrow> m \<noteq> [] \<Longrightarrow> commandError (rp_Error (commandResponse command st v c m)) = (c, m)"
  by (simp add: commandResponse_def commandError_def string_member_def)

text \<open>
  Claim C16. Every command is answered with a final result that the platform understands: the answer
  repeats the identifiers of the command and is a success without an error, or a rejection or failure
  without a result, whose error is read by the platform's worker as the non-empty code and message
  that the orchestrator gave.
\<close>

theorem Execute_answers:
  "let r = fst (Execute sv command w) in
     rp_CommandID r = oc_CommandID command \<and> rp_OperationID r = oc_OperationID command \<and>
     (rp_Status r = ''succeeded'' \<and> rp_Error r = JNull \<or>
      rp_Status r \<in> {''rejected'', ''failed''} \<and> rp_Result r = JNull \<and>
      (\<exists>code message. code \<noteq> [] \<and> message \<noteq> [] \<and>
         rp_Error r = JObj [(''code'', JStr code), (''message'', JStr message)] \<and> commandError (rp_Error r) = (code, message)))"
proof (cases "validateEnvelope command")
  case (Some cm)
  then obtain c m where cm: "cm = (c, m)" "c \<noteq> []" "m \<noteq> []"
    by (auto simp: validateEnvelope_def split: if_splits)
  then show ?thesis using Some commandError_response [OF cm(2,3), of command]
    by (simp add: Execute_def Let_def) (simp add: commandResponse_def)
next
  case None
  obtain x w' where d: "dispatch sv command w = (x, w')" by fastforce
  show ?thesis
  proof (cases x)
    case (Inl e)
    then have e: "final_error e" using d dispatch_final by blast
    then show ?thesis using None d Inl commandError_response [of "ce_code e" "ce_message e" command]
      by (simp add: Execute_def Let_def final_error_def) (simp add: commandResponse_def)
  next
    case (Inr v)
    then show ?thesis using None d by (simp add: Execute_def Let_def commandResponse_def)
  qed
qed

lemma Execute_success:
  assumes "Execute sv command w = (r, w')" "rp_Status r = ''succeeded''"
  shows "validateEnvelope command = None" "dispatch sv command w = (Inr (rp_Result r), w')"
proof -
  have "validateEnvelope command = None \<and> dispatch sv command w = (Inr (rp_Result r), w')"
    by (rule Execute_succeeded [OF assms]) (drule dispatch_final, auto simp: final_error_def)
  then show "validateEnvelope command = None" "dispatch sv command w = (Inr (rp_Result r), w')" by simp_all
qed

lemma Execute_error:
  assumes "Execute sv command w = (r, w')" "rp_Status r \<noteq> ''succeeded''"
  shows "w' = w \<or> validateEnvelope command = None \<and> (\<exists>e. dispatch sv command w = (Inl e, w') \<and> ce_status e = rp_Status r)"
  using assms by (auto simp: Execute_def commandResponse_def split: option.splits prod.splits sum.splits)

subsection \<open>Isolation\<close>



subsection \<open>Destroying and creating\<close>

text \<open>
  Claim C11. When the destruction of a lab is answered with success, nothing of the lab is left: no
  container and no network carries its label, its gateway fragment is gone, and so are its database
  and the database user.
\<close>

theorem destroy_leaves_nothing:
  assumes "orchestrator sv C N" "Execute sv command w = (r, w')" "rp_Status r = ''succeeded''"
    and "oc_CommandType command = ''DESTROY_LAB''"
  shows "\<exists>n. basicNames (oc_LabID command) = Some n \<and>
    lab_part (oc_LabID command) (C (w_docker w')) = {} \<and> lab_part (oc_LabID command) (N (w_docker w')) = {} \<and>
    map_of (w_fragments w') (oc_LabID command) = None \<and>
    map_of (w_databases w') (rn_database n) = None \<and> map_of (w_users w') (rn_databaseUser n) = None"
proof -
  note x = Execute_success [OF assms(2,3)]
  have l: "oc_LabID command \<noteq> []" using validateEnvelope_ok [OF x(1)] by simp
  obtain n where n: "basicNames (oc_LabID command) = Some n" "destroyResources sv (oc_LabID command) n w = ([], w')"
    using x(2) assms(4) by (auto simp: dispatch_def control_destroy_def split: option.splits prod.splits if_splits)
  have "n \<in> names_of (cv_registry sv) (oc_LabID command)" using n(1) by (simp add: names_of_def)
  from orchestrator.destroyResources_effect(2) [OF assms(1) n(2) l this refl] show ?thesis
    using n(1) by (simp add: orchestrator.lab_gone_def [OF assms(1)])
qed

theorem destroy_leaves_nothing_witness:
  "\<exists>r w'. Execute (example_service (\<lambda>_. True)) example_destroy lab_world = (r, w') \<and>
     rp_Status r = ''succeeded'' \<and> lab_part example_lab (model_container_labels (w_docker w')) = {} \<and>
     map_of (w_fragments w') example_lab = None"
proof -
  let ?sv = "example_service (\<lambda>_. True)"
  obtain r w' where e: "Execute ?sv example_destroy lab_world = (r, w')" by fastforce
  have l: "oc_LabID example_destroy = example_lab" "oc_CommandType example_destroy = ''DESTROY_LAB''"
    by (simp_all add: example_destroy_def example_command_def)
  have s': "rp_Status r = ''succeeded''" using example_destroy_succeeds by (simp add: e)
  from destroy_leaves_nothing [OF example.orchestrator_axioms e s' l(2)] show ?thesis using e s' by (auto simp: l)
qed

text \<open>
  Claim C10. A lab whose creation fails is cleaned up: when the command to create a lab is not answered
  with success, either the resources are what they were, or the creation started from these resources
  and failed, and the removal of everything the lab has, under the names that its scenario gives to its
  database and user, was carried out on what the creation had left; and if no step of the removal failed,
  nothing of the lab is left.
\<close>

theorem failed_provision_compensated:
  assumes "orchestrator sv C N" "Execute sv command w = (r, w')" "rp_Status r \<noteq> ''succeeded''"
    and "oc_CommandType command = ''PROVISION_LAB''"
  shows "C (w_docker w') = C (w_docker w) \<and> N (w_docker w') = N (w_docker w) \<and> files_kept w w' \<or>
    (\<exists>p s n t img w0 e w1 failures. decodePayload dec_provisionPayload True (oc_Payload command) = Some p \<and>
      map_of (rg_scenarios (cv_registry sv)) (pp_ScenarioTemplateID p) = Some s \<and>
      names (cv_registry sv) (oc_LabID command) s = Some n \<and>
      (C (w_docker w0) = C (w_docker w) \<and> N (w_docker w0) = N (w_docker w) \<and> files_kept w w0) \<and>
      provision_steps sv command p s t img n w0 = (Inl e, w1) \<and>
      destroyResources sv (oc_LabID command) n w1 = (failures, w') \<and>
      (failures = [] \<longrightarrow>
        lab_part (oc_LabID command) (C (w_docker w')) = {} \<and> lab_part (oc_LabID command) (N (w_docker w')) = {} \<and>
        map_of (w_fragments w') (oc_LabID command) = None \<and>
        map_of (w_databases w') (rn_database n) = None \<and> map_of (w_users w') (rn_databaseUser n) = None))"
proof (cases "w' = w")
  case False
  then obtain e where e: "validateEnvelope command = None" "provision sv command w = (Inl e, w')"
    using Execute_error [OF assms(2,3)] assms(4) by (auto simp: dispatch_def)
  have l: "oc_LabID command \<noteq> []" using validateEnvelope_ok [OF e(1)] by simp
  obtain p s n t img where pl: "provision_plan sv command = Inr (p, s, n, t, img)"
    using e(2) False by (auto simp: provision_def split: sum.splits)
  have d: "decodePayload dec_provisionPayload True (oc_Payload command) = Some p"
    "map_of (rg_scenarios (cv_registry sv)) (pp_ScenarioTemplateID p) = Some s"
    "names (cv_registry sv) (oc_LabID command) s = Some n"
    using pl by (auto simp: provision_plan_def split: option.splits if_splits)
  then have n: "n \<in> names_of (cv_registry sv) (oc_LabID command)" by (auto simp: names_of_def)
  obtain r1 w1 where 1: "inspect_images sv p s img w = (r1, w1)" by fastforce
  have q: "C (w_docker w1) = C (w_docker w) \<and> N (w_docker w1) = N (w_docker w) \<and> files_kept w w1"
    using orchestrator.inspect_images_quiet [OF assms(1) 1]
    by (simp add: orchestrator.quiet_def [OF assms(1)] docker.same_def [OF orchestrator.axioms(1) [OF assms(1)]])
  show ?thesis
  proof (cases r1)
    case (Inl e1)
    then have "w' = w1" using e(2) pl 1 by (simp add: provision_def)
    then show ?thesis using q by simp
  next
    case (Inr x)
    then obtain w2 where st: "provision_steps sv command p s t img n w1 = (Inl e, w2)"
      and w2: "w' = snd (destroyResources sv (oc_LabID command) n w2)"
      using e(2) pl 1 by (auto simp: provision_def split: prod.splits sum.splits)
    obtain fs where fs: "destroyResources sv (oc_LabID command) n w2 = (fs, w')" using w2 by (metis prod.collapse)
    from orchestrator.destroyResources_effect(2) [OF assms(1) fs l n] show ?thesis
      using fs d q st unfolding orchestrator.lab_gone_def [OF assms(1)]
      by - (rule disjI2, rule exI [of _ p], rule exI [of _ s], rule exI [of _ n], blast)
  qed
qed (simp add: files_kept_def)

theorem failed_provision_compensated_witness:
  "\<exists>r w'. Execute interrupted_service example_provision example_world = (r, w') \<and>
     rp_Status r = ''failed'' \<and> w_databases w' = [] \<and>
     (model_container_labels (w_docker w') = model_container_labels (w_docker example_world) \<or>
      (\<exists>n w1 failures. destroyResources interrupted_service example_lab n w1 = (failures, w')))"
proof -
  obtain r w' where e: "Execute interrupted_service example_provision example_world = (r, w')" by fastforce
  have l: "oc_LabID example_provision = example_lab" "oc_CommandType example_provision = ''PROVISION_LAB''"
    by (simp_all add: example_provision_def example_command_def example_lab_def)
  have o: "orchestrator interrupted_service model_container_labels model_network_labels"
    using example.orchestrator_axioms [of "\<lambda>_. True"]
    by (simp add: orchestrator_def orchestrator_axioms_def interrupted_service_def)
  note s = example_provision_interrupted [unfolded e fst_conv snd_conv]
  have s': "rp_Status r \<noteq> ''succeeded''" using s by simp
  from failed_provision_compensated [OF o e s' l(2)] show ?thesis using e s by (auto simp: l)
qed

end
