(* ===== verification/Handover.thy ===== *)
theory Handover
  imports Commands
begin

text \<open>
  The result of a creation, from the orchestrator to the platform: what \<open>provision\<close> answers is what the
  worker of theory \<open>Worker\<close> decodes and accepts, and it describes what was created.
\<close>

text \<open>Docker never reports an empty identifier.\<close>

definition ids_nonempty :: "('d, 'f) daemon \<Rightarrow> bool" where
  "ids_nonempty dk = ((\<forall>s d c d'. dk_container dk s d = (Inr c, d') \<longrightarrow> ci_ID c \<noteq> []) \<and>
     (\<forall>s d n d'. dk_network dk s d = (Inr n, d') \<longrightarrow> ni_ID n \<noteq> []) \<and>
     (\<forall>s q d i d'. dk_createContainer dk s q d = (Inr i, d') \<longrightarrow> i \<noteq> []) \<and>
     (\<forall>q d i d'. dk_createNetwork dk q d = (Inr i, d') \<longrightarrow> i \<noteq> []))"

text \<open>
  The numbers of a scenario fit a Go \<open>int\<close>, and at the initial performance an instance has a share of a
  processor and a speed that are not rounded to zero.
\<close>

definition sound_capacity :: "Scenario \<Rightarrow> bool" where
  "sound_capacity s = (0 < cpu_cores s (lm_InitialPerformancePercent s) \<and>
     0 < processing_speed s (lm_InitialPerformancePercent s) \<and>
     processing_speed s (lm_InitialPerformancePercent s) < 2 ^ 63 \<and> lm_InitialPerformancePercent s < 2 ^ 63 \<and>
     rs_MemoryLimitMB s < 2 ^ 63 \<and> lm_MaxLoad s < 2 ^ 63 \<and> lb_InitialWeight s < 2 ^ 63)"

definition capacities_sound :: "Registry \<Rightarrow> bool" where
  "capacities_sound r = list_all (\<lambda>(k, s). sound_capacity s) (rg_scenarios r)"

lemma ids_nonemptyD:
  "ids_nonempty dk \<Longrightarrow> dk_container dk s d = (Inr c, d') \<Longrightarrow> ci_ID c \<noteq> []"
  "ids_nonempty dk \<Longrightarrow> dk_network dk s d = (Inr n, d') \<Longrightarrow> ni_ID n \<noteq> []"
  "ids_nonempty dk \<Longrightarrow> dk_createContainer dk s q d = (Inr i, d') \<Longrightarrow> i \<noteq> []"
  "ids_nonempty dk \<Longrightarrow> dk_createNetwork dk ns d = (Inr i, d') \<Longrightarrow> i \<noteq> []"
  unfolding ids_nonempty_def by blast+

lemma EnsureNetwork_ok:
  assumes "EnsureNetwork dk spec d = (Inr e, d')" "ids_nonempty dk"
  shows "er_Name e = ns_Name spec" "er_ID e \<noteq> []" "ns_Name spec \<noteq> []"
  using assms by (auto simp: EnsureNetwork_def validateName_def
      split: prod.splits sum.splits if_splits dest: ids_nonemptyD)

lemma EnsureContainer_ok:
  assumes "EnsureContainer dk spec d = (Inr e, d')" "ids_nonempty dk"
  shows "er_Name e = cs_Name spec" "er_ID e \<noteq> []" "cs_Name spec \<noteq> []"
  using assms by (auto simp: EnsureContainer_def reuse_container_def create_container_def
      validateContainerSpec_def validateName_def split: prod.splits sum.splits if_splits option.splits dest: ids_nonemptyD)

lemma ensureApp_ok:
  assumes "ensureApp sv command s t img n i p w = (Inr c, w')" "ids_nonempty (cv_docker sv)"
  shows "er_Name c = appContainer n i \<and> er_ID c \<noteq> [] \<and> files_kept w w'"
proof -
  obtain w1 u where 1: "on_docker (InspectImage (cv_docker sv) img) w = (Inr u, w1)"
    and 2: "on_docker (EnsureContainer (cv_docker sv) (app_spec sv command s t img n i p)) w1 = (Inr c, w')"
    using assms(1) by (auto simp: ensureApp_def split: prod.splits sum.splits)
  have "EnsureContainer (cv_docker sv) (app_spec sv command s t img n i p) (w_docker w1) = (Inr c, w_docker w')"
    using 2 by (auto simp: on_docker_def split: prod.splits)
  then show ?thesis using EnsureContainer_ok [OF _ assms(2)] on_docker_kept [OF 1] on_docker_kept [OF 2]
    by (auto simp: app_spec_def intro: files_kept_trans)
qed

text \<open>One instance: the answer's object is decoded into the struct with the same values.\<close>

definition instance_of :: "Scenario \<Rightarrow> string \<Rightarrow> EnsureResult \<Rightarrow> ProvisionInstance" where
  "instance_of s i c = \<lparr>pi_InstanceName = i, pi_ContainerID = er_ID c, pi_ContainerName = er_Name c, pi_Status = ''running'',
     pi_CPULimitCores = cpu_cores s (lm_InitialPerformancePercent s), pi_MemoryLimitMB = rs_MemoryLimitMB s,
     pi_PerformancePercent = lm_InitialPerformancePercent s,
     pi_ProcessingSpeed = processing_speed s (lm_InitialPerformancePercent s), pi_MaxLoad = lm_MaxLoad s,
     pi_CurrentWeight = lb_InitialWeight s\<rparr>"

lemma scenario_positive:
  assumes "registry_ok r" "map_of (rg_scenarios r) i = Some s"
  shows "0 < rs_MemoryLimitMB s" "0 < lm_MaxLoad s" "0 < lm_InitialPerformancePercent s" "0 < lb_InitialWeight s"
proof -
  have "validateScenario r s = None" using assms by (auto simp: registry_ok_def)
  then show "0 < rs_MemoryLimitMB s" "0 < lm_MaxLoad s" "0 < lm_InitialPerformancePercent s" "0 < lb_InitialWeight s"
    by (auto simp: validateScenario_def split: if_splits)
qed

lemma decode_instance_json:
  assumes "sound_capacity s" "0 < rs_MemoryLimitMB s" "0 < lm_MaxLoad s" "0 < lm_InitialPerformancePercent s" "0 < lb_InitialWeight s"
  shows "decode_instance_struct (instance_json s i c (lm_InitialPerformancePercent s)) = Some (instance_of s i c)"
  using assms
  by (simp add: decode_instance_struct_def instance_json_def instance_of_def string_field_def int_field_def float_field_def
      values_of_def same_key_def to_lower_def is_upper_def sound_capacity_def)

lemma instance_complete_of:
  assumes "sound_capacity s" "0 < rs_MemoryLimitMB s" "0 < lm_MaxLoad s" "0 < lm_InitialPerformancePercent s" "0 < lb_InitialWeight s"
    and "i \<noteq> []" "er_ID c \<noteq> []" "er_Name c \<noteq> []"
  shows "instance_complete (instance_of s i c)"
  using assms by (auto simp: instance_complete_def instance_of_def sound_capacity_def)

text \<open>A container or network that exists and has the labels.\<close>

definition tagged :: "(string \<rightharpoonup> labels) \<Rightarrow> labels \<Rightarrow> string \<Rightarrow> bool" where
  "tagged m required i = (\<exists>ls. m i = Some ls \<and> carries ls required)"

lemma tagged_grown: "tagged m required i \<Longrightarrow> m \<subseteq>\<^sub>m m' \<Longrightarrow> tagged m' required i"
  by (force simp: tagged_def map_le_def dom_def)

lemma tagged_fewer: "tagged m required i \<Longrightarrow> map_of required' \<subseteq>\<^sub>m map_of required \<Longrightarrow> tagged m required' i"
  by (force simp: tagged_def carries_def map_le_def dom_def)

text \<open>The labels of what belongs to a lab, and of its containers.\<close>

definition lab_labels :: "string \<Rightarrow> labels" where
  "lab_labels labID = [(''platform.managed'', ''true''), (''platform.labId'', labID)]"

definition app_labels :: "string \<Rightarrow> string \<Rightarrow> labels" where
  "app_labels labID instanceName = lab_labels labID @
     [(''platform.resourceType'', ''app-container''), (''platform.instanceName'', instanceName)]"

definition redis_labels :: "string \<Rightarrow> labels" where
  "redis_labels labID = lab_labels labID @ [(''platform.resourceType'', ''session-redis'')]"

lemma spec_carries:
  "map_of (app_labels (oc_LabID command) i) \<subseteq>\<^sub>m map_of (cs_Labels (app_spec sv command s t img n i p))"
  "map_of (redis_labels (oc_LabID command)) \<subseteq>\<^sub>m map_of (cs_Labels (redis_spec command t img n))"
  by (simp_all add: app_labels_def redis_labels_def lab_labels_def app_spec_def redis_spec_def resourceLabels_def map_le_def)

lemma of_lab_carries: "of_lab labID ls \<Longrightarrow> map_of (lab_labels labID) \<subseteq>\<^sub>m map_of ls"
  by (simp add: of_lab_def is_managed_def lab_labels_def map_le_def)

context orchestrator
begin

lemma ensureApp_there:
  assumes "ensureApp sv command s t img n i p w = (Inr c, w')"
  shows "grown (w_docker w) (w_docker w') \<and> tagged (containers (w_docker w')) (app_labels (oc_LabID command) i) (er_ID c)"
proof -
  obtain w1 u where 1: "on_docker (InspectImage (cv_docker sv) img) w = (Inr u, w1)"
    and 2: "on_docker (EnsureContainer (cv_docker sv) (app_spec sv command s t img n i p)) w1 = (Inr c, w')"
    using assms by (auto simp: ensureApp_def split: prod.splits sum.splits)
  have "EnsureContainer (cv_docker sv) (app_spec sv command s t img n i p) (w_docker w1) = (Inr c, w_docker w')"
    using 2 by (auto simp: on_docker_def split: prod.splits)
  from EnsureContainer_there [OF this] requests_quiet(1) [OF 1] show ?thesis
    unfolding tagged_def [symmetric] by (auto simp: quiet_def intro: grown_trans same_grown tagged_fewer [OF _ spec_carries(1)])
qed

lemma ensureRedis_there:
  assumes "ensureRedis sv command s n w = (Inr c, w')"
  shows "grown (w_docker w) (w_docker w') \<and> tagged (containers (w_docker w')) (redis_labels (oc_LabID command)) (er_ID c) \<and>
    er_Name c = redisContainer n"
proof -
  obtain t img w1 u where 1: "on_docker (InspectImage (cv_docker sv) img) w = (Inr u, w1)"
    and 2: "on_docker (EnsureContainer (cv_docker sv) (redis_spec command t img n)) w1 = (Inr c, w')"
    using assms by (auto simp: ensureRedis_def split: prod.splits sum.splits option.splits)
  have e: "EnsureContainer (cv_docker sv) (redis_spec command t img n) (w_docker w1) = (Inr c, w_docker w')"
    using 2 by (auto simp: on_docker_def split: prod.splits)
  have "er_Name c = redisContainer n"
    using e by (auto simp: EnsureContainer_def reuse_container_def create_container_def redis_spec_def
        split: prod.splits sum.splits if_splits option.splits)
  with EnsureContainer_there [OF e] requests_quiet(1) [OF 1] show ?thesis
    unfolding tagged_def [symmetric] by (auto simp: quiet_def intro: grown_trans same_grown tagged_fewer [OF _ spec_carries(2)])
qed

text \<open>The instances: one container for each name.\<close>

lemma create_instances_ok:
  assumes "create_instances sv command s t img n xs w = (Inr js, w')" "ids_nonempty (cv_docker sv)"
  shows "files_kept w w' \<and> grown (w_docker w) (w_docker w') \<and> (\<exists>cs. length cs = length xs \<and>
    js = map2 (\<lambda>i c. instance_json s i c (lm_InitialPerformancePercent s)) xs cs \<and>
    list_all2 (\<lambda>i c. er_Name c = appContainer n i \<and> er_ID c \<noteq> []) xs cs \<and>
    list_all2 (\<lambda>i c. tagged (containers (w_docker w')) (app_labels (oc_LabID command) i) (er_ID c)) xs cs)"
  using assms(1)
proof (induction xs arbitrary: w js)
  case Nil
  then show ?case by (simp add: same_grown)
next
  case (Cons i xs)
  obtain c w1 where 1: "ensureApp sv command s t img n i (lm_InitialPerformancePercent s) w = (Inr c, w1)"
    using Cons.prems by (auto split: prod.splits sum.splits)
  obtain js' where 2: "create_instances sv command s t img n xs w1 = (Inr js', w')"
    "js = instance_json s i c (lm_InitialPerformancePercent s) # js'"
    using Cons.prems 1 by (auto split: prod.splits sum.splits)
  obtain cs where cs: "files_kept w1 w'" "length cs = length xs" "grown (w_docker w1) (w_docker w')"
    "js' = map2 (\<lambda>i c. instance_json s i c (lm_InitialPerformancePercent s)) xs cs"
    "list_all2 (\<lambda>i c. er_Name c = appContainer n i \<and> er_ID c \<noteq> []) xs cs"
    "list_all2 (\<lambda>i c. tagged (containers (w_docker w')) (app_labels (oc_LabID command) i) (er_ID c)) xs cs"
    using Cons.IH [OF 2(1)] by blast
  have "tagged (containers (w_docker w')) (app_labels (oc_LabID command) i) (er_ID c)"
    using ensureApp_there [OF 1] cs(3) tagged_grown by (auto simp: grown_def)
  moreover have "grown (w_docker w) (w_docker w')" using ensureApp_there [OF 1] cs(3) grown_trans by blast
  ultimately show ?case using ensureApp_ok [OF 1 assms(2)] cs 2(2) by (auto intro!: exI [of _ "c # cs"] intro: files_kept_trans)
qed

end

lemma decode_all_map2:
  assumes "\<And>i c. dec (f i c) = Some (g i c)"
  shows "decode_all dec (map2 f xs cs) = Some (map2 g xs cs)"
  by (induction xs cs rule: list_induct2') (simp_all add: assms)

text \<open>What is reported of the session's Redis.\<close>

definition redis_reported :: "json \<Rightarrow> ProvisionRedis option \<Rightarrow> bool" where
  "redis_reported redis rd = (case rd of None \<Rightarrow> redis = JNull
     | Some x \<Rightarrow> redis = JObj [(''containerId'', JStr (rd_ContainerID x)), (''containerName'', JStr (rd_ContainerName x)),
         (''status'', JStr ''running'')] \<and> rd_Status x = ''running'')"

lemma decode_result:
  assumes "decode_all decode_instance_struct js = Some vs" "redis_reported redis rd"
  shows "decode_provision_struct (JObj [(''labId'', JStr l), (''scenarioTemplateId'', JStr t), (''databaseName'', JStr dn),
      (''databaseUser'', JStr du), (''networkId'', JStr ni), (''networkName'', JStr nn), (''instances'', JArr js), (''redis'', redis)]) =
    Some \<lparr>pv_LabID = l, pv_ScenarioTemplateID = t, pv_DatabaseName = dn, pv_DatabaseUser = du, pv_NetworkID = ni,
      pv_NetworkName = nn, pv_Instances = vs, pv_Redis = rd\<rparr>"
  using assms by (cases rd) (auto simp: redis_reported_def decode_provision_struct_def decode_redis_struct_def string_field_def
      values_of_def same_key_def to_lower_def is_upper_def)

text \<open>The steps of a creation that succeeded.\<close>

lemma provision_steps_ok:
  assumes "provision_steps sv command p s t img n w = (Inr j, w')"
  shows "\<exists>w1 network w2 redis w3 js w4. provision_database sv command p s n w = (Inr (), w1) \<and>
    provision_network sv command (network_template (cv_registry sv) s) n w1 = (Inr network, w2) \<and>
    provision_redis sv command p s n w2 = (Inr redis, w3) \<and>
    create_instances sv command s t img n (instance_names (pp_InitialInstances p)) w3 = (Inr js, w4) \<and>
    nginx_Apply (cv_docker sv) (cv_outcomes sv) (cv_gateway sv) (oc_LabID command)
      (map (instance_server s n) (instance_names (pp_InitialInstances p))) w4 = (Inr (), w') \<and>
    j = JObj [(''labId'', JStr (oc_LabID command)), (''scenarioTemplateId'', JStr (sn_TemplateID s)),
      (''databaseName'', JStr (rn_database n)), (''databaseUser'', JStr (rn_databaseUser n)), (''networkId'', JStr (er_ID network)),
      (''networkName'', JStr (rn_network n)), (''instances'', JArr js), (''redis'', redis)]"
  using assms by (auto simp: provision_steps_def split: prod.splits sum.splits)

lemma provision_database_ok:
  assumes "provision_database sv command p s n w = (Inr (), w')"
  shows "map_of (w_databases w') (rn_database n) \<noteq> None \<and>
    map_of (w_users w') (rn_databaseUser n) = Some (databasePassword (cv_hmac sv) (cv_config sv) (oc_LabID command)) \<and>
    rn_database n \<noteq> [] \<and> rn_databaseUser n \<noteq> []"
proof -
  let ?pw = "databasePassword (cv_hmac sv) (cv_config sv) (oc_LabID command)"
  obtain w1 where 1: "db_Provision (cv_outcomes sv) (rn_database n) (rn_databaseUser n) ?pw w = (Inr (), w1)"
    using assms by (auto simp: provision_database_def split: prod.splits sum.splits)
  have v: "rn_database n \<noteq> []" "rn_databaseUser n \<noteq> []"
    using 1 by (auto simp: db_Provision_def validDatabaseName_def validUserName_def validIdentifier_def split: if_splits)
  show ?thesis
  proof (cases "pp_RedisRequired p")
    case False
    then show ?thesis using assms 1 v db_Provision_ok [OF 1] by (simp add: provision_database_def)
  next
    case True
    then have 2: "SeedProducts (cv_outcomes sv) (rn_database n) (sn_ProductSeeds s) w1 = (Inr (), w')"
      using assms 1 by (auto simp: provision_database_def split: prod.splits sum.splits)
    have "db_frame (rn_database n) [] w1 w'"
      using db_operations_framed(2) [of "rn_database n" "[]" w1] 2 by (metis snd_conv)
    then show ?thesis using v db_Provision_ok [OF 1] SeedProducts_ok [OF 2] by (simp add: db_frame_def)
  qed
qed

text \<open>What a creation that succeeded reports, and what there is afterwards.\<close>

definition made ::
  "'d control_Service \<Rightarrow> ('d \<Rightarrow> string \<rightharpoonup> labels) \<Rightarrow> ('d \<Rightarrow> string \<rightharpoonup> labels) \<Rightarrow> orch_Command \<Rightarrow> provisionPayload \<Rightarrow>
   Scenario \<Rightarrow> resourceNames \<Rightarrow> json \<Rightarrow> 'd world \<Rightarrow> EnsureResult \<Rightarrow> json \<Rightarrow> EnsureResult list \<Rightarrow> ProvisionRedis option \<Rightarrow> bool" where
  "made sv C N command p s n j w' network redis cs rd = (
    j = JObj [(''labId'', JStr (oc_LabID command)), (''scenarioTemplateId'', JStr (sn_TemplateID s)),
      (''databaseName'', JStr (rn_database n)), (''databaseUser'', JStr (rn_databaseUser n)), (''networkId'', JStr (er_ID network)),
      (''networkName'', JStr (rn_network n)),
      (''instances'', JArr (map2 (\<lambda>i c. instance_json s i c (lm_InitialPerformancePercent s)) (instance_names (pp_InitialInstances p)) cs)), (''redis'', redis)] \<and>
    (length cs = length (instance_names (pp_InitialInstances p)) \<and> list_all2 (\<lambda>i c. er_Name c = appContainer n i \<and> er_ID c \<noteq> []) (instance_names (pp_InitialInstances p)) cs \<and>
      list_all2 (\<lambda>i c. tagged (C (w_docker w')) (app_labels (oc_LabID command) i) (er_ID c)) (instance_names (pp_InitialInstances p)) cs) \<and>
    (er_ID network \<noteq> [] \<and> rn_network n \<noteq> [] \<and> tagged (N (w_docker w')) (lab_labels (oc_LabID command)) (er_ID network)) \<and>
    (redis_reported redis rd \<and> (rd \<noteq> None \<longleftrightarrow> pp_RedisRequired p) \<and> (\<forall>x. rd = Some x \<longrightarrow> rd_ContainerName x = redisContainer n \<and>
      tagged (C (w_docker w')) (redis_labels (oc_LabID command)) (rd_ContainerID x))) \<and>
    map_of (w_fragments w') (oc_LabID command) = Some (sorted_servers (map (instance_server s n) (instance_names (pp_InitialInstances p)))) \<and>
    map_of (w_databases w') (rn_database n) \<noteq> None \<and> rn_database n \<noteq> [] \<and> rn_databaseUser n \<noteq> [] \<and>
    map_of (w_users w') (rn_databaseUser n) = Some (databasePassword (cv_hmac sv) (cv_config sv) (oc_LabID command)))"

context orchestrator
begin

lemma provision_network_ok:
  assumes "provision_network sv command (network_template (cv_registry sv) s) n w = (Inr network, w')" "ids_nonempty (cv_docker sv)"
  shows "files_kept w w' \<and> er_ID network \<noteq> [] \<and> rn_network n \<noteq> [] \<and> grown (w_docker w) (w_docker w') \<and>
    tagged (networks (w_docker w')) (lab_labels (oc_LabID command)) (er_ID network)"
proof -
  let ?spec = "network_spec command (network_template (cv_registry sv) s) n"
  obtain w1 where 1: "on_docker (EnsureNetwork (cv_docker sv) ?spec) w = (Inr network, w1)"
    and 2: "connectFixedServices sv (er_ID network) w1 = (Inr (), w')"
    using assms(1) by (auto simp: provision_network_def split: prod.splits sum.splits)
  have k2: "same (w_docker w1) (w_docker w')" "files_kept w1 w'" using connectFixedServices_quiet [OF 2] by (simp_all add: quiet_def)
  have e: "EnsureNetwork (cv_docker sv) ?spec (w_docker w) = (Inr network, w_docker w1)"
    using 1 by (auto simp: on_docker_def split: prod.splits)
  have "map_of (lab_labels (oc_LabID command)) \<subseteq>\<^sub>m map_of (ns_Labels ?spec)"
    by (rule of_lab_carries) (simp add: network_spec_def network_template_managed registry lab_label)
  then have "grown (w_docker w) (w_docker w1)" "tagged (networks (w_docker w1)) (lab_labels (oc_LabID command)) (er_ID network)"
    using EnsureNetwork_there [OF e] tagged_fewer unfolding tagged_def [symmetric] by blast+
  moreover have "networks (w_docker w') = networks (w_docker w1)" using k2(1) by (simp add: same_def)
  ultimately show ?thesis using EnsureNetwork_ok [OF e assms(2)] on_docker_kept [OF 1] k2
    by (auto simp: network_spec_def intro: files_kept_trans grown_trans same_grown)
qed

lemma provision_redis_ok:
  assumes "provision_redis sv command p s n w = (Inr redis, w')"
  shows "files_kept w w' \<and> grown (w_docker w) (w_docker w') \<and> (\<exists>rd. redis_reported redis rd \<and> (rd \<noteq> None \<longleftrightarrow> pp_RedisRequired p) \<and>
    (\<forall>x. rd = Some x \<longrightarrow> rd_ContainerName x = redisContainer n \<and>
       tagged (containers (w_docker w')) (redis_labels (oc_LabID command)) (rd_ContainerID x)))"
proof (cases "pp_RedisRequired p")
  case False
  then show ?thesis using assms by (auto simp: provision_redis_def redis_reported_def same_grown intro!: exI [of _ None])
next
  case True
  then obtain c where c: "ensureRedis sv command s n w = (Inr c, w')"
    and r: "redis = JObj [(''containerId'', JStr (er_ID c)), (''containerName'', JStr (er_Name c)), (''status'', JStr ''running'')]"
    using assms by (auto simp: provision_redis_def split: prod.splits sum.splits)
  have "files_kept w w'"
    using c by (auto simp: ensureRedis_def split: prod.splits sum.splits option.splits dest!: on_docker_kept intro: files_kept_trans)
  then show ?thesis using ensureRedis_there [OF c] True
    by (auto simp: r redis_reported_def intro!: exI [of _ "Some \<lparr>rd_ContainerID = er_ID c, rd_ContainerName = er_Name c, rd_Status = ''running''\<rparr>"])
qed

lemma provision_made:
  assumes st: "provision_steps sv command p s t img n w0 = (Inr j, w')" and ids: "ids_nonempty (cv_docker sv)"
  shows "\<exists>network redis cs rd. made sv containers networks command p s n j w' network redis cs rd"
proof -
  let ?xs = "instance_names (pp_InitialInstances p)"
  obtain w1 network w2 redis w3 js w4 where
      db: "provision_database sv command p s n w0 = (Inr (), w1)"
    and net: "provision_network sv command (network_template (cv_registry sv) s) n w1 = (Inr network, w2)"
    and red: "provision_redis sv command p s n w2 = (Inr redis, w3)"
    and ins: "create_instances sv command s t img n ?xs w3 = (Inr js, w4)"
    and app: "nginx_Apply (cv_docker sv) (cv_outcomes sv) (cv_gateway sv) (oc_LabID command) (map (instance_server s n) ?xs) w4 = (Inr (), w')"
    and j: "j = JObj [(''labId'', JStr (oc_LabID command)), (''scenarioTemplateId'', JStr (sn_TemplateID s)),
      (''databaseName'', JStr (rn_database n)), (''databaseUser'', JStr (rn_databaseUser n)), (''networkId'', JStr (er_ID network)),
      (''networkName'', JStr (rn_network n)), (''instances'', JArr js), (''redis'', redis)]"
    using provision_steps_ok [OF st] by blast
  note d = provision_database_ok [OF db] and k2 = provision_network_ok [OF net ids]
  obtain rd where k3: "files_kept w2 w3" "grown (w_docker w2) (w_docker w3)"
    and rd: "redis_reported redis rd" "rd \<noteq> None \<longleftrightarrow> pp_RedisRequired p" "\<And>x. rd = Some x \<Longrightarrow> rd_ContainerName x = redisContainer n \<and>
      tagged (containers (w_docker w3)) (redis_labels (oc_LabID command)) (rd_ContainerID x)"
    using provision_redis_ok [OF red] by blast
  obtain cs where k4: "files_kept w3 w4" "grown (w_docker w3) (w_docker w4)"
    and cs: "js = map2 (\<lambda>i c. instance_json s i c (lm_InitialPerformancePercent s)) ?xs cs"
      "list_all2 (\<lambda>i c. er_Name c = appContainer n i \<and> er_ID c \<noteq> []) ?xs cs" "length cs = length ?xs"
      "list_all2 (\<lambda>i c. tagged (containers (w_docker w4)) (app_labels (oc_LabID command) i) (er_ID c)) ?xs cs"
    using create_instances_ok [OF ins ids] by blast
  have same: "containers (w_docker w') = containers (w_docker w4)" "networks (w_docker w') = networks (w_docker w4)"
    using nginx_Apply_same [OF app] by (simp_all add: same_def)
  have a: "gw_frame (oc_LabID command) w4 w'"
    "map_of (w_fragments w') (oc_LabID command) = Some (sorted_servers (map (instance_server s n) ?xs))"
    using nginx_Apply_outcome [OF app] by (auto simp: change_outcome_def)
  have kept: "files_kept w1 w4" using k2 k3 k4 by (blast intro: files_kept_trans)
  have t: "list_all2 (\<lambda>i c. tagged (containers (w_docker w')) (app_labels (oc_LabID command) i) (er_ID c)) ?xs cs"
    "tagged (networks (w_docker w')) (lab_labels (oc_LabID command)) (er_ID network)"
    "\<forall>x. rd = Some x \<longrightarrow> rd_ContainerName x = redisContainer n \<and>
      tagged (containers (w_docker w')) (redis_labels (oc_LabID command)) (rd_ContainerID x)"
    unfolding same using cs(4) k2 k3(2) k4(2) rd(3) by (auto simp: grown_def intro: tagged_grown)
  have d': "map_of (w_databases w') (rn_database n) \<noteq> None"
    "map_of (w_users w') (rn_databaseUser n) = Some (databasePassword (cv_hmac sv) (cv_config sv) (oc_LabID command))"
    using a(1) d kept by (simp_all add: gw_frame_def files_kept_def)
  show ?thesis
    unfolding made_def by (intro exI [of _ network] exI [of _ redis] exI [of _ cs] exI [of _ rd] conjI)
      (use j [unfolded cs(1)] cs(2,3) t rd(1,2) a(2) k2 d d' in \<open>blast+\<close>)
qed

end

lemma provision_ok:
  assumes "provision sv command w = (Inr j, w')"
  shows "\<exists>p s n t img w1. decodePayload dec_provisionPayload True (oc_Payload command) = Some p \<and>
    map_of (rg_scenarios (cv_registry sv)) (pp_ScenarioTemplateID p) = Some s \<and> 0 < pp_InitialInstances p \<and>
    names (cv_registry sv) (oc_LabID command) s = Some n \<and> provision_steps sv command p s t img n w1 = (Inr j, w')"
  using assms by (auto simp: provision_def provision_plan_def split: prod.splits sum.splits option.splits if_splits)

definition routed :: "ProvisionInstance \<Rightarrow> Server" where
  "routed i = \<lparr>sv_Name = pi_InstanceName i, sv_Host = pi_ContainerName i, sv_Port = 8080, sv_Weight = pi_CurrentWeight i\<rparr>"

lemma routed_instances:
  assumes "list_all2 (\<lambda>i c. er_Name c = appContainer n i \<and> er_ID c \<noteq> []) xs cs"
  shows "map routed (map2 (instance_of s) xs cs) = map (instance_server s n) xs"
    "map pi_InstanceName (map2 (instance_of s) xs cs) = xs"
  using assms by (induction xs cs rule: list_all2_induct) (simp_all add: routed_def instance_of_def instance_server_def)

lemma instances_complete:
  assumes "list_all2 (\<lambda>i c. er_Name c = appContainer n i \<and> er_ID c \<noteq> []) xs cs" "[] \<notin> set xs"
    and "sound_capacity s" "0 < rs_MemoryLimitMB s" "0 < lm_MaxLoad s" "0 < lm_InitialPerformancePercent s" "0 < lb_InitialWeight s"
  shows "list_all instance_complete (map2 (instance_of s) xs cs)"
  using assms(1,2) by (induction xs cs rule: list_all2_induct)
    (auto intro!: instance_complete_of [OF assms(3-7)] simp: appContainer_def)

text \<open>An instance as the scenario describes it, backed by a container of the lab.\<close>

definition instance_described :: "Scenario \<Rightarrow> resourceNames \<Rightarrow> ProvisionInstance \<Rightarrow> bool" where
  "instance_described s n i = (pi_ContainerName i = appContainer n (pi_InstanceName i) \<and> pi_Status i = ''running'' \<and>
     pi_CPULimitCores i = cpu_cores s (lm_InitialPerformancePercent s) \<and> pi_MemoryLimitMB i = rs_MemoryLimitMB s \<and>
     pi_PerformancePercent i = lm_InitialPerformancePercent s \<and>
     pi_ProcessingSpeed i = processing_speed s (lm_InitialPerformancePercent s) \<and> pi_MaxLoad i = lm_MaxLoad s \<and>
     pi_CurrentWeight i = lb_InitialWeight s)"

lemma instances_described:
  assumes "list_all2 (\<lambda>i c. er_Name c = appContainer n i \<and> er_ID c \<noteq> []) xs cs"
    "list_all2 (\<lambda>i c. tagged m (app_labels labID i) (er_ID c)) xs cs"
  shows "\<forall>i \<in> set (map2 (instance_of s) xs cs). instance_described s n i \<and> tagged m (app_labels labID (pi_InstanceName i)) (pi_ContainerID i)"
  using assms by (induction xs cs rule: list_all2_induct) (auto simp: instance_described_def instance_of_def)

text \<open>
  Claim C12. What the orchestrator reports about a lab it created is accepted by the platform and true:
  the platform's worker decodes the result and finds it complete; it names the lab, the template, the
  database and its user, which exist, the user with the password the instances were given; its instances
  are \<open>app-1\<close> to \<open>app-n\<close> for the number that was asked for, each with the processor share, memory,
  performance, speed, maximal load and weight of the scenario, and with the identifier of a container that
  exists and is labelled as this instance of this lab; the network and the Redis container that are reported
  exist and are labelled as the lab's, the latter exactly when it was asked for; and the gateway fragment
  of the lab routes to exactly these instances, with the weights that the platform stores.
\<close>

theorem provision_result_accepted:
  assumes "orchestrator sv C N" "ids_nonempty (cv_docker sv)"
    and "capacities_sound (cv_registry sv)"
    and "Execute sv command w = (r, w')" "rp_Status r = ''succeeded''" "oc_CommandType command = ''PROVISION_LAB''"
  shows "\<exists>p s n v. decodePayload dec_provisionPayload True (oc_Payload command) = Some p \<and>
    map_of (rg_scenarios (cv_registry sv)) (pp_ScenarioTemplateID p) = Some s \<and>
    names (cv_registry sv) (oc_LabID command) s = Some n \<and>
    decodeProvisionResult (rp_Result r) = Some v \<and>
    pv_LabID v = oc_LabID command \<and> pv_ScenarioTemplateID v = sn_TemplateID s \<and>
    pv_DatabaseName v = rn_database n \<and> pv_DatabaseUser v = rn_databaseUser n \<and> pv_NetworkName v = rn_network n \<and>
    map pi_InstanceName (pv_Instances v) = instance_names (pp_InitialInstances p) \<and>
    (\<forall>i \<in> set (pv_Instances v). instance_described s n i \<and>
       tagged (C (w_docker w')) (app_labels (oc_LabID command) (pi_InstanceName i)) (pi_ContainerID i)) \<and>
    tagged (N (w_docker w')) (lab_labels (oc_LabID command)) (pv_NetworkID v) \<and>
    (pv_Redis v \<noteq> None \<longleftrightarrow> pp_RedisRequired p) \<and>
    (\<forall>x. pv_Redis v = Some x \<longrightarrow> rd_ContainerName x = redisContainer n \<and>
       tagged (C (w_docker w')) (redis_labels (oc_LabID command)) (rd_ContainerID x)) \<and>
    map_of (w_fragments w') (oc_LabID command) = Some (sorted_servers (map routed (pv_Instances v))) \<and>
    map_of (w_databases w') (pv_DatabaseName v) \<noteq> None \<and>
    map_of (w_users w') (pv_DatabaseUser v) = Some (databasePassword (cv_hmac sv) (cv_config sv) (oc_LabID command))"
proof -
  note x = Execute_success [OF assms(4,5)]
  have l: "oc_LabID command \<noteq> []" using validateEnvelope_ok [OF x(1)] by simp
  have "provision sv command w = (Inr (rp_Result r), w')" using x(2) assms(6) by (simp add: dispatch_def)
  then obtain p s n t img w0 where p: "decodePayload dec_provisionPayload True (oc_Payload command) = Some p"
      "map_of (rg_scenarios (cv_registry sv)) (pp_ScenarioTemplateID p) = Some s" "0 < pp_InitialInstances p"
      "names (cv_registry sv) (oc_LabID command) s = Some n"
    and st: "provision_steps sv command p s t img n w0 = (Inr (rp_Result r), w')"
    using provision_ok by blast
  let ?is = "instance_names (pp_InitialInstances p)"
  obtain network redis cs rd where m: "made sv C N command p s n (rp_Result r) w' network redis cs rd"
    using orchestrator.provision_made [OF assms(1) st assms(2)] by blast
  have cs: "length cs = length ?is" "list_all2 (\<lambda>i c. er_Name c = appContainer n i \<and> er_ID c \<noteq> []) ?is cs"
    and t: "list_all2 (\<lambda>i c. tagged (C (w_docker w')) (app_labels (oc_LabID command) i) (er_ID c)) ?is cs"
    and rd: "redis_reported redis rd" using m by (simp_all add: made_def)
  have "sound_capacity s" using assms(3) map_of_SomeD [OF p(2)] by (auto simp: capacities_sound_def list_all_iff)
  note pos = this scenario_positive [OF orchestrator.registry [OF assms(1)] p(2)]
  let ?vs = "map2 (instance_of s) ?is cs"
  have all: "decode_all decode_instance_struct (map2 (\<lambda>i c. instance_json s i c (lm_InitialPerformancePercent s)) ?is cs) = Some ?vs"
    by (rule decode_all_map2) (rule decode_instance_json [OF pos])
  have ne: "?is \<noteq> []" "[] \<notin> set ?is" using p(3) by (auto simp: instance_names_def)
  have "length ?vs = length ?is" using cs(1) by simp
  then have vs: "?vs \<noteq> []" using ne(1) by (metis length_0_conv)
  note complete = instances_complete [OF cs(2) ne(2) pos]
  have res: "decodeProvisionResult (rp_Result r) = Some \<lparr>pv_LabID = oc_LabID command,
      pv_ScenarioTemplateID = sn_TemplateID s, pv_DatabaseName = rn_database n, pv_DatabaseUser = rn_databaseUser n,
      pv_NetworkID = er_ID network, pv_NetworkName = rn_network n, pv_Instances = ?vs, pv_Redis = rd\<rparr>"
    using vs complete l m by (simp add: decodeProvisionResult_def made_def decode_result [OF all rd] list_all_iff)
  show ?thesis
    by (rule exI [of _ p], rule exI [of _ s], rule exI [of _ n], rule exI, intro conjI, rule p(1), rule p(2), rule p(4), rule res)
      (use m routed_instances [OF cs(2), of s] instances_described [OF cs(2) t, of s] in \<open>simp_all add: made_def\<close>)
qed

lemma model_ids_nonempty: "ids_nonempty (model_daemon accepts)"
  by (auto simp: ids_nonempty_def model_daemon_def model_container_inspect_def model_network_inspect_def
      model_create_container_def model_create_network_def not_found_def fresh_id_def Let_def
      split: option.splits if_splits)

lemma example_capacities: "capacities_sound example_registry"
  by code_simp

theorem provision_result_accepted_witness:
  "\<exists>r w' v. Execute (example_service (\<lambda>_. True)) example_provision example_world = (r, w') \<and>
     decodeProvisionResult (rp_Result r) = Some v \<and> pv_LabID v = example_lab \<and>
     map_of (w_fragments w') example_lab = Some (sorted_servers (map routed (pv_Instances v)))"
proof -
  let ?sv = "example_service (\<lambda>_. True)"
  obtain r w' where e: "Execute ?sv example_provision example_world = (r, w')" by fastforce
  have l: "oc_LabID example_provision = example_lab" "oc_CommandType example_provision = ''PROVISION_LAB''"
    by (simp_all add: example_provision_def example_command_def example_lab_def)
  have sv: "orchestrator ?sv model_container_labels model_network_labels" "ids_nonempty (cv_docker ?sv)"
      "capacities_sound (cv_registry ?sv)"
    by (rule example.orchestrator_axioms) (simp_all add: example_service_def model_ids_nonempty example_capacities)
  have s': "rp_Status r = ''succeeded''" using example_provision_succeeds by (simp add: e)
  from provision_result_accepted [OF sv e s' l(2)] show ?thesis using e by (auto simp: l)
qed

end
