(* ===== verification/Reconciliation.thy ===== *)
theory Reconciliation
  imports Commands
begin

text \<open>
  Commands that are rejected, and the reconciliation of the resources with the labs that the platform
  expects.
\<close>

subsection \<open>Rejected commands\<close>

context orchestrator
begin

lemma rejected_provision:
  assumes "provision sv command w = (Inl e, w')" "ce_status e = ''rejected''"
  shows "quiet w w'"
proof (cases "provision_plan sv command")
  case (Inr q)
  obtain p s n t img where q: "q = (p, s, n, t, img)" by (cases q)
  obtain r1 w1 where 1: "inspect_images sv p s img w = (r1, w1)" by fastforce
  have "\<not> is_ok r1"
  proof
    assume "is_ok r1"
    then have "\<exists>w2. provision_steps sv command p s t img n w1 = (Inl e, w2)"
      using assms(1) Inr q 1 by (auto simp: provision_def is_ok_iff split: prod.splits sum.splits)
    then show False using assms(2)
      by (auto simp: provision_steps_def provision_database_def provision_network_def provision_redis_def fail_def
          split: prod.splits sum.splits if_splits)
  qed
  then have "w' = w1" using assms(1) Inr q 1 by (auto simp: provision_def split: sum.splits)
  then show ?thesis using inspect_images_quiet [OF 1] by simp
qed (use assms in \<open>simp add: provision_def\<close>)

lemma rejected_quiet:
  assumes "dispatch sv command w = (Inl e, w')" "ce_status e = ''rejected''"
    and "oc_CommandType command \<in> set allowedCommands - {''RESET_LAB'', ''RECONCILE_RESOURCES''}"
  shows "quiet w w'"
proof -
  have "control_destroy sv command w = (Inl e, w') \<Longrightarrow> quiet w w'" "createAppCommand sv command w = (Inl e, w') \<Longrightarrow> quiet w w'"
    "deleteAppCommand sv command w = (Inl e, w') \<Longrightarrow> quiet w w'" "createRedisCommand sv command w = (Inl e, w') \<Longrightarrow> quiet w w'"
    "restartRedis sv command w = (Inl e, w') \<Longrightarrow> quiet w w'" "deleteRedis sv command w = (Inl e, w') \<Longrightarrow> quiet w w'"
    "applyUpstream sv command w = (Inl e, w') \<Longrightarrow> quiet w w'" "removeUpstream sv command w = (Inl e, w') \<Longrightarrow> quiet w w'"
    "resetDatabase sv command w = (Inl e, w') \<Longrightarrow> quiet w w'"
    using assms(2) by (auto simp: control_destroy_def createAppCommand_def deleteAppCommand_def createRedisCommand_def
        restartRedis_def deleteRedis_def applyUpstream_def removeUpstream_def resetDatabase_def fail_def Let_def
        split: option.splits prod.splits sum.splits if_splits)
  moreover have "updateAppCapacity sv command w = (Inl e, w') \<Longrightarrow> quiet w w'"
    using assms(2) by (auto simp: updateAppCapacity_def replace_app_def fail_def
        split: option.splits prod.splits sum.splits if_splits dest!: findInstance_quiet)
  ultimately show ?thesis
    using assms rejected_provision by (auto simp: dispatch_def allowedCommands_def)
qed

end

text \<open>
  Claim C15. A command that is rejected has changed nothing, unless it resets a lab or reconciles: no
  container or network was created or removed, and the databases and the gateway's files are as before.
\<close>

theorem rejected_changes_nothing:
  assumes "orchestrator sv C N" "Execute sv command w = (r, w')" "rp_Status r = ''rejected''"
    and "oc_CommandType command \<notin> {''RESET_LAB'', ''RECONCILE_RESOURCES''}"
  shows "C (w_docker w') = C (w_docker w) \<and> N (w_docker w') = N (w_docker w) \<and> files_kept w w'"
proof (cases "w' = w")
  case False
  then obtain e where e: "validateEnvelope command = None" "dispatch sv command w = (Inl e, w')" "ce_status e = ''rejected''"
    using Execute_error [OF assms(2)] assms(3) by auto
  have "oc_CommandType command \<in> set allowedCommands - {''RESET_LAB'', ''RECONCILE_RESOURCES''}"
    using validateEnvelope_ok [OF e(1)] assms(4) by simp
  from orchestrator.rejected_quiet [OF assms(1) e(2,3) this] show ?thesis
    by (simp add: orchestrator.quiet_def [OF assms(1)] docker.same_def [OF orchestrator.axioms(1) [OF assms(1)]])
qed (simp add: files_kept_def)

theorem rejected_changes_nothing_witness:
  "\<exists>r w'. Execute (example_service (\<lambda>_. True)) (example_command ''DESTROY_LAB'' example_lab BadPayload) lab_world = (r, w') \<and>
     rp_Status r = ''rejected'' \<and> w_fragments w' = w_fragments lab_world"
proof -
  let ?sv = "example_service (\<lambda>_. True)" and ?c = "example_command ''DESTROY_LAB'' example_lab BadPayload"
  have s: "rp_Status (fst (Execute ?sv ?c lab_world)) = ''rejected''"
    by (simp add: example_runs control_destroy_def decodePayload_def) (simp add: example_command_def reject_def)
  obtain r w' where e: "Execute ?sv ?c lab_world = (r, w')" by fastforce
  have s': "rp_Status r = ''rejected''" using s e by simp
  have t: "oc_CommandType ?c \<notin> {''RESET_LAB'', ''RECONCILE_RESOURCES''}" by (simp add: example_command_def)
  from rejected_changes_nothing [OF example.orchestrator_axioms e s' t] show ?thesis
    using e s' by (auto simp: files_kept_def)
qed

subsection \<open>Reconciliation\<close>

lemma part_others: "l \<noteq> l2 \<Longrightarrow> lab_part l m = {i. \<exists>ls. others l2 m i = Some ls \<and> of_lab l ls}"
  by (auto simp: lab_part_def others_def of_lab_def split: option.splits if_splits)

lemma nginx_validLabID_eq: "nginx_validLabID = validLabID"
  by (simp add: fun_eq_iff nginx_validLabID_def validLabID_def)

text \<open>A lab has a container, a network or a fragment.\<close>

definition present :: "('d \<Rightarrow> resources) \<Rightarrow> ('d \<Rightarrow> resources) \<Rightarrow> string \<Rightarrow> 'd world \<Rightarrow> bool" where
  "present C N l w = (lab_part l (C (w_docker w)) \<noteq> {} \<or> lab_part l (N (w_docker w)) \<noteq> {} \<or> map_of (w_fragments w) l \<noteq> None)"

lemma check_expected_ok:
  "\<forall>l \<in> set ls. validLabID l \<Longrightarrow> distinct ls \<Longrightarrow> set seen \<inter> set ls = {} \<Longrightarrow> check_expected seen ls = None"
  by (induction seen ls rule: check_expected.induct) auto

lemma label_of_lab: "of_lab l ls \<Longrightarrow> label_of ls ''platform.labId'' = l \<and> is_managed ls"
  by (simp add: of_lab_def label_of_def)

context orchestrator
begin

lemma lab_step_other:
  assumes "lab_step l2 w w'" "l \<noteq> l2"
  shows "lab_part l (containers (w_docker w')) = lab_part l (containers (w_docker w))"
    "lab_part l (networks (w_docker w')) = lab_part l (networks (w_docker w))"
    "map_of (w_fragments w') l = map_of (w_fragments w) l"
  using assms by (simp_all add: part_others [OF assms(2)] lab_step_def confined_def)

text \<open>Databases are only removed.\<close>

definition shrunk :: "'d world \<Rightarrow> 'd world \<Rightarrow> bool" where
  "shrunk w w' = (\<forall>d. map_of (w_databases w') d \<noteq> None \<longrightarrow> map_of (w_databases w) d \<noteq> None)"

lemma run_drops_shrunk: "shrunk w (snd (run_statements (take n (destroy_lab_database d u)) w))"
  by (auto simp: shrunk_def destroy_lab_database_def drop_database_def drop_user_def delete_conv' restrict_map_def
      take_Cons split: nat.splits if_splits)

lemma db_Destroy_shrunk: "shrunk w (snd (db_Destroy ora d u w))"
proof (cases "validDatabaseName d \<and> validUserName u")
  case True
  let ?w = "w\<lparr>w_calls := Suc (w_calls w)\<rparr>"
  obtain n where "snd (sql_call ora ''destroy lab database'' (destroy_lab_database d u) w) =
    snd (run_statements (take n (destroy_lab_database d u)) ?w)" using sql_call_run by blast
  then show ?thesis using True run_drops_shrunk [of ?w n d u] by (simp add: db_Destroy_def shrunk_def)
qed (auto simp: db_Destroy_def shrunk_def)

lemma destroyResources_databases:
  assumes "destroyResources sv labID n w = (es, w')" "labID \<noteq> []"
  shows "\<exists>w3. w_databases w3 = w_databases w \<and> w' = snd (db_Destroy (cv_outcomes sv) (rn_database n) (rn_databaseUser n) w3)"
proof -
  obtain r1 w1 where 1: "nginx_Remove (cv_docker sv) (cv_outcomes sv) (cv_gateway sv) labID w = (r1, w1)" by fastforce
  obtain e2 w2 where 2: "remove_lab_containers sv labID w1 = (e2, w2)" by fastforce
  obtain e3 w3 where 3: "remove_lab_networks sv labID w2 = (e3, w3)" by fastforce
  have 4: "w' = snd (db_Destroy (cv_outcomes sv) (rn_database n) (rn_databaseUser n) w3)"
    using assms(1) by (auto simp: destroyResources_def 1 2 3 split: prod.splits)
  have "w_databases w1 = w_databases w" using nginx_Remove_frame [OF 1] by (simp add: gw_frame_def)
  moreover have "w_databases w2 = w_databases w1"
    using remove_lab_containers_removal [OF 2 assms(2)] by (auto simp: removal_def files_kept_def)
  moreover have "w_databases w3 = w_databases w2"
    using remove_lab_networks_removal [OF 3 assms(2)] by (auto simp: removal_def files_kept_def)
  ultimately show ?thesis using 4 by auto
qed

lemma destroyResources_shrunk:
  assumes "destroyResources sv labID n w = (es, w')" "labID \<noteq> []"
  shows "shrunk w w'" "d \<noteq> rn_database n \<Longrightarrow> map_of (w_databases w') d = map_of (w_databases w) d"
proof -
  obtain w3 where w3: "w_databases w3 = w_databases w"
    "w' = snd (db_Destroy (cv_outcomes sv) (rn_database n) (rn_databaseUser n) w3)"
    using destroyResources_databases [OF assms] by blast
  show "shrunk w w'" using db_Destroy_shrunk [of w3] by (simp add: w3 shrunk_def)
  assume "d \<noteq> rn_database n"
  then show "map_of (w_databases w') d = map_of (w_databases w) d"
    using db_operations_framed(4) [of "rn_database n" "rn_databaseUser n" w3] by (simp add: w3 db_frame_def)
qed

lemma clean_labs_effect:
  assumes "clean_labs sv ls w = (Inr (), w')"
  shows "shrunk w w' \<and>
    (\<forall>l \<in> set ls. lab_part l (containers (w_docker w')) = {} \<and> lab_part l (networks (w_docker w')) = {} \<and>
       map_of (w_fragments w') l = None) \<and>
    (\<forall>l. l \<notin> set ls \<longrightarrow> lab_part l (containers (w_docker w')) = lab_part l (containers (w_docker w)) \<and>
       lab_part l (networks (w_docker w')) = lab_part l (networks (w_docker w)) \<and>
       map_of (w_fragments w') l = map_of (w_fragments w) l)"
  using assms
proof (induction ls arbitrary: w)
  case Nil
  then show ?case by (simp add: shrunk_def)
next
  case (Cons x ls)
  obtain n w1 where n: "basicNames x = Some n" "destroyResources sv x n w = ([], w1)" and r: "clean_labs sv ls w1 = (Inr (), w')"
    using Cons.prems by (auto split: option.splits prod.splits if_splits)
  have x: "x \<noteq> []" "n \<in> names_of (cv_registry sv) x"
    using n(1) by (auto simp: basicNames_def validLabID_def names_of_def split: if_splits)
  note e = destroyResources_effect [OF n(2) x] and s = destroyResources_shrunk(1) [OF n(2) x(1)]
  have g: "lab_gone x n w1" using e(2) by simp
  note o = lab_step_other [OF e(1)] and ih = Cons.IH [OF r]
  show ?case
  proof (intro conjI ballI allI impI)
    show "shrunk w w'" using s ih by (auto simp: shrunk_def)
  next
    fix l assume "l \<in> set (x # ls)"
    then show "lab_part l (containers (w_docker w')) = {}" "lab_part l (networks (w_docker w')) = {}" "map_of (w_fragments w') l = None"
      using ih g by (cases "l \<in> set ls"; simp add: lab_gone_def)+
  next
    fix l assume "l \<notin> set (x # ls)"
    then show "lab_part l (containers (w_docker w')) = lab_part l (containers (w_docker w))"
      "lab_part l (networks (w_docker w')) = lab_part l (networks (w_docker w))"
      "map_of (w_fragments w') l = map_of (w_fragments w) l" using ih o by simp_all
  qed
qed

lemma clean_databases_effect:
  assumes "clean_databases sv ds w = (Inr (), w')"
  shows "w_docker w' = w_docker w \<and> w_fragments w' = w_fragments w \<and> shrunk w w' \<and>
    (\<forall>d \<in> set ds. map_of (w_databases w') (md_DatabaseName d) = None)"
  using assms
proof (induction ds arbitrary: w)
  case Nil
  then show ?case by (simp add: shrunk_def)
next
  case (Cons d ds)
  obtain w1 where 1: "db_Destroy (cv_outcomes sv) (md_DatabaseName d) (md_UserName d) w = (Inr (), w1)"
    and r: "clean_databases sv ds w1 = (Inr (), w')"
    using Cons.prems by (auto split: prod.splits sum.splits)
  have f: "db_frame (md_DatabaseName d) (md_UserName d) w w1" "shrunk w w1"
    using db_operations_framed(4) [of "md_DatabaseName d" "md_UserName d" w] db_Destroy_shrunk [of w] 1 by (metis snd_conv)+
  show ?case using Cons.IH [OF r] f db_Destroy_ok(1) [OF 1] by (auto simp: db_frame_def shrunk_def)
qed

text \<open>The databases that a cleaning keeps.\<close>

lemma clean_labs_keeps:
  assumes "clean_labs sv ls w = (Inr (), w')" "\<forall>x \<in> set ls. \<forall>m. basicNames x = Some m \<longrightarrow> rn_database m \<noteq> d"
  shows "map_of (w_databases w') d = map_of (w_databases w) d"
  using assms
proof (induction ls arbitrary: w)
  case (Cons x ls)
  obtain n w1 where n: "basicNames x = Some n" "destroyResources sv x n w = ([], w1)" and r: "clean_labs sv ls w1 = (Inr (), w')"
    using Cons.prems(1) by (auto split: option.splits prod.splits if_splits)
  have "x \<noteq> []" using n(1) by (auto simp: basicNames_def validLabID_def split: if_splits)
  moreover have "d \<noteq> rn_database n" using Cons.prems(2) n(1) by auto
  ultimately show ?case using Cons.IH [OF r] Cons.prems(2) destroyResources_shrunk(2) [OF n(2)] by simp
qed simp

lemma clean_databases_keeps:
  assumes "clean_databases sv ds w = (Inr (), w')" "d \<notin> md_DatabaseName ` set ds"
  shows "map_of (w_databases w') d = map_of (w_databases w) d"
  using assms
proof (induction ds arbitrary: w)
  case (Cons x ds)
  obtain w1 where 1: "db_Destroy (cv_outcomes sv) (md_DatabaseName x) (md_UserName x) w = (Inr (), w1)"
    and r: "clean_databases sv ds w1 = (Inr (), w')"
    using Cons.prems(1) by (auto split: prod.splits sum.splits)
  have "db_frame (md_DatabaseName x) (md_UserName x) w w1"
    using db_operations_framed(4) [of "md_DatabaseName x" "md_UserName x" w] 1 by (metis snd_conv)
  then show ?case using Cons.IH [OF r] Cons.prems(2) by (simp add: db_frame_def)
qed simp

lemma managed_listed:
  "on_docker (ListManagedContainers (cv_docker sv) []) w = (Inr xs, w') \<Longrightarrow> of_lab l ls \<Longrightarrow>
    containers (w_docker w) i = Some ls \<Longrightarrow> l \<in> (\<lambda>r. label_of (ro_Labels r) ''platform.labId'') ` set xs"
  "on_docker (ListManagedNetworks (cv_docker sv) []) w = (Inr xs, w') \<Longrightarrow> of_lab l ls \<Longrightarrow>
    networks (w_docker w) i = Some ls \<Longrightarrow> l \<in> (\<lambda>r. label_of (ro_Labels r) ''platform.labId'') ` set xs"
proof -
  assume a: "on_docker (ListManagedContainers (cv_docker sv) []) w = (Inr xs, w')" "of_lab l ls" "containers (w_docker w) i = Some ls"
  obtain cs where cs: "dk_containers (cv_docker sv) (managed_filters []) (w_docker w) = (Inr cs, w_docker w')" "xs = map container_resource cs"
    using on_docker_Inr [OF a(1)] by (auto simp: ListManagedContainers_def listContainers_def map_answer_def split: prod.splits sum.splits)
  then obtain c where "c \<in> set cs" "li_Labels c = ls"
    using list_containers [OF cs(1)] a(3) label_of_lab [OF a(2)] by (auto simp: selected_managed)
  then show "l \<in> (\<lambda>r. label_of (ro_Labels r) ''platform.labId'') ` set xs"
    using label_of_lab [OF a(2)] by (force simp: cs(2) container_resource_def)
next
  assume a: "on_docker (ListManagedNetworks (cv_docker sv) []) w = (Inr xs, w')" "of_lab l ls" "networks (w_docker w) i = Some ls"
  obtain ns where ns: "dk_networks (cv_docker sv) (managed_filters []) (w_docker w) = (Inr ns, w_docker w')" "xs = map network_resource ns"
    using on_docker_Inr [OF a(1)] by (auto simp: ListManagedNetworks_def map_answer_def split: prod.splits sum.splits)
  then obtain c where "c \<in> set ns" "ln_Labels c = ls"
    using list_networks [OF ns(1)] a(3) label_of_lab [OF a(2)] by (auto simp: selected_managed)
  then show "l \<in> (\<lambda>r. label_of (ro_Labels r) ''platform.labId'') ` set xs"
    using label_of_lab [OF a(2)] by (force simp: ns(2) network_resource_def)
qed

lemma actualLabIDs_effect:
  assumes "actualLabIDs sv w = (Inr actual, w')"
  shows "quiet w w' \<and> (\<forall>l. validLabID l \<longrightarrow> l \<notin> set actual \<longrightarrow>
    lab_part l (containers (w_docker w')) = {} \<and> lab_part l (networks (w_docker w')) = {} \<and> map_of (w_fragments w') l = None)"
proof -
  obtain cs w1 ns where 1: "on_docker (ListManagedContainers (cv_docker sv) []) w = (Inr cs, w1)"
    and 2: "on_docker (ListManagedNetworks (cv_docker sv) []) w1 = (Inr ns, w')"
    and a: "set actual = set (labelled_labs cs) \<union> (set (labelled_labs ns) \<union> set (nginx_List w'))"
    using assms by (auto simp: actualLabIDs_def split: prod.splits sum.splits)
  note q = requests_quiet(2) [OF 1] requests_quiet(3) [OF 2]
  have "lab_part l (containers (w_docker w')) = {} \<and> lab_part l (networks (w_docker w')) = {} \<and> map_of (w_fragments w') l = None"
    if l: "validLabID l" "l \<notin> set actual" for l
  proof -
    have "lab_part l (containers (w_docker w)) = {}"
      using managed_listed(1) [OF 1] l a by (force simp: lab_part_def labelled_labs_def)
    moreover have "lab_part l (networks (w_docker w1)) = {}"
      using managed_listed(2) [OF 2] l a by (force simp: lab_part_def labelled_labs_def)
    moreover have "map_of (w_fragments w') l = None"
      using l a by (auto simp: nginx_List_def nginx_validLabID_eq map_of_eq_None_iff)
    ultimately show ?thesis using q by (simp add: quiet_def same_def)
  qed
  then show ?thesis using q by (auto intro: quiet_trans)
qed

text \<open>A lab that is found has a container, a network or a fragment.\<close>

lemma listed_managed:
  "on_docker (ListManagedContainers (cv_docker sv) []) w = (Inr xs, w') \<Longrightarrow> l \<in> set (labelled_labs xs) \<Longrightarrow>
    lab_part l (containers (w_docker w)) \<noteq> {}"
  "on_docker (ListManagedNetworks (cv_docker sv) []) w = (Inr xs, w') \<Longrightarrow> l \<in> set (labelled_labs xs) \<Longrightarrow>
    lab_part l (networks (w_docker w)) \<noteq> {}"
proof -
  have lab: "of_lab l ls" if "is_managed ls" "label_of ls ''platform.labId'' = l" "validLabID l" for ls
    using that by (auto simp: of_lab_def label_of_def validLabID_def split: option.splits)
  assume l: "l \<in> set (labelled_labs xs)"
  {
    assume a: "on_docker (ListManagedContainers (cv_docker sv) []) w = (Inr xs, w')"
    obtain cs where cs: "dk_containers (cv_docker sv) (managed_filters []) (w_docker w) = (Inr cs, w_docker w')" "xs = map container_resource cs"
      using on_docker_Inr [OF a] by (auto simp: ListManagedContainers_def listContainers_def map_answer_def split: prod.splits sum.splits)
    obtain c where c: "c \<in> set cs" "label_of (li_Labels c) ''platform.labId'' = l" "validLabID l"
      using l by (auto simp: cs(2) labelled_labs_def container_resource_def)
    then have "containers (w_docker w) (li_ID c) = Some (li_Labels c)" "is_managed (li_Labels c)"
      using list_containers [OF cs(1)] by (auto simp: selected_managed)
    then show "lab_part l (containers (w_docker w)) \<noteq> {}" using lab c(2,3) by (force simp: lab_part_def)
  next
    assume a: "on_docker (ListManagedNetworks (cv_docker sv) []) w = (Inr xs, w')"
    obtain ns where ns: "dk_networks (cv_docker sv) (managed_filters []) (w_docker w) = (Inr ns, w_docker w')" "xs = map network_resource ns"
      using on_docker_Inr [OF a] by (auto simp: ListManagedNetworks_def map_answer_def split: prod.splits sum.splits)
    obtain c where c: "c \<in> set ns" "label_of (ln_Labels c) ''platform.labId'' = l" "validLabID l"
      using l by (auto simp: ns(2) labelled_labs_def network_resource_def)
    then have "networks (w_docker w) (ln_ID c) = Some (ln_Labels c)" "is_managed (ln_Labels c)"
      using list_networks [OF ns(1)] by (auto simp: selected_managed)
    then show "lab_part l (networks (w_docker w)) \<noteq> {}" using lab c(2,3) by (force simp: lab_part_def)
  }
qed

lemma actualLabIDs_present:
  assumes "actualLabIDs sv w = (Inr actual, w')" "l \<in> set actual"
  shows "present containers networks l w'"
proof -
  obtain cs w1 ns where 1: "on_docker (ListManagedContainers (cv_docker sv) []) w = (Inr cs, w1)"
    and 2: "on_docker (ListManagedNetworks (cv_docker sv) []) w1 = (Inr ns, w')"
    and a: "set actual = set (labelled_labs cs) \<union> (set (labelled_labs ns) \<union> set (nginx_List w'))"
    using assms(1) by (auto simp: actualLabIDs_def split: prod.splits sum.splits)
  have "map_of (w_fragments w') l \<noteq> None" if "l \<in> set (nginx_List w')"
    using that by (auto simp: nginx_List_def map_of_eq_None_iff)
  then show ?thesis
    using assms(2) a listed_managed(1) [OF 1] listed_managed(2) [OF 2] requests_quiet(2) [OF 1] requests_quiet(3) [OF 2]
    by (auto simp: present_def quiet_def same_def)
qed

lemma reconnect_quiet: "reconnectExpectedNetworks sv expected w = (r, w') \<Longrightarrow> quiet w w'"
proof -
  have *: "reconnect_networks sv expected ns w = (r, w') \<Longrightarrow> quiet w w'" for ns w r
    by (induction ns arbitrary: w r)
      (auto simp: Let_def split: prod.splits sum.splits if_splits dest!: connectFixedServices_quiet intro: quiet_trans)
  assume "reconnectExpectedNetworks sv expected w = (r, w')"
  then show "quiet w w'" by (auto simp: reconnectExpectedNetworks_def split: prod.splits sum.splits
      dest!: requests_quiet(3) * intro: quiet_trans)
qed

lemma ListManaged_Inr:
  assumes "ListManaged ora w = (Inr rows, w')"
  shows "w' = w\<lparr>w_calls := Suc (w_calls w)\<rparr>"
    "map_of (w_databases w) d \<noteq> None \<Longrightarrow> validIdentifier d ''lab_'' [] 4 23 \<Longrightarrow> \<exists>m \<in> set rows. md_DatabaseName m = d"
  using assms by (auto simp: ListManaged_def Let_def list_lab_database_resources_def image_iff
      dest!: map_of_SomeD split: outcome.splits if_splits) force

lemma expected_databases_Some:
  "expected_databases ls = Some ds \<Longrightarrow> d \<in> set ds \<Longrightarrow> \<exists>l \<in> set ls. \<exists>n. basicNames l = Some n \<and> d = rn_database n"
  by (induction ls arbitrary: ds) (auto split: option.splits)

lemma expected_databases_complete:
  "expected_databases ls = Some ds \<Longrightarrow> l \<in> set ls \<Longrightarrow> basicNames l = Some n \<Longrightarrow> rn_database n \<in> set ds"
  by (induction ls arbitrary: ds) (auto split: option.splits)

lemma reconcile_labs_effect:
  assumes "reconcile_labs sv E True w = (Inr v, w')"
  shows "(\<forall>l. validLabID l \<longrightarrow> l \<notin> set E \<longrightarrow>
      lab_part l (containers (w_docker w')) = {} \<and> lab_part l (networks (w_docker w')) = {} \<and> map_of (w_fragments w') l = None) \<and>
    (\<forall>l \<in> set E. lab_part l (containers (w_docker w')) = lab_part l (containers (w_docker w)) \<and>
      lab_part l (networks (w_docker w')) = lab_part l (networks (w_docker w)) \<and>
      map_of (w_fragments w') l = map_of (w_fragments w) l) \<and>
    (\<forall>l \<in> set E. \<forall>n. basicNames l = Some n \<longrightarrow>
      map_of (w_databases w') (rn_database n) = map_of (w_databases w) (rn_database n) \<or>
      (\<exists>x m. x \<notin> set E \<and> present containers networks x w \<and> basicNames x = Some m \<and> rn_database m = rn_database n)) \<and>
    (\<forall>d. validIdentifier d ''lab_'' [] 4 23 \<longrightarrow> map_of (w_databases w') d \<noteq> None \<longrightarrow>
      (\<exists>l \<in> set E. \<exists>n. basicNames l = Some n \<and> d = rn_database n))"
proof -
  obtain rc w1 where 1: "reconnectExpectedNetworks sv E w = (Inr rc, w1)"
    using assms by (auto simp: reconcile_labs_def split: prod.splits sum.splits)
  obtain actual w2 where 2: "actualLabIDs sv w1 = (Inr actual, w2)"
    using assms 1 by (auto simp: reconcile_labs_def split: prod.splits sum.splits)
  obtain dbs w3 where 3: "ListManaged (cv_outcomes sv) w2 = (Inr dbs, w3)"
    using assms 1 2 by (auto simp: reconcile_labs_def split: prod.splits sum.splits)
  let ?orphans = "sort (filter (\<lambda>l. l \<notin> set E) actual)"
  obtain w4 where 4: "clean_labs sv ?orphans w3 = (Inr (), w4)"
    using assms 1 2 3 by (auto simp: reconcile_labs_def Let_def split: prod.splits sum.splits)
  have "reconcile_databases sv (sort E) True dbs ?orphans rc w4 = (Inr v, w')"
    using assms 1 2 3 4 by (simp add: reconcile_labs_def Let_def)
  then obtain ed where 5: "expected_databases (sort E) = Some ed"
    "clean_databases sv (sort_key md_DatabaseName (filter (\<lambda>d. md_DatabaseName d \<notin> set ed) dbs)) w4 = (Inr (), w')"
    by (auto simp: reconcile_databases_def Let_def split: option.splits prod.splits sum.splits)
  note a = actualLabIDs_effect [OF 2] and m = ListManaged_Inr [OF 3] and c = clean_labs_effect [OF 4]
    and d = clean_databases_effect [OF 5(2)]
  have q: "quiet w w2" using reconnect_quiet [OF 1] a by (blast intro: quiet_trans)
  have w3: "w_docker w3 = w_docker w2" "w_fragments w3 = w_fragments w2" "w_databases w3 = w_databases w2" by (simp_all add: m(1))
  show ?thesis
  proof (intro conjI allI impI ballI)
    fix l assume l: "validLabID l" "l \<notin> set E"
    then show "lab_part l (containers (w_docker w')) = {}" "lab_part l (networks (w_docker w')) = {}" "map_of (w_fragments w') l = None"
      using a c d w3 by (cases "l \<in> set actual"; simp)+
  next
    fix l assume "l \<in> set E"
    then have "l \<notin> set ?orphans" by simp
    then show "lab_part l (containers (w_docker w')) = lab_part l (containers (w_docker w))"
      "lab_part l (networks (w_docker w')) = lab_part l (networks (w_docker w))"
      "map_of (w_fragments w') l = map_of (w_fragments w) l"
      using c d w3 q by (simp_all add: quiet_def same_def files_kept_def)
  next
    fix l n assume l: "l \<in> set E" "basicNames l = Some n"
    show "map_of (w_databases w') (rn_database n) = map_of (w_databases w) (rn_database n) \<or>
      (\<exists>x m. x \<notin> set E \<and> present containers networks x w \<and> basicNames x = Some m \<and> rn_database m = rn_database n)"
    proof (rule disjCI)
      have "present containers networks x w" if "x \<in> set actual" for x
        using actualLabIDs_present [OF 2 that] q by (simp add: present_def quiet_def same_def files_kept_def)
      moreover assume "\<nexists>x m. x \<notin> set E \<and> present containers networks x w \<and> basicNames x = Some m \<and> rn_database m = rn_database n"
      ultimately have "\<forall>x \<in> set ?orphans. \<forall>m. basicNames x = Some m \<longrightarrow> rn_database m \<noteq> rn_database n" by auto
      from clean_labs_keeps [OF 4 this]
      have "map_of (w_databases w4) (rn_database n) = map_of (w_databases w3) (rn_database n)" .
      moreover have "map_of (w_databases w') (rn_database n) = map_of (w_databases w4) (rn_database n)"
        using expected_databases_complete [OF 5(1) _ l(2)] l(1) by (intro clean_databases_keeps [OF 5(2)]) auto
      ultimately show "map_of (w_databases w') (rn_database n) = map_of (w_databases w) (rn_database n)"
        using w3 q by (simp add: quiet_def files_kept_def)
    qed
  next
    fix n assume n: "validIdentifier n ''lab_'' [] 4 23" "map_of (w_databases w') n \<noteq> None"
    then have "map_of (w_databases w2) n \<noteq> None" using c d w3 by (auto simp: shrunk_def)
    then obtain x where x: "x \<in> set dbs" "md_DatabaseName x = n" using m(2) n(1) by blast
    have "n \<in> set ed"
    proof (rule ccontr)
      assume "n \<notin> set ed"
      then have "x \<in> set (sort_key md_DatabaseName (filter (\<lambda>d. md_DatabaseName d \<notin> set ed) dbs))" using x by simp
      then have "map_of (w_databases w') (md_DatabaseName x) = None" using d by blast
      then show False using n(2) x(2) by simp
    qed
    then show "\<exists>l \<in> set E. \<exists>nn. basicNames l = Some nn \<and> n = rn_database nn" using expected_databases_Some [OF 5(1)] by simp
  qed
qed

lemma clean_failed:
  "clean_labs sv ls w = (Inl e, w') \<Longrightarrow> ce_status e = ''failed''"
  "clean_databases sv ds w = (Inl e, w') \<Longrightarrow> ce_status e = ''failed''"
proof -
  show "clean_labs sv ls w = (Inl e, w') \<Longrightarrow> ce_status e = ''failed''"
    by (induction ls arbitrary: w) (auto simp: fail_def split: option.splits prod.splits if_splits)
  show "clean_databases sv ds w = (Inl e, w') \<Longrightarrow> ce_status e = ''failed''"
    by (induction ds arbitrary: w) (auto simp: fail_def split: sum.splits prod.splits)
qed

lemma expected_databases_None: "expected_databases ls = None \<Longrightarrow> \<exists>l \<in> set ls. basicNames l = None"
  by (induction ls) (auto split: option.splits)

text \<open>A rejection after the check of the identifiers comes when the other labs are already gone.\<close>

lemma reconcile_labs_rejected:
  assumes "reconcile_labs sv E True w = (Inl e, w')" "ce_status e = ''rejected''"
  shows "e = reject ''INVALID_COMMAND'' ''expected lab identity is invalid'' \<and> (\<exists>l \<in> set E. basicNames l = None) \<and>
    (\<forall>l. validLabID l \<longrightarrow> l \<notin> set E \<longrightarrow>
      lab_part l (containers (w_docker w')) = {} \<and> lab_part l (networks (w_docker w')) = {} \<and> map_of (w_fragments w') l = None)"
proof -
  note rs = reconcile_labs_def fail_def
  obtain rc w1 where 1: "reconnectExpectedNetworks sv E w = (Inr rc, w1)"
    using assms by (auto simp: rs split: prod.splits sum.splits)
  obtain actual w2 where 2: "actualLabIDs sv w1 = (Inr actual, w2)"
    using assms 1 by (auto simp: rs split: prod.splits sum.splits)
  obtain dbs w3 where 3: "ListManaged (cv_outcomes sv) w2 = (Inr dbs, w3)"
    using assms 1 2 by (auto simp: rs split: prod.splits sum.splits)
  let ?orphans = "sort (filter (\<lambda>l. l \<notin> set E) actual)"
  obtain w4 where 4: "clean_labs sv ?orphans w3 = (Inr (), w4)"
    using assms 1 2 3 by (auto simp: reconcile_labs_def Let_def split: prod.splits sum.splits dest!: clean_failed(1))
  have "reconcile_databases sv (sort E) True dbs ?orphans rc w4 = (Inl e, w')"
    using assms 1 2 3 4 by (simp add: reconcile_labs_def Let_def)
  then have 5: "expected_databases (sort E) = None" "e = reject ''INVALID_COMMAND'' ''expected lab identity is invalid''" "w' = w4"
    using assms(2) by (auto simp: reconcile_databases_def Let_def split: option.splits prod.splits sum.splits dest!: clean_failed(2))
  note a = actualLabIDs_effect [OF 2] and m = ListManaged_Inr [OF 3] and c = clean_labs_effect [OF 4]
  have "lab_part l (containers (w_docker w4)) = {} \<and> lab_part l (networks (w_docker w4)) = {} \<and> map_of (w_fragments w4) l = None"
    if "validLabID l" "l \<notin> set E" for l
    using that a c by (cases "l \<in> set actual"; simp add: m(1))
  then show ?thesis using 5 expected_databases_None [OF 5(1)] by simp
qed

end

text \<open>
  Claim C13. A reconciliation with cleanup that succeeds leaves exactly the labs that the platform
  expects: of every other lab no container, network or gateway fragment is left; the containers,
  networks and fragments of the expected labs are those of before, and so are their databases, unless
  another lab, which was found and is not expected, has the same database name; and every lab database
  that is left is the database of an expected lab.
\<close>

theorem reconcile_converges:
  assumes "orchestrator sv C N" "Execute sv command w = (r, w')" "rp_Status r = ''succeeded''"
    and "oc_CommandType command = ''RECONCILE_RESOURCES''"
    and "decodePayload dec_reconcilePayload False (oc_Payload command) = Some \<lparr>re_ExpectedLabIDs = Some E, re_Cleanup = True\<rparr>"
  shows "(\<forall>l. validLabID l \<longrightarrow> l \<notin> set E \<longrightarrow>
      lab_part l (C (w_docker w')) = {} \<and> lab_part l (N (w_docker w')) = {} \<and> map_of (w_fragments w') l = None) \<and>
    (\<forall>l \<in> set E. lab_part l (C (w_docker w')) = lab_part l (C (w_docker w)) \<and>
      lab_part l (N (w_docker w')) = lab_part l (N (w_docker w)) \<and>
      map_of (w_fragments w') l = map_of (w_fragments w) l) \<and>
    (\<forall>l \<in> set E. \<forall>n. basicNames l = Some n \<longrightarrow>
      map_of (w_databases w') (rn_database n) = map_of (w_databases w) (rn_database n) \<or>
      (\<exists>x m. x \<notin> set E \<and> present C N x w \<and> basicNames x = Some m \<and> rn_database m = rn_database n)) \<and>
    (\<forall>d. validIdentifier d ''lab_'' [] 4 23 \<longrightarrow> map_of (w_databases w') d \<noteq> None \<longrightarrow>
      (\<exists>l \<in> set E. \<exists>n. basicNames l = Some n \<and> d = rn_database n))"
proof -
  have "reconcile sv command w = (Inr (rp_Result r), w')"
    using Execute_success [OF assms(2,3)] assms(4) by (simp add: dispatch_def)
  then have "reconcile_labs sv E True w = (Inr (rp_Result r), w')"
    using assms(5) by (auto simp: reconcile_def split: option.splits)
  then show ?thesis by (rule orchestrator.reconcile_labs_effect [OF assms(1)])
qed

theorem reconcile_converges_witness:
  "\<exists>r w'. Execute (example_service (\<lambda>_. True)) (example_reconcile [''lab-ffff0000'']) lab_world = (r, w') \<and>
     lab_part example_lab (model_container_labels (w_docker w')) = {} \<and>
     map_of (w_fragments w') ''lab-ffff0000'' = Some [example_server]"
proof -
  let ?sv = "example_service (\<lambda>_. True)" and ?c = "example_reconcile [''lab-ffff0000'']"
  obtain r w' where e: "Execute ?sv ?c lab_world = (r, w')" by fastforce
  have s': "rp_Status r = ''succeeded''" using example_reconcile_succeeds by (simp add: e)
  have c: "oc_CommandType ?c = ''RECONCILE_RESOURCES''" by (simp add: example_reconcile_def example_command_def)
  have p: "decodePayload dec_reconcilePayload False (oc_Payload ?c) =
      Some \<lparr>re_ExpectedLabIDs = Some [''lab-ffff0000''], re_Cleanup = True\<rparr>" by code_simp
  have v: "validLabID example_lab" by code_simp
  have f: "map_of (w_fragments lab_world) ''lab-ffff0000'' = Some [example_server]" by (simp add: lab_world_def)
  note rc = reconcile_converges [OF example.orchestrator_axioms e s' c p]
  have "lab_part example_lab (model_container_labels (w_docker w')) = {}" using rc v by (simp add: example_lab_def)
  moreover have "map_of (w_fragments w') ''lab-ffff0000'' = Some [example_server]" using rc f by simp
  ultimately show ?thesis using e by blast
qed

text \<open>
  Claim C40. A reconciliation with cleanup is rejected too late: when its envelope and the identifiers it
  expects are valid and distinct and it is rejected all the same, the reason is an expected
  identifier that names no database, and every lab that is not expected has by then lost its containers,
  networks and gateway fragment.
\<close>

theorem rejected_reconcile_removed_labs:
  assumes "orchestrator sv C N" "Execute sv command w = (r, w')" "rp_Status r = ''rejected''"
    and "validateEnvelope command = None" "oc_CommandType command = ''RECONCILE_RESOURCES''"
    and "decodePayload dec_reconcilePayload False (oc_Payload command) = Some \<lparr>re_ExpectedLabIDs = Some E, re_Cleanup = True\<rparr>"
    and "distinct E" "\<forall>l \<in> set E. validLabID l"
  shows "rp_Error r = JObj [(''code'', JStr ''INVALID_COMMAND''), (''message'', JStr ''expected lab identity is invalid'')] \<and>
    (\<exists>l \<in> set E. basicNames l = None) \<and>
    (\<forall>l. validLabID l \<longrightarrow> l \<notin> set E \<longrightarrow>
      lab_part l (C (w_docker w')) = {} \<and> lab_part l (N (w_docker w')) = {} \<and> map_of (w_fragments w') l = None)"
proof -
  have "check_expected [] E = None" using assms(7,8) by (intro check_expected_ok) simp_all
  then have d: "dispatch sv command w = reconcile_labs sv E True w"
    using assms(5,6) by (simp add: dispatch_def reconcile_def)
  obtain x v where x: "reconcile_labs sv E True w = (x, v)" by fastforce
  then obtain e where e: "x = Inl e" "ce_status e = ''rejected''"
    using assms(2,3,4) d by (auto simp: Execute_def commandResponse_def split: sum.splits)
  note rj = orchestrator.reconcile_labs_rejected [OF assms(1) x [unfolded e(1)] e(2)]
  have "r = commandResponse command (ce_status e) JNull (ce_code e) (ce_message e)" "w' = v"
    using assms(2,4) d x e(1) by (auto simp: Execute_def)
  then show ?thesis using rj by (simp add: commandResponse_def reject_def)
qed

theorem rejected_reconcile_removed_labs_witness:
  "\<exists>r w'. Execute (example_service (\<lambda>_. True)) (example_reconcile [''a---'']) lab_world = (r, w') \<and>
     rp_Status r = ''rejected'' \<and> lab_part example_lab (model_container_labels (w_docker lab_world)) \<noteq> {} \<and>
     lab_part example_lab (model_container_labels (w_docker w')) = {} \<and> map_of (w_fragments w') example_lab = None"
proof -
  let ?sv = "example_service (\<lambda>_. True)" and ?c = "example_reconcile [''a---'']"
  obtain r w' where e: "Execute ?sv ?c lab_world = (r, w')" by fastforce
  have s: "rp_Status r = ''rejected''" using example_reconcile_rejected by (simp add: e)
  have t: "validateEnvelope ?c = None" "oc_CommandType ?c = ''RECONCILE_RESOURCES''"
    by (simp_all add: example_reconcile_def example_envelope allowedCommands_def example_type)
  have p: "decodePayload dec_reconcilePayload False (oc_Payload ?c) =
      Some \<lparr>re_ExpectedLabIDs = Some [''a---''], re_Cleanup = True\<rparr>" by code_simp
  have v: "distinct [''a---'']" "\<forall>l \<in> set [''a---'']. validLabID l" "validLabID example_lab" "example_lab \<noteq> ''a---''" by code_simp+
  note rj = rejected_reconcile_removed_labs [OF example.orchestrator_axioms e s t p v(1,2)]
  have "''c1'' \<in> lab_part example_lab (model_container_labels (w_docker lab_world))"
    by (simp add: lab_part_def model_container_labels_def lab_world_def of_lab_def is_managed_def resourceLabels_def
        example_lab_def example_provision_def example_command_def)
  moreover have "lab_part example_lab (model_container_labels (w_docker w')) = {} \<and> map_of (w_fragments w') example_lab = None"
    using rj v(3,4) by simp
  ultimately show ?thesis using e s by blast
qed

end
