(* ===== verification/Scheduler.thy ===== *)
theory Scheduler
  imports Reconciliation Expiry
begin

text \<open>
  The scheduler of the platform, \<^verbatim>\<open>services/platform-api/internal/lifecycle/scheduler.go\<close>, the checks of the
  platform's client of the orchestrator, \<^verbatim>\<open>internal/orchestrator/client.go\<close>, and the reconciliation as the two
  processes carry it out together: the expected labs are read from the platform's database, sent to the
  orchestrator, and the orchestrator removes what belongs to no expected lab.
\<close>

subsection \<open>The client of the orchestrator\<close>

definition validResponseStatus :: "string \<Rightarrow> bool" where
  "validResponseStatus status = (status = ''accepted'' \<or> status = ''succeeded'' \<or> status = ''failed'' \<or> status = ''rejected'')"

text \<open>
  \<open>exchange\<close> is the request over the socket with the reading and decoding of the answer, \<open>None\<close> when one of
  them fails; it may change the world all the same.
\<close>

definition client_Execute ::
  "(orch_Command \<Rightarrow> 'w \<Rightarrow> CommandResponse option \<times> 'w) \<Rightarrow> orch_Command \<Rightarrow> 'w \<Rightarrow> CommandResponse option \<times> 'w" where
  "client_Execute exchange command w =
     (case exchange command w of
        (None, w1) \<Rightarrow> (None, w1)
      | (Some result, w1) \<Rightarrow>
          if rp_CommandID result \<noteq> oc_CommandID command \<or> rp_OperationID result \<noteq> oc_OperationID command then (None, w1)
          else if \<not> validResponseStatus (rp_Status result) then (None, w1)
          else (Some result, w1))"

text \<open>The socket of a running orchestrator: a request may be lost, and so may the answer.\<close>

datatype delivery = Delivered | ReplyLost | RequestLost

definition over_socket ::
  "delivery \<Rightarrow> 'd control_Service \<Rightarrow> orch_Command \<Rightarrow> 'd world \<Rightarrow> CommandResponse option \<times> 'd world" where
  "over_socket dl sv command w =
     (case dl of
        Delivered \<Rightarrow> (Some (fst (Execute sv command w)), snd (Execute sv command w))
      | ReplyLost \<Rightarrow> (None, snd (Execute sv command w))
      | RequestLost \<Rightarrow> (None, w))"

subsection \<open>The scheduler\<close>

record SchedulerConfig =
  sc_LifecyclePoll :: int
  sc_ReconcileInterval :: int
  sc_ReconcileCleanup :: bool
  sc_Deadlines :: lifecycle_config

record Scheduler =
  sd_config :: SchedulerConfig
  sd_sequence :: nat

definition NewScheduler :: "SchedulerConfig \<Rightarrow> (lab_error, Scheduler) result" where
  "NewScheduler config =
     (if sc_LifecyclePoll config \<le> 0 \<or> sc_ReconcileInterval config \<le> 0
      then Inl (ErrText ''lifecycle scheduler intervals must be positive'')
      else case validateConfig (sc_Deadlines config) of
        Some e \<Rightarrow> Inl e
      | None \<Rightarrow> Inr \<lparr>sd_config = config, sd_sequence = 0\<rparr>)"

definition advanceAt ::
  "fault \<Rightarrow> (string \<Rightarrow> nat list) \<Rightarrow> (string \<Rightarrow> platform_db \<Rightarrow> platform_db) \<Rightarrow> Scheduler \<Rightarrow> gotime \<Rightarrow> platform_db \<Rightarrow>
   (lab_error option \<times> Transition list) \<times> platform_db" where
  "advanceAt flt sha other s now db = Advance flt sha other now (sc_Deadlines (sd_config s)) db"

text \<open>What the scheduler logs of a reconciliation.\<close>

datatype reconcile_log = LoadFailed | ExecuteFailed | NotSucceeded CommandResponse | Reconciled CommandResponse

definition sched_command :: "int \<Rightarrow> int \<Rightarrow> nat \<Rightarrow> string list \<Rightarrow> bool \<Rightarrow> orch_Command" where
  "sched_command nanos1 nanos2 sequence expected cleanup =
     \<lparr>oc_CommandType = ''RECONCILE_RESOURCES'',
      oc_CommandID = ''cmd-reconcile-'' @ Itoa nanos2 @ ''-'' @ digits sequence,
      oc_OperationID = ''system-reconcile-'' @ Itoa nanos1 @ ''-'' @ digits sequence,
      oc_LabID = ''lab-system'', oc_RequestedBy = ''system'',
      oc_Payload = JsonPayload (JObj [(''expectedLabIds'', JArr (map JStr expected)), (''cleanup'', JBool cleanup)])\<rparr>"

text \<open>The two instants are the two readings of the clock.\<close>

definition sched_reconcile ::
  "fault \<Rightarrow> int \<Rightarrow> int \<Rightarrow> (orch_Command \<Rightarrow> 'w \<Rightarrow> CommandResponse option \<times> 'w) \<Rightarrow> Scheduler \<Rightarrow> platform_db \<Rightarrow> 'w \<Rightarrow>
   reconcile_log \<times> Scheduler \<times> 'w" where
  "sched_reconcile flt nanos1 nanos2 executor s db w =
     (case ExpectedLabIDs flt db of
        Inl _ \<Rightarrow> (LoadFailed, s, w)
      | Inr expected \<Rightarrow>
         (let sequence = (sd_sequence s + 1) mod 2 ^ 64;
              s1 = s\<lparr>sd_sequence := sequence\<rparr>
          in case executor (sched_command nanos1 nanos2 sequence expected (sc_ReconcileCleanup (sd_config s))) w of
            (None, w1) \<Rightarrow> (ExecuteFailed, s1, w1)
          | (Some response, w1) \<Rightarrow>
              if rp_Status response \<noteq> ''succeeded'' then (NotSucceeded response, s1, w1)
              else (Reconciled response, s1, w1)))"

text \<open>
  The loop of \<open>Run\<close>: a pass and a reconciliation, and then one of them at each tick. What the other
  processes do in between is an event of its own.
\<close>

datatype 'w tick =
    LifecycleTick fault "string \<Rightarrow> platform_db \<Rightarrow> platform_db" gotime
  | ReconcileTick fault int int
  | Others "platform_db \<Rightarrow> platform_db" "'w \<Rightarrow> 'w"

fun on_tick ::
  "(string \<Rightarrow> nat list) \<Rightarrow> (orch_Command \<Rightarrow> 'w \<Rightarrow> CommandResponse option \<times> 'w) \<Rightarrow> 'w tick \<Rightarrow>
   Scheduler \<times> platform_db \<times> 'w \<Rightarrow> Scheduler \<times> platform_db \<times> 'w" where
  "on_tick sha executor (LifecycleTick flt other now) (s, db, w) =
     (s, snd (advanceAt flt sha other s (Truncate now Microsecond) db), w)"
| "on_tick sha executor (ReconcileTick flt nanos1 nanos2) (s, db, w) =
     (case sched_reconcile flt nanos1 nanos2 executor s db w of (_, s1, w1) \<Rightarrow> (s1, db, w1))"
| "on_tick sha executor (Others f g) (s, db, w) = (s, f db, g w)"

definition sched_Run ::
  "(string \<Rightarrow> nat list) \<Rightarrow> (orch_Command \<Rightarrow> 'w \<Rightarrow> CommandResponse option \<times> 'w) \<Rightarrow>
   fault \<times> (string \<Rightarrow> platform_db \<Rightarrow> platform_db) \<times> gotime \<Rightarrow> fault \<times> int \<times> int \<Rightarrow> 'w tick list \<Rightarrow>
   Scheduler \<times> platform_db \<times> 'w \<Rightarrow> Scheduler \<times> platform_db \<times> 'w" where
  "sched_Run sha executor first second ticks st =
     (case first of (flt, other, now) \<Rightarrow> case second of (flt2, nanos1, nanos2) \<Rightarrow>
        fold (on_tick sha executor) (LifecycleTick flt other now # ReconcileTick flt2 nanos1 nanos2 # ticks) st)"

subsection \<open>The command is accepted\<close>

text \<open>The identifiers that the platform generates name a database.\<close>

definition generated :: "string \<Rightarrow> bool" where
  "generated l = (\<exists>bs. length bs = 16 \<and> newLabID (Some bs) = Inr l)"

lemma ReplaceAll_absent:
  assumes "c \<notin> set s"
  shows "ReplaceAll s [c] new = s"
  using assms by (induction s) (auto simp: ReplaceAll.simps [where s = "[]"] ReplaceAll.simps [where s = "_ # _"])

lemma generated_ok:
  assumes "generated l"
  shows "validLabID l" "basicNames l \<noteq> None"
proof -
  obtain bs where bs: "length bs = 16" "newLabID (Some bs) = Inr l" using assms by (auto simp: generated_def)
  show v: "validLabID l" using validLabID_new [OF bs(2,1)] .
  let ?h = "hex_EncodeToString bs"
  have c: "\<forall>c \<in> set ?h. is_lower c \<or> is_digit c" using hex_chars by blast
  then have "CHR ''-'' \<notin> set ?h" by (auto simp: is_lower_def less_eq_char_def)
  moreover have "TrimPrefix l ''lab-'' = ?h" using bs(2) by (auto simp: newLabID_def TrimPrefix_def HasPrefix_def)
  ultimately show "basicNames l \<noteq> None"
    using v c bs(1) by (simp add: basicNames_def ReplaceAll_absent hex_length Let_def list_all_iff)
qed

lemma digits_length: "0 < k \<Longrightarrow> n < 10 ^ k \<Longrightarrow> length (digits n) \<le> k"
proof (induction n arbitrary: k rule: digits.induct)
  case (1 n)
  show ?case
  proof (cases "n < 10")
    case False
    then obtain k' where k: "k = Suc k'" "0 < k'" using 1(2,3) by (cases k; cases "k - 1") auto
    then have "n div 10 < 10 ^ k'" using 1(3) by (simp add: less_mult_imp_div_less mult.commute)
    then show ?thesis using 1(1) [OF False k(2)] False k by (simp add: digits.simps [of n])
  qed (use 1 in \<open>simp add: digits.simps [of n]\<close>)
qed

lemma operation_chars_append: "operation_chars i (s @ t) \<longleftrightarrow> operation_chars i s \<and> operation_chars (i + length s) t"
  by (induction s arbitrary: i) auto

lemma Itoa_chars: "c \<in> set (Itoa i) \<Longrightarrow> is_digit c \<or> c = CHR ''-''"
  using digits_are_digits by (auto simp: Itoa_def split: if_splits)

definition int64 :: "int \<Rightarrow> bool" where
  "int64 i = (- (2 ^ 63) \<le> i \<and> i < 2 ^ 63)"

lemma Itoa_length: "int64 i \<Longrightarrow> length (Itoa i) \<le> 20"
proof -
  assume "int64 i"
  then have "\<bar>i\<bar> < 10000000000000000000" by (simp add: int64_def abs_if)
  then have "nat \<bar>i\<bar> < 10 ^ 19" by (simp add: nat_less_iff)
  from digits_length [OF _ this] show ?thesis by (auto simp: Itoa_def abs_if split: if_splits)
qed

lemma sched_token:
  assumes "int64 nanos" "sequence < 2 ^ 64" "operation_chars 0 p" "0 < length p" "length p \<le> 17"
  shows "validToken (p @ Itoa nanos @ ''-'' @ digits sequence)"
proof -
  have "length (digits sequence) \<le> 20" using assms(2) by (intro digits_length) simp_all
  moreover have "operation_chars (length p) (Itoa nanos)" "operation_chars (Suc (length p + length (Itoa nanos))) (digits sequence)"
    using assms(4) Itoa_chars digits_are_digits by (blast intro: operation_chars_plain)+
  ultimately show ?thesis using Itoa_length [OF assms(1)] assms(3-5)
    by (simp add: validToken_def operation_chars_append)
qed

lemma sched_envelope:
  assumes "int64 nanos1" "int64 nanos2" "sequence < 2 ^ 64"
  shows "validateEnvelope (sched_command nanos1 nanos2 sequence expected cleanup) = None"
proof -
  have "operation_chars 0 ''cmd-reconcile-''" "operation_chars 0 ''system-reconcile-''" "validLabID ''lab-system''" "validToken ''system''"
    by code_simp+
  then show ?thesis
    using sched_token [OF assms(1,3), of "''system-reconcile-''"] sched_token [OF assms(2,3), of "''cmd-reconcile-''"]
    by (simp add: validateEnvelope_def sched_command_def allowedCommands_def)
qed

lemma sched_payload:
  "decodePayload dec_reconcilePayload False (oc_Payload (sched_command nanos1 nanos2 sequence expected cleanup)) =
     Some \<lparr>re_ExpectedLabIDs = Some expected, re_Cleanup = cleanup\<rparr>"
proof -
  have "decode_all (string_step []) (map JStr expected) = Some expected" by (induction expected) simp_all
  then show ?thesis
    by (simp add: sched_command_def decodePayload_def dec_reconcilePayload_def strict_members_def values_of_def
        same_key_def to_lower_def is_upper_def)
qed

lemma expected_databases_ok: "\<forall>l \<in> set ls. basicNames l \<noteq> None \<Longrightarrow> expected_databases ls \<noteq> None"
  by (induction ls) (auto split: option.splits)

subsection \<open>What a reconciliation spares\<close>

text \<open>The containers, networks and routes of a lab are the same.\<close>

definition untouched :: "('d \<Rightarrow> resources) \<Rightarrow> ('d \<Rightarrow> resources) \<Rightarrow> string \<Rightarrow> 'd world \<Rightarrow> 'd world \<Rightarrow> bool" where
  "untouched C N l w w' = (lab_part l (C (w_docker w')) = lab_part l (C (w_docker w)) \<and>
     lab_part l (N (w_docker w')) = lab_part l (N (w_docker w)) \<and> map_of (w_fragments w') l = map_of (w_fragments w) l)"

lemma untouched_refl [simp]: "untouched C N l w w"
  by (simp add: untouched_def)

lemma untouched_trans: "untouched C N l w w1 \<Longrightarrow> untouched C N l w1 w2 \<Longrightarrow> untouched C N l w w2"
  by (simp add: untouched_def)

context orchestrator
begin

lemma quiet_untouched: "quiet w w' \<Longrightarrow> untouched containers networks l w w'"
  by (simp add: quiet_def same_def files_kept_def untouched_def)

lemma clean_labs_untouched:
  "clean_labs sv ls w = (r, w') \<Longrightarrow> l \<notin> set ls \<Longrightarrow> untouched containers networks l w w'"
proof (induction ls arbitrary: w)
  case (Cons x ls)
  show ?case
  proof (cases "basicNames x")
    case (Some n)
    obtain es w1 where d: "destroyResources sv x n w = (es, w1)" by fastforce
    have "x \<noteq> []" "n \<in> names_of (cv_registry sv) x"
      using Some by (auto simp: basicNames_def validLabID_def names_of_def split: if_splits)
    from lab_step_other [OF destroyResources_effect(1) [OF d this]] Cons.prems(2)
    have "untouched containers networks l w w1" by (simp add: untouched_def)
    then show ?thesis using Cons.IH [of w1] Cons.prems Some d
      by (auto split: if_splits intro: untouched_trans)
  qed (use Cons.prems in simp)
qed simp

lemma clean_databases_untouched: "clean_databases sv ds w = (r, w') \<Longrightarrow> untouched containers networks l w w'"
proof (induction ds arbitrary: w)
  case (Cons d ds)
  obtain r1 w1 where 1: "db_Destroy (cv_outcomes sv) (md_DatabaseName d) (md_UserName d) w = (r1, w1)" by fastforce
  have "db_frame (md_DatabaseName d) (md_UserName d) w w1"
    using db_operations_framed(4) [of "md_DatabaseName d" "md_UserName d" w] 1 by (metis snd_conv)
  then have "untouched containers networks l w w1" by (simp add: db_frame_def untouched_def)
  then show ?case using Cons.IH [of w1] Cons.prems 1 by (auto split: sum.splits intro: untouched_trans)
qed simp

lemma reconcile_databases_untouched:
  "reconcile_databases sv ids c ds os rc w = (r, w') \<Longrightarrow> untouched containers networks l w w'"
  by (auto simp: reconcile_databases_def Let_def split: option.splits prod.splits sum.splits if_splits
      dest!: clean_databases_untouched [where l = l])

lemma actualLabIDs_quiet: "actualLabIDs sv w = (r, w') \<Longrightarrow> quiet w w'"
  by (auto simp: actualLabIDs_def split: prod.splits sum.splits dest!: requests_quiet(2,3) intro: quiet_trans)

lemma ListManaged_untouched: "ListManaged ora w = (r, w') \<Longrightarrow> untouched containers networks l w w'"
  by (auto simp: ListManaged_def Let_def untouched_def split: outcome.splits if_splits)

lemma reconcile_labs_untouched:
  assumes "reconcile_labs sv E c w = (r, w')" "l \<in> set E"
  shows "untouched containers networks l w w'"
proof -
  obtain rc w1 where 1: "reconnectExpectedNetworks sv E w = (rc, w1)" by fastforce
  obtain actual w2 where 2: "actualLabIDs sv w1 = (actual, w2)" by fastforce
  obtain dbs w3 where 3: "ListManaged (cv_outcomes sv) w2 = (dbs, w3)" by fastforce
  note u1 = quiet_untouched [OF reconnect_quiet [OF 1]]
  note u2 = untouched_trans [OF u1 quiet_untouched [OF actualLabIDs_quiet [OF 2]]]
  note u3 = untouched_trans [OF u2 ListManaged_untouched [OF 3]]
  show ?thesis
  proof (cases "(\<exists>e. rc = Inl e) \<or> (\<exists>e. actual = Inl e) \<or> (\<exists>e. dbs = Inl e)")
    case True
    then show ?thesis using assms(1) u1 u2 u3
      by (auto simp: reconcile_labs_def 1 2 3 split: sum.splits)
  next
    case False
    then obtain rs as ds where ok: "rc = Inr rs" "actual = Inr as" "dbs = Inr ds" by (metis sum.exhaust)
    let ?orphans = "sort (filter (\<lambda>l. l \<notin> set E) as)"
    obtain r4 w4 where 4: "(if c then clean_labs sv ?orphans w3 else (Inr (), w3)) = (r4, w4)" by fastforce
    have "untouched containers networks l w3 w4"
      using 4 assms(2) by (cases c) (auto dest!: clean_labs_untouched [where l = l])
    note u4 = untouched_trans [OF u3 this]
    from assms(1) have "w' = w4 \<or> reconcile_databases sv (sort E) c ds ?orphans rs w4 = (r, w')"
      by (auto simp: reconcile_labs_def 1 2 3 ok 4 Let_def split: sum.splits)
    then show ?thesis using u4 by (auto dest!: reconcile_databases_untouched [where l = l] intro: untouched_trans)
  qed
qed

lemma reconcile_labs_failed:
  assumes "reconcile_labs sv E c w = (Inl e, w')" "\<forall>l \<in> set E. basicNames l \<noteq> None"
  shows "ce_status e = ''failed''"
proof -
  have "expected_databases (sort E) \<noteq> None" using assms(2) by (intro expected_databases_ok) simp
  then have "reconcile_databases sv (sort E) c ds os rc w1 = (Inl e, w') \<Longrightarrow> ce_status e = ''failed''" for ds os rc w1
    by (auto simp: reconcile_databases_def Let_def split: prod.splits sum.splits if_splits dest!: clean_failed(2))
  then show ?thesis using assms(1)
    by (auto simp: reconcile_labs_def Let_def fail_def split: prod.splits sum.splits if_splits dest!: clean_failed(1))
qed

end

subsection \<open>The round of the two processes\<close>

text \<open>The labs whose resources the platform expects.\<close>

definition live_labs :: "platform_db \<Rightarrow> string set" where
  "live_labs db = ls_id ` {s \<in> set (sessions db). ls_status s \<in> {Preparing, Running, Expiring, Terminating}}"

lemma ExpectedLabIDs_Inr:
  assumes "ExpectedLabIDs flt db = Inr E" "distinct (map ls_id (sessions db))" "\<forall>s \<in> set (sessions db). generated (ls_id s)"
  shows "set E = live_labs db" "distinct E" "\<forall>l \<in> set E. validLabID l \<and> basicNames l \<noteq> None"
  using assms generated_ok
  by (auto simp: ExpectedLabIDs_def live_labs_def distinct_map_filter distinct_map inj_on_def split: if_splits)

lemma sched_dispatch:
  assumes "int64 nanos1" "int64 nanos2" "sequence < 2 ^ 64" "distinct E" "\<forall>l \<in> set E. validLabID l"
  shows "validateEnvelope (sched_command nanos1 nanos2 sequence E cleanup) = None"
    "dispatch sv (sched_command nanos1 nanos2 sequence E cleanup) w = reconcile_labs sv E cleanup w"
proof -
  show "validateEnvelope (sched_command nanos1 nanos2 sequence E cleanup) = None" using sched_envelope [OF assms(1-3)] .
  have "check_expected [] E = None" using assms(4,5) by (intro check_expected_ok) simp_all
  moreover have "oc_CommandType (sched_command nanos1 nanos2 sequence E cleanup) = ''RECONCILE_RESOURCES''"
    by (simp add: sched_command_def)
  ultimately show "dispatch sv (sched_command nanos1 nanos2 sequence E cleanup) w = reconcile_labs sv E cleanup w"
    by (simp add: dispatch_def reconcile_def sched_payload)
qed

text \<open>The client accepts every answer of the control service.\<close>

lemma client_accepts:
  "client_Execute (over_socket dl sv) command w =
     (if dl = Delivered then (Some (fst (Execute sv command w)), snd (Execute sv command w))
      else (None, if dl = ReplyLost then snd (Execute sv command w) else w))"
proof -
  let ?r = "fst (Execute sv command w)"
  have "rp_CommandID ?r = oc_CommandID command" "rp_OperationID ?r = oc_OperationID command"
    by (simp_all add: Execute_def commandResponse_def split: option.splits prod.splits sum.splits)
  moreover have "validResponseStatus (rp_Status ?r)"
    by (auto simp: Execute_def commandResponse_def validResponseStatus_def final_error_def
        split: option.splits prod.splits sum.splits dest!: dispatch_final)
  ultimately show ?thesis by (cases dl) (simp_all add: client_Execute_def over_socket_def)
qed

text \<open>
  Claim C24. A reconciliation by the scheduler and the orchestrator spares the labs that are alive: however
  it ends, and whether or not requests and answers arrive, the containers, networks and routes of every
  lab that the platform's database shows as preparing, running, expiring or terminating are as before. The
  command is never rejected, the client of the platform accepts every answer that arrives, and if
  the scheduler logs success with cleanup, no other lab has a container, a network or a route.
\<close>

theorem scheduled_reconciliation_spares_live:
  assumes "orchestrator sv C N" "int64 nanos1" "int64 nanos2"
    and "distinct (map ls_id (sessions db))" "\<forall>s \<in> set (sessions db). generated (ls_id s)"
    and "sched_reconcile flt nanos1 nanos2 (client_Execute (over_socket dl sv)) s db w = (entry, s', w')"
  shows "(\<forall>l \<in> live_labs db. lab_part l (C (w_docker w')) = lab_part l (C (w_docker w)) \<and>
      lab_part l (N (w_docker w')) = lab_part l (N (w_docker w)) \<and> map_of (w_fragments w') l = map_of (w_fragments w) l) \<and>
    (case entry of
       LoadFailed \<Rightarrow> w' = w
     | ExecuteFailed \<Rightarrow> dl \<noteq> Delivered
     | NotSucceeded r \<Rightarrow> rp_Status r = ''failed''
     | Reconciled r \<Rightarrow> sc_ReconcileCleanup (sd_config s) \<longrightarrow> (\<forall>l. validLabID l \<longrightarrow> l \<notin> live_labs db \<longrightarrow>
         lab_part l (C (w_docker w')) = {} \<and> lab_part l (N (w_docker w')) = {} \<and> map_of (w_fragments w') l = None))"
proof (cases "ExpectedLabIDs flt db")
  case (Inl e)
  then show ?thesis using assms(6) by (simp add: sched_reconcile_def)
next
  case (Inr E)
  let ?seq = "(sd_sequence s + 1) mod 2 ^ 64"
  let ?cleanup = "sc_ReconcileCleanup (sd_config s)"
  let ?c = "sched_command nanos1 nanos2 ?seq E ?cleanup"
  note E = ExpectedLabIDs_Inr [OF Inr assms(4,5)]
  have "?seq < 2 ^ 64" by simp
  then have d: "validateEnvelope ?c = None" "dispatch sv ?c w = reconcile_labs sv E ?cleanup w"
    using E(3) by (intro sched_dispatch [OF assms(2,3) _ E(2)]; simp)+
  obtain x v where x: "reconcile_labs sv E ?cleanup w = (x, v)" by fastforce
  have ex: "snd (Execute sv ?c w) = v" "rp_Status (fst (Execute sv ?c w)) = case_sum ce_status (\<lambda>_. ''succeeded'') x"
    using d x by (auto simp: Execute_def commandResponse_def split: sum.splits)
  have u: "untouched C N l w w'" if "l \<in> set E" for l
  proof -
    have "w' = w \<or> w' = v" using assms(6) ex
      by (auto simp: sched_reconcile_def Inr Let_def client_accepts split: if_splits)
    then show ?thesis using orchestrator.reconcile_labs_untouched [OF assms(1) x that] by auto
  qed
  have "case entry of LoadFailed \<Rightarrow> w' = w | ExecuteFailed \<Rightarrow> dl \<noteq> Delivered | NotSucceeded r \<Rightarrow> rp_Status r = ''failed''
     | Reconciled r \<Rightarrow> ?cleanup \<longrightarrow> (\<forall>l. validLabID l \<longrightarrow> l \<notin> live_labs db \<longrightarrow>
         lab_part l (C (w_docker w')) = {} \<and> lab_part l (N (w_docker w')) = {} \<and> map_of (w_fragments w') l = None)"
  proof (cases x)
    case (Inl e)
    then have "ce_status e = ''failed''" using orchestrator.reconcile_labs_failed [OF assms(1), of E ?cleanup w e v] x E(3) by simp
    then show ?thesis using assms(6) ex Inl by (auto simp: sched_reconcile_def Inr Let_def client_accepts split: if_splits)
  next
    case Inr': (Inr y)
    have "?cleanup \<Longrightarrow> \<forall>l. validLabID l \<longrightarrow> l \<notin> set E \<longrightarrow>
         lab_part l (C (w_docker v)) = {} \<and> lab_part l (N (w_docker v)) = {} \<and> map_of (w_fragments v) l = None"
      using orchestrator.reconcile_labs_effect [OF assms(1), of E w y v] x Inr' by simp
    then show ?thesis using assms(6) ex Inr' E(1)
      by (auto simp: sched_reconcile_def Inr Let_def client_accepts split: if_splits)
  qed
  then show ?thesis using u E(1) by (simp add: untouched_def)
qed

definition demo_scheduler :: Scheduler where
  "demo_scheduler = \<lparr>sd_config = \<lparr>sc_LifecyclePoll = 1, sc_ReconcileInterval = 1, sc_ReconcileCleanup = True,
     sc_Deadlines = \<lparr>lf_IdleTimeout = 10, lf_MaxDuration = 20, lf_ExpiringLead = 5\<rparr>\<rparr>, sd_sequence = 0\<rparr>"

theorem scheduled_reconciliation_spares_live_witness:
  "\<exists>entry s' w'. sched_reconcile no_faults 5 6 (client_Execute (over_socket Delivered (example_service (\<lambda>_. True))))
       demo_scheduler demo1 lab_world = (entry, s', w') \<and> entry \<notin> {LoadFailed, ExecuteFailed} \<and> demo_lab \<in> live_labs demo1 \<and>
     lab_part demo_lab (model_container_labels (w_docker w')) = lab_part demo_lab (model_container_labels (w_docker lab_world))"
proof -
  let ?sv = "example_service (\<lambda>_. True)"
  obtain entry s' w' where e: "sched_reconcile no_faults 5 6 (client_Execute (over_socket Delivered ?sv)) demo_scheduler demo1 lab_world =
    (entry, s', w')" by (metis prod.exhaust)
  have d: "map ls_id (sessions demo1) = [demo_lab]" "map ls_status (sessions demo1) = [Preparing]" by code_simp+
  have "generated demo_lab" unfolding generated_def by (intro exI [of _ "replicate 16 1"]) (simp add: newLabID_def demo_lab_def)
  then have s: "distinct (map ls_id (sessions demo1))" "\<forall>x \<in> set (sessions demo1). generated (ls_id x)" using d(1) by auto
  have i: "int64 5" "int64 6" by (simp_all add: int64_def)
  have l: "demo_lab \<in> live_labs demo1" using d by (auto simp: live_labs_def)
  note sp = scheduled_reconciliation_spares_live [OF example.orchestrator_axioms i s e]
  moreover have "entry \<noteq> LoadFailed" using e by (auto simp: sched_reconcile_def ExpectedLabIDs_def no_faults_def Let_def split: option.splits prod.splits if_splits)
  ultimately show ?thesis using e l by (auto split: reconcile_log.splits)
qed

end
