(* ===== verification/Completions.thy ===== *)
theory Completions
  imports Leases PlatformMachine
begin

text \<open>
  Completed operations over the runs of the platform: a row of \<^verbatim>\<open>lab_operations\<close> that ended is never
  written again by any transaction, so an operation is completed at most once.
\<close>

subsection \<open>Rows that ended\<close>

definition ended :: "operation_row \<Rightarrow> bool" where
  "ended x = (\<not> op_active (lo_status x))"

text \<open>Every row that ended in the first database is in the second, unchanged.\<close>

definition keeps_ended :: "platform_db \<Rightarrow> platform_db \<Rightarrow> bool" where
  "keeps_ended db db' = (\<forall>x \<in> set (operations db). ended x \<longrightarrow> x \<in> set (operations db'))"

lemma keeps_ended_same: "operations db' = operations db \<Longrightarrow> keeps_ended db db'"
  by (simp add: keeps_ended_def)

lemma keeps_ended_trans: "keeps_ended a b \<Longrightarrow> keeps_ended b c \<Longrightarrow> keeps_ended a c"
  by (simp add: keeps_ended_def)

lemma keeps_ended_refl [simp]: "keeps_ended db db"
  by (simp add: keeps_ended_def)

lemma keeps_ended_insert:
  "insert_operation k l u a t pl now db = Some (oid, db') \<Longrightarrow> keeps_ended db db'"
  by (auto simp: insert_operation_def keeps_ended_def split: if_splits)

lemma keeps_ended_update:
  assumes "operations db' = map (\<lambda>x. if P x then f x else x) (operations db)"
    "\<And>x. x \<in> set (operations db) \<Longrightarrow> P x \<Longrightarrow> op_active (lo_status x)"
  shows "keeps_ended db db'"
  unfolding keeps_ended_def
proof (intro ballI impI)
  fix x assume x: "x \<in> set (operations db)" "ended x"
  then have "\<not> P x" using assms(2) unfolding ended_def by blast
  then show "x \<in> set (operations db')"
    using image_eqI [of x "\<lambda>x. if P x then f x else x" x "set (operations db)"] x(1) by (simp add: assms(1))
qed

lemma keeps_ended_create:
  assumes "create_rows flt u c k l sc now db = Inr (r, db')"
  shows "keeps_ended db db'"
proof -
  obtain a t pl oid db1 db2 where i: "insert_operation k l u a t pl now db1 = Some (oid, db2)"
    "operations db1 = operations db" "operations db' = operations db2"
    using assms by (auto simp: create_rows_def Let_def update_last_lab_def split: if_splits option.splits)
  show ?thesis
    using keeps_ended_insert [OF i(1)] i(2,3) by (simp add: keeps_ended_def)
qed

lemma keeps_ended_Create:
  assumes "svc_Create flt id q clock bs u c k db = (r, db')"
  shows "keeps_ended db db'"
proof (cases "db' = db")
  case False
  then obtain l now a where "create_locked flt u c k l q now db = Inr (a, db')"
    using assms by (auto simp: svc_Create_def lab_Create_def atomically_def split: if_splits option.splits sum.splits)
  then obtain sc where "create_rows flt u c k l sc now db = Inr (a, db')"
    using False by (auto simp: create_locked_def map_sum_Inr split: if_splits option.splits)
  then show ?thesis by (rule keeps_ended_create)
qed simp

lemma keeps_ended_enqueue:
  assumes "enqueue_locked flt u l k a reason now db = Inr (r, db')"
  shows "keeps_ended db db'"
proof (cases "findActionByOperationID k db")
  case (Some o')
  then have "db' = db"
    using assms by (auto simp: enqueue_locked_def matchingActionResult_def split: if_split_asm option.split_asm)
  then show ?thesis by simp
next
  case None
  then obtain pl db1 oid where i: "insert_operation k l u a None pl now db1 = Some (oid, db')"
    "operations db1 = operations db"
    using assms by (auto simp: enqueue_locked_def mark_terminating_def Let_def
        split: if_split_asm option.split_asm sum.split_asm prod.split_asm)
  then show ?thesis using keeps_ended_insert [OF i(1)] by (simp add: keeps_ended_def)
qed

lemma keeps_ended_EnqueueAction:
  assumes "EnqueueAction flt id u l k a reason now db = (r, db')"
  shows "keeps_ended db db'"
  using assms keeps_ended_enqueue [of flt u l k a reason now db]
  by (auto simp: EnqueueAction_def atomically_def split: if_splits option.splits sum.splits)

lemma keeps_ended_topology:
  assumes "topology_locked flt u l input q now db = Inr (r, db')"
  shows "keeps_ended db db'"
  using assms by (auto simp: topology_locked_def dest!: keeps_ended_insert split: if_splits option.splits sum.splits)

lemma keeps_ended_cache:
  assumes "cache_locked flt u l input now db = Inr (r, db')"
  shows "keeps_ended db db'"
  using assms by (auto simp: cache_locked_def dest!: keeps_ended_insert split: if_splits option.splits sum.splits)

lemma keeps_ended_Action:
  assumes "svc_Action flt id q clock u l input db = (r, db')"
  shows "keeps_ended db db'"
  using assms keeps_ended_topology [of flt u l input q "Truncate clock Microsecond" db]
    keeps_ended_cache [of flt u l input "Truncate clock Microsecond" db]
  by (auto simp: svc_Action_def EnqueueTopologyAction_def EnqueueCacheAction_def atomically_def
      split: if_splits option.splits sum.splits)

lemma keeps_ended_adjustment:
  assumes "EnqueueAdjustment flt sha a now db = (r, db')"
  shows "keeps_ended db db'"
  using assms
  by (auto simp: EnqueueAdjustment_def atomically_def adjustment_locked_def dest!: keeps_ended_insert
      split: if_splits option.splits sum.splits)

lemma move_session_operations: "move_session l src f db = Inr db' \<Longrightarrow> operations db' = operations db"
  by (auto simp: move_session_def Let_def split: if_splits prod.splits)

lemma keeps_ended_advance:
  assumes "advanceOne flt sha l now c db = (r, db')"
  shows "keeps_ended db db'"
  using advanceOne_cases [OF assms]
proof cases
  case (2 m n d src dst t)
  then show ?thesis
    by (intro keeps_ended_same) (auto simp: advance_status_def dest: move_session_operations split: if_splits sum.splits)
next
  case (3 u reason t)
  then show ?thesis
    by (auto simp: advance_terminating_def Let_def keeps_ended_def dest!: move_session_operations keeps_ended_insert
        split: if_splits option.splits sum.splits)
qed simp

lemma keeps_ended_Claim:
  assumes "Claim flt locked w now until db = (Inr rec, db')" "db_wf db"
  shows "keeps_ended db db'"
proof -
  obtain row where row: "next_claim locked now db = Some row"
    and u: "operations db' = map (\<lambda>x. if lo_id x = lo_id row then x\<lparr>lo_status := OpClaimed,
       lo_lease_owner := Some w, lo_lease_expires_at := Some until,
       lo_attempt_count := lo_attempt_count x + 1, lo_updated_at := now\<rparr> else x) (operations db)"
    using assms(1) by (rule Claim_Inr)
  have "x = row" if "x \<in> set (operations db)" "lo_id x = lo_id row" for x
    using that assms(2) next_claim_in [OF row] ops_inj by blast
  then show ?thesis using next_claim_in [OF row] claim_active by (intro keeps_ended_update [OF u]) blast
qed

lemma keeps_ended_Mark:
  assumes "MarkRunning flt rec now until db = (e, db')"
  shows "keeps_ended db db'"
proof (cases "db' = db")
  case False
  then have "operations db' = map (\<lambda>x. if lo_id x = rec_ID rec \<and> lo_status x = OpClaimed \<and>
      lo_lease_owner x = Some (rec_LeaseOwner rec) then x\<lparr>lo_status := OpRunning, lo_lease_expires_at := Some until,
      lo_updated_at := now\<rparr> else x) (operations db)"
    using assms by (auto simp: MarkRunning_def exec_update_def Let_def split: if_splits)
  then show ?thesis by (rule keeps_ended_update) (simp add: op_active_def)
qed simp

lemma keeps_ended_record:
  assumes "completeOperationRecord flt rec st res ec em now db = Inr db'"
  shows "keeps_ended db db'"
proof -
  have "operations db' = map (\<lambda>x. if lo_id x = rec_ID rec \<and> lo_status x = OpRunning \<and>
      lo_lease_owner x = Some (rec_LeaseOwner rec) then x\<lparr>lo_status := st, lo_result := res,
      lo_error_code := nullif ec, lo_error_message := nullif em, lo_lease_owner := None,
      lo_lease_expires_at := None, lo_completed_at := Some now, lo_updated_at := now\<rparr> else x) (operations db)"
    using assms by (auto simp: completeOperationRecord_def exec_update_def requireOneRow_def split: if_splits)
  then show ?thesis by (rule keeps_ended_update) (simp add: op_active_def)
qed

text \<open>A completion that succeeded wrote the row that was leased, and no other.\<close>

definition completed_row :: "Record \<Rightarrow> gotime \<Rightarrow> operation_row \<Rightarrow> bool" where
  "completed_row rec now x = (lo_id x = rec_ID rec \<and> lo_status x \<in> {OpSucceeded, OpFailed} \<and> lo_completed_at x = Some now)"

lemma record_written:
  assumes "completeOperationRecord flt rec st res ec em now db = Inr db'" "st \<in> {OpSucceeded, OpFailed}"
  shows "\<exists>x \<in> set (operations db'). completed_row rec now x"
proof -
  let ?f = "\<lambda>x. x\<lparr>lo_status := st, lo_result := res, lo_error_code := nullif ec, lo_error_message := nullif em,
    lo_lease_owner := None, lo_lease_expires_at := None, lo_completed_at := Some now, lo_updated_at := now\<rparr>"
  have u: "operations db' = map (\<lambda>x. if lo_id x = rec_ID rec \<and> lo_status x = OpRunning \<and>
      lo_lease_owner x = Some (rec_LeaseOwner rec) then ?f x else x) (operations db)"
    using assms by (auto simp: completeOperationRecord_def exec_update_def requireOneRow_def split: if_splits)
  obtain x where "x \<in> set (operations db)" "lo_id x = rec_ID rec" "lo_status x = OpRunning"
    "lo_lease_owner x = Some (rec_LeaseOwner rec)"
    using completeOperationRecord_leased [OF assms(1)] by (auto simp: leased_def)
  then have "?f x \<in> set (operations db')" unfolding u by force
  then show ?thesis using assms(2) \<open>lo_id x = rec_ID rec\<close> unfolding completed_row_def
    by (intro bexI [of _ "?f x"]) simp_all
qed

lemma complete_tx_kept:
  assumes "complete_tx flt bm cm app (completeOperationRecord flt rec st res ec em now) mv db = (e, db')"
    "\<And>d. app db = Inr d \<Longrightarrow> operations d = operations db" "\<And>d. mv d = Inr db' \<Longrightarrow> operations db' = operations d"
    "st \<in> {OpSucceeded, OpFailed}"
  shows "keeps_ended db db' \<and> (e = None \<longrightarrow> (\<exists>x \<in> set (operations db'). completed_row rec now x))"
  using assms(1)
proof (rule complete_tx_cases)
  fix db1 db2
  assume a: "app db = Inr db1" "completeOperationRecord flt rec st res ec em now db1 = Inr db2" "mv db2 = Inr db'"
  have "operations db1 = operations db" "operations db' = operations db2" using assms(2,3) a(1,3) by blast+
  then show ?thesis using keeps_ended_record [OF a(2)] record_written [OF a(2) assms(4)] by (simp add: keeps_ended_def)
qed auto

lemma finish_kept:
  assumes "finish_with k flt rec ec em now db = (e, db')"
  shows "keeps_ended db db' \<and> (e = None \<and> leased rec db \<longrightarrow> (\<exists>x \<in> set (operations db'). completed_row rec now x))"
proof (cases k)
  case DoneFailure
  let ?f = "\<lambda>x. x\<lparr>lo_status := OpFailed, lo_error_code := Some ec, lo_error_message := Some em, lo_lease_owner := None,
    lo_lease_expires_at := None, lo_completed_at := Some now, lo_updated_at := now\<rparr>"
  let ?g = "\<lambda>x. if lo_id x = rec_ID rec \<and> lo_status x = OpRunning \<and>
    lo_lease_owner x = Some (rec_LeaseOwner rec) then ?f x else x"
  show ?thesis
  proof (cases "db' = db \<and> e \<noteq> None")
    case False
    then have u: "operations db' = map ?g (operations db)"
      using assms DoneFailure by (auto simp: CompleteFailure_def exec_update_def split: if_splits)
    have "\<exists>x \<in> set (operations db'). completed_row rec now x" if "leased rec db"
    proof -
      obtain x where x: "x \<in> set (operations db)" "lo_id x = rec_ID rec" "lo_status x = OpRunning"
        "lo_lease_owner x = Some (rec_LeaseOwner rec)" using \<open>leased rec db\<close> by (auto simp: leased_def)
      then have "?f x \<in> set (operations db')" unfolding u by force
      then show ?thesis using x(2) unfolding completed_row_def by (intro bexI [of _ "?f x"]) simp_all
    qed
    moreover have "keeps_ended db db'" using u by (rule keeps_ended_update) (simp add: op_active_def)
    ultimately show ?thesis by blast
  qed auto
next
  case (DoneProvision v)
  note tx = assms [unfolded DoneProvision finish_with.simps CompleteProvision_def]
  have "keeps_ended db db' \<and> (e = None \<longrightarrow> (\<exists>x \<in> set (operations db'). completed_row rec now x))"
    by (rule complete_tx_kept [OF tx applied_operations(1)]) (auto dest: update_session_operations split: if_splits)
  then show ?thesis by blast
next
  case (DoneReset v)
  note tx = assms [unfolded DoneReset finish_with.simps CompleteReset_def]
  have "keeps_ended db db' \<and> (e = None \<longrightarrow> (\<exists>x \<in> set (operations db'). completed_row rec now x))"
    by (rule complete_tx_kept [OF tx applied_operations(1)]) (auto dest: update_session_operations split: if_splits)
  then show ?thesis by blast
next
  case DoneDestroy
  note tx = assms [unfolded DoneDestroy finish_with.simps CompleteDestroy_def]
  have "keeps_ended db db' \<and> (e = None \<longrightarrow> (\<exists>x \<in> set (operations db'). completed_row rec now x))"
    by (rule complete_tx_kept [OF tx]) (auto dest: update_session_operations split: if_splits)
  then show ?thesis by blast
next
  case (DoneTopology v)
  note tx = assms [unfolded DoneTopology finish_with.simps CompleteTopology_def]
  have "keeps_ended db db' \<and> (e = None \<longrightarrow> (\<exists>x \<in> set (operations db'). completed_row rec now x))"
    by (rule complete_tx_kept [OF tx applied_operations(2)]) (auto dest: update_session_operations split: if_splits)
  then show ?thesis by blast
next
  case (DoneCache v)
  note tx = assms [unfolded DoneCache finish_with.simps CompleteCache_def]
  have "keeps_ended db db' \<and> (e = None \<longrightarrow> (\<exists>x \<in> set (operations db'). completed_row rec now x))"
    by (rule complete_tx_kept [OF tx applied_operations(3)]) (auto dest: update_session_operations split: if_splits)
  then show ?thesis by blast
qed

subsection \<open>Runs\<close>

text \<open>The completions that the worker chooses for an action.\<close>

fun completes :: "completion \<Rightarrow> action \<Rightarrow> bool" where
  "completes (DoneProvision v) a = (a = CREATE_LAB)"
| "completes (DoneReset v) a = (a = RESET_LAB)"
| "completes DoneDestroy a = (a = DESTROY_LAB)"
| "completes (DoneTopology v) a = topology_action a"
| "completes (DoneCache v) a = isCacheAction a"
| "completes DoneFailure a = settled_action a"

lemma completion_step:
  assumes "rec \<in> pf_held p" "completes k (rec_Action rec)" "finish_with k flt rec ec em now (pf_db p) = (e, db')"
  shows "platform_step p (p\<lparr>pf_db := db'\<rparr>)"
  using assms by (cases k) (auto intro: platform_step.intros)

lemma keeps_ended_step:
  assumes "platform_step p q" "db_wf (pf_db p)"
  shows "keeps_ended (pf_db p) (pf_db q)"
  using assms(1)
proof (cases rule: platform_step.cases)
  case (p_reset flt clock u l k r' db')
  then show ?thesis by (auto simp: svc_Reset_def split: if_splits intro: keeps_ended_EnqueueAction)
next
  case (p_terminate flt clock u l k r' db')
  then show ?thesis by (auto simp: svc_Terminate_def split: if_splits intro: keeps_ended_EnqueueAction)
next
  case (p_claim flt locked w now until rec db')
  then show ?thesis using assms(2) keeps_ended_Claim by auto
next
  case (p_provision rec flt v ec em now e db')
  then show ?thesis using finish_kept [of "DoneProvision v"] by auto
next
  case (p_reset_done rec flt v ec em now e db')
  then show ?thesis using finish_kept [of "DoneReset v"] by auto
next
  case (p_destroy_done rec flt ec em now e db')
  then show ?thesis using finish_kept [of DoneDestroy] by auto
next
  case (p_topology rec flt tv ec em now e db')
  then show ?thesis using finish_kept [of "DoneTopology tv"] by auto
next
  case (p_cache rec flt cv ec em now e db')
  then show ?thesis using finish_kept [of "DoneCache cv"] by auto
next
  case (p_failure rec flt ec em now e db')
  then show ?thesis using finish_kept [of DoneFailure] by auto
qed (auto intro: keeps_ended_Create keeps_ended_Action keeps_ended_adjustment keeps_ended_advance keeps_ended_Mark)

lemma keeps_ended_run:
  assumes "platform_step\<^sup>*\<^sup>* p q" "platform_inv p"
  shows "keeps_ended (pf_db p) (pf_db q) \<and> platform_inv q"
  using assms
proof (induction rule: rtranclp_induct)
  case (step q r)
  then have "keeps_ended (pf_db q) (pf_db r)" by (intro keeps_ended_step) (simp_all add: platform_inv_def)
  then show ?case using step keeps_ended_trans platform_inv_step by blast
qed simp

lemma completed_ended: "completed_row rec now x \<Longrightarrow> ended x"
  by (auto simp: completed_row_def ended_def op_active_def)

text \<open>
  Claim C19. An operation is completed at most once: in every reachable state, after a completion that
  succeeded, and after any number of further steps of the platform, whichever they are, the row of
  the operation is the one that the completion wrote; no claim hands the operation out again, and every
  further completion of it, of whatever kind and by whatever worker, fails and changes nothing.
\<close>

theorem completed_at_most_once:
  assumes "platform_reachable p" "rec \<in> pf_held p" "completes k (rec_Action rec)"
    "finish_with k flt rec ec em now (pf_db p) = (None, db')" "platform_step\<^sup>*\<^sup>* (p\<lparr>pf_db := db'\<rparr>) q"
  shows "\<exists>x \<in> set (operations db'). completed_row rec now x \<and> x \<in> set (operations (pf_db q)) \<and>
    (\<forall>y \<in> set (operations (pf_db q)). lo_id y = rec_ID rec \<longrightarrow> y = x) \<and>
    (\<forall>flt' locked w now' until rec' db''. Claim flt' locked w now' until (pf_db q) = (Inr rec', db'') \<longrightarrow>
       rec_ID rec' \<noteq> rec_ID rec) \<and>
    (\<forall>k' flt' rec' ec' em' now'. rec_ID rec' = rec_ID rec \<longrightarrow>
       (\<exists>e. finish_with k' flt' rec' ec' em' now' (pf_db q) = (Some e, pf_db q)))"
proof -
  have inv: "platform_inv (p\<lparr>pf_db := db'\<rparr>)"
    using platform_inv_step [OF completion_step [OF assms(2-4)] platform_inv_reachable [OF assms(1)]] .
  have "leased rec (pf_db p)" using finish_not_leased [of rec "pf_db p" k flt ec em now] assms(4) by auto
  then obtain x where x: "x \<in> set (operations db')" "completed_row rec now x"
    using finish_kept [OF assms(4)] by blast
  have q: "x \<in> set (operations (pf_db q))" "db_wf (pf_db q)"
    using keeps_ended_run [OF assms(5) inv] x completed_ended by (auto simp: keeps_ended_def platform_inv_def)
  have one: "y = x" if "y \<in> set (operations (pf_db q))" "lo_id y = rec_ID rec" for y
    using that x(2) q ops_inj by (auto simp: completed_row_def)
  have "rec_ID rec' \<noteq> rec_ID rec" if "Claim flt' locked w now' until (pf_db q) = (Inr rec', db'')"
    for flt' locked w now' until rec' db''
  proof -
    obtain row where r: "next_claim locked now' (pf_db q) = Some row" "rec_ID rec' = lo_id row"
      using \<open>Claim _ _ _ _ _ _ = _\<close> by (rule Claim_Inr)
    have "row \<noteq> x" using next_claim_in [OF r(1)] claim_active completed_ended [OF x(2)] by (auto simp: ended_def)
    then show ?thesis using one next_claim_in [OF r(1)] r(2) by metis
  qed
  moreover have "\<not> leased rec' (pf_db q)" if "rec_ID rec' = rec_ID rec" for rec'
    using one that x(2) unfolding leased_def completed_row_def by auto
  ultimately show ?thesis using x q(1) one finish_not_leased by blast
qed

theorem completed_at_most_once_witness:
  "\<exists>e. finish_with (DoneProvision zero_provision) no_faults demo_rec [] [] 6000 demo4 = (Some e, demo4) \<and>
     map lo_status (operations demo4) = [OpFailed, OpPending]"
proof -
  let ?fin = "finish_with (DoneProvision zero_provision) no_faults demo_rec"
  have r: "fst (?fin ''E'' ''failed'' 3000 demo2) = None" "rec_Action demo_rec = CREATE_LAB"
    "map lo_status (operations demo4) = [OpFailed, OpPending]" by code_simp+
  have f: "?fin ''E'' ''failed'' 3000 (pf_db \<lparr>pf_db = demo2, pf_held = {demo_rec}\<rparr>) = (None, demo3)"
    using r(1) by (simp add: demo3_def prod_eq_iff)
  have "platform_step \<lparr>pf_db = demo3, pf_held = {demo_rec}\<rparr> \<lparr>pf_db = demo4, pf_held = {demo_rec}\<rparr>"
    using p_create [of no_faults demo_quota 4000 "bytes 2" 7 1 "''op-2''" "\<lparr>pf_db = demo3, pf_held = {demo_rec}\<rparr>"]
    by (simp add: demo4_def) (metis prod.collapse)
  then have s: "platform_step\<^sup>*\<^sup>* (\<lparr>pf_db = demo2, pf_held = {demo_rec}\<rparr>\<lparr>pf_db := demo3\<rparr>) \<lparr>pf_db = demo4, pf_held = {demo_rec}\<rparr>"
    by simp
  have "demo_rec \<in> pf_held \<lparr>pf_db = demo2, pf_held = {demo_rec}\<rparr>" "completes (DoneProvision zero_provision) (rec_Action demo_rec)"
    using r(2) by simp_all
  from completed_at_most_once [OF demo_reachable(3) this f s]
  have "\<exists>e. ?fin [] [] 6000 (pf_db \<lparr>pf_db = demo4, pf_held = {demo_rec}\<rparr>) = (Some e, pf_db \<lparr>pf_db = demo4, pf_held = {demo_rec}\<rparr>)"
    by blast
  then show ?thesis using r(3) by simp
qed

end
