(* ===== verification/Spec2Isabelle.thy ===== *)
theory Spec2Isabelle
  imports CacheProcessor Requests Leases Expiry PlatformMachine BalancerController WorkerRuns Traffic Auth Handover Scheduler Completions
begin

text \<open>
  A verification of the Go code of a teaching site on which learners start small laboratories: one
  or more copies of a lab application behind a gateway, on which they observe load, caching and load
  balancing. The program has three processes. The platform
  (\<^verbatim>\<open>services/platform-api\<close>) keeps the users, the labs and a queue of operations in
  MySQL, serves the requests of learners, and runs a worker, an expiry scheduler and an adaptive
  load balancer over the same tables. The orchestrator (\<^verbatim>\<open>services/orchestrator\<close>)
  carries out commands of the worker on Docker, Nginx and the lab databases. The lab application
  (\<^verbatim>\<open>services/lab-app\<close>) processes batches of simulated orders or cached reads. The
  platform's parts interact only through the database: a request inserts an operation, a worker
  claims it under a lease, executes it and completes it, and the scheduler and the balancer insert
  operations of their own.

  \<^bold>\<open>Conventions.\<close> A Go struct is a record with a field for each of its fields, an
  enumeration of string constants a datatype with one constructor for any other string. \<open>int\<close> is
  \<open>int\<close>, \<open>uint64\<close> is \<open>nat\<close>, instants and durations are nanoseconds. A \<open>float64\<close> is the rational
  number it denotes and every operation rounds with \<open>fl\<close> (theory \<open>Float64\<close>), so the arithmetic is
  that of the code, bit for bit, on finite values. A Go map is an association list. An error is a
  value on the left of a sum, a panic an error of its own. A transaction maps a database to a result
  and a database; the ways in which MySQL may fail are an oracle over the messages with which the
  code wraps those failures, and a failed transaction leaves the database as it was. Code that is
  not in the repository (Redis, the digest functions, the sources of randomness and time) is an
  argument of the definitions that use it; so are the Docker daemon, the failures of the file system
  and the clock. Every loop is structural or has a termination proof, so no definition needs fuel; the
  one loop that waits (\<open>poll_ready\<close>, for a container to become healthy) is given the number of polls
  after which its timer expires.

  \<^bold>\<open>Theories, the code they model and what they show.\<close>

  \<^item> \<open>Prelude\<close>, \<open>Float64\<close>, \<open>Protocol\<close>: Go's types, results, string and list functions;
    binary64 rounding with its laws (locale \<open>rounding\<close>); \<^verbatim>\<open>internal/protocol/traffic.go\<close>.

  \<^item> \<open>LoadModel\<close>, \<open>OrderProcessor\<close>, \<open>L1Store\<close>, \<open>CacheProcessor\<close>: the lab application,
    \<^verbatim>\<open>services/lab-app/internal\<close> (\<^verbatim>\<open>order\<close>, \<^verbatim>\<open>product\<close>, \<^verbatim>\<open>cache\<close>). The load of an instance
    stays within its bounds and a batch is split without losing a unit (locale \<open>load_allocator\<close>,
    interpreted by both processors, which are proved to split alike); a failed batch changes
    nothing; the linked list and index of the local cache refine a list of entries in order of
    recency (locale \<open>ttl_cache\<close>); reads are cached through the levels and survive any failure of
    Redis.

  \<^item> \<open>LabRules\<close>, \<open>Database\<close>, \<open>LabRepository\<close>, \<open>Topology\<close>, \<open>LabService\<close>, \<open>Requests\<close>:
    \<^verbatim>\<open>services/platform-api/internal/lab\<close>. The tables, the transactions on them and the service in
    front of them; replays are idempotent, only its owner reads or
    changes a lab, admissions keep to the quota the code counts, every action carries a server list
    the gateway accepts, and no action panics.

  \<^item> \<open>OperationQueue\<close>, \<open>Leases\<close>, \<open>Completions\<close>: \<^verbatim>\<open>internal/operation/operation.go\<close> and
    \<^verbatim>\<open>repository.go\<close>. Claims take the oldest free operation, a worker whose lease was taken over
    cannot complete it, and over all runs of the platform no operation is completed twice.

  \<^item> \<open>Lifecycle\<close>, \<open>Expiry\<close>, \<open>Scheduler\<close>: \<^verbatim>\<open>internal/lifecycle\<close> and the checks of
    \<^verbatim>\<open>internal/orchestrator/client.go\<close>. One pass settles every lab its deadlines concern; a
    reconciliation, from the platform's tables through the client to the orchestrator's world, spares
    the labs that are alive.

  \<^item> \<open>BalancerAlgorithm\<close>, \<open>BalancerRepository\<close>, \<open>BalancerController\<close>:
    \<^verbatim>\<open>internal/balancer\<close>. The weights the adaptive balancer aims at are within their bounds and
    favour the freer instances; an adjustment is an operation the worker can execute; the
    controller's table of labs keeps its invariant, and a lab whose last adjustment is recent, or
    unfinished, is not adjusted again.

  \<^item> \<open>Json\<close>, \<open>Worker\<close>, \<open>WorkerRuns\<close>: \<^verbatim>\<open>internal/operation/worker.go\<close> and
    \<^verbatim>\<open>internal/protocol/command.go\<close>. The decoding of the payloads of operations, the commands sent
    to the orchestrator (an argument) and the compensation of topology changes that fail; a run of
    the worker is a sequence of steps of the platform, a failed command is recorded as the
    failure of its operation, and the commands of a topology change are determined by the answers.

  \<^item> \<open>Eviction\<close>, \<open>TrafficLimiter\<close>, \<open>Traffic\<close>: \<^verbatim>\<open>internal/traffic\<close> less its HTTP client. A bounded
    table that gives up its oldest entry (locale \<open>eviction\<close>, interpreted by both limiters); the rate
    of a user's traffic; traffic only for the owner of a running lab; which results of the lab
    application the platform accepts.

  \<^item> \<open>LoginLimiter\<close>, \<open>Auth\<close>: \<^verbatim>\<open>internal/auth\<close>. When failed logins lock a key out; that a login's
    session authenticates until it expires or is revoked, and never afterwards.

  \<^item> \<open>LabMachine\<close>, \<open>Persistence\<close>, \<open>PlatformMachine\<close> and this theory: the abstract machine of labs
    and operations with its invariant, by rule induction; the transactions as a simulation of it;
    and all parts of the platform interleaved in one transition system (\<open>platform_step\<close>: requests,
    claims, completions, expiry and adjustments), whose reachable states refine the machine. The
    theorems below are the consequences for the tables.

  \<^item> \<open>Templates\<close>: \<^verbatim>\<open>services/orchestrator/internal/template/registry.go\<close>. Resolving the inheritance
    of container templates returns on every set of files, and a registry that was loaded holds only
    containers, networks and scenarios that satisfy the checks.

  \<^item> \<open>DockerClient\<close>, \<open>DockerModel\<close>: \<^verbatim>\<open>services/orchestrator/internal/dockerapi/client.go\<close>, every
    operation over an arbitrary daemon. What the documentation of Docker says of the daemon is the
    locale \<open>docker\<close> (which calls may change which containers and networks, what a list shows, what is
    gone after a removal); \<open>DockerModel\<close> is a daemon that satisfies it.

  \<^item> \<open>LabDatabases\<close>, \<open>Gateway\<close>: \<^verbatim>\<open>labdb/provisioner.go\<close> with the stored procedures it calls, and
    \<^verbatim>\<open>nginx/manager.go\<close>. The world of the orchestrator (daemon, databases, users, fragments of the
    gateway) and what each operation leaves of it; a change of routes is loaded or undone.

  \<^item> \<open>ControlPayload\<close>, \<open>Control\<close>: \<^verbatim>\<open>control/payload.go\<close> and \<^verbatim>\<open>control/service.go\<close>. The thirteen
    commands, from the strict decoding of the payload to the answer.

  \<^item> \<open>Orchestrator\<close>, \<open>Examples\<close>, \<open>Commands\<close>, \<open>Handover\<close>, \<open>Reconciliation\<close>: what the commands do to the
    world, over any daemon that keeps the laws (locale \<open>orchestrator\<close>, which extends \<open>docker\<close>, interpreted
    by the service of \<open>Examples\<close> on the daemon of \<open>DockerModel\<close>). Commands stay within their lab, a failed
    creation is compensated, a destroyed lab leaves nothing, a reconciliation leaves the expected labs,
    and the result of a creation is what the platform's worker decodes and stores.

  \<^bold>\<open>Findings.\<close> The theorems on behaviour that a reader of the code would not expect are
  \<open>two_active_labs\<close>, \<open>create_overcommits\<close>, \<open>cache_completion_needs_running\<close>, \<open>expiry_blocked\<close>,
  \<open>rejected_reconcile_removed_labs\<close>, \<open>SeedProducts_ok\<close>, \<open>db_Reset_ok\<close>, \<open>genuine_result_refused\<close>, \<open>same_instant_refused\<close>, \<open>spellings_counted_apart\<close>,
  \<open>topology_compensated\<close> for the cases it leaves out, and, for its exception, \<open>action_replay\<close>.

  \<^bold>\<open>Not modelled.\<close> The HTTP interfaces of the three processes, the HTTP client of the Docker API and the
  Unix socket of the orchestrator (decoding of requests and encoding of answers over \<^verbatim>\<open>net/http\<close>); the
  courses, which are static content; the timers that repeat the passes of worker and
  balancer; the reading of the environment and the construction of the services.
\<close>

section \<open>Labs and their operations over every run of the platform\<close>

text \<open>
  Claim C2. In every state the platform can reach, a user owns at most one lab that is preparing,
  running or expiring.
\<close>

theorem platform_one_live_lab:
  assumes "platform_reachable p" "s \<in> set (sessions (pf_db p))" "t \<in> set (sessions (pf_db p))"
    "ls_user_id s = ls_user_id t" "live (ls_status s)" "live (ls_status t)"
  shows "s = t"
proof -
  have wf: "db_wf (pf_db p)" and inv: "lab_inv (abs_db (pf_db p))"
    using platform_invD [OF platform_inv_reachable [OF assms(1)]] by simp_all
  have "ls_id s = ls_id t"
    using inv labs_row [OF wf assms(2)] labs_row [OF wf assms(3)] assms(4-6)
    unfolding lab_inv_def owner_inv_def abs_db_simps by metis
  then show ?thesis using wf assms(2,3) by (auto simp: db_wf_def distinct_map dest: inj_onD)
qed

theorem platform_one_live_lab_witness:
  "live (ls_status (hd (sessions demo1))) \<and> hd (sessions demo1) = last (sessions demo1)"
proof -
  have d: "sessions demo1 \<noteq> []" "live (ls_status (hd (sessions demo1)))"
    "live (ls_status (last (sessions demo1)))"
    "ls_user_id (hd (sessions demo1)) = ls_user_id (last (sessions demo1))"
    by code_simp+
  then show ?thesis using platform_one_live_lab [OF demo_reachable(1)] by simp
qed

text \<open>
  Claim C3. In every state the platform can reach, a lab has at most one operation that is pending,
  claimed, running or compensating: the operations of a lab are serialised.
\<close>

theorem platform_serial_operations:
  assumes "platform_reachable p" "r \<in> set (operations (pf_db p))" "q \<in> set (operations (pf_db p))"
    "lo_lab_id r = lo_lab_id q" "op_active (lo_status r)" "op_active (lo_status q)"
  shows "r = q"
proof -
  have wf: "db_wf (pf_db p)" and inv: "lab_inv (abs_db (pf_db p))"
    using platform_invD [OF platform_inv_reachable [OF assms(1)]] by simp_all
  have "ops (abs_db (pf_db p)) (lo_id r) = Some (op_view r)"
    "ops (abs_db (pf_db p)) (lo_id q) = Some (op_view q)"
    using wf assms(2,3) by (auto simp: ops_Some)
  moreover have "oi_lab (op_view r) = oi_lab (op_view q)" "oi_active (op_view r)" "oi_active (op_view q)"
    using assms(4-6) by (simp_all add: op_view_def)
  ultimately have "lo_id r = lo_id q"
    using inv unfolding lab_inv_def queue_inv_def by blast
  then show ?thesis using ops_inj [OF wf assms(2,3)] by simp
qed

theorem platform_serial_operations_witness:
  "op_active (lo_status (hd (operations demo1))) \<and> hd (operations demo1) = last (operations demo1)"
proof -
  have "operations demo1 \<noteq> []" "op_active (lo_status (hd (operations demo1)))"
    "op_active (lo_status (last (operations demo1)))"
    "lo_lab_id (hd (operations demo1)) = lo_lab_id (last (operations demo1))"
    by code_simp+
  then show ?thesis using platform_serial_operations [OF demo_reachable(1)] by simp
qed

text \<open>
  Claim C4. In every state the platform can reach, the status of a lab agrees with its active
  operation: a create runs only on a preparing lab, a destroy only on a terminating one, any other
  operation only on a running or expiring one; and a lab that is preparing or terminating has an
  active operation that will move it on, so no lab is stuck there without work queued for it.
\<close>

theorem platform_status_agrees:
  assumes "platform_reachable p" "s \<in> set (sessions (pf_db p))"
  shows "(\<forall>r \<in> set (operations (pf_db p)). lo_lab_id r = ls_id s \<longrightarrow> op_active (lo_status r) \<longrightarrow>
      serves (lo_action r) (ls_status s)) \<and>
    (ls_status s = Preparing \<longrightarrow> (\<exists>r \<in> set (operations (pf_db p)). lo_lab_id r = ls_id s \<and>
      op_active (lo_status r) \<and> lo_action r = CREATE_LAB)) \<and>
    (ls_status s = Terminating \<longrightarrow> (\<exists>r \<in> set (operations (pf_db p)). lo_lab_id r = ls_id s \<and>
      op_active (lo_status r) \<and> lo_action r = DESTROY_LAB))"
proof -
  have wf: "db_wf (pf_db p)" and inv: "lab_inv (abs_db (pf_db p))"
    using platform_invD [OF platform_inv_reachable [OF assms(1)]] by simp_all
  have serve: "serves (lo_action r) (ls_status s)"
    if "r \<in> set (operations (pf_db p))" "lo_lab_id r = ls_id s" "op_active (lo_status r)" for r
  proof -
    have "ops (abs_db (pf_db p)) (lo_id r) = Some (op_view r)" using wf that(1) by (auto simp: ops_Some)
    moreover have "oi_active (op_view r)" "oi_lab (op_view r) = ls_id s" "oi_action (op_view r) = lo_action r"
      using that by (simp_all add: op_view_def)
    ultimately show ?thesis
      using inv labs_row [OF wf assms(2)] unfolding lab_inv_def serve_inv_def abs_db_simps by metis
  qed
  have busy: "\<exists>r \<in> set (operations (pf_db p)). lo_lab_id r = ls_id s \<and> op_active (lo_status r) \<and>
      serves (lo_action r) (ls_status s)"
    if "ls_status s \<in> {Preparing, Terminating}"
  proof -
    have "\<not> idle (abs_db (pf_db p)) (ls_id s)"
      using inv labs_row [OF wf assms(2)] that unfolding lab_inv_def busy_inv_def abs_db_simps by blast
    then have "\<exists>r \<in> set (operations (pf_db p)). lo_lab_id r = ls_id s \<and> op_active (lo_status r)"
      using pending_idle [OF wf] by (auto simp: pending_operation_def)
    then show ?thesis using serve by blast
  qed
  have only: "serves a Preparing \<longleftrightarrow> a = CREATE_LAB" "serves a Terminating \<longleftrightarrow> a = DESTROY_LAB" for a
    by (cases a; simp)+
  show ?thesis
  proof (intro conjI impI)
    show "\<forall>r \<in> set (operations (pf_db p)). lo_lab_id r = ls_id s \<longrightarrow> op_active (lo_status r) \<longrightarrow>
        serves (lo_action r) (ls_status s)" using serve by blast
    show "\<exists>r \<in> set (operations (pf_db p)). lo_lab_id r = ls_id s \<and> op_active (lo_status r) \<and>
        lo_action r = CREATE_LAB" if "ls_status s = Preparing" using busy that by (simp add: only)
    show "\<exists>r \<in> set (operations (pf_db p)). lo_lab_id r = ls_id s \<and> op_active (lo_status r) \<and>
        lo_action r = DESTROY_LAB" if "ls_status s = Terminating" using busy that by (simp add: only)
  qed
qed

theorem platform_status_agrees_witness:
  "\<exists>r \<in> set (operations demo1). lo_lab_id r = ls_id (hd (sessions demo1)) \<and>
     op_active (lo_status r) \<and> lo_action r = CREATE_LAB"
proof -
  have "sessions demo1 \<noteq> []" "ls_status (hd (sessions demo1)) = Preparing" by code_simp+
  then show ?thesis
    using platform_status_agrees [OF demo_reachable(1), of "hd (sessions demo1)"] by simp
qed

text \<open>
  Claim C1. The platform implements the abstract lab machine: every state it reaches, through
  requests of learners, the expiry, and workers that claim operations and complete them with
  whatever the orchestrator reported, is the image of a state the machine reaches, with its labs,
  their owners and statuses, and its operations.
\<close>

theorem platform_refines_machine:
  assumes "platform_reachable p"
  shows "reachable (abs_db (pf_db p))"
  using assms
proof (induction rule: platform_reachable.induct)
  case (p_start p)
  then have "initial (abs_db (pf_db p))"
    by (simp add: platform_initial_def initial_def abs_db_def abs_labs_def abs_ops_def)
  then show ?case by (rule reachable.start)
next
  case (p_step p q)
  have "refines (pf_db p) (pf_db q)"
    using platform_step_refines [OF p_step.hyps(2) platform_inv_reachable [OF p_step.hyps(1)]] .
  then show ?case using p_step.IH by (auto simp: refines_def intro: reachable.step)
qed

theorem platform_refines_machine_witness:
  "reachable (abs_db demo1)"
  using platform_refines_machine [OF demo_reachable(1)] by simp

text \<open>
  Claim C5. No step of the platform removes a lab or changes its owner, and it changes the status of
  a lab only along a transition that the life cycle allows.
\<close>

theorem platform_lifecycle:
  assumes "platform_reachable p" "platform_step p q" "s \<in> set (sessions (pf_db p))"
  shows "\<exists>t \<in> set (sessions (pf_db q)). ls_id t = ls_id s \<and> ls_user_id t = ls_user_id s \<and>
    (ls_status t = ls_status s \<or> ValidateTransition (ls_status s) (ls_status t) = None)"
proof -
  note inv = platform_inv_reachable [OF assms(1)]
  have wf: "db_wf (pf_db p)" using platform_invD(1) [OF inv] .
  have ref: "abs_db (pf_db q) = abs_db (pf_db p) \<or> lab_step (abs_db (pf_db p)) (abs_db (pf_db q))"
    using platform_step_refines [OF assms(2) inv] by (simp add: refines_def)
  have l: "labs (abs_db (pf_db p)) (ls_id s) = Some (ls_user_id s, ls_status s)"
    using labs_row [OF wf assms(3)] by simp
  then have "\<exists>st. labs (abs_db (pf_db q)) (ls_id s) = Some (ls_user_id s, st) \<and>
      (st = ls_status s \<or> CanTransition (ls_status s) st)"
    using ref step_lab [OF _ l] by fastforce
  then show ?thesis using labs_in by (fastforce simp: ValidateTransition_None)
qed

theorem platform_lifecycle_witness:
  "\<exists>t \<in> set (sessions (snd (svc_Terminate no_faults id 5000 7 demo_lab ''op-9'' demo1))).
     ls_id t = ls_id (hd (sessions demo1)) \<and> ls_user_id t = 7"
proof -
  obtain r db' where "svc_Terminate no_faults id 5000 7 demo_lab ''op-9'' demo1 = (r, db')" by fastforce
  then have "platform_step \<lparr>pf_db = demo1, pf_held = {}\<rparr> \<lparr>pf_db = db', pf_held = {}\<rparr>"
    using p_terminate [of no_faults 5000 7 demo_lab "''op-9''" "\<lparr>pf_db = demo1, pf_held = {}\<rparr>"] by simp
  moreover have "sessions demo1 \<noteq> []" "ls_user_id (hd (sessions demo1)) = 7" by code_simp+
  ultimately show ?thesis
    using platform_lifecycle [OF demo_reachable(1), of _ "hd (sessions demo1)"]
      \<open>svc_Terminate no_faults id 5000 7 demo_lab ''op-9'' demo1 = (r, db')\<close> by fastforce
qed

text \<open>
  Claim C36. The rule of one lab per user does not hold for every status that counts toward it: the
  platform reaches a state in which one user owns two labs whose statuses are active, by creating
  a lab that fails, creating another, and then terminating the failed one.
\<close>

theorem two_active_labs:
  "\<exists>p s t. platform_reachable p \<and> s \<in> set (sessions (pf_db p)) \<and> t \<in> set (sessions (pf_db p)) \<and>
     ls_user_id s = ls_user_id t \<and> Active (ls_status s) \<and> Active (ls_status t) \<and> ls_id s \<noteq> ls_id t"
proof -
  obtain h where h: "platform_reachable \<lparr>pf_db = demo5, pf_held = h\<rparr>" using demo_reachable(2) by blast
  have d: "sessions demo5 \<noteq> []" "ls_user_id (hd (sessions demo5)) = ls_user_id (last (sessions demo5))"
    "Active (ls_status (hd (sessions demo5)))" "Active (ls_status (last (sessions demo5)))"
    "ls_id (hd (sessions demo5)) \<noteq> ls_id (last (sessions demo5))"
    by code_simp+
  show ?thesis
    using h d by (intro exI [of _ "\<lparr>pf_db = demo5, pf_held = h\<rparr>"] exI [of _ "hd (sessions demo5)"]
        exI [of _ "last (sessions demo5)"]) simp
qed

end
